(* ===== verification/GoPrelude.thy ===== *)
theory GoPrelude
  imports Main "HOL-Library.Word" "HOL-Library.Signed_Division" "HOL-Library.Sublist"
begin

text \<open>
  What the models of all components share: the parts of Go and of its standard library that the
  server uses on strings and numbers. A Go string is a sequence of bytes, so it is a
  \<^typ>\<open>string\<close> (a character is a byte). A pointer that may be nil is an \<open>option\<close>, a
  \<open>(T, error)\<close> result is a sum with the error on the left. A Go \<open>int\<close> is 64 bits wide
  here; where only parsing can leave the range it is an \<^typ>\<open>int\<close> with the range
  check written out, where arithmetic can wrap it is a 64-bit word.
\<close>

named_theorems go_simps "unfolding equations of the string and number functions of Go"

type_synonym bytes = string
type_synonym int64 = "64 word"

section \<open>Results\<close>

definition ebind :: "'e + 'a \<Rightarrow> ('a \<Rightarrow> 'e + 'b) \<Rightarrow> 'e + 'b" where
  "ebind r f = (case r of Inl e \<Rightarrow> Inl e | Inr a \<Rightarrow> f a)"

lemma ebind_simps [simp]: "ebind (Inl e) f = Inl e" "ebind (Inr a) f = f a"
  by (simp_all add: ebind_def)

lemma ebind_eq_Inr [simp]: "ebind r f = Inr b \<longleftrightarrow> (\<exists>a. r = Inr a \<and> f a = Inr b)"
  by (cases r) simp_all

section \<open>strings.Split and strings.Join\<close>

fun split_on :: "char \<Rightarrow> string \<Rightarrow> string list" where
  "split_on c [] = [[]]"
| "split_on c (x # xs) =
     (if x = c then [] # split_on c xs
      else case split_on c xs of [] \<Rightarrow> [[x]] | y # ys \<Rightarrow> (x # y) # ys)"

fun join_with :: "string \<Rightarrow> string list \<Rightarrow> string" where
  "join_with sep [] = []"
| "join_with sep [x] = x"
| "join_with sep (x # y # ys) = x @ sep @ join_with sep (y # ys)"

lemma split_on_not_Nil [simp]: "split_on c s \<noteq> []"
  by (induction s) (auto split: list.splits)

lemma split_on_no_sep: "c \<notin> set s \<Longrightarrow> split_on c s = [s]"
  by (induction s) auto

lemma split_on_append:
  "c \<notin> set x \<Longrightarrow> split_on c (x @ c # s) = x # split_on c s"
  by (induction x) auto

lemma split_on_parts: "p \<in> set (split_on c s) \<Longrightarrow> c \<notin> set p"
  by (induction s arbitrary: p) (auto split: if_splits list.splits)

lemma join_split: "join_with [c] (split_on c s) = s"
proof (induction s)
  case (Cons x xs)
  then show ?case
    by (cases "split_on c xs"; cases "tl (split_on c xs)") auto
qed simp

lemma split_join:
  "xs \<noteq> [] \<Longrightarrow> \<forall>x\<in>set xs. c \<notin> set x \<Longrightarrow> split_on c (join_with [c] xs) = xs"
  by (induction "[c]" xs rule: join_with.induct) (auto simp: split_on_no_sep split_on_append)

text \<open>\<open>strings.SplitN(s, sep, 2)\<close>: at most one cut, at the first separator.\<close>

fun split_first :: "char \<Rightarrow> string \<Rightarrow> (string \<times> string) option" where
  "split_first c [] = None"
| "split_first c (x # xs) =
     (if x = c then Some ([], xs)
      else map_option (\<lambda>(a, b). (x # a, b)) (split_first c xs))"

lemma split_first_Some: "split_first c s = Some (a, b) \<Longrightarrow> s = a @ c # b \<and> c \<notin> set a"
  by (induction s arbitrary: a) (auto split: if_splits)

lemma split_first_append: "c \<notin> set a \<Longrightarrow> split_first c (a @ c # b) = Some (a, b)"
  by (induction a) auto

section \<open>strings.TrimSuffix, TrimPrefix, TrimSpace, ToLower, ToUpper\<close>

definition trim_suffix :: "string \<Rightarrow> string \<Rightarrow> string" where
  "trim_suffix s suf = (if suffix suf s then take (length s - length suf) s else s)"

definition trim_prefix :: "string \<Rightarrow> string \<Rightarrow> string" where
  "trim_prefix s pre = (if prefix pre s then drop (length pre) s else s)"

definition code_of :: "char \<Rightarrow> nat" where
  "code_of c = of_char c"

definition bytes_of :: "nat list \<Rightarrow> string" where
  "bytes_of ns = map char_of ns"

text \<open>
  The UTF-8 encodings of the code points \<open>unicode.IsSpace\<close> accepts. \<open>strings.TrimSpace\<close> removes
  them at both ends; a space is recognised by its bytes, both at the front and at the back.
\<close>

definition space_runes :: "string list" where
  "space_runes = map bytes_of
     ([[9], [10], [11], [12], [13], [32], [194, 133], [194, 160], [225, 154, 128]]
      @ map (\<lambda>k. [226, 128, 128 + k]) [0..<11]
      @ [[226, 128, 168], [226, 128, 169], [226, 128, 175], [226, 129, 159], [227, 128, 128]])"

definition lead_space :: "string \<Rightarrow> nat" where
  "lead_space s = (case find (\<lambda>r. prefix r s) space_runes of None \<Rightarrow> 0 | Some r \<Rightarrow> length r)"

definition trail_space :: "string \<Rightarrow> nat" where
  "trail_space s = (case find (\<lambda>r. suffix r s) space_runes of None \<Rightarrow> 0 | Some r \<Rightarrow> length r)"

fun trim_left :: "string \<Rightarrow> string" where
  "trim_left [] = []"
| "trim_left (x # xs) =
     (let n = lead_space (x # xs) in if n = 0 then x # xs else trim_left (drop n (x # xs)))"

function trim_right :: "string \<Rightarrow> string" where
  "trim_right s =
     (let n = trail_space s in if n = 0 \<or> s = [] then s else trim_right (take (length s - n) s))"
  by pat_completeness auto
termination by (relation "measure length") auto

declare trim_right.simps [simp del]

definition trim_space :: "string \<Rightarrow> string" where
  "trim_space s = trim_right (trim_left s)"

text \<open>Case mapping of the ASCII letters; bytes of other code points are left alone.\<close>

definition lower_char :: "char \<Rightarrow> char" where
  "lower_char c = (if 65 \<le> code_of c \<and> code_of c \<le> 90 then char_of (code_of c + 32) else c)"

definition upper_char :: "char \<Rightarrow> char" where
  "upper_char c = (if 97 \<le> code_of c \<and> code_of c \<le> 122 then char_of (code_of c - 32) else c)"

definition to_lower :: "string \<Rightarrow> string" where
  "to_lower s = map lower_char s"

definition to_upper :: "string \<Rightarrow> string" where
  "to_upper s = map upper_char s"

section \<open>strconv: Atoi, ParseInt(s, 10, 64), Itoa, ParseBool\<close>

datatype num_error = ErrSyntax | ErrRange

definition max_int :: int where "max_int = 9223372036854775807"
definition min_int :: int where "min_int = -9223372036854775808"

definition is_digit :: "char \<Rightarrow> bool" where
  "is_digit c \<longleftrightarrow> 48 \<le> code_of c \<and> code_of c \<le> 57"

definition digit_char :: "nat \<Rightarrow> char" where
  "digit_char d = char_of (48 + d)"

definition digits_val :: "string \<Rightarrow> nat" where
  "digits_val ds = foldl (\<lambda>a c. a * 10 + (code_of c - 48)) 0 ds"

text \<open>
  The value and the error, as Go returns them: a syntax error comes with 0, a range error with the
  nearest representable number.
\<close>

definition clamp_int :: "int \<Rightarrow> int \<times> num_error option" where
  "clamp_int i = (if i > max_int then (max_int, Some ErrRange)
                  else if i < min_int then (min_int, Some ErrRange) else (i, None))"

definition parse_unsigned :: "string \<Rightarrow> nat option" where
  "parse_unsigned ds = (if ds \<noteq> [] \<and> list_all is_digit ds then Some (digits_val ds) else None)"

definition atoi_full :: "string \<Rightarrow> int \<times> num_error option" where
  "atoi_full s =
     (let (neg, ds) = (case s of [] \<Rightarrow> (False, [])
                       | c # cs \<Rightarrow> if c = CHR ''-'' then (True, cs)
                                  else if c = CHR ''+'' then (False, cs) else (False, s))
      in case parse_unsigned ds of None \<Rightarrow> (0, Some ErrSyntax)
         | Some n \<Rightarrow> clamp_int (if neg then - int n else int n))"

text \<open>The two-valued view of callers that drop the number when the error is set.\<close>

definition atoi :: "string \<Rightarrow> num_error + int" where
  "atoi s = (case atoi_full s of (i, None) \<Rightarrow> Inr i | (_, Some e) \<Rightarrow> Inl e)"

fun show_nat :: "nat \<Rightarrow> string" where
  "show_nat n = (if n < 10 then [digit_char n] else show_nat (n div 10) @ [digit_char (n mod 10)])"

declare show_nat.simps [simp del]

definition show_int :: "int \<Rightarrow> string" where
  "show_int i = (if i < 0 then CHR ''-'' # show_nat (nat (- i)) else show_nat (nat i))"

text \<open>\<open>fmt.Sprintf("%0wd", i)\<close>: zeros after the sign, the sign counted in the width.\<close>

definition pad_int :: "nat \<Rightarrow> int \<Rightarrow> string" where
  "pad_int w i =
     (if i < 0 then let ds = show_nat (nat (- i))
                    in CHR ''-'' # replicate (w - 1 - length ds) (CHR ''0'') @ ds
      else let ds = show_nat (nat i) in replicate (w - length ds) (CHR ''0'') @ ds)"

definition parse_bool :: "string \<Rightarrow> bool option" where
  "parse_bool s =
     (if s \<in> {''1'', ''t'', ''T'', ''true'', ''TRUE'', ''True''} then Some True
      else if s \<in> {''0'', ''f'', ''F'', ''false'', ''FALSE'', ''False''} then Some False
      else None)"


section \<open>Facts about numbers and their decimal form\<close>

lemma code_of_char_of [simp]: "n < 256 \<Longrightarrow> code_of (char_of n) = n"
  by (simp add: code_of_def)

lemma code_of_eq_iff [simp]: "code_of a = code_of b \<longleftrightarrow> a = b"
  by (simp add: code_of_def)

lemma code_of_less [simp]: "code_of c < 256"
  by (simp add: code_of_def)

lemma code_of_digit [simp]: "d < 10 \<Longrightarrow> code_of (digit_char d) = 48 + d"
  by (simp add: digit_char_def)

lemma is_digit_digit_char [simp]: "d < 10 \<Longrightarrow> is_digit (digit_char d)"
  by (simp add: is_digit_def)

lemma digits_val_snoc: "digits_val (ds @ [c]) = digits_val ds * 10 + (code_of c - 48)"
  by (simp add: digits_val_def)

lemma digits_val_show_nat: "digits_val (show_nat n) = n"
proof (induction n rule: show_nat.induct)
  case (1 n)
  then show ?case
    by (subst show_nat.simps) (auto simp: digits_val_snoc digits_val_def [of "[_]"])
qed

lemma show_nat_digits: "list_all is_digit (show_nat n)"
proof (induction n rule: show_nat.induct)
  case (1 n)
  then show ?case by (subst show_nat.simps) auto
qed

lemma show_nat_not_Nil [simp]: "show_nat n \<noteq> []"
  by (subst show_nat.simps) simp

lemma digits_val_zeros: "digits_val (replicate k (CHR ''0'') @ ds) = digits_val ds"
proof (induction k)
  case (Suc k)
  have "code_of CHR ''0'' = 48" by (simp add: code_of_def)
  then show ?case using Suc by (simp add: digits_val_def)
qed simp

lemma is_digit_zero [simp]: "is_digit (CHR ''0'')"
  by (simp add: is_digit_def code_of_def)

lemma parse_unsigned_padded:
  "parse_unsigned (replicate k (CHR ''0'') @ show_nat n) = Some n"
  using show_nat_digits [of n]
  by (auto simp: parse_unsigned_def digits_val_zeros digits_val_show_nat list_all_iff)

lemma parse_unsigned_show_nat: "parse_unsigned (show_nat n) = Some n"
  using parse_unsigned_padded [of 0 n] by simp

lemma is_digit_not_sign: "is_digit c \<Longrightarrow> c \<noteq> CHR ''-'' \<and> c \<noteq> CHR ''+''"
  by (auto simp: is_digit_def code_of_def)

definition in_range :: "int \<Rightarrow> bool" where
  "in_range i \<longleftrightarrow> min_int \<le> i \<and> i \<le> max_int"

lemma clamp_int_in_range [simp]: "in_range i \<Longrightarrow> clamp_int i = (i, None)"
  by (auto simp: clamp_int_def in_range_def)

lemma clamp_int_range: "clamp_int i = (j, e) \<Longrightarrow> in_range j"
  by (auto simp: clamp_int_def in_range_def min_int_def max_int_def split: if_splits)

text \<open>An unsigned numeral parses to its value, with or without leading zeros.\<close>

lemma atoi_full_digits:
  assumes "parse_unsigned s = Some n"
  shows "atoi_full s = clamp_int (int n)"
proof -
  from assms obtain c cs where s: "s = c # cs" and d: "is_digit c"
    by (cases s) (auto simp: parse_unsigned_def split: if_splits)
  from is_digit_not_sign [OF d] s assms show ?thesis
    by (simp add: atoi_full_def)
qed

lemma atoi_full_neg: "parse_unsigned s = Some n \<Longrightarrow> atoi_full (CHR ''-'' # s) = clamp_int (- int n)"
  by (simp add: atoi_full_def)

lemma atoi_full_pad_int: "atoi_full (pad_int w i) = clamp_int i"
  by (auto simp: pad_int_def Let_def atoi_full_neg parse_unsigned_padded
      atoi_full_digits [OF parse_unsigned_padded])

lemma atoi_pad_int: "in_range i \<Longrightarrow> atoi (pad_int w i) = Inr i"
  by (simp add: atoi_def atoi_full_pad_int)

lemma show_int_pad: "show_int i = pad_int 0 i"
  by (simp add: show_int_def pad_int_def Let_def)

lemma atoi_show_int: "in_range i \<Longrightarrow> atoi (show_int i) = Inr i"
  by (simp add: show_int_pad atoi_pad_int)

lemma atoi_full_range: "atoi_full s = (i, e) \<Longrightarrow> in_range i"
  by (auto simp: atoi_full_def Let_def in_range_def min_int_def max_int_def
      split: option.splits list.splits if_splits dest!: clamp_int_range)

lemma atoi_range: "atoi s = Inr i \<Longrightarrow> in_range i"
  by (auto simp: atoi_def split: prod.splits option.splits dest: atoi_full_range)

lemma pad_int_nonneg:
  "0 \<le> i \<Longrightarrow> set (pad_int w i) \<subseteq> {c. is_digit c}"
  using show_nat_digits [of "nat i"] by (auto simp: pad_int_def Let_def list_all_iff)

lemma not_digit_dash [simp]: "\<not> is_digit (CHR ''-'')"
  by (simp add: is_digit_def code_of_def)

lemma pad_int_no_dash: "0 \<le> i \<Longrightarrow> CHR ''-'' \<notin> set (pad_int w i)"
  using pad_int_nonneg [of i w] by auto

section \<open>Facts about trimming and case\<close>

lemma to_lower_idem: "to_lower (to_lower s) = to_lower s"
  by (auto simp: to_lower_def lower_char_def)

lemma length_to_lower [simp]: "length (to_lower s) = length s"
  by (simp add: to_lower_def)

lemma trim_suffix_append [simp]: "trim_suffix (s @ suf) suf = s"
  by (simp add: trim_suffix_def suffixI)

lemma trim_prefix_append [simp]: "trim_prefix (pre @ s) pre = s"
  by (simp add: trim_prefix_def)

lemma space_runes_heads:
  "r \<in> set space_runes \<Longrightarrow> r \<noteq> [] \<and> code_of (hd r) \<in> {9, 10, 11, 12, 13, 32, 194, 225, 226, 227}"
  by (auto simp: space_runes_def bytes_of_def)

lemma lead_space_other:
  assumes "code_of c \<notin> {9, 10, 11, 12, 13, 32, 194, 225, 226, 227}"
  shows "lead_space (c # cs) = 0"
proof -
  have "\<not> prefix r (c # cs)" if "r \<in> set space_runes" for r
    using space_runes_heads [OF that] assms by (cases r) auto
  then have "find (\<lambda>r. prefix r (c # cs)) space_runes = None" by (simp add: find_None_iff)
  then show ?thesis by (simp add: lead_space_def)
qed

lemma lead_space_digit [simp]: "is_digit c \<Longrightarrow> lead_space (c # cs) = 0"
  by (rule lead_space_other) (auto simp: is_digit_def)

lemma digit_chars [simp]:
  "digit_char 0 = CHR ''0''" "digit_char 1 = CHR ''1''" "digit_char (Suc 0) = CHR ''1''"
  "digit_char 2 = CHR ''2''" "digit_char 3 = CHR ''3''" "digit_char 4 = CHR ''4''"
  "digit_char 5 = CHR ''5''" "digit_char 6 = CHR ''6''" "digit_char 7 = CHR ''7''"
  "digit_char 8 = CHR ''8''" "digit_char 9 = CHR ''9''"
  by code_simp+

text \<open>Texts that begin and end with a visible ASCII character are not trimmed.\<close>

definition between :: "nat \<Rightarrow> nat \<Rightarrow> char \<Rightarrow> bool" where
  "between lo hi c \<longleftrightarrow> lo \<le> code_of c \<and> code_of c \<le> hi"

definition graph :: "char \<Rightarrow> bool" where
  "graph c \<longleftrightarrow> between 33 126 c"

lemma space_runes_lasts:
  "r \<in> set space_runes \<Longrightarrow> r \<noteq> [] \<and> \<not> graph (last r)"
  by (auto simp: space_runes_def bytes_of_def graph_def between_def)

lemma trim_left_graph: "s = [] \<or> graph (hd s) \<Longrightarrow> trim_left s = s"
  by (cases s) (auto simp: lead_space_other graph_def between_def Let_def)

lemma trail_space_graph:
  assumes "s \<noteq> []" "graph (last s)"
  shows "trail_space s = 0"
proof -
  have "\<not> suffix r s" if "r \<in> set space_runes" for r
    using space_runes_lasts [OF that] assms by (auto simp: suffix_def)
  then have "find (\<lambda>r. suffix r s) space_runes = None" by (simp add: find_None_iff)
  then show ?thesis by (simp add: trail_space_def)
qed

lemma trim_space_graph: "s = [] \<or> graph (hd s) \<and> graph (last s) \<Longrightarrow> trim_space s = s"
  by (cases "s = []") (auto simp: trim_space_def trim_left_graph trim_right.simps [of s] trim_right.simps [of "[]"] trail_space_graph)

end
