(* ===== verification/NetURL.thy ===== *)
theory NetURL
  imports GoPrelude
begin

text \<open>
  The escaping of \<open>net/url\<close> and \<open>encoding/hex\<close> the server uses: query strings, path segments (the
  cache turns keys into file names with them) and hexadecimal text.
\<close>

section \<open>Hexadecimal digits\<close>

definition hex_val :: "char \<Rightarrow> nat option" where
  "hex_val c = (let n = code_of c in
     if 48 \<le> n \<and> n \<le> 57 then Some (n - 48)
     else if 97 \<le> n \<and> n \<le> 102 then Some (n - 87)
     else if 65 \<le> n \<and> n \<le> 70 then Some (n - 55) else None)"

definition upper_hex :: "nat \<Rightarrow> char" where
  "upper_hex d = (if d < 10 then char_of (48 + d) else char_of (55 + d))"

definition lower_hex :: "nat \<Rightarrow> char" where
  "lower_hex d = (if d < 10 then char_of (48 + d) else char_of (87 + d))"

fun hex_DecodeString :: "string \<Rightarrow> bytes option" where
  "hex_DecodeString [] = Some []"
| "hex_DecodeString [_] = None"
| "hex_DecodeString (a # b # s) =
     (case hex_val a of None \<Rightarrow> None
      | Some x \<Rightarrow> (case hex_val b of None \<Rightarrow> None
                  | Some y \<Rightarrow> map_option ((#) (char_of (16 * x + y))) (hex_DecodeString s)))"

fun hex_EncodeToString :: "bytes \<Rightarrow> string" where
  "hex_EncodeToString [] = []"
| "hex_EncodeToString (c # cs) =
     lower_hex (code_of c div 16) # lower_hex (code_of c mod 16) # hex_EncodeToString cs"

section \<open>Percent escapes\<close>

text \<open>\<open>unescape\<close>: two hexadecimal digits after every percent sign; a plus is a space in queries only.\<close>

fun unescape :: "bool \<Rightarrow> string \<Rightarrow> string option" where
  "unescape qry [] = Some []"
| "unescape qry (c # s) =
     (if c = CHR ''%'' then
        (case s of
           a # b # s' \<Rightarrow>
             (case hex_val a of None \<Rightarrow> None
              | Some x \<Rightarrow> (case hex_val b of None \<Rightarrow> None
                          | Some y \<Rightarrow> map_option ((#) (char_of (16 * x + y))) (unescape qry s')))
         | _ \<Rightarrow> None)
      else if qry \<and> c = CHR ''+'' then map_option ((#) (CHR '' '')) (unescape qry s)
      else map_option ((#) c) (unescape qry s))"

definition QueryUnescape :: "string \<Rightarrow> string option" where
  "QueryUnescape s = unescape True s"

definition PathUnescape :: "string \<Rightarrow> string option" where
  "PathUnescape s = unescape False s"

text \<open>The bytes a path segment keeps: letters, digits, \<open>-_.~\<close> and \<open>$&+=:@\<close>.\<close>

definition path_keep :: "char \<Rightarrow> bool" where
  "path_keep c \<longleftrightarrow> (let n = code_of c in 48 \<le> n \<and> n \<le> 57 \<or> 65 \<le> n \<and> n \<le> 90 \<or> 97 \<le> n \<and> n \<le> 122)
     \<or> c \<in> set ''-_.~$&+=:@''"

fun PathEscape :: "string \<Rightarrow> string" where
  "PathEscape [] = []"
| "PathEscape (c # s) =
     (if path_keep c then c # PathEscape s
      else CHR ''%'' # upper_hex (code_of c div 16) # upper_hex (code_of c mod 16) # PathEscape s)"

section \<open>Query strings\<close>

text \<open>
  \<open>url.ParseQuery\<close>: the pairs that could be read, in order of appearance under each key, and
  whether some pair could not (a semicolon or a bad escape).
\<close>

type_synonym query_map = "string \<rightharpoonup> string list"

definition add_value :: "query_map \<Rightarrow> string \<Rightarrow> string \<Rightarrow> query_map" where
  "add_value m k v = m(k \<mapsto> (case m k of None \<Rightarrow> [] | Some vs \<Rightarrow> vs) @ [v])"

fun parse_pairs :: "string list \<Rightarrow> query_map \<Rightarrow> bool \<Rightarrow> query_map \<times> bool" where
  "parse_pairs [] m err = (m, err)"
| "parse_pairs (p # ps) m err =
     (if CHR '';'' \<in> set p then parse_pairs ps m True
      else if p = [] then parse_pairs ps m err
      else let (k, v) = (case split_first (CHR ''='') p of None \<Rightarrow> (p, []) | Some kv \<Rightarrow> kv)
           in case QueryUnescape k of None \<Rightarrow> parse_pairs ps m True
              | Some k' \<Rightarrow> (case QueryUnescape v of None \<Rightarrow> parse_pairs ps m True
                           | Some v' \<Rightarrow> parse_pairs ps (add_value m k' v') err))"

definition ParseQuery :: "string \<Rightarrow> query_map \<times> bool" where
  "ParseQuery s = parse_pairs (split_on (CHR ''&'') s) Map.empty False"

section \<open>Facts\<close>

lemma hex_val_digits [simp]:
  "d < 16 \<Longrightarrow> hex_val (upper_hex d) = Some d" "d < 16 \<Longrightarrow> hex_val (lower_hex d) = Some d"
  by (auto simp: hex_val_def upper_hex_def lower_hex_def Let_def)

lemma code_of_div_16 [simp]: "code_of c div 16 < 16"
  by (simp add: div_less_iff_less_mult)

lemma char_of_code_of [simp]: "char_of (code_of c) = c"
  by (simp add: code_of_def)

lemma hex_decode_encode [simp]: "hex_DecodeString (hex_EncodeToString s) = Some s"
  by (induction s) (auto simp: mult.commute [of 16])

lemma PathUnescape_PathEscape [simp]: "PathUnescape (PathEscape s) = Some s"
proof -
  have "path_keep c \<Longrightarrow> c \<noteq> CHR ''%''" for c by (auto simp: path_keep_def Let_def code_of_def)
  then show ?thesis
    by (induction s) (auto simp: PathUnescape_def mult.commute [of 16])
qed

lemma PathEscape_inj: "PathEscape a = PathEscape b \<longleftrightarrow> a = b"
  by (metis PathUnescape_PathEscape option.inject)

lemma path_keep_no_slash: "\<not> path_keep (CHR ''/'')"
  by (simp add: path_keep_def Let_def code_of_def)

lemma upper_hex_not_slash: "d < 16 \<Longrightarrow> upper_hex d \<noteq> CHR ''/''"
proof -
  assume "d < 16"
  then have "code_of (upper_hex d) \<noteq> 47" by (simp add: upper_hex_def)
  moreover have "code_of (CHR ''/'') = 47" by (simp add: code_of_def)
  ultimately show ?thesis by metis
qed

lemma PathEscape_no_slash: "CHR ''/'' \<notin> set (PathEscape s)"
  using path_keep_no_slash upper_hex_not_slash
  by (induction s) (auto, (metis code_of_div_16 mod_less_divisor upper_hex_not_slash zero_less_numeral)+)

end
