(* ===== verification/Ids.thy ===== *)
theory Ids
  imports GoPrelude
begin

text \<open>
  Entity identifiers (\<open>crossonic.go\<close>): a type tag, an underscore and twelve characters drawn by the
  nanoid package. The drawn characters are an argument of the generators; what the package promises
  about them is \<open>nano_ok\<close>.
\<close>

datatype id_type = IDTypeSong | IDTypeAlbum | IDTypeArtist | IDTypePlaylist | IDTypeInternetRadioStation

fun id_type_str :: "id_type \<Rightarrow> string" where
  "id_type_str IDTypeSong = ''tr''"
| "id_type_str IDTypeAlbum = ''al''"
| "id_type_str IDTypeArtist = ''ar''"
| "id_type_str IDTypePlaylist = ''pl''"
| "id_type_str IDTypeInternetRadioStation = ''irs''"

definition id_types :: "id_type list" where
  "id_types = [IDTypeSong, IDTypeAlbum, IDTypeArtist, IDTypePlaylist, IDTypeInternetRadioStation]"

definition IDAlphabet :: string where
  "IDAlphabet = ''abcdefghijklmnopqrstuvwxyzABCDEFGHIJKLMNOPQRSTUVWXYZ0123456789-~''"

definition id_tail :: "string \<Rightarrow> bool" where
  "id_tail s \<longleftrightarrow> length s = 12 \<and> list_all (\<lambda>c. c \<in> set IDAlphabet) s"

text \<open>\<open>IDRegex\<close>: one of the tags, an underscore, exactly twelve characters of the alphabet.\<close>

definition IDRegex_match :: "string \<Rightarrow> bool" where
  "IDRegex_match s \<longleftrightarrow>
     list_ex (\<lambda>t. let p = id_type_str t @ ''_'' in prefix p s \<and> id_tail (drop (length p) s)) id_types"

definition GenIDSong :: "string \<Rightarrow> string" where
  "GenIDSong gen = id_type_str IDTypeSong @ ''_'' @ gen"

definition GenIDAlbum :: "string \<Rightarrow> string" where
  "GenIDAlbum gen = id_type_str IDTypeAlbum @ ''_'' @ gen"

definition GenIDArtist :: "string \<Rightarrow> string" where
  "GenIDArtist gen = id_type_str IDTypeArtist @ ''_'' @ gen"

definition GenIDPlaylist :: "string \<Rightarrow> string" where
  "GenIDPlaylist gen = id_type_str IDTypePlaylist @ ''_'' @ gen"

definition GenIDInternetRadioStation :: "string \<Rightarrow> string" where
  "GenIDInternetRadioStation gen = id_type_str IDTypeInternetRadioStation @ ''_'' @ gen"

definition GetIDType :: "string \<Rightarrow> id_type option" where
  "GetIDType i =
     (case split_on (CHR ''_'') i of
        [p, _] \<Rightarrow> find (\<lambda>t. id_type_str t = p) id_types
      | _ \<Rightarrow> None)"

definition IsIDType :: "string \<Rightarrow> id_type \<Rightarrow> bool" where
  "IsIDType i t = (case GetIDType i of None \<Rightarrow> False | Some typ \<Rightarrow> t = typ)"

section \<open>Facts\<close>

lemma id_type_str_inj [simp]: "id_type_str a = id_type_str b \<longleftrightarrow> a = b"
  by (cases a; cases b) simp_all

lemma id_types_all [simp]: "t \<in> set id_types"
  by (cases t) (simp_all add: id_types_def)

lemma id_type_str_no_underscore [simp]: "CHR ''_'' \<notin> set (id_type_str t)"
  by (cases t) simp_all

lemma find_id_type [simp]: "find (\<lambda>t. t = u) id_types = Some u"
  by (cases u) (simp_all add: id_types_def)

lemma alphabet_no_underscore: "CHR ''_'' \<notin> set IDAlphabet"
  by (simp add: IDAlphabet_def)

lemma id_tail_no_underscore: "id_tail s \<Longrightarrow> CHR ''_'' \<notin> set s"
  using alphabet_no_underscore by (auto simp: id_tail_def list_all_iff)

lemma GetIDType_tagged:
  "CHR ''_'' \<notin> set n \<Longrightarrow> GetIDType (id_type_str t @ CHR ''_'' # n) = Some t"
  by (simp add: GetIDType_def split_on_append split_on_no_sep)

lemma GetIDType_Some_iff:
  "GetIDType i = Some t \<longleftrightarrow> (\<exists>n. CHR ''_'' \<notin> set n \<and> i = id_type_str t @ CHR ''_'' # n)"
proof
  assume *: "GetIDType i = Some t"
  then obtain p n where split: "split_on (CHR ''_'') i = [p, n]"
    and p: "find (\<lambda>t. id_type_str t = p) id_types = Some t"
    by (auto simp: GetIDType_def split: list.splits)
  from p have "id_type_str t = p" by (auto simp: find_Some_iff)
  moreover from join_split [of "CHR ''_''" i] split have "i = p @ CHR ''_'' # n" by simp
  moreover have "CHR ''_'' \<notin> set n" using split split_on_parts [of n "CHR ''_''" i] by simp
  ultimately show "\<exists>n. CHR ''_'' \<notin> set n \<and> i = id_type_str t @ CHR ''_'' # n" by auto
qed (auto simp: GetIDType_tagged)

lemma IDRegex_match_iff:
  "IDRegex_match s \<longleftrightarrow> (\<exists>t n. id_tail n \<and> s = id_type_str t @ CHR ''_'' # n)"
proof
  assume "IDRegex_match s"
  then show "\<exists>t n. id_tail n \<and> s = id_type_str t @ CHR ''_'' # n"
    by (auto simp: IDRegex_match_def list_ex_iff Let_def prefix_def) blast
next
  assume "\<exists>t n. id_tail n \<and> s = id_type_str t @ CHR ''_'' # n"
  then obtain t n where n: "id_tail n" and s: "s = (id_type_str t @ ''_'') @ n" by auto
  then have "prefix (id_type_str t @ ''_'') s"
    and "id_tail (drop (length (id_type_str t @ ''_'')) s)" by simp_all
  then show "IDRegex_match s"
    unfolding IDRegex_match_def list_ex_iff Let_def using id_types_all [of t] by blast
qed

lemma IDRegex_match_typed: "IDRegex_match s \<Longrightarrow> \<exists>t. GetIDType s = Some t"
  by (auto simp: IDRegex_match_iff GetIDType_tagged id_tail_no_underscore)

lemmas GenID_defs = GenIDSong_def GenIDAlbum_def GenIDArtist_def GenIDPlaylist_def
  GenIDInternetRadioStation_def

definition GenIDOf :: "id_type \<Rightarrow> string \<Rightarrow> string" where
  "GenIDOf t = (case t of IDTypeSong \<Rightarrow> GenIDSong | IDTypeAlbum \<Rightarrow> GenIDAlbum
     | IDTypeArtist \<Rightarrow> GenIDArtist | IDTypePlaylist \<Rightarrow> GenIDPlaylist
     | IDTypeInternetRadioStation \<Rightarrow> GenIDInternetRadioStation)"

lemma GenIDOf_eq: "GenIDOf t gen = id_type_str t @ CHR ''_'' # gen"
  by (cases t) (simp_all add: GenIDOf_def GenID_defs)

lemma IsIDType_iff: "IsIDType i t \<longleftrightarrow> GetIDType i = Some t"
  by (auto simp: IsIDType_def split: option.splits)

text \<open>
  The identifiers the generators produce from twelve alphabet characters are exactly the
  strings \<open>IDRegex\<close> accepts, and the type read back from such an identifier is the type it was
  generated for.
\<close>

lemma ids_generated_iff_matched:
  "(IDRegex_match s = (\<exists>t gen. id_tail gen \<and> s = GenIDOf t gen)) \<and>
   (id_tail gen \<longrightarrow> IDRegex_match (GenIDOf t gen) \<and> (\<forall>u. IsIDType (GenIDOf t gen) u = (u = t)))"
  by (auto simp: IDRegex_match_iff GenIDOf_eq IsIDType_iff GetIDType_tagged id_tail_no_underscore)

lemma ids_generated_iff_matched_example:
  "id_tail ''abcDEF012-~z'' \<and> IDRegex_match ''al_abcDEF012-~z'' \<and>
   IsIDType ''al_abcDEF012-~z'' IDTypeAlbum"
proof -
  have t: "id_tail ''abcDEF012-~z''" by (simp add: id_tail_def IDAlphabet_def)
  have e: "GenIDOf IDTypeAlbum ''abcDEF012-~z'' = ''al_abcDEF012-~z''" by (simp add: GenIDOf_eq)
  show ?thesis
    using t ids_generated_iff_matched [of "''al_abcDEF012-~z''" "''abcDEF012-~z''" IDTypeAlbum]
    unfolding e by blast
qed

end
