(* ===== verification/Base64.thy ===== *)
theory Base64
  imports GoPrelude
begin

text \<open>
  The part of \<open>encoding/base64\<close> the server uses: \<open>RawStdEncoding\<close> (standard alphabet, no
  padding), with and without \<open>Strict()\<close>. Decoding skips carriage returns and line feeds, as the
  library does; strict decoding also refuses unused bits that are not zero.
\<close>

definition b64_alphabet :: string where
  "b64_alphabet = ''ABCDEFGHIJKLMNOPQRSTUVWXYZabcdefghijklmnopqrstuvwxyz0123456789+/''"

definition b64_char :: "nat \<Rightarrow> char" where
  "b64_char i = b64_alphabet ! i"

definition b64_index :: "char \<Rightarrow> nat option" where
  "b64_index c = (let n = length (takeWhile (\<lambda>x. x \<noteq> c) b64_alphabet)
                  in if n < 64 then Some n else None)"

fun b64_sextets :: "nat list \<Rightarrow> nat list" where
  "b64_sextets (a # b # c # xs) =
     [a div 4, (a mod 4) * 16 + b div 16, (b mod 16) * 4 + c div 64, c mod 64] @ b64_sextets xs"
| "b64_sextets [a, b] = [a div 4, (a mod 4) * 16 + b div 16, (b mod 16) * 4]"
| "b64_sextets [a] = [a div 4, (a mod 4) * 16]"
| "b64_sextets [] = []"

fun b64_octets :: "bool \<Rightarrow> nat list \<Rightarrow> nat list option" where
  "b64_octets st (p # q # r # s # xs) =
     map_option (\<lambda>ys. (p * 4 + q div 16) # ((q mod 16) * 16 + r div 4) # ((r mod 4) * 64 + s) # ys)
       (b64_octets st xs)"
| "b64_octets st [p, q, r] =
     (if st \<and> r mod 4 \<noteq> 0 then None else Some [p * 4 + q div 16, (q mod 16) * 16 + r div 4])"
| "b64_octets st [p, q] = (if st \<and> q mod 16 \<noteq> 0 then None else Some [p * 4 + q div 16])"
| "b64_octets st [p] = None"
| "b64_octets st [] = Some []"

fun all_some :: "'a option list \<Rightarrow> 'a list option" where
  "all_some [] = Some []"
| "all_some (None # xs) = None"
| "all_some (Some x # xs) = map_option ((#) x) (all_some xs)"

definition b64_encode :: "bytes \<Rightarrow> string" where
  "b64_encode bs = map b64_char (b64_sextets (map code_of bs))"

definition b64_decode :: "bool \<Rightarrow> string \<Rightarrow> bytes option" where
  "b64_decode st s =
     (case all_some (map b64_index (filter (\<lambda>c. c \<noteq> CHR 0x0A \<and> c \<noteq> CHR 0x0D) s)) of
        None \<Rightarrow> None
      | Some is \<Rightarrow> map_option bytes_of (b64_octets st is))"

section \<open>Facts\<close>

lemma length_alphabet: "length b64_alphabet = 64"
  by (simp add: b64_alphabet_def)

lemma distinct_alphabet: "distinct b64_alphabet"
  by (simp add: b64_alphabet_def)

lemma b64_index_char: "i < 64 \<Longrightarrow> b64_index (b64_char i) = Some i"
proof -
  assume i: "i < 64"
  have "takeWhile (\<lambda>x. x \<noteq> b64_alphabet ! i) b64_alphabet = take i b64_alphabet"
    using i distinct_alphabet length_alphabet
    by (intro takeWhile_eq_take_P_nth) (auto simp: nth_eq_iff_index_eq)
  then show ?thesis using i by (simp add: b64_index_def b64_char_def length_alphabet)
qed

lemma b64_char_in: "i < 64 \<Longrightarrow> b64_char i \<in> set b64_alphabet"
  by (simp add: b64_char_def length_alphabet)

lemma sextets_less: "\<forall>x\<in>set xs. x < 256 \<Longrightarrow> \<forall>i\<in>set (b64_sextets xs). i < 64"
  by (induction xs rule: b64_sextets.induct) auto

lemma octets_sextets: "\<forall>x\<in>set xs. x < 256 \<Longrightarrow> b64_octets st (b64_sextets xs) = Some xs"
proof (induction xs rule: b64_sextets.induct)
  case (1 a b c xs)
  then have "a < 256" "b < 256" "c < 256" by auto
  then have "b div 16 < 16" "c div 64 < 4" by (simp_all add: div_less_iff_less_mult)
  then show ?case using 1 by simp
next
  case (2 a b)
  then have "b div 16 < 16" by (simp add: div_less_iff_less_mult)
  then show ?case by simp
qed simp_all

lemma all_some_map: "(\<And>x. x \<in> set xs \<Longrightarrow> f (g x) = Some x) \<Longrightarrow> all_some (map f (map g xs)) = Some xs"
  by (induction xs) auto

lemma b64_encode_alphabet: "set (b64_encode bs) \<subseteq> set b64_alphabet"
  using sextets_less [of "map code_of bs"] by (auto simp: b64_encode_def b64_char_in)

lemma b64_decode_encode: "b64_decode st (b64_encode bs) = Some bs"
proof -
  let ?x = "b64_sextets (map code_of bs)"
  have small: "\<forall>i\<in>set ?x. i < 64" by (rule sextets_less) simp
  have "filter (\<lambda>c. c \<noteq> CHR 0x0A \<and> c \<noteq> CHR 0x0D) (b64_encode bs) = b64_encode bs"
    using b64_encode_alphabet [of bs] by (intro filter_True) (auto simp: b64_alphabet_def)
  moreover have "all_some (map b64_index (b64_encode bs)) = Some ?x"
    unfolding b64_encode_def by (rule all_some_map) (use small b64_index_char in blast)
  moreover have "b64_octets st ?x = Some (map code_of bs)" by (rule octets_sextets) simp
  ultimately show ?thesis
    by (simp add: b64_decode_def bytes_of_def code_of_def comp_def)
qed

lemma b64_encode_no_dollar: "CHR ''$'' \<notin> set (b64_encode bs)"
  using b64_encode_alphabet [of bs] by (auto simp: b64_alphabet_def)

end
