(* ===== verification/RepoHelpers.thy ===== *)
theory RepoHelpers
  imports Base64
begin

text \<open>
  The helpers of the repository layer (\<open>repos/helpers.go\<close>): optional update parameters, paging,
  password encryption, password hashing and verification, and API keys. Random bytes and draws are
  arguments (\<open>None\<close> when the system's source fails). AES-GCM, argon2id and PBKDF2 are
  parameters; what is used of them is stated as \<open>aead_ok\<close> and \<open>kdf_ok\<close>.
\<close>

section \<open>Optional and Paginate\<close>

record 'a Optional =
  opt_value :: 'a
  opt_hasValue :: bool

definition NewOptional :: "'a \<Rightarrow> bool \<Rightarrow> 'a Optional" where
  "NewOptional v h = \<lparr> opt_value = v, opt_hasValue = h \<rparr>"

definition NewOptionalFull :: "'a \<Rightarrow> 'a Optional" where
  "NewOptionalFull v = \<lparr> opt_value = v, opt_hasValue = True \<rparr>"

text \<open>The value of an empty optional is the zero value of its type.\<close>

definition NewOptionalEmpty :: "'a \<Rightarrow> 'a Optional" where
  "NewOptionalEmpty zero = \<lparr> opt_value = zero, opt_hasValue = False \<rparr>"

definition Optional_HasValue :: "'a Optional \<Rightarrow> bool" where
  "Optional_HasValue o' = opt_hasValue o'"

definition Optional_Get :: "'a Optional \<Rightarrow> 'a option" where
  "Optional_Get o' = (if \<not> Optional_HasValue o' then None else Some (opt_value o'))"

record Paginate =
  pg_Offset :: int
  pg_Limit :: "int option"

text \<open>The query builder collects clauses with their argument.\<close>

definition Paginate_Apply :: "Paginate \<Rightarrow> (string \<times> int) list \<Rightarrow> (string \<times> int) list" where
  "Paginate_Apply p q =
     (let q1 = (if pg_Offset p > 0 then q @ [(''OFFSET ?'', pg_Offset p)] else q)
      in case pg_Limit p of None \<Rightarrow> q1 | Some l \<Rightarrow> q1 @ [(''LIMIT ?'', max l 0)])"

section \<open>Password encryption\<close>

datatype pw_error = PwNewCipher | PwGenerateNonce | PwTooShort | PwDecrypt | PwGenerateSalt
  | PwInvalidHash | PwVersionMismatch int

text \<open>\<open>aes.NewCipher\<close> takes keys of 16, 24 and 32 bytes; a GCM nonce has 12.\<close>

definition aes_key_ok :: "bytes \<Rightarrow> bool" where
  "aes_key_ok key \<longleftrightarrow> length key \<in> {16, 24, 32}"

definition gcm_nonce_size :: nat where
  "gcm_nonce_size = 12"

definition EncryptPassword ::
  "(bytes \<Rightarrow> bytes \<Rightarrow> bytes \<Rightarrow> bytes) \<Rightarrow> bytes option \<Rightarrow> string \<Rightarrow> bytes \<Rightarrow> pw_error + bytes" where
  "EncryptPassword seal rnd password key =
     (if \<not> aes_key_ok key then Inl PwNewCipher
      else case rnd of None \<Rightarrow> Inl PwGenerateNonce
           | Some nonce \<Rightarrow> Inr (nonce @ seal key nonce password))"

definition DecryptPassword ::
  "(bytes \<Rightarrow> bytes \<Rightarrow> bytes \<Rightarrow> bytes option) \<Rightarrow> bytes \<Rightarrow> bytes \<Rightarrow> pw_error + string" where
  "DecryptPassword open' encryptedPassword key =
     (if \<not> aes_key_ok key then Inl PwNewCipher
      else if length encryptedPassword < gcm_nonce_size then Inl PwTooShort
      else let nonce = take gcm_nonce_size encryptedPassword;
               ciphertext = drop gcm_nonce_size encryptedPassword
           in case open' key nonce ciphertext of None \<Rightarrow> Inl PwDecrypt | Some pw \<Rightarrow> Inr pw)"

text \<open>
  What GCM promises: opening what was sealed under the same key and nonce gives the plaintext back.
\<close>

definition aead_ok ::
  "(bytes \<Rightarrow> bytes \<Rightarrow> bytes \<Rightarrow> bytes) \<Rightarrow> (bytes \<Rightarrow> bytes \<Rightarrow> bytes \<Rightarrow> bytes option) \<Rightarrow> bool" where
  "aead_ok seal open' \<longleftrightarrow>
     (\<forall>key nonce p. open' key nonce (seal key nonce p) = Some p)"

section \<open>Password hashing\<close>

type_synonym kdf = "string \<Rightarrow> bytes \<Rightarrow> nat \<Rightarrow> nat \<Rightarrow> nat \<Rightarrow> nat \<Rightarrow> bytes"
  \<comment> \<open>password, salt, time, memory, threads, key length\<close>

definition argon2idTime :: nat where "argon2idTime = 1"
definition argon2idMemory :: nat where "argon2idMemory = 3072"
definition argon2idThreads :: nat where "argon2idThreads = 4"
definition argon2_Version :: nat where "argon2_Version = 19"

definition HashPassword :: "kdf \<Rightarrow> bytes option \<Rightarrow> string \<Rightarrow> pw_error + string" where
  "HashPassword idkey rnd password =
     (case rnd of None \<Rightarrow> Inl PwGenerateSalt
      | Some salt \<Rightarrow>
          let hash = idkey password salt argon2idTime argon2idMemory argon2idThreads 32
          in Inr (''$argon2id$v='' @ show_nat argon2_Version @ ''$m='' @ show_nat argon2idMemory
                  @ '',t='' @ show_nat argon2idTime @ '',p='' @ show_nat argon2idThreads
                  @ ''$'' @ b64_encode salt @ ''$'' @ b64_encode hash))"

text \<open>
  \<open>fmt.Sscanf\<close> on a literal and on \<open>%d\<close>: spaces before a number are skipped, a line feed is an
  error, digits are read as far as they go, input left over is no error.
\<close>

function scan_skip :: "string \<Rightarrow> string option" where
  "scan_skip s =
     (if s \<noteq> [] \<and> hd s = CHR 0x0A then None
      else if s = [] \<or> lead_space s = 0 then Some s
      else scan_skip (drop (lead_space s) s))"
  by pat_completeness auto
termination by (relation "measure length") auto

declare scan_skip.simps [simp del]

definition scan_lit :: "string \<Rightarrow> string \<Rightarrow> string option" where
  "scan_lit l s = (if prefix l s then Some (drop (length l) s) else None)"

definition scan_digits :: "string \<Rightarrow> (nat \<times> string) option" where
  "scan_digits s = map_option (\<lambda>n. (n, dropWhile is_digit s)) (parse_unsigned (takeWhile is_digit s))"

definition scan_uint :: "nat \<Rightarrow> string \<Rightarrow> (nat \<times> string) option" where
  "scan_uint bits s =
     (case scan_skip s of None \<Rightarrow> None
      | Some s1 \<Rightarrow> (case scan_digits s1 of None \<Rightarrow> None
                    | Some (n, r) \<Rightarrow> if n < 2 ^ bits then Some (n, r) else None))"

definition scan_int :: "string \<Rightarrow> (int \<times> string) option" where
  "scan_int s =
     (case scan_skip s of None \<Rightarrow> None
      | Some s1 \<Rightarrow>
          let (neg, s2) = (case s1 of [] \<Rightarrow> (False, [])
                           | c # cs \<Rightarrow> if c = CHR ''-'' then (True, cs)
                                      else if c = CHR ''+'' then (False, cs) else (False, s1))
          in case scan_digits s2 of None \<Rightarrow> None
             | Some (n, r) \<Rightarrow> let i = (if neg then - int n else int n)
                             in if in_range i then Some (i, r) else None)"

definition scan_version :: "string \<Rightarrow> int option" where
  "scan_version s = Option.bind (scan_lit ''v='' s) (\<lambda>r. map_option fst (scan_int r))"

definition scan_params :: "string \<Rightarrow> (nat \<times> nat \<times> nat) option" where
  "scan_params s =
     Option.bind (scan_lit ''m='' s) (\<lambda>s1.
     Option.bind (scan_uint 32 s1) (\<lambda>(m, s2).
     Option.bind (scan_lit '',t='' s2) (\<lambda>s3.
     Option.bind (scan_uint 32 s3) (\<lambda>(t, s4).
     Option.bind (scan_lit '',p='' s4) (\<lambda>s5.
     Option.bind (scan_uint 8 s5) (\<lambda>(p, _). Some (m, t, p)))))))"

definition VerifyPassword :: "kdf \<Rightarrow> string \<Rightarrow> string \<Rightarrow> pw_error + bool" where
  "VerifyPassword idkey expected provided =
     (let parts = split_on (CHR ''$'') expected in
      if length parts \<noteq> 6 then Inl PwInvalidHash
      else case scan_version (parts ! 2) of None \<Rightarrow> Inl PwInvalidHash
      | Some version \<Rightarrow>
        if version \<noteq> int argon2_Version then Inl (PwVersionMismatch version)
        else case scan_params (parts ! 3) of None \<Rightarrow> Inl PwInvalidHash
        | Some (memory, time, threads) \<Rightarrow>
          (case b64_decode True (parts ! 4) of None \<Rightarrow> Inl PwInvalidHash
           | Some salt \<Rightarrow>
             (case b64_decode True (parts ! 5) of None \<Rightarrow> Inl PwInvalidHash
              | Some hash \<Rightarrow>
                  Inr (hash = idkey provided salt time memory threads (length hash)))))"

text \<open>\<open>argon2.IDKey\<close> returns a key of the requested length.\<close>

definition kdf_ok :: "kdf \<Rightarrow> bool" where
  "kdf_ok idkey \<longleftrightarrow> (\<forall>p s t m th n. length (idkey p s t m th n) = n)"

section \<open>API keys\<close>

definition apiKeyChars :: string where
  "apiKeyChars = ''abcdefghijkmnopqrstuvwxyzABCDEFGHJKLMNPQRSTUVWXYZ123456789''"

text \<open>\<open>draw k\<close> is the \<open>k\<close>-th call of \<open>rand.Int\<close>, below the length of the alphabet.\<close>

fun api_group :: "(nat \<Rightarrow> nat option) \<Rightarrow> nat \<Rightarrow> nat \<Rightarrow> string option" where
  "api_group draw k 0 = Some []"
| "api_group draw k (Suc n) =
     (case draw k of None \<Rightarrow> None
      | Some i \<Rightarrow> map_option ((#) (apiKeyChars ! i)) (api_group draw (Suc k) n))"

fun api_groups :: "(nat \<Rightarrow> nat option) \<Rightarrow> nat \<Rightarrow> nat \<Rightarrow> string option" where
  "api_groups draw i 0 = Some []"
| "api_groups draw i (Suc n) =
     (case api_group draw (5 * i) 5 of None \<Rightarrow> None
      | Some g \<Rightarrow> map_option (\<lambda>r. (if i > 0 then ''-'' else '''') @ g @ r) (api_groups draw (Suc i) n))"

definition GenerateAPIKey :: "(nat \<Rightarrow> nat option) \<Rightarrow> string option" where
  "GenerateAPIKey draw = api_groups draw 0 6"

definition HashAPIKey :: "(string \<Rightarrow> bytes \<Rightarrow> nat \<Rightarrow> nat \<Rightarrow> bytes) \<Rightarrow> string \<Rightarrow> bytes" where
  "HashAPIKey pbkdf2 apiKey = pbkdf2 apiKey ''crossonic-server'' 4096 32"

section \<open>Facts\<close>

lemma HashPassword_form:
  "HashPassword idkey (Some salt) pw =
   Inr (''$argon2id$v=19$m=3072,t=1,p=4$'' @ b64_encode salt @ ''$'' @
        b64_encode (idkey pw salt 1 3072 4 32))"
proof -
  have "show_nat argon2_Version = ''19''" "show_nat argon2idMemory = ''3072''"
    "show_nat argon2idTime = ''1''" "show_nat argon2idThreads = ''4''"
    by (simp_all add: show_nat.simps argon2_Version_def argon2idTime_def
        argon2idMemory_def argon2idThreads_def)
  then show ?thesis
    by (simp add: HashPassword_def argon2idTime_def argon2idMemory_def argon2idThreads_def)
qed

lemma split_hash:
  "split_on (CHR ''$'') (''$argon2id$v=19$m=3072,t=1,p=4$'' @ b64_encode a @ ''$'' @ b64_encode b)
   = ['''', ''argon2id'', ''v=19'', ''m=3072,t=1,p=4'', b64_encode a, b64_encode b]"
proof -
  let ?parts = "['''', ''argon2id'', ''v=19'', ''m=3072,t=1,p=4'', b64_encode a, b64_encode b]"
  have "''$argon2id$v=19$m=3072,t=1,p=4$'' @ b64_encode a @ ''$'' @ b64_encode b = join_with ''$'' ?parts"
    by simp
  moreover have "split_on (CHR ''$'') (join_with ''$'' ?parts) = ?parts"
    by (rule split_join) (simp_all add: b64_encode_no_dollar)
  ultimately show ?thesis by (simp only:)
qed

lemma scan_skip_digit [simp]:
  assumes "is_digit c"
  shows "scan_skip (c # cs) = Some (c # cs)"
proof -
  have "c \<noteq> CHR 0x0A" using assms by (auto simp: is_digit_def code_of_def)
  then show ?thesis using assms by (subst scan_skip.simps) simp
qed

lemmas scan_simps = scan_version_def scan_params_def scan_lit_def scan_int_def scan_uint_def
  scan_digits_def parse_unsigned_def digits_val_def is_digit_def code_of_def in_range_def
  min_int_def max_int_def

lemma scan_hash_fields:
  "scan_version ''v=19'' = Some 19" "scan_params ''m=3072,t=1,p=4'' = Some (3072, 1, 4)"
  by (simp_all add: scan_simps)

lemma VerifyPassword_HashPassword:
  assumes "kdf_ok idkey" and "HashPassword idkey (Some salt) pw = Inr h"
  shows "VerifyPassword idkey h p = Inr (idkey p salt 1 3072 4 32 = idkey pw salt 1 3072 4 32)"
proof -
  have len: "length (idkey pw salt 1 3072 4 32) = 32" using assms(1) by (simp add: kdf_ok_def)
  have h: "h = ''$argon2id$v=19$m=3072,t=1,p=4$'' @ b64_encode salt @ ''$'' @
       b64_encode (idkey pw salt 1 3072 4 32)"
    using assms(2) unfolding HashPassword_form by simp
  have "VerifyPassword idkey h p = Inr (idkey pw salt 1 3072 4 32 = idkey p salt 1 3072 4 32)"
    unfolding h VerifyPassword_def split_hash using len
    by (simp add: scan_hash_fields argon2_Version_def b64_decode_encode)
  then show ?thesis by auto
qed

text \<open>
  A password verified against its own stored hash is accepted, and any password at all is
  accepted against it exactly when argon2id maps it to the same key under the stored salt and cost
  parameters: the encoded hash is parsed without error and carries all of them.
\<close>

lemma verify_hashed_password:
  assumes "kdf_ok idkey" and "HashPassword idkey (Some salt) pw = Inr h"
  shows "VerifyPassword idkey h pw = Inr True \<and>
         VerifyPassword idkey h pw' = Inr (idkey pw' salt 1 3072 4 32 = idkey pw salt 1 3072 4 32)"
  using VerifyPassword_HashPassword [OF assms] by simp

text \<open>A key derivation for the witnesses: the password padded to the requested length.\<close>

definition toy_kdf :: kdf where
  "toy_kdf p salt t m th n = take n (p @ replicate n (CHR ''.''))"

lemma toy_kdf_ok: "kdf_ok toy_kdf"
  by (auto simp: kdf_ok_def toy_kdf_def)

lemma verify_hashed_password_example:
  "\<exists>h. HashPassword toy_kdf (Some ''0123456789abcdef'') ''secret'' = Inr h \<and>
     VerifyPassword toy_kdf h ''secret'' = Inr True \<and> VerifyPassword toy_kdf h ''Secret'' = Inr False"
proof -
  obtain h where h: "HashPassword toy_kdf (Some ''0123456789abcdef'') ''secret'' = Inr h"
    by (simp add: HashPassword_form)
  have "toy_kdf ''Secret'' ''0123456789abcdef'' 1 3072 4 32 \<noteq> toy_kdf ''secret'' ''0123456789abcdef'' 1 3072 4 32"
    by (simp add: toy_kdf_def)
  then show ?thesis
    using h verify_hashed_password [OF toy_kdf_ok h, of "''Secret''"] by auto
qed

lemma DecryptPassword_EncryptPassword:
  assumes "aead_ok seal open'" "length nonce = 12" "aes_key_ok key"
    and "EncryptPassword seal (Some nonce) pw key = Inr c"
  shows "DecryptPassword open' c key = Inr pw"
  using assms by (auto simp: EncryptPassword_def DecryptPassword_def gcm_nonce_size_def aead_ok_def)

text \<open>
  A password encrypted under a valid key is decrypted to itself; a text shorter than a nonce,
  or a key of the wrong length, is an error and never a password.
\<close>

lemma decrypt_encrypted_password:
  assumes "aead_ok seal open'" and "length nonce = 12"
  shows "(aes_key_ok key \<longrightarrow>
            (\<exists>c. EncryptPassword seal (Some nonce) pw key = Inr c \<and> DecryptPassword open' c key = Inr pw)) \<and>
         (\<not> aes_key_ok key \<longrightarrow> EncryptPassword seal (Some nonce) pw key = Inl PwNewCipher \<and>
            DecryptPassword open' c' key = Inl PwNewCipher) \<and>
         (aes_key_ok key \<and> length c' < 12 \<longrightarrow> DecryptPassword open' c' key = Inl PwTooShort)"
  using assms
  by (simp add: EncryptPassword_def DecryptPassword_def gcm_nonce_size_def aead_ok_def)

text \<open>A cipher for the witness: the plaintext behind a tag made of key and nonce.\<close>

definition toy_seal :: "bytes \<Rightarrow> bytes \<Rightarrow> bytes \<Rightarrow> bytes" where
  "toy_seal key nonce p = key @ nonce @ p"

definition toy_open :: "bytes \<Rightarrow> bytes \<Rightarrow> bytes \<Rightarrow> bytes option" where
  "toy_open key nonce c =
     (if prefix (key @ nonce) c then Some (drop (length key + length nonce) c) else None)"

lemma decrypt_encrypted_password_example:
  "\<exists>c. EncryptPassword toy_seal (Some (replicate 12 CHR ''n'')) ''pw'' (replicate 32 CHR ''k'') = Inr c \<and>
       DecryptPassword toy_open c (replicate 32 CHR ''k'') = Inr ''pw''"
proof -
  have a: "aead_ok toy_seal toy_open" by (simp add: aead_ok_def toy_seal_def toy_open_def)
  have n: "length (replicate 12 CHR ''n'') = 12" by simp
  have k: "aes_key_ok (replicate 32 CHR ''k'')" by (simp add: aes_key_ok_def)
  show ?thesis
    using k decrypt_encrypted_password [OF a n, of "replicate 32 CHR ''k''" "''pw''" "[]"] by blast
qed

subsection \<open>The shape of API keys\<close>

lemma api_group_Some:
  "\<forall>j<n. draw (k + j) \<noteq> None \<Longrightarrow>
   api_group draw k n = Some (map (\<lambda>j. apiKeyChars ! the (draw (k + j))) [0..<n])"
proof (induction n arbitrary: k)
  case (Suc n)
  have "draw k \<noteq> None" using Suc.prems [rule_format, of 0] by simp
  moreover have "\<forall>j<n. draw (Suc k + j) \<noteq> None" using Suc.prems by (auto dest: spec [of _ "Suc _"])
  ultimately show ?case using Suc.IH [of "Suc k"]
    by (auto simp: upt_conv_Cons map_Suc_upt [symmetric] simp del: upt_Suc)
qed simp

definition api_key_group :: "(nat \<Rightarrow> nat option) \<Rightarrow> nat \<Rightarrow> string" where
  "api_key_group draw i = map (\<lambda>j. apiKeyChars ! the (draw (5 * i + j))) [0..<5]"

lemma api_key_draws: "(\<forall>k<30. P k) \<longleftrightarrow> (\<forall>i<6. \<forall>j<5. P (5 * i + j))" for P :: "nat \<Rightarrow> bool"
proof
  assume *: "\<forall>i<6. \<forall>j<5. P (5 * i + j)"
  show "\<forall>k<30. P k"
  proof (intro allI impI)
    fix k :: nat assume "k < 30"
    then have "k div 5 < 6" "k mod 5 < 5" by (simp_all add: div_less_iff_less_mult)
    with * have "P (5 * (k div 5) + k mod 5)" by blast
    then show "P k" by simp
  qed
qed auto

lemma GenerateAPIKey_Some:
  assumes "\<forall>k<30. draw k \<noteq> None"
  shows "GenerateAPIKey draw = Some (join_with ''-'' (map (api_key_group draw) [0..<6]))"
proof -
  have "api_group draw (5 * i) 5 = Some (api_key_group draw i)" if "i < 6" for i
    unfolding api_key_group_def using assms that by (intro api_group_Some) (auto simp: api_key_draws)
  from this [of 0] this [of 1] this [of 2] this [of 3] this [of 4] this [of 5] show ?thesis
    by (simp add: GenerateAPIKey_def numeral_eq_Suc)
qed

lemma length_apiKeyChars: "length apiKeyChars = 58"
  by (simp add: apiKeyChars_def)

lemma api_key_char:
  assumes "(k :: nat) < 30" "\<forall>k<30. \<exists>i<58. draw k = Some i"
  shows "apiKeyChars ! the (draw k) \<in> set apiKeyChars"
proof -
  from assms obtain i where "i < 58" "draw k = Some i" by blast
  then show ?thesis by (simp add: length_apiKeyChars)
qed

lemma api_key_group_props:
  assumes "\<forall>k<30. \<exists>i<58. draw k = Some i" "i < 6"
  shows "length (api_key_group draw i) = 5" "set (api_key_group draw i) \<subseteq> set apiKeyChars"
proof -
  show "length (api_key_group draw i) = 5" by (simp add: api_key_group_def)
  show "set (api_key_group draw i) \<subseteq> set apiKeyChars"
    unfolding api_key_group_def using assms by (auto intro!: api_key_char)
qed

text \<open>
  If every draw succeeds, an API key is six groups of five characters of the alphabet, separated
  by dashes, and each character is the one its own draw selects, so nothing of the randomness is
  lost between the draws and the key.
\<close>

lemma api_key_shape:
  assumes "\<forall>k<30. \<exists>i<58. draw k = Some i"
  shows "\<exists>key gs. GenerateAPIKey draw = Some key \<and> split_on (CHR ''-'') key = gs \<and> length gs = 6 \<and>
           (\<forall>i<6. length (gs ! i) = 5 \<and> set (gs ! i) \<subseteq> set apiKeyChars \<and>
             (\<forall>j<5. gs ! i ! j = apiKeyChars ! the (draw (5 * i + j))))"
proof -
  let ?gs = "map (api_key_group draw) [0..<6]"
  have "\<forall>k<30. draw k \<noteq> None" using assms by (metis option.distinct(1))
  then have k: "GenerateAPIKey draw = Some (join_with ''-'' ?gs)" by (rule GenerateAPIKey_Some)
  have "CHR ''-'' \<notin> set apiKeyChars" by (simp add: apiKeyChars_def)
  then have "\<forall>g\<in>set ?gs. CHR ''-'' \<notin> set g" using api_key_group_props(2) [OF assms] by fastforce
  then have s: "split_on (CHR ''-'') (join_with ''-'' ?gs) = ?gs" by (intro split_join) simp_all
  have "\<forall>i<6. length (?gs ! i) = 5 \<and> set (?gs ! i) \<subseteq> set apiKeyChars \<and>
      (\<forall>j<5. ?gs ! i ! j = apiKeyChars ! the (draw (5 * i + j)))"
    using api_key_group_props [OF assms] by (auto simp: api_key_group_def)
  with k s show ?thesis by (intro exI [of _ "join_with ''-'' ?gs"] exI [of _ ?gs]) simp
qed

lemma api_key_shape_example:
  "\<exists>key. GenerateAPIKey (\<lambda>k. Some (k + 3)) = Some key \<and> length (split_on (CHR ''-'') key) = 6 \<and>
     length (split_on (CHR ''-'') key ! 2) = 5"
proof -
  have d: "\<forall>k<(30 :: nat). \<exists>i<58. (\<lambda>k::nat. Some (k + 3)) k = Some i" by simp
  then show ?thesis using api_key_shape [OF d] by force
qed

end
