(* ===== verification/RepoErrors.thy ===== *)
theory RepoErrors
  imports RepoHelpers
begin

text \<open>
  The error values of the repository layer (\<open>repos/errors.go\<close>) and the part of Go's \<open>errors\<close>
  package that looks into them. An error is a bare kind, a repository error carrying a kind and
  possibly the error it came from, some other error (told apart by its text), or one wrapped by
  \<open>fmt.Errorf("...: %w", err)\<close>.
\<close>

datatype ErrorType = ErrNotFound | ErrExists | ErrTooMany | ErrNestedTransaction | ErrGeneral
  | ErrInvalidParams | ErrForbidden

fun ErrorType_Error :: "ErrorType \<Rightarrow> string" where
  "ErrorType_Error ErrNotFound = ''not found''"
| "ErrorType_Error ErrExists = ''already exists''"
| "ErrorType_Error ErrTooMany = ''got multiple rows, expected one''"
| "ErrorType_Error ErrNestedTransaction = ''nested transactions not allowed''"
| "ErrorType_Error ErrGeneral = ''general''"
| "ErrorType_Error ErrInvalidParams = ''invalid parameters''"
| "ErrorType_Error ErrForbidden = ''forbidden''"

datatype go_error =
    EType ErrorType
  | EError string ErrorType "go_error option"  \<comment> \<open>\<open>Error{Message, Type, DBErr}\<close>\<close>
  | EMsg string                                \<comment> \<open>an error of another package\<close>
  | EWrap string go_error                      \<comment> \<open>\<open>fmt.Errorf("msg: %w", inner)\<close>\<close>

definition NewError :: "string \<Rightarrow> ErrorType \<Rightarrow> go_error option \<Rightarrow> go_error" where
  "NewError message errType innerErr = EError message errType innerErr"

text \<open>The errors of password encryption and hashing, as Go error values.\<close>

fun pw_go_error :: "pw_error \<Rightarrow> go_error" where
  "pw_go_error PwNewCipher = EWrap ''new cipher'' (EMsg ''crypto/aes: invalid key size'')"
| "pw_go_error PwGenerateNonce = EWrap ''generate nonce'' (EMsg ''crypto/rand'')"
| "pw_go_error PwTooShort = EMsg ''encrypted password too short''"
| "pw_go_error PwDecrypt = EWrap ''decrypt'' (EMsg ''cipher: message authentication failed'')"
| "pw_go_error PwGenerateSalt = EWrap ''generate salt'' (EMsg ''crypto/rand'')"
| "pw_go_error PwInvalidHash = EMsg ''invalid expected hash''"
| "pw_go_error (PwVersionMismatch v) = EMsg ''argon2id version mismatch''"

fun Error_Error :: "go_error \<Rightarrow> string" where
  "Error_Error (EType t) = ErrorType_Error t"
| "Error_Error (EError msg t None) = msg"
| "Error_Error (EError msg t (Some e)) =
     (if msg = [] then Error_Error e else msg @ '': '' @ Error_Error e)"
| "Error_Error (EMsg m) = m"
| "Error_Error (EWrap m e) = m @ '': '' @ Error_Error e"

fun Error_Unwrap :: "go_error \<Rightarrow> go_error option" where
  "Error_Unwrap (EError _ _ inner) = inner"
| "Error_Unwrap (EWrap _ e) = Some e"
| "Error_Unwrap _ = None"

text \<open>The chain of an error: itself and what it unwraps to, in the order \<open>errors.Is\<close> walks it.\<close>

fun err_chain :: "go_error \<Rightarrow> go_error list" where
  "err_chain (EType t) = [EType t]"
| "err_chain (EError m t None) = [EError m t None]"
| "err_chain (EError m t (Some e)) = EError m t (Some e) # err_chain e"
| "err_chain (EMsg m) = [EMsg m]"
| "err_chain (EWrap m e) = EWrap m e # err_chain e"

text \<open>\<open>errors.As(target, &t)\<close> for the two target types: the first error of the chain of that type.\<close>

fun is_EError :: "go_error \<Rightarrow> bool" where
  "is_EError (EError _ _ _) = True" | "is_EError _ = False"

fun is_EType :: "go_error \<Rightarrow> bool" where
  "is_EType (EType _) = True" | "is_EType _ = False"

fun kind_of :: "go_error \<Rightarrow> ErrorType option" where
  "kind_of (EError _ t _) = Some t" | "kind_of (EType t) = Some t" | "kind_of _ = None"

definition Error_Is :: "ErrorType \<Rightarrow> go_error \<Rightarrow> bool" where
  "Error_Is t target =
     (case find is_EError (err_chain target) of
        Some t1 \<Rightarrow> kind_of t1 = Some t
      | None \<Rightarrow> (case find is_EType (err_chain target) of
                   Some t2 \<Rightarrow> kind_of t2 = Some t
                 | None \<Rightarrow> False))"

text \<open>\<open>errors.Is(err, target)\<close>.\<close>

definition err_is1 :: "go_error \<Rightarrow> go_error \<Rightarrow> bool" where
  "err_is1 e target = (e = target \<or> (case e of EError _ t _ \<Rightarrow> Error_Is t target | _ \<Rightarrow> False))"

definition errors_Is :: "go_error \<Rightarrow> go_error \<Rightarrow> bool" where
  "errors_Is e target = list_ex (\<lambda>x. err_is1 x target) (err_chain e)"

section \<open>Facts\<close>

lemma errors_Is_wrap [simp]:
  "errors_Is (EWrap m e) (EType k) = errors_Is e (EType k)"
  by (simp add: errors_Is_def err_is1_def)

lemma Error_Is_EType [simp]: "Error_Is t (EType k) = (t = k)"
  by (auto simp: Error_Is_def)

lemma errors_Is_simps [simp]:
  "errors_Is (EType t) (EType k) = (t = k)"
  "errors_Is (EMsg m) (EType k) = False"
  "errors_Is (EError m t None) (EType k) = (t = k)"
  "errors_Is (EError m t (Some e)) (EType k) = (t = k \<or> errors_Is e (EType k))"
  by (simp_all add: errors_Is_def err_is1_def)

text \<open>The kinds an error carries anywhere on its chain.\<close>

definition err_kinds :: "go_error \<Rightarrow> ErrorType set" where
  "err_kinds e = {k. \<exists>x\<in>set (err_chain e). kind_of x = Some k}"

lemma err_is1_EType: "err_is1 x (EType k) = (kind_of x = Some k)"
  by (cases x) (auto simp: err_is1_def)

text \<open>
  Testing an error for a kind finds exactly the kinds on its chain, so wrapping it with context
  any number of times, or attaching it as the cause of another repository error, never hides a kind.
\<close>

lemma errors_is_kinds:
  "errors_Is e (EType k) = (k \<in> err_kinds e) \<and>
   err_kinds (EWrap m e) = err_kinds e \<and>
   err_kinds (NewError m t (Some e)) = insert t (err_kinds e)"
  by (auto simp: errors_Is_def list_ex_iff err_is1_EType err_kinds_def NewError_def)

end
