(* ===== verification/Responses.thy ===== *)
theory Responses
  imports RepoErrors
begin

text \<open>
  What handlers write to the client (\<open>handlers/responses\<close>, \<open>handlers/helpers.go\<close>). A response
  writer is the list of the writes made to it, in order; the encoding of a response to XML or JSON is
  left to the standard library, so an error response is its format, message and code.
\<close>

datatype SubsonicError =
    SubsonicErrorGeneric
  | SubsonicErrorRequiredParameterMissing
  | SubsonicErrorIncompatibleSubsonicRestProtocolVersionClientMustUpgrade
  | SubsonicErrorIncompatibleSubsonicRestProtocolVersionServerMustUpgrade
  | SubsonicErrorWrongUsernameOrPassword
  | SubsonicErrorTokenAuthenticationNotSupported
  | SubsonicErrorProvidedAuthenticationMechanismNotSupported
  | SubsonicErrorMultipleConflictingAuthenticationMechanismsProvided
  | SubsonicErrorInvalidAPIKey
  | SubsonicErrorUserNotAuthorized
  | SubsonicErrorTrialOver
  | SubsonicErrorNotFound

fun SubsonicError_code :: "SubsonicError \<Rightarrow> int" where
  "SubsonicError_code SubsonicErrorGeneric = 0"
| "SubsonicError_code SubsonicErrorRequiredParameterMissing = 10"
| "SubsonicError_code SubsonicErrorIncompatibleSubsonicRestProtocolVersionClientMustUpgrade = 20"
| "SubsonicError_code SubsonicErrorIncompatibleSubsonicRestProtocolVersionServerMustUpgrade = 30"
| "SubsonicError_code SubsonicErrorWrongUsernameOrPassword = 40"
| "SubsonicError_code SubsonicErrorTokenAuthenticationNotSupported = 41"
| "SubsonicError_code SubsonicErrorProvidedAuthenticationMechanismNotSupported = 42"
| "SubsonicError_code SubsonicErrorMultipleConflictingAuthenticationMechanismsProvided = 43"
| "SubsonicError_code SubsonicErrorInvalidAPIKey = 44"
| "SubsonicError_code SubsonicErrorUserNotAuthorized = 50"
| "SubsonicError_code SubsonicErrorTrialOver = 60"
| "SubsonicError_code SubsonicErrorNotFound = 70"

datatype http_write =
    WHeader string string
  | WStatus nat
  | WError string string SubsonicError  \<comment> \<open>format, message, code\<close>
  | WOk string

type_synonym writer = "http_write list"

definition EncodeError :: "string \<Rightarrow> string \<Rightarrow> SubsonicError \<Rightarrow> writer \<Rightarrow> writer" where
  "EncodeError format msg code w = w @ [WError format msg code]"

definition respondGenericErr :: "string \<Rightarrow> string \<Rightarrow> writer \<Rightarrow> writer" where
  "respondGenericErr format message w = EncodeError format message SubsonicErrorGeneric w"

definition respondNotFoundErr :: "string \<Rightarrow> string \<Rightarrow> writer \<Rightarrow> writer" where
  "respondNotFoundErr format message w =
     EncodeError format (if message = [] then ''not found'' else message) SubsonicErrorNotFound w"

definition respondInternalErr :: "string \<Rightarrow> go_error \<Rightarrow> writer \<Rightarrow> writer" where
  "respondInternalErr format err w = EncodeError format ''internal server error'' SubsonicErrorGeneric w"

definition respondErr :: "string \<Rightarrow> go_error \<Rightarrow> writer \<Rightarrow> writer" where
  "respondErr format err w =
     (if errors_Is err (EType ErrNotFound) then respondNotFoundErr format [] w
      else respondInternalErr format err w)"

text \<open>The writes that end a request with an error.\<close>

fun is_error_write :: "http_write \<Rightarrow> bool" where
  "is_error_write (WError _ _ _) = True"
| "is_error_write _ = False"

lemmas respond_defs = EncodeError_def respondGenericErr_def respondNotFoundErr_def
  respondInternalErr_def respondErr_def

end
