(* ===== verification/Query.thy ===== *)
theory Query
  imports Ids RepoHelpers Responses
begin

text \<open>
  Request parameters (\<open>handlers/query.go\<close>). A query is the map of parameter names to the values
  given for them; every accessor may write an error to the response writer, which it takes and
  returns. The Go results \<open>(value, true)\<close> and \<open>(_, false)\<close> are \<open>Some value\<close> and \<open>None\<close>;
  a nil pointer inside a successful result is \<open>Some None\<close>.
\<close>

type_synonym url_values = "string \<rightharpoonup> string list"

text \<open>\<open>url.Values\<close>: \<open>Has\<close>, \<open>Get\<close> and the index expression.\<close>

definition values_Has :: "url_values \<Rightarrow> string \<Rightarrow> bool" where
  "values_Has v key = (v key \<noteq> None)"

definition values_get_all :: "url_values \<Rightarrow> string \<Rightarrow> string list" where
  "values_get_all v key = (case v key of None \<Rightarrow> [] | Some xs \<Rightarrow> xs)"

definition values_Get :: "url_values \<Rightarrow> string \<Rightarrow> string" where
  "values_Get v key = (case values_get_all v key of [] \<Rightarrow> [] | x # _ \<Rightarrow> x)"

type_synonym 'a qres = "'a option \<times> writer"

definition Q_Has :: "url_values \<Rightarrow> string \<Rightarrow> bool" where
  "Q_Has q key = values_Has q key"

definition Q_Str :: "url_values \<Rightarrow> string \<Rightarrow> string" where
  "Q_Str q key = values_Get q key"

definition Q_Strs :: "url_values \<Rightarrow> string \<Rightarrow> string list" where
  "Q_Strs q name = values_get_all q name"

definition Q_Format :: "url_values \<Rightarrow> string" where
  "Q_Format q = Q_Str q ''f''"

definition Q_User :: "url_values \<Rightarrow> string" where
  "Q_User q = Q_Str q ''u''"

definition Q_Client :: "url_values \<Rightarrow> string" where
  "Q_Client q = Q_Str q ''c''"

definition missingParameter :: "url_values \<Rightarrow> string \<Rightarrow> writer \<Rightarrow> writer" where
  "missingParameter q name =
     EncodeError (Q_Format q) (''missing '' @ name @ '' parameter'') SubsonicErrorRequiredParameterMissing"

definition invalidParameter :: "url_values \<Rightarrow> string \<Rightarrow> writer \<Rightarrow> writer" where
  "invalidParameter q name =
     EncodeError (Q_Format q) (''invalid '' @ name @ '' parameter'') SubsonicErrorGeneric"

section \<open>Strings and booleans\<close>

definition StrReq :: "url_values \<Rightarrow> string \<Rightarrow> writer \<Rightarrow> string qres" where
  "StrReq q name w =
     (let v = Q_Str q name in if v = [] then (None, invalidParameter q name w) else (Some v, w))"

definition StrsReq :: "url_values \<Rightarrow> string \<Rightarrow> writer \<Rightarrow> string list qres" where
  "StrsReq q name w =
     (let v = Q_Strs q name in if length v = 0 then (None, missingParameter q name w) else (Some v, w))"

definition BoolDef :: "url_values \<Rightarrow> string \<Rightarrow> bool \<Rightarrow> writer \<Rightarrow> bool qres" where
  "BoolDef q name def w =
     (let s = Q_Str q name in
      if s = [] then (Some def, w)
      else case parse_bool s of None \<Rightarrow> (None, invalidParameter q name w) | Some b \<Rightarrow> (Some b, w))"

definition Q_Bool :: "url_values \<Rightarrow> string \<Rightarrow> writer \<Rightarrow> bool qres" where
  "Q_Bool q name w =
     (let s = Q_Str q name in
      if s = [] then (None, invalidParameter q name w)
      else case parse_bool s of None \<Rightarrow> (None, invalidParameter q name w) | Some b \<Rightarrow> (Some b, w))"

section \<open>Identifiers\<close>

definition IDReq :: "url_values \<Rightarrow> string \<Rightarrow> writer \<Rightarrow> string qres" where
  "IDReq q name w =
     (case StrReq q name w of (None, w') \<Rightarrow> (None, w')
      | (Some i, w') \<Rightarrow> if \<not> IDRegex_match i then (None, invalidParameter q name w') else (Some i, w'))"

definition IDTypeReq :: "url_values \<Rightarrow> string \<Rightarrow> id_type list \<Rightarrow> writer \<Rightarrow> string qres" where
  "IDTypeReq q name allowed w =
     (case IDReq q name w of (None, w') \<Rightarrow> (None, w')
      | (Some i, w') \<Rightarrow>
          (case GetIDType i of None \<Rightarrow> (None, invalidParameter q name w')
           | Some t \<Rightarrow> if t \<notin> set allowed then (None, invalidParameter q name w') else (Some i, w')))"

text \<open>The loops stop at the first identifier that fails, so one error is written at most.\<close>

fun ids_loop :: "(string \<Rightarrow> bool) \<Rightarrow> url_values \<Rightarrow> string \<Rightarrow> string list \<Rightarrow> writer \<Rightarrow> bool \<times> writer" where
  "ids_loop ok q name [] w = (True, w)"
| "ids_loop ok q name (s # ss) w =
     (if \<not> ok s then (False, invalidParameter q name w) else ids_loop ok q name ss w)"

definition Q_IDs :: "url_values \<Rightarrow> string \<Rightarrow> writer \<Rightarrow> string list qres" where
  "Q_IDs q name w =
     (let strs = Q_Strs q name in
      case ids_loop IDRegex_match q name strs w of (False, w') \<Rightarrow> (None, w') | (True, w') \<Rightarrow> (Some strs, w'))"

definition id_type_allowed :: "id_type list \<Rightarrow> string \<Rightarrow> bool" where
  "id_type_allowed allowed i = (case GetIDType i of None \<Rightarrow> False | Some t \<Rightarrow> t \<in> set allowed)"

definition IDsType :: "url_values \<Rightarrow> string \<Rightarrow> id_type list \<Rightarrow> writer \<Rightarrow> string list qres" where
  "IDsType q name allowed w =
     (case Q_IDs q name w of (None, w') \<Rightarrow> (None, w')
      | (Some ids, w') \<Rightarrow>
          (case ids_loop (id_type_allowed allowed) q name ids w' of
             (False, w2) \<Rightarrow> (None, w2) | (True, w2) \<Rightarrow> (Some ids, w2)))"

definition IDsTypeReq :: "url_values \<Rightarrow> string \<Rightarrow> id_type list \<Rightarrow> writer \<Rightarrow> string list qres" where
  "IDsTypeReq q name allowed w =
     (case IDsType q name allowed w of (None, w') \<Rightarrow> (None, w')
      | (Some ids, w') \<Rightarrow>
          if length ids = 0 then (None, missingParameter q name w') else (Some ids, w'))"

section \<open>Integers\<close>

definition Q_Int :: "url_values \<Rightarrow> string \<Rightarrow> writer \<Rightarrow> int option qres" where
  "Q_Int q name w =
     (let v = Q_Str q name in
      if v = [] then (Some None, w)
      else case atoi v of Inl _ \<Rightarrow> (None, invalidParameter q name w) | Inr i \<Rightarrow> (Some (Some i), w))"

definition IntDef :: "url_values \<Rightarrow> string \<Rightarrow> int \<Rightarrow> writer \<Rightarrow> int qres" where
  "IntDef q name def w =
     (case Q_Int q name w of (None, w') \<Rightarrow> (None, w')
      | (Some None, w') \<Rightarrow> (Some def, w')
      | (Some (Some i), w') \<Rightarrow> (Some i, w'))"

definition IntRange :: "url_values \<Rightarrow> string \<Rightarrow> int \<Rightarrow> int \<Rightarrow> writer \<Rightarrow> int option qres" where
  "IntRange q name lo hi w =
     (case Q_Int q name w of (None, w') \<Rightarrow> (None, w')
      | (Some None, w') \<Rightarrow> (Some None, w')
      | (Some (Some i), w') \<Rightarrow>
          if i < lo \<or> i > hi then (None, invalidParameter q name w') else (Some (Some i), w'))"

definition IntRangeReq :: "url_values \<Rightarrow> string \<Rightarrow> int \<Rightarrow> int \<Rightarrow> writer \<Rightarrow> int qres" where
  "IntRangeReq q name lo hi w =
     (case IntRange q name lo hi w of (None, w') \<Rightarrow> (None, w')
      | (Some None, w') \<Rightarrow> (None, invalidParameter q name w')
      | (Some (Some i), w') \<Rightarrow> (Some i, w'))"

definition IntPositive :: "url_values \<Rightarrow> string \<Rightarrow> writer \<Rightarrow> int option qres" where
  "IntPositive q name w = IntRange q name 0 max_int w"

definition IntPositiveDef :: "url_values \<Rightarrow> string \<Rightarrow> int \<Rightarrow> writer \<Rightarrow> int qres" where
  "IntPositiveDef q name def w =
     (case IntRange q name 0 max_int w of (None, w') \<Rightarrow> (None, w')
      | (Some None, w') \<Rightarrow> (Some def, w')
      | (Some (Some i), w') \<Rightarrow> (Some i, w'))"

definition IntPositiveReq :: "url_values \<Rightarrow> string \<Rightarrow> writer \<Rightarrow> int qres" where
  "IntPositiveReq q name w = IntRangeReq q name 0 max_int w"

fun ints_loop :: "url_values \<Rightarrow> string \<Rightarrow> string list \<Rightarrow> writer \<Rightarrow> int list qres" where
  "ints_loop q name [] w = (Some [], w)"
| "ints_loop q name (s # ss) w =
     (case atoi s of Inl _ \<Rightarrow> (None, invalidParameter q name w)
      | Inr i \<Rightarrow> (case ints_loop q name ss w of (None, w') \<Rightarrow> (None, w')
                 | (Some is, w') \<Rightarrow> (Some (i # is), w')))"

definition Q_Ints :: "url_values \<Rightarrow> string \<Rightarrow> writer \<Rightarrow> int list qres" where
  "Q_Ints q name w = ints_loop q name (Q_Strs q name) w"

text \<open>\<open>strconv.ParseInt(s, 10, 64)\<close> and \<open>strconv.Atoi\<close> agree on a 64-bit platform.\<close>

definition Q_Int64 :: "url_values \<Rightarrow> string \<Rightarrow> writer \<Rightarrow> int option qres" where
  "Q_Int64 q name w =
     (let v = Q_Str q name in
      if v = [] then (Some None, w)
      else case atoi v of Inl _ \<Rightarrow> (None, invalidParameter q name w) | Inr i \<Rightarrow> (Some (Some i), w))"

definition Q_Int64s :: "url_values \<Rightarrow> string \<Rightarrow> writer \<Rightarrow> int list qres" where
  "Q_Int64s q name w = ints_loop q name (Q_Strs q name) w"

section \<open>Paging, times, music folders\<close>

definition maxListSize :: int where
  "maxListSize = 500"

definition Q_Paginate :: "url_values \<Rightarrow> string \<Rightarrow> string \<Rightarrow> int \<Rightarrow> writer \<Rightarrow> Paginate qres" where
  "Q_Paginate q limitName offsetName defaultLimit w =
     (case IntRange q limitName 0 maxListSize w of (None, w') \<Rightarrow> (None, w')
      | (Some l, w') \<Rightarrow>
          let limit = (case l of None \<Rightarrow> defaultLimit | Some x \<Rightarrow> x)
          in case IntPositiveDef q offsetName 0 w' of (None, w2) \<Rightarrow> (None, w2)
             | (Some off, w2) \<Rightarrow> (Some \<lparr> pg_Offset = off, pg_Limit = Some limit \<rparr>, w2))"

definition PaginateUnlimited :: "url_values \<Rightarrow> string \<Rightarrow> string \<Rightarrow> writer \<Rightarrow> Paginate qres" where
  "PaginateUnlimited q limitName offsetName w =
     (case IntPositive q limitName w of (None, w') \<Rightarrow> (None, w')
      | (Some l, w') \<Rightarrow>
          (case IntPositiveDef q offsetName 0 w' of (None, w2) \<Rightarrow> (None, w2)
           | (Some off, w2) \<Rightarrow> (Some \<lparr> pg_Offset = off, pg_Limit = l \<rparr>, w2)))"

text \<open>A \<open>time.Time\<close> made by \<open>time.UnixMilli\<close> is its number of milliseconds.\<close>

definition TimeUnixMillis :: "url_values \<Rightarrow> string \<Rightarrow> writer \<Rightarrow> int option qres" where
  "TimeUnixMillis q name w = Q_Int64 q name w"

text \<open>The folder repository checks the requested folders against the user's.\<close>

definition MusicFolderIDs ::
  "(string \<Rightarrow> int list \<Rightarrow> go_error + int list) \<Rightarrow> url_values \<Rightarrow> writer \<Rightarrow> int list qres" where
  "MusicFolderIDs GetUserMusicFolderIDs q w =
     (case Q_Ints q ''musicFolderId'' w of (None, w') \<Rightarrow> (None, w')
      | (Some requested, w') \<Rightarrow>
          (case GetUserMusicFolderIDs (Q_User q) requested of
             Inr folderIDs \<Rightarrow> (Some folderIDs, w')
           | Inl err \<Rightarrow>
               if errors_Is err (EType ErrForbidden)
               then (None, respondNotFoundErr (Q_Format q) ''music folder not found'' w')
               else (None, respondErr (Q_Format q)
                       (EWrap ''get music folder ids for user'' err) w')))"

section \<open>Every accessor answers at most once\<close>

text \<open>
  The contract handlers rely on: an accessor that succeeds leaves the writer alone, one that fails
  has written exactly one error, so that the handler can return at once.
\<close>

definition accessor_ok :: "(writer \<Rightarrow> 'a qres) \<Rightarrow> bool" where
  "accessor_ok acc \<longleftrightarrow>
     (\<forall>w. case acc w of (Some _, w') \<Rightarrow> w' = w | (None, w') \<Rightarrow> \<exists>e. is_error_write e \<and> w' = w @ [e])"

locale accessor =
  fixes acc :: "writer \<Rightarrow> 'a qres"
  assumes contract: "accessor_ok acc"
begin

lemma ok_silent: "acc w = (Some a, w') \<Longrightarrow> w' = w"
  using contract by (auto simp: accessor_ok_def dest: spec [of _ w])

lemma fail_once: "acc w = (None, w') \<Longrightarrow> \<exists>e. is_error_write e \<and> w' = w @ [e]"
  using contract by (auto simp: accessor_ok_def dest: spec [of _ w])

lemma ok_iff_silent: "fst (acc w) \<noteq> None \<longleftrightarrow> snd (acc w) = w"
  using ok_silent [of w] fail_once [of w] by (cases "acc w"; cases "fst (acc w)") auto

lemma at_most_one: "length (snd (acc w)) \<le> Suc (length w)"
  using ok_silent [of w] fail_once [of w] by (cases "acc w"; cases "fst (acc w)") auto

end

named_theorems accessor_intros "the accessor contract of each accessor"

lemma accessor_okI:
  assumes "\<And>w a w'. acc w = (Some a, w') \<Longrightarrow> w' = w"
    and "\<And>w w'. acc w = (None, w') \<Longrightarrow> \<exists>e. is_error_write e \<and> w' = w @ [e]"
  shows "accessor_ok acc"
  using assms by (auto simp: accessor_ok_def split: prod.splits option.splits)

lemma accessor_okD:
  assumes "accessor_ok acc"
  shows "acc w = (Some a, w') \<Longrightarrow> w' = w" "acc w = (None, w') \<Longrightarrow> \<exists>e. is_error_write e \<and> w' = w @ [e]"
  using assms by (auto simp: accessor_ok_def dest: spec [of _ w])

text \<open>Accessors that go on after another one keep the contract if each continuation does.\<close>

lemma accessor_ok_then:
  assumes "accessor_ok acc" and "\<And>a. accessor_ok (f a)"
  shows "accessor_ok (\<lambda>w. case acc w of (None, w') \<Rightarrow> (None, w') | (Some a, w') \<Rightarrow> f a w')"
  by (rule accessor_okI)
    (auto split: prod.splits option.splits dest: accessor_okD [OF assms(1)] accessor_okD [OF assms(2)])

lemma accessor_ok_pure: "accessor_ok (\<lambda>w. (Some a, w))"
  by (simp add: accessor_ok_def)

lemma accessor_ok_invalid: "accessor_ok (\<lambda>w. (None, invalidParameter q name w))"
  by (simp add: accessor_ok_def invalidParameter_def EncodeError_def)

lemma accessor_ok_missing: "accessor_ok (\<lambda>w. (None, missingParameter q name w))"
  by (simp add: accessor_ok_def missingParameter_def EncodeError_def)

lemma accessor_ok_if: "accessor_ok f \<Longrightarrow> accessor_ok g \<Longrightarrow> accessor_ok (\<lambda>w. if b then f w else g w)"
  by (cases b) simp_all

lemma accessor_ok_case_option:
  "accessor_ok f \<Longrightarrow> (\<And>x. accessor_ok (g x)) \<Longrightarrow> accessor_ok (\<lambda>w. case y of None \<Rightarrow> f w | Some x \<Rightarrow> g x w)"
  by (cases y) simp_all

lemma accessor_ok_case_sum:
  "(\<And>e. accessor_ok (f e)) \<Longrightarrow> (\<And>x. accessor_ok (g x)) \<Longrightarrow>
   accessor_ok (\<lambda>w. case y of Inl e \<Rightarrow> f e w | Inr x \<Rightarrow> g x w)"
  by (cases y) simp_all

lemmas accessor_ok_rules = accessor_ok_pure accessor_ok_invalid accessor_ok_missing accessor_ok_if
  accessor_ok_case_option accessor_ok_case_sum

lemma StrReq_ok [accessor_intros]: "accessor_ok (StrReq q name)"
  unfolding StrReq_def Let_def by (intro accessor_ok_rules)

lemma StrsReq_ok [accessor_intros]: "accessor_ok (StrsReq q name)"
  unfolding StrsReq_def Let_def by (intro accessor_ok_rules)

lemma BoolDef_ok [accessor_intros]: "accessor_ok (BoolDef q name d)"
  unfolding BoolDef_def Let_def by (intro accessor_ok_rules)

lemma Bool_ok [accessor_intros]: "accessor_ok (Q_Bool q name)"
  unfolding Q_Bool_def Let_def by (intro accessor_ok_rules)

lemma Int_ok [accessor_intros]: "accessor_ok (Q_Int q name)"
  unfolding Q_Int_def Let_def by (intro accessor_ok_rules)

lemma Int64_ok [accessor_intros]: "accessor_ok (Q_Int64 q name)"
  unfolding Q_Int64_def Let_def by (intro accessor_ok_rules)

lemma IDReq_ok [accessor_intros]: "accessor_ok (IDReq q name)"
  unfolding IDReq_def by (intro accessor_ok_then StrReq_ok accessor_ok_rules)

lemma IDTypeReq_ok [accessor_intros]: "accessor_ok (IDTypeReq q name allowed)"
  unfolding IDTypeReq_def by (intro accessor_ok_then IDReq_ok accessor_ok_rules)

lemma ids_loop_eq:
  "ids_loop ok q name ss w = (list_all ok ss, if list_all ok ss then w else invalidParameter q name w)"
  by (induction ss) auto

lemma Q_IDs_eq:
  "Q_IDs q name w = (if list_all IDRegex_match (Q_Strs q name) then (Some (Q_Strs q name), w)
                     else (None, invalidParameter q name w))"
  by (simp add: Q_IDs_def Let_def ids_loop_eq)

lemma IDs_ok [accessor_intros]: "accessor_ok (Q_IDs q name)"
  unfolding Q_IDs_eq by (intro accessor_ok_rules)

lemma IDsType_eq:
  "IDsType q name allowed w =
     (if list_all IDRegex_match (Q_Strs q name) \<and> list_all (id_type_allowed allowed) (Q_Strs q name)
      then (Some (Q_Strs q name), w) else (None, invalidParameter q name w))"
  by (simp add: IDsType_def Q_IDs_eq ids_loop_eq)

lemma IDsType_ok [accessor_intros]: "accessor_ok (IDsType q name allowed)"
  unfolding IDsType_eq by (intro accessor_ok_rules)

lemma IDsTypeReq_ok [accessor_intros]: "accessor_ok (IDsTypeReq q name allowed)"
  unfolding IDsTypeReq_def by (intro accessor_ok_then IDsType_ok accessor_ok_rules)

lemma IntDef_ok [accessor_intros]: "accessor_ok (IntDef q name d)"
  unfolding IntDef_def by (intro accessor_ok_then Int_ok accessor_ok_rules)

lemma IntRange_ok [accessor_intros]: "accessor_ok (IntRange q name lo hi)"
  unfolding IntRange_def by (intro accessor_ok_then Int_ok accessor_ok_rules)

lemma IntRangeReq_ok [accessor_intros]: "accessor_ok (IntRangeReq q name lo hi)"
  unfolding IntRangeReq_def by (intro accessor_ok_then IntRange_ok accessor_ok_rules)

lemma IntPositive_ok [accessor_intros]: "accessor_ok (IntPositive q name)"
  unfolding IntPositive_def by (rule IntRange_ok)

lemma IntPositiveDef_ok [accessor_intros]: "accessor_ok (IntPositiveDef q name d)"
  unfolding IntPositiveDef_def by (intro accessor_ok_then IntRange_ok accessor_ok_rules)

lemma IntPositiveReq_ok [accessor_intros]: "accessor_ok (IntPositiveReq q name)"
  unfolding IntPositiveReq_def by (rule IntRangeReq_ok)

lemma ints_loop_ok: "accessor_ok (ints_loop q name ss)"
proof (induction ss)
  case Nil
  show ?case by (simp add: accessor_ok_pure)
next
  case (Cons s ss)
  then show ?case by (auto simp only: ints_loop.simps intro!: accessor_ok_then accessor_ok_rules)
qed

lemma Ints_ok [accessor_intros]: "accessor_ok (Q_Ints q name)"
  unfolding Q_Ints_def by (rule ints_loop_ok)

lemma Int64s_ok [accessor_intros]: "accessor_ok (Q_Int64s q name)"
  unfolding Q_Int64s_def by (rule ints_loop_ok)

lemma TimeUnixMillis_ok [accessor_intros]: "accessor_ok (TimeUnixMillis q name)"
  unfolding TimeUnixMillis_def by (rule Int64_ok)

lemma Paginate_ok [accessor_intros]: "accessor_ok (Q_Paginate q ln on d)"
  unfolding Q_Paginate_def Let_def
  by (intro accessor_ok_then IntRange_ok IntPositiveDef_ok accessor_ok_rules)

lemma PaginateUnlimited_ok [accessor_intros]: "accessor_ok (PaginateUnlimited q ln on)"
  unfolding PaginateUnlimited_def
  by (intro accessor_ok_then IntPositive_ok IntPositiveDef_ok accessor_ok_rules)

lemma MusicFolderIDs_ok [accessor_intros]: "accessor_ok (MusicFolderIDs get q)"
proof -
  have "accessor_ok (\<lambda>w. (None, respondNotFoundErr f m w))"
    and "accessor_ok (\<lambda>w. (None, respondErr f e w))" for f m e
    by (simp_all add: accessor_ok_def respond_defs)
  then show ?thesis
    unfolding MusicFolderIDs_def by (intro accessor_ok_then Ints_ok accessor_ok_rules)
qed

interpretation IDsTypeReq_acc: accessor "IDsTypeReq q name allowed" for q name allowed
  by unfold_locales (rule IDsTypeReq_ok)

interpretation Paginate_acc: accessor "Q_Paginate q ln on d" for q ln on d
  by unfold_locales (rule Paginate_ok)

interpretation MusicFolderIDs_acc: accessor "MusicFolderIDs get q" for get q
  by unfold_locales (rule MusicFolderIDs_ok)

text \<open>
  Every query accessor either succeeds without writing to the client, or fails after writing
  exactly one error response, for each of the string, boolean, identifier, integer, paging, time and
  music folder accessors. A handler that returns on failure therefore never answers twice.
\<close>

lemma accessors_answer_once:
  "accessor_ok (StrReq q name) \<and> accessor_ok (StrsReq q name) \<and> accessor_ok (BoolDef q name b) \<and>
   accessor_ok (Q_Bool q name) \<and> accessor_ok (IDReq q name) \<and> accessor_ok (IDTypeReq q name ts) \<and>
   accessor_ok (Q_IDs q name) \<and> accessor_ok (IDsType q name ts) \<and> accessor_ok (IDsTypeReq q name ts) \<and>
   accessor_ok (Q_Int q name) \<and> accessor_ok (IntDef q name d) \<and> accessor_ok (IntRange q name lo hi) \<and>
   accessor_ok (IntRangeReq q name lo hi) \<and> accessor_ok (IntPositive q name) \<and>
   accessor_ok (IntPositiveDef q name d) \<and> accessor_ok (IntPositiveReq q name) \<and>
   accessor_ok (Q_Ints q name) \<and> accessor_ok (Q_Int64 q name) \<and> accessor_ok (Q_Int64s q name) \<and>
   accessor_ok (Q_Paginate q name on d) \<and> accessor_ok (PaginateUnlimited q name on) \<and>
   accessor_ok (TimeUnixMillis q name) \<and> accessor_ok (MusicFolderIDs get q)"
  by (intro conjI accessor_intros)

text \<open>
  The required-identifier accessor succeeds exactly on a non-empty list of well-formed
  identifiers all of whose types are allowed, and then returns the parameter's values unchanged; an
  empty list is reported as a missing parameter, anything else as an invalid one.
\<close>

lemma ids_type_req_exact:
  "IDsTypeReq q name allowed w =
     (let ids = Q_Strs q name in
      if \<not> (\<forall>i\<in>set ids. \<exists>t\<in>set allowed. \<exists>gen. id_tail gen \<and> i = GenIDOf t gen)
      then (None, invalidParameter q name w)
      else if ids = [] then (None, missingParameter q name w) else (Some ids, w))"
proof -
  have "IDRegex_match i \<and> id_type_allowed allowed i \<longleftrightarrow>
        (\<exists>t\<in>set allowed. \<exists>gen. id_tail gen \<and> i = GenIDOf t gen)" for i
    by (auto simp: IDRegex_match_iff id_type_allowed_def GenIDOf_eq GetIDType_tagged
        id_tail_no_underscore)
  then have "list_all IDRegex_match ids \<and> list_all (id_type_allowed allowed) ids \<longleftrightarrow>
        (\<forall>i\<in>set ids. \<exists>t\<in>set allowed. \<exists>gen. id_tail gen \<and> i = GenIDOf t gen)" for ids
    unfolding list_all_iff ball_conj_distrib [symmetric] by (rule ball_cong [OF refl])
  then show ?thesis by (simp add: IDsTypeReq_def IDsType_eq Let_def)
qed

lemma ids_type_req_exact_example:
  "IDsTypeReq [''id'' \<mapsto> [''tr_abcDEF012-~z'']] ''id'' [IDTypeSong] [] = (Some [''tr_abcDEF012-~z''], []) \<and>
   IDsTypeReq Map.empty ''id'' [IDTypeSong] [] = (None, missingParameter Map.empty ''id'' [])"
proof -
  have t: "id_tail ''abcDEF012-~z''" by (simp add: id_tail_def IDAlphabet_def)
  have e: "''tr_abcDEF012-~z'' = GenIDOf IDTypeSong ''abcDEF012-~z''" by (simp add: GenIDOf_eq)
  have ok: "\<forall>i\<in>set [''tr_abcDEF012-~z'']. \<exists>t\<in>set [IDTypeSong]. \<exists>gen. id_tail gen \<and> i = GenIDOf t gen"
    using t e by auto
  have q: "Q_Strs [''id'' \<mapsto> [''tr_abcDEF012-~z'']] ''id'' = [''tr_abcDEF012-~z'']" "Q_Strs Map.empty ''id'' = []"
    by (simp_all add: Q_Strs_def values_get_all_def)
  show ?thesis
    using ok by (simp only: ids_type_req_exact q Let_def) simp
qed

lemma IntRange_Some:
  "IntRange q name lo hi w = (Some (Some i), w') \<Longrightarrow> lo \<le> i \<and> i \<le> hi"
  by (auto simp: IntRange_def split: prod.splits option.splits if_splits)

lemma IntPositiveDef_Some:
  "IntPositiveDef q name d w = (Some i, w') \<Longrightarrow> i = d \<or> 0 \<le> i \<and> i \<le> max_int"
  by (auto simp: IntPositiveDef_def split: prod.splits option.splits dest: IntRange_Some)

text \<open>
  A page read from a request never asks the database for more than 500 rows and never for a
  negative offset: the clauses added to the SQL query are one limit between 0 and 500, before it an
  offset when it is positive, and nothing else.
\<close>

lemma paginate_bounded:
  assumes "Q_Paginate q limitName offsetName defaultLimit w = (Some p, w')"
    and "0 \<le> defaultLimit" and "defaultLimit \<le> maxListSize"
  shows "\<exists>l off. 0 \<le> l \<and> l \<le> 500 \<and> 0 \<le> off \<and> off \<le> max_int \<and>
     Paginate_Apply p clauses =
       clauses @ (if off = 0 then [] else [(''OFFSET ?'', off)]) @ [(''LIMIT ?'', l)]"
proof -
  from assms obtain l off where p: "p = \<lparr> pg_Offset = off, pg_Limit = Some l \<rparr>"
    and "0 \<le> l \<and> l \<le> 500" and "0 \<le> off \<and> off \<le> max_int"
    by (auto simp: Q_Paginate_def Let_def maxListSize_def max_int_def
        split: prod.splits option.splits dest!: IntRange_Some IntPositiveDef_Some)
  then show ?thesis
    by (intro exI [of _ l] exI [of _ off]) (auto simp: Paginate_Apply_def)
qed

lemma paginate_bounded_example:
  "\<exists>p. Q_Paginate [''size'' \<mapsto> [''500''], ''offset'' \<mapsto> [''20'']] ''size'' ''offset'' 10 [] = (Some p, []) \<and>
     (\<exists>l off. 0 \<le> l \<and> l \<le> 500 \<and> 0 \<le> off \<and> off \<le> max_int \<and>
        Paginate_Apply p [] = [] @ (if off = 0 then [] else [(''OFFSET ?'', off)]) @ [(''LIMIT ?'', l)])"
proof -
  let ?q = "[''size'' \<mapsto> [''500''], ''offset'' \<mapsto> [''20'']]"
  have "atoi ''500'' = Inr 500" "atoi ''20'' = Inr 20"
    by (simp_all add: atoi_def atoi_full_def scan_simps clamp_int_def)
  then have r: "Q_Paginate ?q ''size'' ''offset'' 10 [] = (Some \<lparr> pg_Offset = 20, pg_Limit = Some 500 \<rparr>, [])"
    by (simp add: Q_Paginate_def IntRange_def IntPositiveDef_def Q_Int_def Q_Str_def values_Get_def
        values_get_all_def maxListSize_def max_int_def)
  have d: "0 \<le> (10::int)" "10 \<le> maxListSize" by (simp_all add: maxListSize_def)
  show ?thesis using r paginate_bounded [OF r d, of "[]"] by blast
qed

end
