(* ===== verification/Auth.thy ===== *)
theory Auth
  imports NetURL Query
begin

text \<open>
  Authentication of Subsonic requests (\<open>handlers/middlewares.go\<close>, with the failure table of
  \<open>handlers/handler.go\<close>): the rate limiter, password and token authentication, and the middleware
  that runs before every handler. Times are nanoseconds; each reading of the clock is an argument.
  The user repository, argon2id, AES-GCM and MD5 are fields of the environment.
\<close>

section \<open>The rate limiter\<close>

type_synonym failures = "string \<rightharpoonup> int list"

definition authRateWindow :: int where "authRateWindow = 5 * 1000000000"
definition authRateMaxFails :: nat where "authRateMaxFails = 3"

definition failures_of :: "failures \<Rightarrow> string \<Rightarrow> int list" where
  "failures_of f u = (case f u of None \<Rightarrow> [] | Some ts \<Rightarrow> ts)"

text \<open>\<open>now\<close> is read on entry, \<open>now'\<close> by \<open>time.Until\<close>; the duration is only used when limited.\<close>

definition isAuthRateLimited :: "failures \<Rightarrow> int \<Rightarrow> int \<Rightarrow> string \<Rightarrow> bool \<times> int" where
  "isAuthRateLimited f now now' username =
     (let cutoff = now - authRateWindow;
          inWindow = filter (\<lambda>t. t > cutoff) (failures_of f username)
      in if length inWindow < authRateMaxFails then (False, 0)
         else (True, (inWindow ! 0 + authRateWindow) - now'))"

definition recordAuthFailure :: "failures \<Rightarrow> int \<Rightarrow> string \<Rightarrow> failures" where
  "recordAuthFailure f now username =
     (let cutoff = now - authRateWindow;
          pruned = filter (\<lambda>t. t > cutoff) (failures_of f username)
      in f(username \<mapsto> pruned @ [now]))"

text \<open>One tick of \<open>cleanAuthFailures\<close>; the loop over the map touches each user's entry only.\<close>

definition cleanAuthFailures_tick :: "failures \<Rightarrow> int \<Rightarrow> failures" where
  "cleanAuthFailures_tick f now =
     (\<lambda>u. case f u of None \<Rightarrow> None
          | Some ts \<Rightarrow> let pruned = filter (\<lambda>t. t > now - authRateWindow) ts
                      in if length pruned = 0 then None else Some pruned)"

section \<open>Password and token authentication\<close>

record User =
  user_Name :: string
  user_EncryptedPassword :: "bytes option"
  user_HashedPassword :: "string option"

record auth_env =
  env_FindByName :: "string \<Rightarrow> go_error + User"
  env_FindUserNameByAPIKey :: "string \<Rightarrow> go_error + string"
  env_idkey :: kdf
  env_open :: "bytes \<Rightarrow> bytes \<Rightarrow> bytes \<Rightarrow> bytes option"
  env_md5 :: "bytes \<Rightarrow> bytes"
  env_EncryptionKey :: bytes

text \<open>The user updates asked of the database: the user and the new password.\<close>

type_synonym db_updates = "(string \<times> string) list"

definition errAuthTypeNotSupported :: go_error where
  "errAuthTypeNotSupported = EMsg ''auth type not supported''"

definition setHashedPasswordIfNil :: "User \<Rightarrow> string \<Rightarrow> db_updates" where
  "setHashedPasswordIfNil user password =
     (if user_HashedPassword user = None then [(user_Name user, password)] else [])"

definition decode_password :: "string \<Rightarrow> string option" where
  "decode_password password =
     (if prefix ''enc:'' password then hex_DecodeString (trim_prefix password ''enc:'')
      else Some password)"

definition passwordAuth :: "auth_env \<Rightarrow> string \<Rightarrow> string \<Rightarrow> (go_error + bool) \<times> db_updates" where
  "passwordAuth env username password0 =
     (case decode_password password0 of
        None \<Rightarrow> (Inl (EWrap ''failed to decode hex encoded password'' (EMsg ''encoding/hex'')), [])
      | Some password \<Rightarrow>
     (case env_FindByName env username of
        Inl err \<Rightarrow> (if errors_Is err (EType ErrNotFound) then (Inr False, [])
                    else (Inl (EWrap ''password auth'' err), []))
      | Inr user \<Rightarrow>
     (case user_HashedPassword user of
        Some h \<Rightarrow> (case VerifyPassword (env_idkey env) h password of
                    Inl e \<Rightarrow> (Inl (pw_go_error e), []) | Inr b \<Rightarrow> (Inr b, []))
      | None \<Rightarrow>
     (case user_EncryptedPassword user of
        None \<Rightarrow> (Inl errAuthTypeNotSupported, [])
      | Some enc \<Rightarrow>
     (case DecryptPassword (env_open env) enc (env_EncryptionKey env) of
        Inl e \<Rightarrow> (Inl (EWrap ''password auth'' (pw_go_error e)), [])
      | Inr dbPassword \<Rightarrow>
          if dbPassword \<noteq> password then (Inr False, [])
          else (Inr True, setHashedPasswordIfNil user password))))))"

definition tokenAuth :: "auth_env \<Rightarrow> string \<Rightarrow> string \<Rightarrow> string \<Rightarrow> (go_error + bool) \<times> db_updates" where
  "tokenAuth env username token salt =
     (case env_FindByName env username of
        Inl err \<Rightarrow> (if errors_Is err (EType ErrNotFound) then (Inr False, [])
                    else (Inl (EWrap ''token auth'' err), []))
      | Inr user \<Rightarrow>
     (case user_EncryptedPassword user of
        None \<Rightarrow> (Inl errAuthTypeNotSupported, [])
      | Some enc \<Rightarrow>
     (case DecryptPassword (env_open env) enc (env_EncryptionKey env) of
        Inl e \<Rightarrow> (Inl (EWrap ''token auth'' (pw_go_error e)), [])
      | Inr dbPassword \<Rightarrow>
          let dbToken = hex_EncodeToString (env_md5 env (dbPassword @ salt))
          in if dbToken \<noteq> token then (Inr False, [])
             else (Inr True, setHashedPasswordIfNil user dbPassword))))"

section \<open>The middleware\<close>

record http_request =
  rq_POST :: bool
  rq_Path :: string
  rq_RawQuery :: string
  rq_HasBody :: bool
  rq_ContentLength :: int
  rq_ContentType :: string
  rq_ReadBody :: "string option"  \<comment> \<open>\<open>None\<close>: reading fails\<close>

datatype mw_outcome = NextHandler url_values | Finished

record mw_result =
  mw_outcome :: mw_outcome
  mw_failures :: failures
  mw_writer :: writer
  mw_updates :: db_updates

definition merge_values :: "url_values \<Rightarrow> url_values \<Rightarrow> url_values" where
  "merge_values vals bodyVals =
     (\<lambda>k. case bodyVals k of None \<Rightarrow> vals k
          | Some v \<Rightarrow> (case vals k of None \<Rightarrow> Some v | Some old \<Rightarrow> Some (v @ old)))"

text \<open>The parameters of the request, or the response that refuses it.\<close>

definition read_params :: "http_request \<Rightarrow> writer + url_values" where
  "read_params r =
     (let vals = fst (ParseQuery (rq_RawQuery r)); fmt = values_Get vals ''f'' in
      if rq_POST r \<and> rq_HasBody r \<and> rq_ContentLength r \<noteq> 0 \<and>
         sublist ''application/x-www-form-urlencoded'' (rq_ContentType r)
      then case rq_ReadBody r of
             None \<Rightarrow> Inl (respondInternalErr fmt (EMsg ''read'') [])
           | Some body \<Rightarrow>
               (case ParseQuery body of
                  (_, True) \<Rightarrow> Inl (EncodeError fmt ''Request body is not a valid query string'' SubsonicErrorGeneric [])
                | (bodyVals, False) \<Rightarrow> Inr (merge_values vals bodyVals))
      else Inr vals)"

definition retry_after_seconds :: "int \<Rightarrow> int" where
  "retry_after_seconds ns = (let s = - ((- ns) div 1000000000) in if s < 1 then 1 else s)"

text \<open>The messages name the parameter in single quotes.\<close>

definition missing_parameter :: "string \<Rightarrow> string" where
  "missing_parameter p = ''missing parameter '' @ [CHR 0x27] @ p @ [CHR 0x27]"

text \<open>The choice between password and token, and its outcome; the middle case is a response.\<close>

definition check_credentials ::
  "auth_env \<Rightarrow> url_values \<Rightarrow> string \<Rightarrow> writer + (go_error + bool) \<times> db_updates" where
  "check_credentials env vals username =
     (let fmt = values_Get vals ''f'' in
      if values_Has vals ''p'' then
        (if values_Has vals ''t'' \<or> values_Has vals ''s''
         then Inl (EncodeError fmt ''multiple conflicting authentication mechanisms provided''
                     SubsonicErrorMultipleConflictingAuthenticationMechanismsProvided [])
         else Inr (passwordAuth env username (values_Get vals ''p'')))
      else if values_Has vals ''t'' then
        (if \<not> values_Has vals ''s''
         then Inl (EncodeError fmt (missing_parameter ''s'') SubsonicErrorRequiredParameterMissing [])
         else Inr (tokenAuth env username (values_Get vals ''t'') (values_Get vals ''s'')))
      else Inl (EncodeError fmt ''missing authentication parameter(s)''
                  SubsonicErrorRequiredParameterMissing []))"

definition refuse :: "failures \<Rightarrow> writer \<Rightarrow> mw_result" where
  "refuse f w = \<lparr> mw_outcome = Finished, mw_failures = f, mw_writer = w, mw_updates = [] \<rparr>"

definition extensions_path :: "string \<Rightarrow> bool" where
  "extensions_path p \<longleftrightarrow>
     p = ''/rest/getOpenSubsonicExtensions'' \<or> p = ''/rest/getOpenSubsonicExtensions.view''"

definition userPassAuth ::
  "auth_env \<Rightarrow> failures \<Rightarrow> int \<Rightarrow> int \<Rightarrow> int \<Rightarrow> url_values \<Rightarrow> mw_result" where
  "userPassAuth env f now now' now'' vals =
     (let fmt = values_Get vals ''f'' in
      if \<not> values_Has vals ''u'' then
        refuse f (EncodeError fmt (missing_parameter ''u'') SubsonicErrorRequiredParameterMissing [])
      else let username = values_Get vals ''u'' in
      case isAuthRateLimited f now now' username of
        (True, retryAfter) \<Rightarrow>
          refuse f (EncodeError fmt ''too many failed login attempts'' SubsonicErrorGeneric
                     [WHeader ''Retry-After'' (show_int (retry_after_seconds retryAfter)), WStatus 429])
      | (False, _) \<Rightarrow>
          (case check_credentials env vals username of
             Inl w \<Rightarrow> refuse f w
           | Inr (Inl err, ups) \<Rightarrow>
               (if errors_Is err errAuthTypeNotSupported then
                  (if values_Has vals ''t''
                   then refuse f (EncodeError fmt ''token authentication not supported''
                                    SubsonicErrorTokenAuthenticationNotSupported [])
                   else refuse f (EncodeError fmt ''provided authentication mechanism not supported''
                                    SubsonicErrorProvidedAuthenticationMechanismNotSupported []))
                else refuse f (respondInternalErr fmt err []))
           | Inr (Inr False, ups) \<Rightarrow>
               refuse (recordAuthFailure f now'' username)
                 (EncodeError fmt ''invalid credentials'' SubsonicErrorWrongUsernameOrPassword [])
           | Inr (Inr True, ups) \<Rightarrow>
               \<lparr> mw_outcome = NextHandler vals, mw_failures = f, mw_writer = [], mw_updates = ups \<rparr>))"

definition apiKeyAuth :: "auth_env \<Rightarrow> failures \<Rightarrow> url_values \<Rightarrow> mw_result" where
  "apiKeyAuth env f vals =
     (let fmt = values_Get vals ''f'' in
      if values_Has vals ''u'' \<or> values_Has vals ''p'' \<or> values_Has vals ''t'' \<or> values_Has vals ''s''
      then refuse f (EncodeError fmt ''multiple conflicting authentication mechanisms provided''
                       SubsonicErrorMultipleConflictingAuthenticationMechanismsProvided [])
      else case env_FindUserNameByAPIKey env (values_Get vals ''apiKey'') of
             Inl err \<Rightarrow> (if errors_Is err (EType ErrNotFound)
                         then refuse f (EncodeError fmt ''invalid api key'' SubsonicErrorInvalidAPIKey [])
                         else refuse f (respondInternalErr fmt err []))
           | Inr user \<Rightarrow> \<lparr> mw_outcome = NextHandler (vals(''u'' \<mapsto> [user])), mw_failures = f,
                           mw_writer = [], mw_updates = [] \<rparr>)"

definition subsonicMiddleware ::
  "auth_env \<Rightarrow> failures \<Rightarrow> int \<Rightarrow> int \<Rightarrow> int \<Rightarrow> http_request \<Rightarrow> mw_result" where
  "subsonicMiddleware env f now now' now'' r =
     (case read_params r of
        Inl w \<Rightarrow> refuse f w
      | Inr vals \<Rightarrow>
          let fmt = values_Get vals ''f'' in
          if \<not> values_Has vals ''v'' then
            refuse f (EncodeError fmt (missing_parameter ''v'') SubsonicErrorRequiredParameterMissing [])
          else if \<not> values_Has vals ''c'' then
            refuse f (EncodeError fmt (missing_parameter ''c'') SubsonicErrorRequiredParameterMissing [])
          else if extensions_path (rq_Path r) then
            \<lparr> mw_outcome = NextHandler vals, mw_failures = f, mw_writer = [], mw_updates = [] \<rparr>
          else if values_Has vals ''apiKey'' then apiKeyAuth env f vals
          else userPassAuth env f now now' now'' vals)"

section \<open>What the middleware lets through\<close>

text \<open>The user name a request presents, and whether it was refused for wrong credentials.\<close>

definition request_user :: "http_request \<Rightarrow> string" where
  "request_user r = (case read_params r of Inl _ \<Rightarrow> [] | Inr vals \<Rightarrow> values_Get vals ''u'')"

fun is_wrong_credentials :: "http_write \<Rightarrow> bool" where
  "is_wrong_credentials (WError _ _ c) = (c = SubsonicErrorWrongUsernameOrPassword)"
| "is_wrong_credentials _ = False"

definition wrong_credentials :: "mw_result \<Rightarrow> bool" where
  "wrong_credentials res = list_ex is_wrong_credentials (mw_writer res)"

text \<open>A presented credential that the environment accepts for this user.\<close>

definition credential_accepted :: "auth_env \<Rightarrow> url_values \<Rightarrow> string \<Rightarrow> bool" where
  "credential_accepted env vals u \<longleftrightarrow>
     (values_Has vals ''p'' \<and> fst (passwordAuth env u (values_Get vals ''p'')) = Inr True) \<or>
     (values_Has vals ''t'' \<and> values_Has vals ''s'' \<and>
        fst (tokenAuth env u (values_Get vals ''t'') (values_Get vals ''s'')) = Inr True)"

lemma check_credentials_accepted:
  "check_credentials env vals u = Inr (Inr True, ups) \<Longrightarrow> credential_accepted env vals u"
  by (auto simp: check_credentials_def credential_accepted_def Let_def split: if_splits)

lemma check_credentials_writer:
  "check_credentials env vals u = Inl w \<Longrightarrow> \<exists>e. is_error_write e \<and> \<not> is_wrong_credentials e \<and> w = [e]"
  by (auto simp: check_credentials_def Let_def EncodeError_def split: if_splits)

lemma read_params_writer:
  "read_params r = Inl w \<Longrightarrow> \<exists>e. is_error_write e \<and> \<not> is_wrong_credentials e \<and> w = [e]"
  by (auto simp: read_params_def Let_def respond_defs split: if_splits option.splits prod.splits bool.splits)

lemmas mw_splits = sum.splits option.splits prod.splits bool.splits if_splits

lemma userPassAuth_cases:
  obtains (passed) ups where "values_Has vals ''u''"
      "\<not> fst (isAuthRateLimited f now now' (values_Get vals ''u''))"
      "credential_accepted env vals (values_Get vals ''u'')"
      "userPassAuth env f now now' now'' vals =
         \<lparr> mw_outcome = NextHandler vals, mw_failures = f, mw_writer = [], mw_updates = ups \<rparr>"
  | (wrong) "values_Has vals ''u''"
      "\<not> fst (isAuthRateLimited f now now' (values_Get vals ''u''))"
      "userPassAuth env f now now' now'' vals =
         refuse (recordAuthFailure f now'' (values_Get vals ''u''))
           [WError (values_Get vals ''f'') ''invalid credentials'' SubsonicErrorWrongUsernameOrPassword]"
  | (refused) w where "userPassAuth env f now now' now'' vals = refuse f w"
      "\<not> list_ex is_wrong_credentials w" "length (filter is_error_write w) = 1"
proof (cases "values_Has vals ''u''")
  case False
  then show ?thesis
    by (intro refused) (auto simp: userPassAuth_def EncodeError_def)
next
  case u: True
  let ?u = "values_Get vals ''u''"
  show ?thesis
  proof (cases "isAuthRateLimited f now now' ?u")
    case (Pair lim after)
    show ?thesis
    proof (cases lim)
      case True
      then show ?thesis using u Pair
        by (intro refused) (auto simp: userPassAuth_def EncodeError_def Let_def)
    next
      case False
      show ?thesis
      proof (cases "check_credentials env vals ?u")
        case (Inl w)
        then show ?thesis using u Pair False check_credentials_writer [OF Inl]
          by (intro refused [of w]) (auto simp: userPassAuth_def)
      next
        case (Inr res)
        obtain v ups where res: "res = (v, ups)" by (cases res)
        show ?thesis
        proof (cases v)
          case (Inl e)
          then show ?thesis using u Pair False Inr res
            by (cases "errors_Is e errAuthTypeNotSupported"; cases "values_Has vals ''t''"; intro refused)
               (auto simp: userPassAuth_def respond_defs Let_def)
        next
          case b: (Inr b)
          show ?thesis
          proof (cases b)
            case True
            then show ?thesis using u Pair False Inr res b check_credentials_accepted
              by (intro passed) (auto simp: userPassAuth_def Let_def)
          next
            case False
            then show ?thesis using u Pair \<open>\<not> lim\<close> Inr res b
              by (intro wrong) (auto simp: userPassAuth_def Let_def EncodeError_def)
          qed
        qed
      qed
    qed
  qed
qed

lemma apiKeyAuth_cases:
  obtains (passed) user where
      "env_FindUserNameByAPIKey env (values_Get vals ''apiKey'') = Inr user"
      "apiKeyAuth env f vals = \<lparr> mw_outcome = NextHandler (vals(''u'' \<mapsto> [user])), mw_failures = f,
         mw_writer = [], mw_updates = [] \<rparr>"
      "\<not> values_Has vals ''p'' \<and> \<not> values_Has vals ''t'' \<and> \<not> values_Has vals ''s''"
  | (refused) w where "apiKeyAuth env f vals = refuse f w"
      "\<not> list_ex is_wrong_credentials w" "length (filter is_error_write w) = 1"
proof (cases "values_Has vals ''u'' \<or> values_Has vals ''p'' \<or> values_Has vals ''t'' \<or> values_Has vals ''s''")
  case True
  then show ?thesis by (intro refused) (auto simp: apiKeyAuth_def EncodeError_def Let_def)
next
  case False
  show ?thesis
  proof (cases "env_FindUserNameByAPIKey env (values_Get vals ''apiKey'')")
    case (Inl e)
    then show ?thesis using False
      by (cases "errors_Is e (EType ErrNotFound)"; intro refused)
         (auto simp: apiKeyAuth_def respond_defs Let_def)
  next
    case (Inr user)
    then show ?thesis using False by (intro passed) (auto simp: apiKeyAuth_def Let_def)
  qed
qed

lemma middleware_cases:
  obtains (refused) w where "subsonicMiddleware env f now now' now'' r = refuse f w"
      "\<not> list_ex is_wrong_credentials w" "length (filter is_error_write w) = 1"
  | (extensions) vals where "read_params r = Inr vals" "extensions_path (rq_Path r)"
      "subsonicMiddleware env f now now' now'' r =
         \<lparr> mw_outcome = NextHandler vals, mw_failures = f, mw_writer = [], mw_updates = [] \<rparr>"
  | (key) vals where "read_params r = Inr vals" "values_Has vals ''apiKey''" "\<not> extensions_path (rq_Path r)"
      "subsonicMiddleware env f now now' now'' r = apiKeyAuth env f vals"
  | (userpass) vals where "read_params r = Inr vals" "\<not> values_Has vals ''apiKey''"
      "\<not> extensions_path (rq_Path r)"
      "subsonicMiddleware env f now now' now'' r = userPassAuth env f now now' now'' vals"
proof (cases "read_params r")
  case (Inl w)
  then show ?thesis using read_params_writer [OF Inl]
    by (intro refused [of w]) (auto simp: subsonicMiddleware_def)
next
  case (Inr vals)
  let ?g = "\<lambda>p. refuse f (EncodeError (values_Get vals ''f'') (missing_parameter p)
                  SubsonicErrorRequiredParameterMissing [])"
  have g: "\<not> list_ex is_wrong_credentials (mw_writer (?g p)) \<and> length (filter is_error_write (mw_writer (?g p))) = 1" for p
    by (simp add: refuse_def EncodeError_def)
  consider "\<not> values_Has vals ''v''" | "values_Has vals ''v''" "\<not> values_Has vals ''c''"
    | "values_Has vals ''v''" "values_Has vals ''c''" by blast
  then show ?thesis
  proof cases
    case 1
    then show ?thesis using Inr g [of "''v''"]
      by (intro refused [of "mw_writer (?g ''v'')"]) (auto simp: subsonicMiddleware_def Let_def refuse_def)
  next
    case 2
    then show ?thesis using Inr g [of "''c''"]
      by (intro refused [of "mw_writer (?g ''c'')"]) (auto simp: subsonicMiddleware_def Let_def refuse_def)
  next
    case 3
    then show ?thesis using Inr extensions [of vals] key [of vals] userpass [of vals]
      by (cases "extensions_path (rq_Path r)"; cases "values_Has vals ''apiKey''")
         (simp_all add: subsonicMiddleware_def)
  qed
qed

text \<open>
  C1: a request reaches its handler only if its credentials hold: apart from the public extensions
  endpoint, the handler is called either with the user that owns the presented API key, or with the
  presented user name after that user's password or token was accepted and while the user was not
  rate limited. Then nothing has been written and no failure recorded; otherwise the handler is not
  called, exactly one error has been written and no user was updated.
\<close>

theorem middleware_authenticates:
  "case mw_outcome (subsonicMiddleware env f now now' now'' r) of
     NextHandler vals \<Rightarrow>
       mw_writer (subsonicMiddleware env f now now' now'' r) = [] \<and>
       mw_failures (subsonicMiddleware env f now now' now'' r) = f \<and>
       (\<not> extensions_path (rq_Path r) \<longrightarrow>
          env_FindUserNameByAPIKey env (values_Get vals ''apiKey'') = Inr (Q_User vals) \<or>
          credential_accepted env vals (Q_User vals) \<and> \<not> fst (isAuthRateLimited f now now' (Q_User vals)))
   | Finished \<Rightarrow>
       length (filter is_error_write (mw_writer (subsonicMiddleware env f now now' now'' r))) = 1 \<and>
       mw_updates (subsonicMiddleware env f now now' now'' r) = []"
proof (rule middleware_cases [of env f now now' now'' r], goal_cases)
  case (1 w)
  then show ?case by (simp add: refuse_def)
next
  case (2 vals)
  then show ?case by simp
next
  case (3 vals)
  show ?case
  proof (rule apiKeyAuth_cases [of env vals f], goal_cases)
    case (1 user)
    then show ?case using 3 by (simp add: Q_User_def Q_Str_def values_Get_def values_get_all_def)
  qed (use 3 in \<open>simp add: refuse_def\<close>)
next
  case (4 vals)
  show ?case
  proof (rule userPassAuth_cases [of vals f now now' env now''], goal_cases)
    case (1 ups)
    then show ?case using 4 by (simp add: Q_User_def Q_Str_def)
  qed (use 4 in \<open>simp_all add: refuse_def\<close>)
qed

definition carol_request :: http_request where
  "carol_request = \<lparr> rq_POST = False, rq_Path = ''/rest/ping'', rq_RawQuery = ''apiKey=k&v=1&c=app'',
     rq_HasBody = False, rq_ContentLength = 0, rq_ContentType = [], rq_ReadBody = None \<rparr>"

definition carol_env :: auth_env where
  "carol_env = \<lparr> env_FindByName = (\<lambda>_. Inl (EType ErrNotFound)),
     env_FindUserNameByAPIKey = (\<lambda>k. if k = ''k'' then Inr ''carol'' else Inl (EType ErrNotFound)),
     env_idkey = toy_kdf, env_open = toy_open, env_md5 = (\<lambda>x. x),
     env_EncryptionKey = replicate 32 (CHR ''k'') \<rparr>"

theorem middleware_authenticates_witness:
  "\<exists>vals. mw_outcome (subsonicMiddleware carol_env Map.empty 1 1 1 carol_request) = NextHandler vals \<and>
     \<not> extensions_path (rq_Path carol_request) \<and>
     (env_FindUserNameByAPIKey carol_env (values_Get vals ''apiKey'') = Inr (Q_User vals) \<or>
      credential_accepted carol_env vals (Q_User vals))"
proof -
  let ?v = "[''apiKey'' \<mapsto> [''k''], ''v'' \<mapsto> [''1''], ''c'' \<mapsto> [''app'']]"
  have p: "\<not> extensions_path (rq_Path carol_request)" by (simp add: carol_request_def extensions_path_def)
  have v: "read_params carol_request = Inr ?v"
    by (simp add: carol_request_def read_params_def ParseQuery_def QueryUnescape_def add_value_def Let_def
        fun_upd_twist)
  have o: "mw_outcome (subsonicMiddleware carol_env Map.empty 1 1 1 carol_request) = NextHandler (?v(''u'' \<mapsto> [''carol'']))"
    using p by (simp add: subsonicMiddleware_def v values_Has_def apiKeyAuth_def Let_def carol_env_def
        values_Get_def values_get_all_def)
  show ?thesis
    using o p middleware_authenticates [of carol_env Map.empty 1 1 1 carol_request] by auto
qed

lemma middleware_failures:
  assumes "res = subsonicMiddleware env f now now' now'' r"
  shows "if wrong_credentials res
         then mw_failures res = recordAuthFailure f now'' (request_user r) \<and>
              \<not> fst (isAuthRateLimited f now now' (request_user r))
         else mw_failures res = f"
  unfolding assms
proof (rule middleware_cases [of env f now now' now'' r], goal_cases)
  case (1 w)
  then show ?case by (simp add: refuse_def wrong_credentials_def)
next
  case (2 vals)
  then show ?case by (simp add: wrong_credentials_def)
next
  case (3 vals)
  show ?case
    by (rule apiKeyAuth_cases [of env vals f]) (use 3 in \<open>simp_all add: refuse_def wrong_credentials_def\<close>)
next
  case (4 vals)
  show ?case
    by (rule userPassAuth_cases [of vals f now now' env now''])
       (use 4 in \<open>simp_all add: refuse_def wrong_credentials_def request_user_def\<close>)
qed

text \<open>
  While three failures of a user lie within the last five seconds, a request for that user is
  answered the same way whatever its password or token and whatever is stored: no credential is
  looked at and the handler is not called.
\<close>

lemma limited_user_not_checked:
  assumes "read_params r = Inr vals" and "\<not> values_Has vals ''apiKey''" and "\<not> extensions_path (rq_Path r)"
    and "3 \<le> length (filter (\<lambda>t. t > now - 5000000000) (failures_of f (values_Get vals ''u'')))"
  shows "mw_outcome (subsonicMiddleware env f now now' now'' r) = Finished \<and>
         mw_failures (subsonicMiddleware env f now now' now'' r) = f \<and>
         subsonicMiddleware env f now now' now'' r = subsonicMiddleware env' f now now' now'' r"
proof -
  have "fst (isAuthRateLimited f now now' (values_Get vals ''u''))"
    using assms(4) by (simp add: isAuthRateLimited_def Let_def authRateWindow_def authRateMaxFails_def)
  then obtain after where lim: "isAuthRateLimited f now now' (values_Get vals ''u'') = (True, after)"
    by (metis (full_types) prod.collapse)
  have "userPassAuth e f now now' now'' vals =
      (if \<not> values_Has vals ''u'' then refuse f (EncodeError (values_Get vals ''f'')
          (missing_parameter ''u'') SubsonicErrorRequiredParameterMissing [])
       else refuse f (EncodeError (values_Get vals ''f'') ''too many failed login attempts'' SubsonicErrorGeneric
         [WHeader ''Retry-After'' (show_int (retry_after_seconds after)), WStatus 429]))" for e
    using lim by (simp add: userPassAuth_def Let_def)
  then show ?thesis using assms(1-3) by (simp add: subsonicMiddleware_def Let_def refuse_def)
qed

lemma limited_user_not_checked_example:
  "\<exists>r vals. read_params r = Inr vals \<and> values_Get vals ''u'' = ''bob'' \<and>
     (\<forall>env. mw_outcome (subsonicMiddleware env [''bob'' \<mapsto> [1, 2, 3]] 4 4 4 r) = Finished)"
proof -
  let ?r = "\<lparr> rq_POST = False, rq_Path = ''/rest/ping'', rq_RawQuery = ''u=bob&p=x&v=1&c=app'',
              rq_HasBody = False, rq_ContentLength = 0, rq_ContentType = [], rq_ReadBody = None \<rparr>"
  let ?v = "[''u'' \<mapsto> [''bob''], ''p'' \<mapsto> [''x''], ''v'' \<mapsto> [''1''], ''c'' \<mapsto> [''app'']]"
  have v: "read_params ?r = Inr ?v"
    by (simp add: read_params_def ParseQuery_def QueryUnescape_def add_value_def Let_def fun_upd_twist)
  have k: "\<not> values_Has ?v ''apiKey''" and p: "\<not> extensions_path (rq_Path ?r)"
    by (simp_all add: values_Has_def extensions_path_def)
  have u: "values_Get ?v ''u'' = ''bob''" by (simp add: values_Get_def values_get_all_def)
  have three: "3 \<le> length (filter (\<lambda>t. t > 4 - 5000000000)
      (failures_of [''bob'' \<mapsto> [1, 2, 3]] (values_Get ?v ''u'')))"
    unfolding u by (simp add: failures_of_def)
  show ?thesis using v u limited_user_not_checked [OF v k p three] by blast
qed

section \<open>Serving requests one after the other\<close>

text \<open>
  Events in the order the server sees them: a request, with the clock when the limiter looks and
  when the failure is recorded, or a cleaning tick. The log collects the failed credential checks:
  the time each was recorded and the user it was for.
\<close>

datatype auth_event = Request int int int http_request | Tick int

fun event_time :: "auth_event \<Rightarrow> int" where
  "event_time (Request now _ _ _) = now"
| "event_time (Tick now) = now"

fun event_end :: "auth_event \<Rightarrow> int" where
  "event_end (Request _ _ now'' _) = now''"
| "event_end (Tick now) = now"

fun serve1 :: "auth_env \<Rightarrow> failures \<times> (int \<times> string) list \<Rightarrow> auth_event \<Rightarrow> failures \<times> (int \<times> string) list" where
  "serve1 env (f, log) (Request now now' now'' r) =
     (let res = subsonicMiddleware env f now now' now'' r
      in (mw_failures res, if wrong_credentials res then log @ [(now'', request_user r)] else log))"
| "serve1 env (f, log) (Tick now) = (cleanAuthFailures_tick f now, log)"

definition serve :: "auth_env \<Rightarrow> auth_event list \<Rightarrow> failures \<times> (int \<times> string) list" where
  "serve env es = foldl (serve1 env) (Map.empty, []) es"

fun chronological :: "int \<Rightarrow> auth_event list \<Rightarrow> bool" where
  "chronological t [] = True"
| "chronological t (e # es) = (t \<le> event_time e \<and> event_time e \<le> event_end e \<and> chronological (event_end e) es)"

definition log_of :: "(int \<times> string) list \<Rightarrow> string \<Rightarrow> int list" where
  "log_of log u = map fst (filter (\<lambda>(_, v). v = u) log)"

definition in_window :: "int \<Rightarrow> int list \<Rightarrow> int list" where
  "in_window s ts = filter (\<lambda>x. s - authRateWindow < x \<and> x \<le> s) ts"

definition live :: "int \<Rightarrow> int list \<Rightarrow> int list" where
  "live t ts = filter (\<lambda>x. x > t - authRateWindow) ts"

definition limiter_inv :: "int \<Rightarrow> failures \<times> (int \<times> string) list \<Rightarrow> bool" where
  "limiter_inv t st \<longleftrightarrow> (\<forall>u. live t (failures_of (fst st) u) = live t (log_of (snd st) u) \<and>
      (\<forall>x\<in>set (log_of (snd st) u). x \<le> t) \<and>
      (\<forall>s. length (in_window s (log_of (snd st) u)) \<le> 3))"

lemma log_of_append [simp]: "log_of (log @ [(t, v)]) u = log_of log u @ (if v = u then [t] else [])"
  by (simp add: log_of_def)

lemma live_live: "t \<le> t' \<Longrightarrow> live t' (live t ts) = live t' ts"
  by (auto simp: live_def intro: filter_cong)

lemma live_mono: "t \<le> t' \<Longrightarrow> live t a = live t b \<Longrightarrow> live t' a = live t' b"
  by (metis live_live)

lemma limiter_inv_later: "limiter_inv t st \<Longrightarrow> t \<le> t' \<Longrightarrow> limiter_inv t' st"
  by (force simp: limiter_inv_def intro: live_mono)

lemma live_append: "live t (a @ b) = live t a @ live t b" and live_Nil [simp]: "live t [] = []"
  by (simp_all add: live_def)

lemma failures_of_record:
  "failures_of (recordAuthFailure f t u) v = (if v = u then live t (failures_of f u) @ [t] else failures_of f v)"
  by (simp add: recordAuthFailure_def failures_of_def live_def Let_def)

lemma failures_of_tick: "failures_of (cleanAuthFailures_tick f t) u = live t (failures_of f u)"
  by (auto simp: cleanAuthFailures_tick_def failures_of_def live_def Let_def split: option.splits)

lemma not_limited_iff:
  "\<not> fst (isAuthRateLimited f t t' u) \<longleftrightarrow> length (live t (failures_of f u)) < 3"
  by (simp add: isAuthRateLimited_def Let_def live_def authRateMaxFails_def)

text \<open>A new entry after fewer than three live ones keeps every window at three or fewer.\<close>

lemma in_window_snoc:
  assumes "length (live t ts) < 3" "t \<le> t'" "\<forall>x\<in>set ts. x \<le> t" "\<forall>s. length (in_window s ts) \<le> 3"
  shows "length (in_window s (ts @ [t'])) \<le> 3"
proof (cases "s - authRateWindow < t' \<and> t' \<le> s")
  case False
  then show ?thesis using assms(4) by (auto simp: in_window_def)
next
  case True
  have "filter (\<lambda>x. s - authRateWindow < x \<and> x \<le> s) ts = filter (\<lambda>x. s - authRateWindow < x) (live t ts)"
    using True assms(2,3) by (auto simp: live_def authRateWindow_def intro!: filter_cong)
  then have "length (filter (\<lambda>x. s - authRateWindow < x \<and> x \<le> s) ts) < 3"
    using assms(1) length_filter_le [of _ "live t ts"] by (metis le_less_trans)
  then show ?thesis using True by (simp add: in_window_def)
qed

lemma serve1_inv:
  assumes inv: "limiter_inv t st" and "t \<le> event_time e" "event_time e \<le> event_end e"
  shows "limiter_inv (event_end e) (serve1 env st e)"
proof (cases e)
  case (Tick now)
  obtain f log where st: "st = (f, log)" by (cases st)
  have "limiter_inv now st" using limiter_inv_later [OF inv] assms(2) Tick by simp
  then show ?thesis using Tick st by (simp add: limiter_inv_def failures_of_tick live_live)
next
  case (Request now now' now'' r)
  obtain f log where st: "st = (f, log)" by (cases st)
  let ?res = "subsonicMiddleware env f now now' now'' r" and ?u = "request_user r"
  have le: "now \<le> now''" using assms(3) Request by simp
  have i: "limiter_inv now (f, log)" using limiter_inv_later [OF inv] assms(2) Request st by simp
  note mf = middleware_failures [OF refl, of env f now now' now'' r]
  show ?thesis
  proof (cases "wrong_credentials ?res")
    case False
    then show ?thesis using mf Request st limiter_inv_later [OF i le] by (simp add: Let_def)
  next
    case True
    then have lim: "length (live now (log_of log ?u)) < 3"
      and fs: "mw_failures ?res = recordAuthFailure f now'' ?u"
      using mf i by (auto simp: not_limited_iff limiter_inv_def)
    have "limiter_inv now'' (recordAuthFailure f now'' ?u, log @ [(now'', ?u)])"
      using i le lim limiter_inv_later [OF i le]
      by (auto simp: limiter_inv_def failures_of_record live_append live_live in_window_snoc)
    then show ?thesis using True fs Request st by (simp add: Let_def)
  qed
qed

lemma serve_inv:
  "limiter_inv t st \<Longrightarrow> chronological t es \<Longrightarrow> \<exists>t'. limiter_inv t' (foldl (serve1 env) st es)"
proof (induction es arbitrary: t st)
  case (Cons e es)
  then show ?case using serve1_inv [of t st e env] by auto
qed auto

text \<open>
  C2: serving requests one after the other, with cleaning ticks anywhere between them, no user ever
  has more than three failed credential checks within five seconds, at any point in time.
\<close>

theorem at_most_three_failures:
  assumes "chronological t0 es"
  shows "length (filter (\<lambda>x. s - 5000000000 < x \<and> x \<le> s) (log_of (snd (serve env es)) u)) \<le> 3"
proof -
  have "limiter_inv t0 (Map.empty, [])"
    by (simp add: limiter_inv_def log_of_def failures_of_def live_def in_window_def)
  then obtain t' where "limiter_inv t' (serve env es)"
    unfolding serve_def using serve_inv [OF _ assms] by blast
  then show ?thesis by (simp add: limiter_inv_def in_window_def authRateWindow_def)
qed

text \<open>A request of user \<open>bob\<close> with a wrong password, and an environment that knows nobody.\<close>

definition bob_request :: http_request where
  "bob_request = \<lparr> rq_POST = False, rq_Path = ''/rest/ping'', rq_RawQuery = ''u=bob&p=x&v=1&c=app'',
     rq_HasBody = False, rq_ContentLength = 0, rq_ContentType = [], rq_ReadBody = None \<rparr>"

definition empty_env :: auth_env where
  "empty_env = \<lparr> env_FindByName = (\<lambda>_. Inl (EType ErrNotFound)),
     env_FindUserNameByAPIKey = (\<lambda>_. Inl (EType ErrNotFound)), env_idkey = toy_kdf,
     env_open = toy_open, env_md5 = (\<lambda>x. x), env_EncryptionKey = replicate 32 (CHR ''k'') \<rparr>"

theorem at_most_three_failures_witness:
  "chronological 0 (map (\<lambda>t. Request t t t bob_request) [1, 2, 3, 4, 5]) \<and>
   length (filter (\<lambda>x. 5 - 5000000000 < x \<and> x \<le> 5)
     (log_of (snd (serve empty_env (map (\<lambda>t. Request t t t bob_request) [1, 2, 3, 4, 5]))) ''bob'')) \<le> 3"
proof -
  have c: "chronological 0 (map (\<lambda>t. Request t t t bob_request) [1, 2, 3, 4, 5])" by simp
  show ?thesis using c at_most_three_failures [OF c, of 5 empty_env "''bob''"] by blast
qed

section \<open>Which credentials are accepted\<close>

lemma decode_password_plain: "\<not> prefix ''enc:'' pw \<Longrightarrow> decode_password pw = Some pw"
  by (simp add: decode_password_def)

lemma decode_password_hex: "decode_password (''enc:'' @ hex_EncodeToString pw) = Some pw"
proof -
  have "trim_prefix (''enc:'' @ hex_EncodeToString pw) ''enc:'' = hex_EncodeToString pw"
    by (rule trim_prefix_append)
  then show ?thesis by (simp add: decode_password_def)
qed

text \<open>
  A user whose password was stored with \<open>HashPassword\<close> logs in with that password, in plain or
  hex-encoded form, without any database update; another password is accepted exactly when argon2id
  maps it to the same key; and for a user name that is not stored the answer is a plain "no", as for a
  wrong password.
\<close>

lemma password_login:
  assumes "kdf_ok (env_idkey env)" and "HashPassword (env_idkey env) (Some salt) pw = Inr h"
    and "env_FindByName env u = Inr user" and "user_HashedPassword user = Some h"
    and "env_FindByName env v = Inl e" and "errors_Is e (EType ErrNotFound)"
  shows "passwordAuth env u (''enc:'' @ hex_EncodeToString pw) = (Inr True, []) \<and>
         (\<not> prefix ''enc:'' pw \<longrightarrow> passwordAuth env u pw = (Inr True, [])) \<and>
         (\<not> prefix ''enc:'' pw' \<longrightarrow> passwordAuth env u pw' =
            (Inr (env_idkey env pw' salt 1 3072 4 32 = env_idkey env pw salt 1 3072 4 32), [])) \<and>
         (\<not> prefix ''enc:'' pw' \<longrightarrow> passwordAuth env v pw' = (Inr False, []))"
proof -
  have v: "VerifyPassword (env_idkey env) h p =
      Inr (env_idkey env p salt 1 3072 4 32 = env_idkey env pw salt 1 3072 4 32)" for p
    by (rule VerifyPassword_HashPassword [OF assms(1,2)])
  have "passwordAuth env u (''enc:'' @ hex_EncodeToString pw) = (Inr True, [])"
    unfolding passwordAuth_def decode_password_hex using v assms(3,4) by simp
  then show ?thesis using v assms(3-6) by (auto simp: passwordAuth_def decode_password_plain)
qed

text \<open>
  Token authentication of a user with a stored encrypted password accepts a token exactly when
  it is the hexadecimal MD5 of the password followed by the salt, and the first login of a user
  without a hashed password asks the database to store one for that very password.
\<close>

lemma token_login:
  assumes "aead_ok seal (env_open env)" and "length nonce = 12" and "aes_key_ok (env_EncryptionKey env)"
    and "EncryptPassword seal (Some nonce) pw (env_EncryptionKey env) = Inr c"
    and "env_FindByName env u = Inr user" and "user_EncryptedPassword user = Some c"
  shows "tokenAuth env u token salt =
     (if token = hex_EncodeToString (env_md5 env (pw @ salt))
      then (Inr True, if user_HashedPassword user = None then [(user_Name user, pw)] else [])
      else (Inr False, []))"
proof -
  have "DecryptPassword (env_open env) c (env_EncryptionKey env) = Inr pw"
    using assms(4) by (intro DecryptPassword_EncryptPassword [OF assms(1-3)])
  then show ?thesis using assms(5,6) by (auto simp: tokenAuth_def setHashedPasswordIfNil_def Let_def)
qed

definition alice_hash :: string where
  "alice_hash = ''$argon2id$v=19$m=3072,t=1,p=4$'' @ b64_encode ''salt'' @ ''$'' @
     b64_encode (toy_kdf ''pw'' ''salt'' 1 3072 4 32)"

definition alice :: User where
  "alice = \<lparr> user_Name = ''alice'',
     user_EncryptedPassword = Some (replicate 12 (CHR ''n'') @ toy_seal (replicate 32 (CHR ''k'')) (replicate 12 (CHR ''n'')) ''pw''),
     user_HashedPassword = Some alice_hash \<rparr>"

definition alice_env :: auth_env where
  "alice_env = empty_env \<lparr> env_FindByName :=
     (\<lambda>u. if u = ''alice'' then Inr alice else Inl (EType ErrNotFound)) \<rparr>"

lemma password_login_example:
  "passwordAuth alice_env ''alice'' ''pw'' = (Inr True, []) \<and>
   passwordAuth alice_env ''eve'' ''pw'' = (Inr False, [])"
proof -
  have k: "kdf_ok (env_idkey alice_env)" by (simp add: alice_env_def empty_env_def toy_kdf_ok)
  have h: "HashPassword (env_idkey alice_env) (Some ''salt'') ''pw'' = Inr alice_hash"
    by (simp add: alice_env_def empty_env_def HashPassword_form alice_hash_def)
  have u: "env_FindByName alice_env ''alice'' = Inr alice" "user_HashedPassword alice = Some alice_hash"
    "env_FindByName alice_env ''eve'' = Inl (EType ErrNotFound)"
    by (simp_all add: alice_env_def alice_def)
  have n: "errors_Is (EType ErrNotFound) (EType ErrNotFound)" by simp
  show ?thesis using password_login [OF k h u n, of "''pw''"] by simp
qed

lemma token_login_example:
  "tokenAuth alice_env ''alice'' (hex_EncodeToString ''pwsea'') ''sea'' = (Inr True, [])"
proof -
  have a: "aead_ok toy_seal (env_open alice_env)"
    by (simp add: alice_env_def empty_env_def aead_ok_def toy_seal_def toy_open_def)
  have n: "length (replicate 12 (CHR ''n'')) = 12" by simp
  have k: "aes_key_ok (env_EncryptionKey alice_env)" by (simp add: alice_env_def empty_env_def aes_key_ok_def)
  have c: "EncryptPassword toy_seal (Some (replicate 12 (CHR ''n''))) ''pw'' (env_EncryptionKey alice_env)
      = Inr (the (user_EncryptedPassword alice))"
    using k by (simp add: EncryptPassword_def alice_def alice_env_def empty_env_def)
  have u: "env_FindByName alice_env ''alice'' = Inr alice"
    "user_EncryptedPassword alice = Some (the (user_EncryptedPassword alice))"
    by (simp_all add: alice_env_def alice_def)
  have "env_md5 alice_env (''pw'' @ ''sea'') = ''pwsea''" by (simp add: alice_env_def empty_env_def)
  then show ?thesis
    using token_login [OF a n k c u, of "hex_EncodeToString ''pwsea''" "''sea''"] by (simp add: alice_def)
qed

end
