(* ===== verification/RepoTypes.thy ===== *)
theory RepoTypes
  imports GoPrelude
begin

text \<open>
  The value types of the repository layer (\<open>repos/types.go\<close>): partial dates, durations in
  milliseconds over a 64-bit nanosecond count, and lists stored in one column. Each has a printer
  to the database driver (\<open>Value\<close>) and a reader back (\<open>Scan\<close>).
\<close>

section \<open>Values exchanged with the database driver\<close>

text \<open>
  The driver hands over \<open>nil\<close>, a string, a Go integer (\<open>int\<close>, \<open>int32\<close> and \<open>int64\<close> are treated
  alike by the readers here) or something of another type, of which only the type's name matters.
\<close>

datatype driver_value = VNil | VString string | VInt int64 | VOther string

datatype type_error = ErrInvalidDate | ErrCannotScan string

section \<open>Date\<close>

record Date =
  date_year :: int
  date_month :: int
  date_day :: int

definition Date_Year :: "Date \<Rightarrow> int" where
  "Date_Year d = date_year d"

definition Date_Month :: "Date \<Rightarrow> int option" where
  "Date_Month d = (if date_month d = 0 then None else Some (date_month d))"

definition Date_Day :: "Date \<Rightarrow> int option" where
  "Date_Day d = (if date_day d = 0 then None else Some (date_day d))"

definition Date_String :: "Date \<Rightarrow> string" where
  "Date_String d =
     (if date_month d = 0 then pad_int 4 (date_year d)
      else if date_day d = 0 then pad_int 4 (date_year d) @ ''-'' @ pad_int 2 (date_month d)
      else pad_int 4 (date_year d) @ ''-'' @ pad_int 2 (date_month d) @ ''-'' @ pad_int 2 (date_day d))"

definition Date_Value :: "Date option \<Rightarrow> driver_value" where
  "Date_Value d = (case d of None \<Rightarrow> VNil | Some x \<Rightarrow> VString (Date_String x))"

definition NewDate :: "int \<Rightarrow> int option \<Rightarrow> int option \<Rightarrow> Date" where
  "NewDate y m d = \<lparr> date_year = y,
     date_month = (case m of None \<Rightarrow> 0 | Some x \<Rightarrow> x),
     date_day = (case d of None \<Rightarrow> 0 | Some x \<Rightarrow> x) \<rparr>"

definition ParseDate :: "string \<Rightarrow> type_error + Date" where
  "ParseDate str =
     (let parts = split_on (CHR ''-'') str in
      if length parts > 3 then Inl ErrInvalidDate
      else case atoi (parts ! 0) of Inl _ \<Rightarrow> Inl ErrInvalidDate
      | Inr y \<Rightarrow>
        (if length parts = 1 then Inr \<lparr> date_year = y, date_month = 0, date_day = 0 \<rparr>
         else case atoi (parts ! 1) of Inl _ \<Rightarrow> Inl ErrInvalidDate
         | Inr m \<Rightarrow>
           (if m < 1 \<or> m > 12 then Inl ErrInvalidDate
            else if length parts = 2 then Inr \<lparr> date_year = y, date_month = m, date_day = 0 \<rparr>
            else case atoi (parts ! 2) of Inl _ \<Rightarrow> Inl ErrInvalidDate
            | Inr d \<Rightarrow>
              (if d < 1 \<or> d > 31 then Inl ErrInvalidDate
               else Inr \<lparr> date_year = y, date_month = m, date_day = d \<rparr>))))"

text \<open>\<open>Scan\<close> overwrites its receiver, except that \<open>nil\<close> leaves it alone.\<close>

definition Date_Scan :: "Date \<Rightarrow> driver_value \<Rightarrow> type_error + Date" where
  "Date_Scan d v =
     (case v of VNil \<Rightarrow> Inr d
      | VString s \<Rightarrow> ParseDate s
      | VInt _ \<Rightarrow> Inl (ErrCannotScan ''int'')
      | VOther t \<Rightarrow> Inl (ErrCannotScan t))"

text \<open>The dates the format can carry: a day only with a month, no negative year.\<close>

definition date_wf :: "Date \<Rightarrow> bool" where
  "date_wf d \<longleftrightarrow> 0 \<le> date_year d \<and> date_year d \<le> max_int \<and>
     0 \<le> date_month d \<and> date_month d \<le> 12 \<and> 0 \<le> date_day d \<and> date_day d \<le> 31 \<and>
     (date_month d = 0 \<longrightarrow> date_day d = 0)"

lemma in_range_small: "0 \<le> i \<Longrightarrow> i \<le> max_int \<Longrightarrow> in_range i"
  by (simp add: in_range_def min_int_def)

lemma split_on_date1: "0 \<le> y \<Longrightarrow> split_on (CHR ''-'') (pad_int w y) = [pad_int w y]"
  by (simp add: split_on_no_sep pad_int_no_dash)

lemma split_on_date2:
  "0 \<le> y \<Longrightarrow> split_on (CHR ''-'') (pad_int w y @ CHR ''-'' # s) = pad_int w y # split_on (CHR ''-'') s"
  by (simp add: split_on_append pad_int_no_dash)

lemmas date_print_simps = Date_String_def split_on_date1 split_on_date2 atoi_pad_int in_range_small

lemma ParseDate_String: "date_wf d \<Longrightarrow> ParseDate (Date_String d) = Inr d"
  by (cases d) (auto simp: date_wf_def ParseDate_def Let_def max_int_def date_print_simps)

text \<open>A part with no dash that \<open>Atoi\<close> accepts is not negative.\<close>

lemma atoi_no_dash: "CHR ''-'' \<notin> set s \<Longrightarrow> atoi s = Inr i \<Longrightarrow> 0 \<le> i"
  by (auto simp: atoi_def atoi_full_def clamp_int_def Let_def max_int_def min_int_def
      split: list.splits if_splits option.splits prod.splits)

lemma ParseDate_wf:
  assumes "ParseDate s = Inr d"
  shows "date_wf d"
proof -
  let ?p = "split_on (CHR ''-'') s ! 0"
  have "?p \<in> set (split_on (CHR ''-'') s)" by (simp add: in_set_conv_nth) (metis length_greater_0_conv split_on_not_Nil)
  then have nd: "CHR ''-'' \<notin> set ?p" by (rule split_on_parts)
  from assms obtain y where y: "atoi ?p = Inr y" and dy: "date_year d = y"
    by (auto simp: ParseDate_def Let_def split: sum.splits if_splits)
  from y nd have "0 \<le> y \<and> y \<le> max_int"
    using atoi_no_dash atoi_range [OF y] by (auto simp: in_range_def)
  with assms dy show ?thesis
    by (auto simp: ParseDate_def Let_def date_wf_def split: sum.splits if_splits)
qed

text \<open>
  Printing and parsing dates are inverse: a well-formed date, written with \<open>Value\<close>, is read
  back unchanged by \<open>Scan\<close>, whatever the receiver held, and everything \<open>ParseDate\<close> accepts is
  a well-formed date (so reading a column, writing it and reading it again changes nothing).
\<close>

lemma date_roundtrip:
  "(date_wf d \<longrightarrow> Date_Scan d0 (Date_Value (Some d)) = Inr d) \<and>
   (ParseDate s = Inr e \<longrightarrow> date_wf e \<and> ParseDate (Date_String e) = Inr e)"
  by (auto simp: Date_Scan_def Date_Value_def ParseDate_String ParseDate_wf)

lemma date_roundtrip_example:
  "date_wf \<lparr> date_year = 1997, date_month = 6, date_day = 0 \<rparr> \<and>
   Date_Scan (NewDate 1 None None)
     (Date_Value (Some \<lparr> date_year = 1997, date_month = 6, date_day = 0 \<rparr>))
   = Inr \<lparr> date_year = 1997, date_month = 6, date_day = 0 \<rparr>"
proof -
  have "date_wf \<lparr> date_year = 1997, date_month = 6, date_day = 0 \<rparr>"
    by (simp add: date_wf_def max_int_def)
  then show ?thesis using date_roundtrip by blast
qed

section \<open>DurationMS and NullDurationMS\<close>

text \<open>A \<open>time.Duration\<close>: nanoseconds in 64 bits. Division truncates towards zero.\<close>

type_synonym DurationMS = int64

definition go_div :: "int64 \<Rightarrow> int64 \<Rightarrow> int64" where
  "go_div a b = word_of_int (sint a sdiv sint b)"

definition NewDurationMS :: "int64 \<Rightarrow> DurationMS" where
  "NewDurationMS millis = millis * 1000000"

definition DurationMS_Millis :: "DurationMS \<Rightarrow> int64" where
  "DurationMS_Millis nt = go_div nt 1000000"

definition DurationMS_Scan :: "DurationMS \<Rightarrow> driver_value \<Rightarrow> type_error + DurationMS" where
  "DurationMS_Scan nt v =
     (case v of VNil \<Rightarrow> Inr nt
      | VInt ms \<Rightarrow> Inr (ms * 1000000)
      | VString _ \<Rightarrow> Inl (ErrCannotScan ''string'')
      | VOther t \<Rightarrow> Inl (ErrCannotScan t))"

definition DurationMS_Value :: "DurationMS \<Rightarrow> driver_value" where
  "DurationMS_Value nt = VInt (go_div nt 1000000)"

record NullDurationMS =
  nd_Duration :: DurationMS
  nd_Valid :: bool

definition NullDurationMS_Scan :: "NullDurationMS \<Rightarrow> driver_value \<Rightarrow> type_error + NullDurationMS" where
  "NullDurationMS_Scan nt v =
     (case v of VNil \<Rightarrow> Inr nt
      | VInt ms \<Rightarrow> Inr \<lparr> nd_Duration = ms * 1000000, nd_Valid = True \<rparr>
      | VString _ \<Rightarrow> Inl (ErrCannotScan ''string'')
      | VOther t \<Rightarrow> Inl (ErrCannotScan t))"

definition NullDurationMS_Value :: "NullDurationMS \<Rightarrow> driver_value" where
  "NullDurationMS_Value nt = (if \<not> nd_Valid nt then VNil else VInt (go_div (nd_Duration nt) 1000000))"

text \<open>The milliseconds whose nanosecond count fits into 64 bits.\<close>

definition ms_fits :: "int64 \<Rightarrow> bool" where
  "ms_fits ms \<longleftrightarrow> \<bar>sint ms\<bar> \<le> 9223372036854"

lemma sint_ms_mult: "ms_fits ms \<Longrightarrow> sint (ms * 1000000 :: int64) = sint ms * 1000000"
  by (subst sint_word_mult) (auto simp: ms_fits_def intro!: signed_take_bit_int_eq_self)

lemma sdiv_mult_cancel: "0 < b \<Longrightarrow> (a * b) sdiv b = (a :: int)"
  by (simp add: signed_divide_int_def abs_mult sgn_mult) (metis abs_of_pos mult.commute mult_sgn_abs sgn_pos)

lemma go_div_ms: "ms_fits ms \<Longrightarrow> go_div (ms * 1000000) 1000000 = ms"
  by (simp add: go_div_def sint_ms_mult sdiv_mult_cancel)

text \<open>
  A duration stored in milliseconds survives the way to the database and back, for plain and
  nullable durations, as long as its nanosecond count fits into 64 bits; an absent duration stays
  absent.
\<close>

lemma duration_roundtrip:
  assumes "ms_fits ms"
  shows "DurationMS_Millis (NewDurationMS ms) = ms \<and>
         DurationMS_Scan d0 (DurationMS_Value (NewDurationMS ms)) = Inr (NewDurationMS ms) \<and>
         NullDurationMS_Scan \<lparr> nd_Duration = 0, nd_Valid = False \<rparr>
           (NullDurationMS_Value \<lparr> nd_Duration = NewDurationMS ms, nd_Valid = v \<rparr>)
         = Inr (if v then \<lparr> nd_Duration = NewDurationMS ms, nd_Valid = True \<rparr>
                else \<lparr> nd_Duration = 0, nd_Valid = False \<rparr>)"
  using go_div_ms [OF assms]
  by (simp_all add: DurationMS_Millis_def NewDurationMS_def DurationMS_Scan_def DurationMS_Value_def
      NullDurationMS_Scan_def NullDurationMS_Value_def)

lemma duration_roundtrip_example:
  "ms_fits 9223372036854 \<and> DurationMS_Millis (NewDurationMS 9223372036854) = 9223372036854 \<and>
   DurationMS_Millis (NewDurationMS 9223372036855) \<noteq> 9223372036855"
proof -
  have f: "ms_fits 9223372036854" by (simp add: ms_fits_def)
  have "DurationMS_Millis (NewDurationMS 9223372036855) \<noteq> 9223372036855"
    by (simp add: DurationMS_Millis_def NewDurationMS_def go_div_def signed_divide_int_def)
  then show ?thesis using f duration_roundtrip [OF f] by blast
qed

section \<open>StringList\<close>

text \<open>A slice is nil (\<open>None\<close>) or has elements; the column joins them with the byte 3.\<close>

type_synonym StringList = "string list option"

definition list_sep :: char where
  "list_sep = CHR 0x03"

definition StringList_Scan :: "StringList \<Rightarrow> driver_value \<Rightarrow> type_error + StringList" where
  "StringList_Scan nt v =
     (case v of VNil \<Rightarrow> Inr None
      | VString raw \<Rightarrow>
          (let strs = split_on list_sep raw in
           if length strs = 1 \<and> strs ! 0 = [] then Inr None else Inr (Some strs))
      | VInt _ \<Rightarrow> Inl (ErrCannotScan ''int'')
      | VOther t \<Rightarrow> Inl (ErrCannotScan t))"

definition StringList_Value :: "StringList \<Rightarrow> driver_value" where
  "StringList_Value nt = (case nt of None \<Rightarrow> VNil | Some xs \<Rightarrow> VString (join_with [list_sep] xs))"

text \<open>
  A list of strings none of which contains the separator byte is read back as it was written,
  except that an empty list and a list of one empty string both come back as nil.
\<close>

lemma string_list_roundtrip:
  assumes "\<forall>x \<in> set xs. list_sep \<notin> set x"
  shows "StringList_Scan old (StringList_Value (Some xs)) =
           Inr (if xs = [] \<or> xs = [[]] then None else Some xs) \<and>
         StringList_Scan old (StringList_Value None) = Inr None"
proof -
  have "xs \<noteq> [] \<Longrightarrow> split_on list_sep (join_with [list_sep] xs) = xs"
    using split_join [of xs list_sep] assms by blast
  then show ?thesis
    by (cases xs) (auto simp: StringList_Scan_def StringList_Value_def Let_def)
qed

lemma string_list_roundtrip_example:
  "StringList_Scan None (StringList_Value (Some [''EMI'', '''', ''Harvest''])) =
     Inr (Some [''EMI'', '''', ''Harvest'']) \<and>
   StringList_Scan None (StringList_Value (Some [''''])) = Inr None"
proof -
  have sep: "\<forall>x \<in> set [''EMI'', '''', ''Harvest'']. list_sep \<notin> set x"
    and sep': "\<forall>x \<in> set ['''']. list_sep \<notin> set x" by (simp_all add: list_sep_def)
  show ?thesis using string_list_roundtrip [OF sep, of None]
    string_list_roundtrip [OF sep', of None] by simp
qed

end
