(* ===== verification/CacheObject.thy ===== *)
theory CacheObject
  imports NetURL
begin

text \<open>
  Cache objects and their readers (\<open>cache/object.go\<close>, \<open>cache/reader.go\<close>). Files are modelled with
  the distinction that matters to them: a directory entry names an inode, an open file refers to an
  inode and keeps it readable after the entry is removed. What the operating system may refuse to do
  is an argument (\<open>io_env\<close>). The channel \<open>dataChanged\<close>, which is closed and replaced on every
  signal, is the count of signals so far: a waiter holds the count it saw.
\<close>

section \<open>The file system\<close>

type_synonym path = "string list"

record world =
  w_data :: "nat \<Rightarrow> bytes"
  w_dir :: "path \<rightharpoonup> nat"
  w_isdir :: "path \<Rightarrow> bool"
  w_next :: nat

record file_handle =
  fh_ino :: nat
  fh_writable :: bool
  fh_off :: nat

record io_env =
  io_create_fails :: "path \<Rightarrow> bool"
  io_open_fails :: "path \<Rightarrow> bool"
  io_remove_fails :: "path \<Rightarrow> bool"
  io_close_fails :: bool
  io_write_limit :: "nat option"  \<comment> \<open>\<open>Some n\<close>: at most \<open>n\<close> bytes are written\<close>
  io_read_limit :: "nat option"
  io_stat_fails :: "path \<Rightarrow> bool"
  io_mkdir_fails :: bool
  io_removeall_fails :: bool
  io_readdir_fails :: bool

datatype cache_error = CErrExist | CErrNotExist | CErrComplete | CErrNotComplete | CErrIO | CErrEOF
  | CErrClosed | CErrCtx | CErrNotInUse | CErrWhence | CErrNegative

definition os_Create :: "io_env \<Rightarrow> path \<Rightarrow> world \<Rightarrow> (file_handle \<times> world) option" where
  "os_Create io p w =
     (if io_create_fails io p \<or> w_isdir w p \<or> \<not> w_isdir w (butlast p) then None
      else case w_dir w p of
        Some i \<Rightarrow> Some (\<lparr> fh_ino = i, fh_writable = True, fh_off = 0 \<rparr>, w\<lparr> w_data := (w_data w)(i := []) \<rparr>)
      | None \<Rightarrow> (let i = w_next w in
          Some (\<lparr> fh_ino = i, fh_writable = True, fh_off = 0 \<rparr>,
                w\<lparr> w_data := (w_data w)(i := []), w_dir := (w_dir w)(p \<mapsto> i), w_next := Suc i \<rparr>)))"

definition os_Open :: "io_env \<Rightarrow> path \<Rightarrow> world \<Rightarrow> file_handle option" where
  "os_Open io p w =
     (if io_open_fails io p \<or> w_isdir w p then None
      else map_option (\<lambda>i. \<lparr> fh_ino = i, fh_writable = False, fh_off = 0 \<rparr>) (w_dir w p))"

text \<open>The directories of the model, the cache directory and its parents, are never empty when removed.\<close>

definition os_Remove :: "io_env \<Rightarrow> path \<Rightarrow> world \<Rightarrow> cache_error + world" where
  "os_Remove io p w =
     (if w_isdir w p then Inl CErrIO else case w_dir w p of None \<Rightarrow> Inl CErrNotExist
      | Some i \<Rightarrow> if io_remove_fails io p then Inl CErrIO else Inr (w\<lparr> w_dir := (w_dir w)(p := None) \<rparr>))"

definition write_at :: "bytes \<Rightarrow> nat \<Rightarrow> bytes \<Rightarrow> bytes" where
  "write_at old off p =
     take off (old @ replicate (off - length old) (CHR 0x00)) @ p @ drop (off + length p) old"

definition file_Write :: "io_env \<Rightarrow> file_handle \<Rightarrow> bytes \<Rightarrow> world \<Rightarrow> nat \<times> cache_error option \<times> file_handle \<times> world" where
  "file_Write io f p w =
     (if \<not> fh_writable f then (0, Some CErrIO, f, w)
      else let n = (case io_write_limit io of None \<Rightarrow> length p | Some k \<Rightarrow> min k (length p))
           in (n, if n < length p then Some CErrIO else None, f\<lparr> fh_off := fh_off f + n \<rparr>,
               w\<lparr> w_data := (w_data w)(fh_ino f := write_at (w_data w (fh_ino f)) (fh_off f) (take n p)) \<rparr>))"

text \<open>
  \<open>File.ReadAt\<close> into a buffer of \<open>n\<close> bytes: the bytes read, with \<open>io.EOF\<close> when the file ends before the
  buffer does.
\<close>

definition file_ReadAt :: "io_env \<Rightarrow> file_handle \<Rightarrow> nat \<Rightarrow> int \<Rightarrow> world \<Rightarrow> bytes \<times> cache_error option" where
  "file_ReadAt io f n off w =
     (if off < 0 then ([], Some CErrIO)
      else let avail = take n (drop (nat off) (w_data w (fh_ino f)));
               d = (case io_read_limit io of None \<Rightarrow> avail | Some k \<Rightarrow> take k avail)
           in (d, if length d < length avail then Some CErrIO
                  else if length d < n then Some CErrEOF else None))"

section \<open>Paths of objects\<close>

text \<open>
  A cleaned absolute path is its components. \<open>filepath.Join\<close> of the cache directory with an escaped
  key cleans again, which matters for the three keys that are no file names.
\<close>

definition keyToPath :: "path \<Rightarrow> string \<Rightarrow> path" where
  "keyToPath dir key =
     (let e = PathEscape key in
      if e = [] \<or> e = ''.'' then dir else if e = ''..'' then butlast dir else dir @ [e])"

definition path_suffix :: "path \<Rightarrow> string \<Rightarrow> path" where
  "path_suffix p suf = butlast p @ [last p @ suf]"

definition completePath :: "path \<Rightarrow> string \<Rightarrow> path" where
  "completePath dir key = path_suffix (keyToPath dir key) ''-complete''"

definition keyFromPath :: "string \<Rightarrow> cache_error + string" where
  "keyFromPath name = (case PathUnescape name of None \<Rightarrow> Inl CErrIO | Some key \<Rightarrow> Inr key)"

section \<open>Objects\<close>

record Object =
  ob_key :: string
  ob_size :: int
  ob_file :: "file_handle option"
  ob_readerCount :: int
  ob_complete :: bool
  ob_dataChanged :: nat
  ob_modified :: int
  ob_accessed :: int

definition signalDataChanged :: "Object \<Rightarrow> Object" where
  "signalDataChanged o' = o'\<lparr> ob_dataChanged := Suc (ob_dataChanged o') \<rparr>"

definition newCacheObject :: "io_env \<Rightarrow> path \<Rightarrow> int \<Rightarrow> string \<Rightarrow> world \<Rightarrow> (cache_error + Object) \<times> world" where
  "newCacheObject io dir now key w =
     (case os_Create io (keyToPath dir key) w of
        None \<Rightarrow> (Inl CErrIO, w)
      | Some (f, w1) \<Rightarrow>
          (Inr \<lparr> ob_key = key, ob_size = 0, ob_file = Some f, ob_readerCount = 0, ob_complete = False,
                 ob_dataChanged = 0, ob_modified = now, ob_accessed = now \<rparr>,
           case os_Remove io (completePath dir key) w1 of Inl _ \<Rightarrow> w1 | Inr w2 \<Rightarrow> w2))"

text \<open>Writing to a file that was closed is an error of the operating system package.\<close>

definition Object_Write ::
  "io_env \<Rightarrow> int \<Rightarrow> bytes \<Rightarrow> Object \<Rightarrow> world \<Rightarrow> (nat \<times> cache_error option) \<times> Object \<times> world" where
  "Object_Write io now p o' w =
     (if ob_complete o' then ((0, Some CErrComplete), o', w)
      else let (n, err, f', w') =
             (case ob_file o' of None \<Rightarrow> (0, Some CErrIO, None, w)
              | Some f \<Rightarrow> (let (n, err, f1, w1) = file_Write io f p w in (n, err, Some f1, w1)));
               o1 = o'\<lparr> ob_file := f', ob_size := ob_size o' + int n, ob_modified := now \<rparr>
           in ((n, err), if n > 0 then signalDataChanged o1 else o1, w'))"

definition Object_SetComplete ::
  "io_env \<Rightarrow> path \<Rightarrow> Object \<Rightarrow> world \<Rightarrow> cache_error option \<times> Object \<times> world" where
  "Object_SetComplete io dir o' w =
     (let o1 = signalDataChanged (o'\<lparr> ob_complete := True \<rparr>)
      in case os_Create io (completePath dir (ob_key o')) w of
           None \<Rightarrow> (Some CErrIO, o1, w) | Some (_, w') \<Rightarrow> (None, o1, w'))"

definition Object_IsComplete :: "Object \<Rightarrow> bool" where
  "Object_IsComplete o' = ob_complete o'"

definition Object_Close :: "io_env \<Rightarrow> Object \<Rightarrow> cache_error option \<times> Object" where
  "Object_Close io o' =
     (case ob_file o' of None \<Rightarrow> (None, o')
      | Some f \<Rightarrow> (if io_close_fails io then Some CErrIO else None,
                   signalDataChanged (o'\<lparr> ob_file := None \<rparr>)))"

definition Object_UseFile ::
  "io_env \<Rightarrow> path \<Rightarrow> int \<Rightarrow> Object \<Rightarrow> world \<Rightarrow> cache_error option \<times> Object" where
  "Object_UseFile io dir now o' w =
     (let opened = (case ob_file o' of Some f \<Rightarrow> Some f | None \<Rightarrow> os_Open io (keyToPath dir (ob_key o')) w)
      in case opened of None \<Rightarrow> (Some CErrIO, o')
         | Some f \<Rightarrow> (None, o'\<lparr> ob_file := Some f, ob_readerCount := ob_readerCount o' + 1,
                               ob_accessed := now \<rparr>))"

definition Object_ReleaseFile :: "io_env \<Rightarrow> Object \<Rightarrow> cache_error option \<times> Object" where
  "Object_ReleaseFile io o' =
     (if ob_readerCount o' \<le> 0 then (Some CErrNotInUse, o')
      else let o1 = o'\<lparr> ob_readerCount := ob_readerCount o' - 1 \<rparr>
           in if ob_readerCount o1 \<le> 0 \<and> ob_complete o1 \<and> ob_file o1 \<noteq> None
              then (if io_close_fails io then Some CErrIO else None, o1\<lparr> ob_file := None \<rparr>)
              else (None, o1))"

definition Object_stats :: "Object \<Rightarrow> int \<times> int \<times> int" where
  "Object_stats o' = (ob_readerCount o', ob_size o', ob_accessed o')"

definition closeForEviction :: "io_env \<Rightarrow> Object \<Rightarrow> bool \<times> cache_error option \<times> Object" where
  "closeForEviction io o' =
     (if ob_readerCount o' > 0 then (False, None, o')
      else case ob_file o' of None \<Rightarrow> (True, None, o')
           | Some f \<Rightarrow> (True, if io_close_fails io then Some CErrIO else None,
                        signalDataChanged (o'\<lparr> ob_file := None \<rparr>)))"

section \<open>Readers\<close>

record cacheReader =
  cr_offset :: int

definition newCacheReader ::
  "io_env \<Rightarrow> path \<Rightarrow> int \<Rightarrow> Object \<Rightarrow> world \<Rightarrow> (cache_error + cacheReader) \<times> Object" where
  "newCacheReader io dir now o' w =
     (case Object_UseFile io dir now o' w of
        (Some e, o1) \<Rightarrow> (Inl e, o1) | (None, o1) \<Rightarrow> (Inr \<lparr> cr_offset = 0 \<rparr>, o1))"

text \<open>
  One look of \<open>waitForData\<close> at the object: go on, give up with an error, or block on the signal
  count it saw.
\<close>

datatype wait_look = WReady | WFail cache_error | WBlock nat

definition waitForData_look :: "Object \<Rightarrow> int \<Rightarrow> wait_look" where
  "waitForData_look o' off =
     (if ob_size o' - off \<le> 0 then
        (if ob_complete o' then WFail CErrEOF
         else if ob_file o' = None then WFail CErrClosed
         else WBlock (ob_dataChanged o'))
      else if ob_file o' = None then WFail CErrClosed else WReady)"

text \<open>
  What happens while it is blocked: the context is cancelled, or it is woken and sees the object as
  it then is. The result \<open>None\<close> means that it is still blocked when the wake-ups are used up.
\<close>

datatype wakeup = CtxDone Object | Woken Object

fun waitForData :: "Object \<Rightarrow> int \<Rightarrow> wakeup list \<Rightarrow> (cache_error option \<times> Object) option" where
  "waitForData o' off wakes =
     (case waitForData_look o' off of
        WReady \<Rightarrow> Some (None, o')
      | WFail e \<Rightarrow> Some (Some e, o')
      | WBlock g \<Rightarrow>
          (case wakes of [] \<Rightarrow> None
           | CtxDone o1 # _ \<Rightarrow> Some (Some CErrCtx, o1)
           | Woken o1 # ws \<Rightarrow> waitForData o1 off ws))"

text \<open>
  The read itself, once \<open>waitForData\<close> has returned without error; the file's end is no error. The
  Go functions return the bytes and the error together.
\<close>

definition read_now :: "io_env \<Rightarrow> Object \<Rightarrow> int \<Rightarrow> nat \<Rightarrow> world \<Rightarrow> bytes \<times> cache_error option" where
  "read_now io o' off len w =
     (case ob_file o' of None \<Rightarrow> ([], Some CErrClosed)
      | Some f \<Rightarrow>
          (let (d, err) = file_ReadAt io f (nat (min (int len) (ob_size o' - off))) off w
           in (d, if err = Some CErrEOF then None else err)))"

definition cacheReader_Read ::
  "io_env \<Rightarrow> cacheReader \<Rightarrow> Object \<Rightarrow> wakeup list \<Rightarrow> world \<Rightarrow> nat
     \<Rightarrow> ((bytes \<times> cache_error option) \<times> cacheReader) option" where
  "cacheReader_Read io c o' wakes w len =
     (case waitForData o' (cr_offset c) wakes of
        None \<Rightarrow> None
      | Some (Some e, _) \<Rightarrow> Some (([], Some e), c)
      | Some (None, o1) \<Rightarrow>
          (let (d, err) = read_now io o1 (cr_offset c) len w
           in Some ((d, err), c\<lparr> cr_offset := cr_offset c + int (length d) \<rparr>)))"

definition cacheReader_ReadAt ::
  "io_env \<Rightarrow> Object \<Rightarrow> wakeup list \<Rightarrow> world \<Rightarrow> nat \<Rightarrow> int \<Rightarrow> (bytes \<times> cache_error option) option" where
  "cacheReader_ReadAt io o' wakes w len off =
     (case waitForData o' off wakes of
        None \<Rightarrow> None
      | Some (Some e, _) \<Rightarrow> Some ([], Some e)
      | Some (None, o1) \<Rightarrow> Some (read_now io o1 off len w))"

datatype whence = SeekStart | SeekCurrent | SeekEnd | SeekOther

definition cacheReader_Seek :: "cacheReader \<Rightarrow> Object \<Rightarrow> int \<Rightarrow> whence \<Rightarrow> (cache_error + int) \<times> cacheReader" where
  "cacheReader_Seek c o' offset wh =
     (if \<not> ob_complete o' then (Inl CErrNotComplete, c)
      else let res = (case wh of SeekCurrent \<Rightarrow> Some (cr_offset c + offset)
                      | SeekStart \<Rightarrow> Some offset
                      | SeekEnd \<Rightarrow> Some (ob_size o' + offset)
                      | SeekOther \<Rightarrow> None)
           in case res of None \<Rightarrow> (Inl CErrWhence, c)
              | Some off \<Rightarrow> if off < 0 then (Inl CErrNegative, c)
                            else (Inr off, c\<lparr> cr_offset := off \<rparr>))"

definition cacheReader_Close :: "io_env \<Rightarrow> Object \<Rightarrow> cache_error option \<times> Object" where
  "cacheReader_Close io o' = Object_ReleaseFile io o'"


section \<open>The steps of an object\<close>

text \<open>
  The operations of other goroutines on the object, in any order, with any outcome of the file
  operations; \<open>s_world\<close> is whatever happens to other files meanwhile.
\<close>

inductive obj_step :: "path \<Rightarrow> Object \<times> world \<Rightarrow> Object \<times> world \<Rightarrow> bool" for dir where
  s_write: "Object_Write io now p o1 w1 = (r, o2, w2) \<Longrightarrow> obj_step dir (o1, w1) (o2, w2)"
| s_complete: "Object_SetComplete io dir o1 w1 = (r, o2, w2) \<Longrightarrow> obj_step dir (o1, w1) (o2, w2)"
| s_close: "Object_Close io o1 = (r, o2) \<Longrightarrow> obj_step dir (o1, w1) (o2, w1)"
| s_use: "Object_UseFile io dir now o1 w1 = (r, o2) \<Longrightarrow> obj_step dir (o1, w1) (o2, w1)"
| s_release: "Object_ReleaseFile io o1 = (r, o2) \<Longrightarrow> obj_step dir (o1, w1) (o2, w1)"
| s_evict: "closeForEviction io o1 = (b, r, o2) \<Longrightarrow> obj_step dir (o1, w1) (o2, w1)"
| s_world: "obj_step dir (o1, w1) (o1, w2)"

inductive_cases obj_stepE: "obj_step dir (o1, w1) (o2, w2)"

lemmas object_ops = Object_Write_def Object_SetComplete_def Object_Close_def Object_UseFile_def
  Object_ReleaseFile_def closeForEviction_def signalDataChanged_def Let_def

lemma signals_grow:
  assumes "obj_step dir (o1, w1) (o2, w2)"
  shows "ob_dataChanged o1 \<le> ob_dataChanged o2"
  using assms by (cases rule: obj_step.cases)
    (auto simp: object_ops split: if_splits option.splits prod.splits)

text \<open>A step without a signal does not change what a blocked reader would see.\<close>

lemma silent_step:
  assumes "obj_step dir (o1, w1) (o2, w2)" "ob_dataChanged o2 = ob_dataChanged o1"
    "waitForData_look o1 off = WBlock g"
  shows "waitForData_look o2 off = WBlock g"
proof -
  have "ob_dataChanged o1 < ob_dataChanged o2
    \<or> (waitForData_look o1 off = WBlock g \<longrightarrow> waitForData_look o2 off = WBlock g)"
    using assms(1) by (cases rule: obj_step.cases)
      (auto simp: object_ops waitForData_look_def split: if_splits option.splits prod.splits)
  then show ?thesis using assms by auto
qed

lemma blocked_until_signalled:
  assumes "(obj_step dir)\<^sup>*\<^sup>* s s'" "waitForData_look (fst s) off = WBlock g"
  shows "ob_dataChanged (fst s) \<le> ob_dataChanged (fst s')
    \<and> (ob_dataChanged (fst s') = ob_dataChanged (fst s) \<longrightarrow> waitForData_look (fst s') off = WBlock g)"
  using assms
proof (induction rule: rtranclp_induct)
  case base
  then show ?case by simp
next
  case (step y z)
  obtain o1 w1 o2 w2 where yz: "y = (o1, w1)" "z = (o2, w2)" by (cases y, cases z)
  with step have st: "obj_step dir (o1, w1) (o2, w2)" by simp
  show ?case
    using signals_grow [OF st] silent_step [OF st] step.IH [OF step.prems] by (auto simp: yz)
qed

lemma block_count: "waitForData_look ob off = WBlock g \<Longrightarrow> g = ob_dataChanged ob"
  by (auto simp: waitForData_look_def split: if_splits)

lemma complete_never_blocks: "ob_complete ob \<Longrightarrow> waitForData_look ob off \<noteq> WBlock g"
  by (simp add: waitForData_look_def)

lemma closed_never_blocks: "ob_file ob = None \<Longrightarrow> waitForData_look ob off \<noteq> WBlock g"
  by (simp add: waitForData_look_def)

text \<open>
  C31: No wake-up is lost. A reader that blocked on an object was shown a signal count; whatever the
  other goroutines then do to the object, in any order, as long as the count is unchanged a further
  look would block again, so a reader is never left asleep with data, an error or the end to report.
  Completing the object, closing it and writing to it raise the count, and after the first two
  nobody blocks.
\<close>

theorem no_lost_wakeup:
  assumes "(obj_step dir)\<^sup>*\<^sup>* (o1, w1) (o2, w2)" "waitForData_look o1 off = WBlock g"
  shows "g \<le> ob_dataChanged o2 \<and> (ob_dataChanged o2 = g \<longrightarrow> waitForData_look o2 off = WBlock g)
    \<and> (case Object_SetComplete io dir o2 w2 of (_, o3, _) \<Rightarrow>
          g < ob_dataChanged o3 \<and> (\<forall>off' g'. waitForData_look o3 off' \<noteq> WBlock g'))
    \<and> (case Object_Close io o2 of (_, o3) \<Rightarrow>
          (\<forall>off' g'. waitForData_look o3 off' \<noteq> WBlock g') \<and> (ob_file o2 \<noteq> None \<longrightarrow> g < ob_dataChanged o3))
    \<and> (case Object_Write io now p o2 w2 of ((n, _), o3, _) \<Rightarrow>
          ob_size o3 = ob_size o2 + int n \<and> (n > 0 \<longrightarrow> g < ob_dataChanged o3))"
proof -
  have g: "g = ob_dataChanged o1" using block_count assms(2) by blast
  note b = blocked_until_signalled [OF assms(1), of off g]
  have "g \<le> ob_dataChanged o2 \<and> (ob_dataChanged o2 = g \<longrightarrow> waitForData_look o2 off = WBlock g)"
    using b assms(2) g by simp
  moreover from this have "case Object_SetComplete io dir o2 w2 of (_, o3, _) \<Rightarrow>
      g < ob_dataChanged o3 \<and> (\<forall>off' g'. waitForData_look o3 off' \<noteq> WBlock g')"
    by (auto simp: Object_SetComplete_def Let_def signalDataChanged_def waitForData_look_def
        split: option.splits)
  moreover from calculation(1) have "case Object_Close io o2 of (_, o3) \<Rightarrow>
      (\<forall>off' g'. waitForData_look o3 off' \<noteq> WBlock g') \<and> (ob_file o2 \<noteq> None \<longrightarrow> g < ob_dataChanged o3)"
    by (auto simp: Object_Close_def signalDataChanged_def waitForData_look_def split: option.splits)
  moreover from calculation(1) have "case Object_Write io now p o2 w2 of ((n, _), o3, _) \<Rightarrow>
      ob_size o3 = ob_size o2 + int n \<and> (n > 0 \<longrightarrow> g < ob_dataChanged o3)"
    by (auto simp: Object_Write_def Let_def signalDataChanged_def split: option.splits prod.splits)
  ultimately show ?thesis by blast
qed

definition io_ok :: io_env where
  "io_ok = \<lparr> io_create_fails = (\<lambda>_. False), io_open_fails = (\<lambda>_. False), io_remove_fails = (\<lambda>_. False),
     io_close_fails = False, io_write_limit = None, io_read_limit = None, io_stat_fails = (\<lambda>_. False),
     io_mkdir_fails = False, io_removeall_fails = False, io_readdir_fails = False \<rparr>"

definition ex_file :: file_handle where
  "ex_file = \<lparr> fh_ino = 0, fh_writable = True, fh_off = 2 \<rparr>"

definition ex_object :: Object where
  "ex_object = \<lparr> ob_key = ''k'', ob_size = 2, ob_file = Some ex_file, ob_readerCount = 1,
     ob_complete = False, ob_dataChanged = 4, ob_modified = 0, ob_accessed = 0 \<rparr>"

definition ex_world :: world where
  "ex_world = \<lparr> w_data = (\<lambda>_. [])(0 := ''ab''), w_dir = [[''c'', ''k''] \<mapsto> 0],
     w_isdir = (\<lambda>p. p = [] \<or> p = [''c'']), w_next = 1 \<rparr>"

theorem no_lost_wakeup_witness:
  "waitForData_look ex_object 2 = WBlock 4
    \<and> 4 < ob_dataChanged (fst (snd (Object_Write io_ok 1 ''c'' ex_object ex_world)))"
proof -
  have "waitForData_look ex_object 2 = WBlock 4" by (simp add: waitForData_look_def ex_object_def)
  moreover have "Object_Write io_ok 1 ''c'' ex_object ex_world
    = ((1, None), fst (snd (Object_Write io_ok 1 ''c'' ex_object ex_world)),
       snd (snd (Object_Write io_ok 1 ''c'' ex_object ex_world)))"
    by (simp add: Object_Write_def ex_object_def ex_file_def file_Write_def io_ok_def Let_def)
  ultimately show ?thesis
    using no_lost_wakeup [of "[''c'']" ex_object ex_world ex_object ex_world 2 4 io_ok 1 "''c''"]
    by (auto split: prod.splits)
qed


section \<open>Reading what is being written\<close>

definition world_wf :: "world \<Rightarrow> bool" where
  "world_wf w \<longleftrightarrow> (\<forall>p i. w_dir w p = Some i \<longrightarrow> i < w_next w)
     \<and> (\<forall>p q i. w_dir w p = Some i \<longrightarrow> w_dir w q = Some i \<longrightarrow> p = q)"

lemma path_suffix_neq [simp]: "s \<noteq> [] \<Longrightarrow> path_suffix p s \<noteq> p"
  by (cases p rule: rev_cases) (auto simp: path_suffix_def)

lemma completePath_neq [simp]:
  "completePath dir key \<noteq> keyToPath dir key" "keyToPath dir key \<noteq> completePath dir key"
  using path_suffix_neq [of "''-complete''" "keyToPath dir key"] unfolding completePath_def
  by (simp, metis list.distinct(1))

lemma os_Create_cases:
  assumes "os_Create io p w = Some (f, w')"
  obtains (old) i where "w_dir w p = Some i" "f = \<lparr> fh_ino = i, fh_writable = True, fh_off = 0 \<rparr>"
      "w' = w\<lparr> w_data := (w_data w)(i := []) \<rparr>"
  | (new) "w_dir w p = None" "f = \<lparr> fh_ino = w_next w, fh_writable = True, fh_off = 0 \<rparr>"
      "w' = w\<lparr> w_data := (w_data w)(w_next w := []), w_dir := (w_dir w)(p \<mapsto> w_next w),
        w_next := Suc (w_next w) \<rparr>"
  using assms by (auto simp: os_Create_def Let_def split: if_splits option.splits)

lemma world_wf_create:
  assumes "world_wf w" "os_Create io p w = Some (f, w')"
  shows "world_wf w'"
  using assms(2)
proof (cases rule: os_Create_cases)
  case old
  then show ?thesis using assms(1) by (simp add: world_wf_def)
next
  case new
  from assms(1) have a: "\<And>q i. w_dir w q = Some i \<Longrightarrow> i < w_next w"
    and b: "\<And>q q' i. w_dir w q = Some i \<Longrightarrow> w_dir w q' = Some i \<Longrightarrow> q = q'"
    by (auto simp: world_wf_def)
  from a have "\<And>q. w_dir w q \<noteq> Some (w_next w)" by blast
  then show ?thesis using a b unfolding world_wf_def new by (auto intro: less_SucI)
qed

lemma os_Create_wf:
  assumes "world_wf w" "os_Create io p w = Some (f, w')"
  shows "world_wf w' \<and> w_dir w' p = Some (fh_ino f) \<and> w_data w' (fh_ino f) = [] \<and> fh_off f = 0
    \<and> fh_writable f \<and> fh_ino f < w_next w' \<and> w_next w \<le> w_next w' \<and> w_isdir w' = w_isdir w
    \<and> (\<forall>q. q \<noteq> p \<longrightarrow> w_dir w' q = w_dir w q)
    \<and> (\<forall>i. i < w_next w \<and> w_dir w p \<noteq> Some i \<longrightarrow> w_data w' i = w_data w i)"
proof -
  have "world_wf w'" by (rule world_wf_create [OF assms])
  moreover have "\<And>i. w_dir w p = Some i \<Longrightarrow> i < w_next w" using assms(1) by (auto simp: world_wf_def)
  ultimately show ?thesis using assms(2) by (elim os_Create_cases) auto
qed

lemma os_Remove_wf:
  assumes "world_wf w" "os_Remove io p w = Inr w'"
  shows "world_wf w' \<and> w_dir w' = (w_dir w)(p := None) \<and> w_data w' = w_data w \<and> w_next w' = w_next w
    \<and> w_isdir w' = w_isdir w"
  using assms unfolding os_Remove_def world_wf_def by (auto split: if_splits option.splits)

text \<open>
  One writer and one reader of an object: the events are writes, completion and reads, each with the
  faults the operating system chooses. \<open>got\<close> is what the reader was given, \<open>sent\<close> what the writer
  was told is written.
\<close>

datatype stream_ev = EvWrite io_env int bytes | EvComplete io_env | EvRead io_env nat

record stream =
  st_reader :: cacheReader
  st_obj :: Object
  st_world :: world
  st_got :: bytes
  st_sent :: bytes

fun stream_event :: "path \<Rightarrow> stream \<Rightarrow> stream_ev \<Rightarrow> stream" where
  "stream_event dir s (EvWrite io now p) =
     (let ((n, err), ob, w) = Object_Write io now p (st_obj s) (st_world s)
      in s\<lparr> st_obj := ob, st_world := w, st_sent := st_sent s @ take n p \<rparr>)"
| "stream_event dir s (EvComplete io) =
     (let (err, ob, w) = Object_SetComplete io dir (st_obj s) (st_world s)
      in s\<lparr> st_obj := ob, st_world := w \<rparr>)"
| "stream_event dir s (EvRead io n) =
     (case cacheReader_Read io (st_reader s) (st_obj s) [] (st_world s) n of
        None \<Rightarrow> s
      | Some ((d, err), c) \<Rightarrow> s\<lparr> st_reader := c, st_got := st_got s @ d \<rparr>)"

definition stream_start :: "io_env \<Rightarrow> path \<Rightarrow> int \<Rightarrow> string \<Rightarrow> world \<Rightarrow> stream option" where
  "stream_start io dir now key w =
     (case newCacheObject io dir now key w of
        (Inl _, _) \<Rightarrow> None
      | (Inr ob, w1) \<Rightarrow>
          (case newCacheReader io dir now ob w1 of
             (Inl _, _) \<Rightarrow> None
           | (Inr c, ob1) \<Rightarrow> Some \<lparr> st_reader = c, st_obj = ob1, st_world = w1, st_got = [], st_sent = [] \<rparr>))"

definition stream_inv :: "path \<Rightarrow> stream \<Rightarrow> bool" where
  "stream_inv dir s \<longleftrightarrow> world_wf (st_world s)
     \<and> (case ob_file (st_obj s) of None \<Rightarrow> False
        | Some f \<Rightarrow> fh_ino f < w_next (st_world s) \<and> w_data (st_world s) (fh_ino f) = st_sent s
            \<and> w_dir (st_world s) (completePath dir (ob_key (st_obj s))) \<noteq> Some (fh_ino f)
            \<and> (ob_complete (st_obj s) \<or> fh_writable f \<and> fh_off f = length (st_sent s)))
     \<and> ob_size (st_obj s) = int (length (st_sent s))
     \<and> cr_offset (st_reader s) = int (length (st_got s))
     \<and> (\<exists>rest. st_sent s = st_got s @ rest)"

lemma stream_start_inv:
  assumes "world_wf w" "stream_start io dir now key w = Some s"
  shows "stream_inv dir s \<and> st_got s = [] \<and> st_sent s = []"
proof -
  from assms(2) obtain ob w1 where n: "newCacheObject io dir now key w = (Inr ob, w1)"
    and s: "s = \<lparr> st_reader = \<lparr> cr_offset = 0 \<rparr>, st_obj = ob\<lparr> ob_readerCount := ob_readerCount ob + 1,
      ob_accessed := now \<rparr>, st_world = w1, st_got = [], st_sent = [] \<rparr>"
    by (auto simp: stream_start_def newCacheObject_def newCacheReader_def Object_UseFile_def Let_def
        split: sum.splits prod.splits option.splits)
  from n obtain f w0 where c: "os_Create io (keyToPath dir key) w = Some (f, w0)"
    and ob: "ob_file ob = Some f" "ob_size ob = 0" "ob_key ob = key" "ob_complete ob = False"
    and w1: "w1 = (case os_Remove io (completePath dir key) w0 of Inl _ \<Rightarrow> w0 | Inr w2 \<Rightarrow> w2)"
    by (auto simp: newCacheObject_def split: option.splits)
  note cw = os_Create_wf [OF assms(1) c]
  then have wf0: "world_wf w0" and k: "w_dir w0 (keyToPath dir key) = Some (fh_ino f)" by simp_all
  have "w_dir w0 (completePath dir key) \<noteq> Some (fh_ino f)"
  proof
    assume "w_dir w0 (completePath dir key) = Some (fh_ino f)"
    with wf0 k have "completePath dir key = keyToPath dir key" unfolding world_wf_def by blast
    then show False by simp
  qed
  then have k: "w_dir w0 (completePath dir key) \<noteq> Some (fh_ino f)" .
  have "world_wf w1 \<and> fh_ino f < w_next w1 \<and> w_data w1 (fh_ino f) = []
    \<and> w_dir w1 (completePath dir key) \<noteq> Some (fh_ino f)"
  proof (cases "os_Remove io (completePath dir key) w0")
    case Inl
    with cw k show ?thesis by (simp add: w1)
  next
    case (Inr w2)
    with cw os_Remove_wf [OF wf0 Inr] show ?thesis by (simp add: w1)
  qed
  with cw show ?thesis by (simp add: stream_inv_def s ob)
qed

lemma write_at_end: "write_at old (length old) p = old @ p"
  by (simp add: write_at_def)

lemma stream_write_inv:
  assumes "stream_inv dir s"
  shows "stream_inv dir (stream_event dir s (EvWrite io now p))"
proof -
  from assms obtain f rest where f: "ob_file (st_obj s) = Some f"
    and d: "w_data (st_world s) (fh_ino f) = st_sent s"
    and r: "ob_complete (st_obj s) \<or> fh_writable f \<and> fh_off f = length (st_sent s)"
    and sent: "st_sent s = st_got s @ rest"
    by (auto simp: stream_inv_def split: option.splits)
  show ?thesis
  proof (cases "ob_complete (st_obj s)")
    case True
    then show ?thesis using assms by (simp add: stream_inv_def Object_Write_def)
  next
    case False
    define n where "n = (case io_write_limit io of None \<Rightarrow> length p | Some k \<Rightarrow> min k (length p))"
    have n: "n \<le> length p" by (simp add: n_def split: option.split)
    let ?q = "take n p"
    from False f d r have w: "file_Write io f p (st_world s)
      = (n, if n < length p then Some CErrIO else None, f\<lparr> fh_off := length (st_sent s) + n \<rparr>,
         (st_world s)\<lparr> w_data := (w_data (st_world s))(fh_ino f := st_sent s @ ?q) \<rparr>)"
      by (simp add: file_Write_def Let_def n_def [symmetric] write_at_end)
    have g: "\<exists>rest. st_sent s @ ?q = st_got s @ rest" by (simp add: sent)
    from False f w show ?thesis
      using assms n g
      by (simp add: stream_inv_def Object_Write_def signalDataChanged_def Let_def world_wf_def split: option.splits)
  qed
qed

lemma stream_complete_inv:
  assumes "stream_inv dir s"
  shows "stream_inv dir (stream_event dir s (EvComplete io))"
proof (cases "os_Create io (completePath dir (ob_key (st_obj s))) (st_world s)")
  case None
  with assms show ?thesis
    by (auto simp: stream_inv_def Object_SetComplete_def signalDataChanged_def Let_def split: option.splits)
next
  case (Some r)
  obtain g w' where r: "r = (g, w')" by (cases r)
  from assms obtain f where f: "ob_file (st_obj s) = Some f" "fh_ino f < w_next (st_world s)"
    "w_data (st_world s) (fh_ino f) = st_sent s"
    "w_dir (st_world s) (completePath dir (ob_key (st_obj s))) \<noteq> Some (fh_ino f)"
    and wf: "world_wf (st_world s)"
    by (auto simp: stream_inv_def split: option.splits)
  note cw = os_Create_wf [OF wf Some [unfolded r]]
  have "fh_ino g \<noteq> fh_ino f"
    using Some f(2,4) by (auto simp: os_Create_def r Let_def split: if_splits option.splits)
  then show ?thesis using assms cw f
    by (auto simp: stream_inv_def Object_SetComplete_def signalDataChanged_def Let_def Some r)
qed


lemma stream_look:
  assumes "stream_inv dir s"
  shows "waitForData_look (st_obj s) (cr_offset (st_reader s))
    = (if st_got s = st_sent s then (if ob_complete (st_obj s) then WFail CErrEOF
         else WBlock (ob_dataChanged (st_obj s))) else WReady)"
  using assms by (auto simp: stream_inv_def waitForData_look_def split: option.splits)

lemma stream_read:
  assumes "stream_inv dir s"
  shows "cacheReader_Read io (st_reader s) (st_obj s) [] (st_world s) n
    = (if st_got s = st_sent s
       then (if ob_complete (st_obj s) then Some (([], Some CErrEOF), st_reader s) else None)
       else (let avail = take n (drop (length (st_got s)) (st_sent s));
                 d = (case io_read_limit io of None \<Rightarrow> avail | Some k \<Rightarrow> take k avail)
             in Some ((d, if length d < length avail then Some CErrIO else None),
                      (st_reader s)\<lparr> cr_offset := int (length (st_got s)) + int (length d) \<rparr>)))"
proof -
  from assms obtain f rest where f: "ob_file (st_obj s) = Some f"
    and d: "w_data (st_world s) (fh_ino f) = st_sent s"
    and off: "cr_offset (st_reader s) = int (length (st_got s))"
    and size: "ob_size (st_obj s) = int (length (st_sent s))"
    and sent: "st_sent s = st_got s @ rest"
    by (auto simp: stream_inv_def split: option.splits)
  have mm: "take (nat (min (int n) (int (length (st_sent s)) - int (length (st_got s)))))
      (drop (length (st_got s)) (st_sent s)) = take n (drop (length (st_got s)) (st_sent s))"
    by (simp add: sent min_def)
  have "waitForData (st_obj s) (int (length (st_got s))) [] =
    (if st_got s = st_sent s then (if ob_complete (st_obj s) then Some (Some CErrEOF, st_obj s) else None)
     else Some (None, st_obj s))"
    using stream_look [OF assms] by (simp add: off)
  then show ?thesis
    by (simp add: cacheReader_Read_def off read_now_def f file_ReadAt_def size d mm Let_def
        split: option.split)
qed

lemma stream_read_inv:
  assumes "stream_inv dir s"
  shows "stream_inv dir (stream_event dir s (EvRead io n))"
proof (cases "st_got s = st_sent s")
  case True
  then have "stream_event dir s (EvRead io n) = s"
    using stream_read [OF assms, of io n] by simp
  then show ?thesis using assms by simp
next
  case False
  define d where "d = (let avail = take n (drop (length (st_got s)) (st_sent s))
    in case io_read_limit io of None \<Rightarrow> avail | Some k \<Rightarrow> take k avail)"
  from assms obtain rest where sent: "st_sent s = st_got s @ rest" by (auto simp: stream_inv_def)
  have "\<exists>m. d = take m rest" by (auto simp: d_def sent Let_def split: option.splits)
  then have r: "\<exists>rest'. st_sent s = (st_got s @ d) @ rest'"
    by (metis append_assoc append_take_drop_id sent)
  have "stream_event dir s (EvRead io n) = s\<lparr> st_reader := (st_reader s)\<lparr> cr_offset :=
      int (length (st_got s)) + int (length d) \<rparr>, st_got := st_got s @ d \<rparr>"
    using False stream_read [OF assms, of io n] by (simp add: d_def Let_def)
  moreover have "stream_inv dir (s\<lparr> st_reader := (st_reader s)\<lparr> cr_offset :=
      int (length (st_got s)) + int (length d) \<rparr>, st_got := st_got s @ d \<rparr>)"
    using assms r by (auto simp: stream_inv_def split: option.splits)
  ultimately show ?thesis by (simp only:)
qed

lemma stream_run_inv: "stream_inv dir s \<Longrightarrow> stream_inv dir (foldl (stream_event dir) s evs)"
proof (induction evs arbitrary: s)
  case (Cons e evs)
  have "stream_inv dir (stream_event dir s e)"
    by (cases e) (use Cons.prems stream_write_inv stream_complete_inv stream_read_inv in simp_all)
  then show ?case using Cons.IH by simp
qed simp

text \<open>
  C4: A reader that streams an object while it is still being written gets exactly what was written.
  Whatever writes, completion and reads follow the creation of the object, in any order and with any
  file faults, what the reader got is a prefix of what the writer was told is written, and the next
  read with room in the buffer either waits, exactly when the reader has everything and the object is
  not complete, or reports the end, exactly when it has everything and the object is complete, or
  returns the next bytes, at least one, filling the buffer if there are enough. It never returns
  nothing without an error.
\<close>

theorem streaming_reader:
  assumes "world_wf w" "stream_start io dir now key w = Some s0" "s = foldl (stream_event dir) s0 evs"
    "0 < n" "io_read_limit io' = None"
  shows "st_got s @ drop (length (st_got s)) (st_sent s) = st_sent s
    \<and> (case cacheReader_Read io' (st_reader s) (st_obj s) [] (st_world s) n of
         None \<Rightarrow> st_got s = st_sent s \<and> \<not> Object_IsComplete (st_obj s)
       | Some ((d, Some e), c) \<Rightarrow> e = CErrEOF \<and> d = [] \<and> st_got s = st_sent s \<and> Object_IsComplete (st_obj s)
       | Some ((d, None), c) \<Rightarrow> d \<noteq> [] \<and> d = take n (drop (length (st_got s)) (st_sent s)))"
proof -
  have inv: "stream_inv dir s"
    using stream_run_inv stream_start_inv [OF assms(1,2)] assms(3) by blast
  then obtain rest where sent: "st_sent s = st_got s @ rest" by (auto simp: stream_inv_def)
  then show ?thesis using assms(4,5)
    by (simp add: stream_read [OF inv] Object_IsComplete_def Let_def)
qed

lemma path_keep_k [simp]: "path_keep (CHR ''k'')"
  by code_simp

definition empty_world :: "path \<Rightarrow> world" where
  "empty_world dir = \<lparr> w_data = (\<lambda>_. []), w_dir = (\<lambda>_. None), w_isdir = (\<lambda>p. p = take (length p) dir), w_next = 0 \<rparr>"

theorem streaming_reader_witness:
  "\<exists>s0. stream_start io_ok [''c''] 0 ''k'' (empty_world [''c'']) = Some s0
    \<and> (let s = foldl (stream_event [''c'']) s0
               [EvWrite io_ok 1 ''ab'', EvRead io_ok 1, EvWrite (io_ok\<lparr> io_write_limit := Some 2 \<rparr>) 1 ''cde'']
       in st_sent s = ''abcd'' \<and> st_got s = ''a''
         \<and> map_option (\<lambda>((d, e), c). (d, e)) (cacheReader_Read io_ok (st_reader s) (st_obj s) [] (st_world s) 2)
           = Some (''bc'', None))"
proof -
  let ?evs = "[EvWrite io_ok 1 ''ab'', EvRead io_ok 1, EvWrite (io_ok\<lparr> io_write_limit := Some 2 \<rparr>) 1 ''cde'']"
  have wf: "world_wf (empty_world [''c''])" by (simp add: world_wf_def empty_world_def)
  obtain s0 where s0: "stream_start io_ok [''c''] 0 ''k'' (empty_world [''c'']) = Some s0"
    "st_sent (foldl (stream_event [''c'']) s0 ?evs) = ''abcd''"
    "st_got (foldl (stream_event [''c'']) s0 ?evs) = ''a''"
    "\<not> ob_complete (st_obj (foldl (stream_event [''c'']) s0 ?evs))"
  proof -
    have "case stream_start io_ok [''c''] 0 ''k'' (empty_world [''c'']) of None \<Rightarrow> False
      | Some s0 \<Rightarrow> st_sent (foldl (stream_event [''c'']) s0 ?evs) = ''abcd''
        \<and> st_got (foldl (stream_event [''c'']) s0 ?evs) = ''a''
        \<and> \<not> ob_complete (st_obj (foldl (stream_event [''c'']) s0 ?evs))"
      by code_simp
    then show ?thesis using that by (auto split: option.splits)
  qed
  let ?s = "foldl (stream_event [''c'']) s0 ?evs"
  have "0 < (2::nat)" "io_read_limit io_ok = None" by (simp_all add: io_ok_def)
  from streaming_reader [OF wf s0(1) refl this, of ?evs]
  have "case cacheReader_Read io_ok (st_reader ?s) (st_obj ?s) [] (st_world ?s) 2 of
      None \<Rightarrow> ''a'' = ''abcd'' \<and> \<not> Object_IsComplete (st_obj ?s)
    | Some ((d, Some e), c) \<Rightarrow> e = CErrEOF \<and> d = [] \<and> ''a'' = ''abcd'' \<and> Object_IsComplete (st_obj ?s)
    | Some ((d, None), c) \<Rightarrow> d \<noteq> [] \<and> d = take 2 (drop (length ''a'') ''abcd'')"
    by (simp only: s0(2,3))
  with s0 show ?thesis by (auto simp: Let_def split: option.splits)
qed


section \<open>Counting readers, seeking\<close>

datatype use_ev = UUse io_env int | URelease io_env | UEvict io_env

text \<open>
  Runs opening and closing readers and eviction attempts on an object; the result lists the outcomes:
  a successful use counts 1, a successful release -1, anything else 0, and whether an eviction attempt
  closed the object is recorded with the count at that time.
\<close>

fun use_event :: "path \<Rightarrow> world \<Rightarrow> Object \<times> int \<times> (int \<times> bool) list \<Rightarrow> use_ev \<Rightarrow> Object \<times> int \<times> (int \<times> bool) list" where
  "use_event dir w (ob, n, ev) (UUse io now) =
     (case newCacheReader io dir now ob w of (Inl _, ob') \<Rightarrow> (ob', n, ev) | (Inr _, ob') \<Rightarrow> (ob', n + 1, ev))"
| "use_event dir w (ob, n, ev) (URelease io) =
     (case cacheReader_Close io ob of (e, ob') \<Rightarrow> (ob', if e = Some CErrNotInUse then n else n - 1, ev))"
| "use_event dir w (ob, n, ev) (UEvict io) =
     (case closeForEviction io ob of (b, _, ob') \<Rightarrow> (ob', n, ev @ [(n, b)]))"

definition use_inv :: "int \<Rightarrow> Object \<times> int \<times> (int \<times> bool) list \<Rightarrow> bool" where
  "use_inv n0 s \<longleftrightarrow> (case s of (ob, n, ev) \<Rightarrow>
     fst (Object_stats ob) = n0 + n \<and> 0 \<le> n0 + n \<and> list_all (\<lambda>(k, b). b = (n0 + k \<le> 0)) ev
     \<and> (0 < n0 + n \<longrightarrow> ob_file ob \<noteq> None))"

lemma use_event_inv: "use_inv n0 s \<Longrightarrow> use_inv n0 (use_event dir w s e)"
  by (cases s; cases e)
    (auto simp: use_inv_def Object_stats_def newCacheReader_def cacheReader_Close_def Object_UseFile_def
      Object_ReleaseFile_def closeForEviction_def signalDataChanged_def Let_def
      split: option.splits prod.splits sum.splits if_splits)

lemma use_run_inv: "use_inv n0 s \<Longrightarrow> use_inv n0 (foldl (use_event dir w) s evs)"
  by (induction evs arbitrary: s) (simp_all add: use_event_inv)

text \<open>
  Readers are counted exactly. After any sequence of opening readers, closing them and eviction
  attempts the count is the readers opened minus the readers closed and never negative, as long as a
  reader is open the file is open, and an eviction attempt succeeds exactly when no reader was open
  at that moment. Closing more readers than were opened is an error that changes nothing.
\<close>

lemma readers_counted:
  assumes "ob_readerCount ob = 0" "foldl (use_event dir w) (ob, 0, []) evs = (ob', n, ev)"
  shows "Object_stats ob' = (n, ob_size ob', ob_accessed ob') \<and> 0 \<le> n
    \<and> (ob_file ob' = None \<longrightarrow> n = 0)
    \<and> list_all (\<lambda>(k, closed). closed = (k \<le> 0)) ev
    \<and> (n = 0 \<longrightarrow> Object_ReleaseFile io ob' = (Some CErrNotInUse, ob'))
    \<and> (n > 0 \<longrightarrow> closeForEviction io ob' = (False, None, ob'))"
proof -
  have "use_inv 0 (ob, 0, [])" using assms(1) by (simp add: use_inv_def Object_stats_def)
  from use_run_inv [OF this, of dir w evs] have i: "use_inv 0 (ob', n, ev)" by (simp add: assms(2))
  then show ?thesis
    by (auto simp: use_inv_def Object_stats_def Object_ReleaseFile_def closeForEviction_def)
qed

lemma readers_counted_example:
  "snd (foldl (use_event [''c''] ex_world) (ex_object\<lparr> ob_readerCount := 0, ob_complete := True \<rparr>, 0, [])
      [UUse io_ok 1, UUse io_ok 2, URelease io_ok, UEvict io_ok, URelease io_ok, UEvict io_ok, URelease io_ok])
    = (0, [(1, False), (0, True)])
   \<and> Object_stats (fst (foldl (use_event [''c''] ex_world)
      (ex_object\<lparr> ob_readerCount := 0, ob_complete := True \<rparr>, 0, [])
      [UUse io_ok 1, UUse io_ok 2, URelease io_ok, UEvict io_ok, URelease io_ok, UEvict io_ok, URelease io_ok])) = (0, 2, 2)"
proof -
  let ?evs = "[UUse io_ok 1, UUse io_ok 2, URelease io_ok, UEvict io_ok, URelease io_ok, UEvict io_ok, URelease io_ok]"
  let ?ob = "ex_object\<lparr> ob_readerCount := 0, ob_complete := True \<rparr>"
  let ?r = "foldl (use_event [''c''] ex_world) (?ob, 0, []) ?evs"
  have r: "snd ?r = (0, [(1, False), (0, True)]) \<and> ob_size (fst ?r) = 2 \<and> ob_accessed (fst ?r) = 2" by code_simp
  then have "?r = (fst ?r, 0, [(1, False), (0, True)])" by (metis prod.collapse)
  from readers_counted [OF _ this, of io_ok] r show ?thesis by simp
qed

text \<open>
  Seeking positions a reader of a complete object at any non-negative offset, also past the end,
  relative to the start, its position or the end; the next read returns the bytes from there on, or
  the end of the file when there are none. Every other request is an error that leaves the position.
\<close>

lemma seek_then_read:
  assumes "Object_IsComplete ob" "ob_file ob = Some f" "ob_size ob = int (length content)"
    "w_data w (fh_ino f) = content" "0 < n" "io_read_limit io = None"
  shows "(case cacheReader_Seek c ob offset wh of
      (Inr pos, c') \<Rightarrow>
         cr_offset c' = pos \<and> 0 \<le> pos
         \<and> (wh = SeekStart \<and> pos = offset \<or> wh = SeekCurrent \<and> pos = cr_offset c + offset
            \<or> wh = SeekEnd \<and> pos = int (length content) + offset)
         \<and> cacheReader_Read io c' ob [] w n =
             (if pos < int (length content)
              then let d = take n (drop (nat pos) content) in Some ((d, None), \<lparr> cr_offset = pos + int (length d) \<rparr>)
              else Some (([], Some CErrEOF), c'))
    | (Inl e, c') \<Rightarrow> c' = c \<and> (e = CErrWhence \<and> wh = SeekOther \<or> e = CErrNegative))
    \<and> cacheReader_Seek c (ob\<lparr> ob_complete := False \<rparr>) offset wh = (Inl CErrNotComplete, c)"
proof -
  have rd: "cacheReader_Read io \<lparr> cr_offset = pos \<rparr> ob [] w n =
      (if pos < int (length content)
       then let d = take n (drop (nat pos) content) in Some ((d, None), \<lparr> cr_offset = pos + int (length d) \<rparr>)
       else Some (([], Some CErrEOF), \<lparr> cr_offset = pos \<rparr>))" if "0 \<le> pos" for pos
  proof (cases "pos < int (length content)")
    case True
    have "take (nat (min (int n) (int (length content) - pos))) (drop (nat pos) content)
      = take n (drop (nat pos) content)"
      using that by (intro take_equalityI) (auto simp: min_def nat_diff_distrib)
    with True assms that show ?thesis
      by (simp add: Object_IsComplete_def cacheReader_Read_def waitForData_look_def read_now_def
          file_ReadAt_def Let_def)
  next
    case False
    with assms show ?thesis
      by (simp add: Object_IsComplete_def cacheReader_Read_def waitForData_look_def)
  qed
  show ?thesis
    using assms(1,3) rd
    by (cases wh; cases c) (auto simp: cacheReader_Seek_def Object_IsComplete_def Let_def)
qed


lemma seek_then_read_example:
  "case cacheReader_Seek \<lparr> cr_offset = 7 \<rparr> (ex_object\<lparr> ob_complete := True \<rparr>) (- 1) SeekEnd of
     (Inr pos, c') \<Rightarrow> pos = 1
       \<and> cacheReader_Read io_ok c' (ex_object\<lparr> ob_complete := True \<rparr>) [] ex_world 4
         = Some ((''b'', None), \<lparr> cr_offset = 2 \<rparr>)
   | _ \<Rightarrow> False"
proof -
  have "io_read_limit io_ok = None" by (simp add: io_ok_def)
  from seek_then_read [where ob = "ex_object\<lparr> ob_complete := True \<rparr>" and f = ex_file and content = "''ab''"
      and w = ex_world and n = 4 and io = io_ok and wh = SeekEnd and offset = "- 1"
      and c = "\<lparr> cr_offset = 7 \<rparr>", OF _ _ _ _ _ this]
  show ?thesis
    by (simp add: ex_object_def ex_file_def ex_world_def Object_IsComplete_def cacheReader_Seek_def Let_def)
qed

end
