(* ===== verification/Cache.thy ===== *)
theory Cache
  imports CacheObject
begin

text \<open>
  The cache (\<open>cache/cache.go\<close>). Callers keep pointers to objects after the cache dropped them, so
  objects live in a heap and the cache maps keys to references. An operation that ranges over the Go
  map takes the order of the keys as an argument; time is the nanosecond count given to an
  operation. Each operation runs under \<open>objectsLock\<close> and is therefore one step.
\<close>

section \<open>State\<close>

type_synonym ref = nat

record Cache =
  c_dir :: path
  c_maxSize :: int
  c_maxUnusedTime :: int
  c_objects :: "string \<rightharpoonup> ref"
  c_cleaning :: bool
  c_closed :: bool

record sys =
  sy_cache :: Cache
  sy_heap :: "ref \<Rightarrow> Object"
  sy_next :: ref
  sy_world :: world

abbreviation sy_dir :: "sys \<Rightarrow> path" where
  "sy_dir s \<equiv> c_dir (sy_cache s)"

abbreviation sy_objects :: "sys \<Rightarrow> (string \<rightharpoonup> ref)" where
  "sy_objects s \<equiv> c_objects (sy_cache s)"

definition set_objects :: "(string \<rightharpoonup> ref) \<Rightarrow> sys \<Rightarrow> sys" where
  "set_objects m s = s\<lparr> sy_cache := (sy_cache s)\<lparr> c_objects := m \<rparr> \<rparr>"

definition set_obj :: "ref \<Rightarrow> Object \<Rightarrow> world \<Rightarrow> sys \<Rightarrow> sys" where
  "set_obj r ob w s = s\<lparr> sy_heap := (sy_heap s)(r := ob), sy_world := w \<rparr>"

section \<open>Operations\<close>

definition GetObject :: "string \<Rightarrow> sys \<Rightarrow> ref option" where
  "GetObject key s = sy_objects s key"

definition CreateObject :: "io_env \<Rightarrow> int \<Rightarrow> string \<Rightarrow> sys \<Rightarrow> (cache_error + ref) \<times> sys" where
  "CreateObject io now key s =
     (case sy_objects s key of Some _ \<Rightarrow> (Inl CErrExist, s)
      | None \<Rightarrow>
          (case newCacheObject io (sy_dir s) now key (sy_world s) of
             (Inl e, w) \<Rightarrow> (Inl e, s\<lparr> sy_world := w \<rparr>)
           | (Inr ob, w) \<Rightarrow>
               (let r = sy_next s
                in (Inr r, set_objects ((sy_objects s)(key \<mapsto> r))
                             ((set_obj r ob w s)\<lparr> sy_next := Suc r \<rparr>)))))"

definition remove_path :: "io_env \<Rightarrow> path \<Rightarrow> sys \<Rightarrow> cache_error option \<times> sys" where
  "remove_path io p s =
     (case os_Remove io p (sy_world s) of Inl e \<Rightarrow> (Some e, s) | Inr w \<Rightarrow> (None, s\<lparr> sy_world := w \<rparr>))"

definition DeleteObject :: "io_env \<Rightarrow> string \<Rightarrow> sys \<Rightarrow> cache_error option \<times> sys" where
  "DeleteObject io key s =
     (case sy_objects s key of None \<Rightarrow> (None, s)
      | Some r \<Rightarrow>
          (let (err, ob) = Object_Close io (sy_heap s r);
               s1 = set_obj r ob (sy_world s) s
           in if err \<noteq> None then (err, s1)
              else case remove_path io (keyToPath (sy_dir s) key) s1 of
                (Some e, s2) \<Rightarrow> (Some e, s2)
              | (None, s2) \<Rightarrow>
                  (let s3 = set_objects ((sy_objects s)(key := None)) s2
                   in if ob_complete ob then remove_path io (completePath (sy_dir s) key) s3 else (None, s3))))"

definition close_ref :: "io_env \<Rightarrow> sys \<Rightarrow> string \<Rightarrow> sys" where
  "close_ref io s key =
     (case sy_objects s key of None \<Rightarrow> s
      | Some r \<Rightarrow> set_obj r (snd (Object_Close io (sy_heap s r))) (sy_world s) s)"

definition under :: "path \<Rightarrow> path \<Rightarrow> bool" where
  "under dir p \<longleftrightarrow> take (length dir) p = dir"

definition os_RemoveAll :: "io_env \<Rightarrow> path \<Rightarrow> world \<Rightarrow> cache_error option \<times> world" where
  "os_RemoveAll io dir w =
     (if io_removeall_fails io
      then (Some CErrIO, w\<lparr> w_dir := (\<lambda>p. if under dir p \<and> \<not> io_remove_fails io p then None else w_dir w p) \<rparr>)
      else (None, w\<lparr> w_dir := (\<lambda>p. if under dir p then None else w_dir w p),
                     w_isdir := (\<lambda>p. \<not> under dir p \<and> w_isdir w p) \<rparr>))"

definition os_MkdirAll :: "io_env \<Rightarrow> path \<Rightarrow> world \<Rightarrow> cache_error option \<times> world" where
  "os_MkdirAll io dir w =
     (if io_mkdir_fails io \<or> list_ex (\<lambda>n. w_dir w (take n dir) \<noteq> None) [0..<Suc (length dir)]
      then (Some CErrIO, w)
      else (None, w\<lparr> w_isdir := (\<lambda>p. w_isdir w p \<or> under p dir) \<rparr>))"

definition Clear :: "io_env \<Rightarrow> string list \<Rightarrow> sys \<Rightarrow> cache_error option \<times> sys" where
  "Clear io order s =
     (let s1 = set_objects (\<lambda>_. None) (foldl (close_ref io) s order)
      in case os_RemoveAll io (sy_dir s) (sy_world s1) of
           (Some e, w) \<Rightarrow> (Some e, s1\<lparr> sy_world := w \<rparr>)
         | (None, w) \<Rightarrow> (case os_MkdirAll io (sy_dir s) w of (err, w') \<Rightarrow> (err, s1\<lparr> sy_world := w' \<rparr>)))"

definition evict :: "io_env \<Rightarrow> ref \<Rightarrow> sys \<Rightarrow> bool \<times> sys" where
  "evict io r s =
     (let (closed, err, ob) = closeForEviction io (sy_heap s r);
          s1 = set_obj r ob (sy_world s) s
      in if \<not> closed then (False, s1)
         else let key = ob_key ob;
                  (_, s2) = remove_path io (keyToPath (sy_dir s) key) s1;
                  (_, s3) = remove_path io (completePath (sy_dir s) key) s2
              in (True, set_objects ((sy_objects s)(key := None)) s3))"

section \<open>Cleaning\<close>

record entry =
  en_obj :: ref
  en_size :: int
  en_accessed :: int

record scan_state =
  sc_sys :: sys
  sc_size :: int
  sc_entries :: "entry list"
  sc_largest :: "ref option"
  sc_largestSize :: int

definition idleMinimum :: int where
  "idleMinimum = 30 * 60 * 1000000000"

fun clean_scan :: "io_env \<Rightarrow> int \<Rightarrow> scan_state \<Rightarrow> string list \<Rightarrow> scan_state" where
  "clean_scan io now st [] = st"
| "clean_scan io now st (key # keys) =
     (case sy_objects (sc_sys st) key of None \<Rightarrow> clean_scan io now st keys
      | Some r \<Rightarrow>
          (let (readerCount, objSize, accessed) = Object_stats (sy_heap (sc_sys st) r)
           in if readerCount \<le> 0 \<and> now - accessed > c_maxUnusedTime (sy_cache (sc_sys st))
              then clean_scan io now (st\<lparr> sc_sys := snd (evict io r (sc_sys st)) \<rparr>) keys
              else let st1 = (if readerCount \<le> 0 \<and> now - accessed > idleMinimum
                                 \<and> (sc_largest st = None \<or> objSize > sc_largestSize st)
                              then st\<lparr> sc_largest := Some r, sc_largestSize := objSize \<rparr> else st)
                   in clean_scan io now
                        (st1\<lparr> sc_size := sc_size st + objSize,
                              sc_entries := sc_entries st @
                                [\<lparr> en_obj = r, en_size = objSize, en_accessed = accessed \<rparr>] \<rparr>) keys))"

fun clean_evict :: "io_env \<Rightarrow> string option \<Rightarrow> sys \<Rightarrow> int \<Rightarrow> entry list \<Rightarrow> sys \<times> int" where
  "clean_evict io largest s sz [] = (s, sz)"
| "clean_evict io largest s sz (e # es) =
     (if largest = Some (ob_key (sy_heap s (en_obj e))) then clean_evict io largest s sz es
      else if sz \<le> c_maxSize (sy_cache s) then (s, sz)
      else let (gone, s') = evict io (en_obj e) s
           in clean_evict io largest s' (if gone then sz - en_size e else sz) es)"

text \<open>
  The test \<open>float64(c.maxSize)/float64(largestSize) > 0.3\<close> is written without division; a largest
  object of size 0 gives infinity, or not-a-number when the limit is 0 too. \<open>slices.SortFunc\<close> leaves
  entries with equal times in any order, which here the order of the keys decides. All uses of
  \<open>time.Since\<close> in one run see the same time.
\<close>

definition clean :: "io_env \<Rightarrow> int \<Rightarrow> string list \<Rightarrow> sys \<Rightarrow> sys" where
  "clean io now order s =
     (if c_cleaning (sy_cache s) then s
      else let st = clean_scan io now
                      \<lparr> sc_sys = s, sc_size = 0, sc_entries = [], sc_largest = None, sc_largestSize = 0 \<rparr> order;
               s1 = sc_sys st; limit = c_maxSize (sy_cache s)
           in if sc_size st \<le> limit then s1
              else let largest = sc_largest st;
                       (s2, sz) =
                         (case largest of None \<Rightarrow> (s1, sc_size st)
                          | Some r \<Rightarrow>
                              if 10 * limit > 3 * sc_largestSize st
                              then (let (gone, s') = evict io r s1
                                    in (s', if gone then sc_size st - sc_largestSize st else sc_size st))
                              else (s1, sc_size st))
                   in fst (clean_evict io (map_option (\<lambda>r. ob_key (sy_heap s2 r)) largest) s2 sz
                             (sort_key en_accessed (sc_entries st))))"

section \<open>Loading, opening, closing\<close>

record dir_entry =
  de_name :: string
  de_isdir :: bool

definition HasSuffix :: "string \<Rightarrow> string \<Rightarrow> bool" where
  "HasSuffix s suf \<longleftrightarrow> length suf \<le> length s \<and> drop (length s - length suf) s = suf"

definition os_Stat :: "io_env \<Rightarrow> path \<Rightarrow> world \<Rightarrow> bool" where
  "os_Stat io p w \<longleftrightarrow> \<not> io_stat_fails io p \<and> (w_dir w p \<noteq> None \<or> w_isdir w p)"

definition load_entry :: "io_env \<Rightarrow> int \<Rightarrow> sys \<Rightarrow> dir_entry \<Rightarrow> sys" where
  "load_entry io now s f =
     (if de_isdir f \<or> HasSuffix (de_name f) ''-complete'' then s
      else case keyFromPath (de_name f) of
        Inl _ \<Rightarrow> s
      | Inr key \<Rightarrow>
          (if \<not> os_Stat io (completePath (sy_dir s) key) (sy_world s)
           then snd (remove_path io (keyToPath (sy_dir s) key) s)
           else case w_dir (sy_world s) (sy_dir s @ [de_name f]) of
                  None \<Rightarrow> s
                | Some i \<Rightarrow>
                    if io_stat_fails io (sy_dir s @ [de_name f]) then s
                    else let r = sy_next s
                         in set_objects ((sy_objects s)(key \<mapsto> r))
                              ((set_obj r \<lparr> ob_key = key, ob_size = int (length (w_data (sy_world s) i)),
                                   ob_file = None, ob_readerCount = 0, ob_complete = True,
                                   ob_dataChanged = 0, ob_modified = 0, ob_accessed = now \<rparr>
                                 (sy_world s) s)\<lparr> sy_next := Suc r \<rparr>)))"

text \<open>The listing is what \<open>os.ReadDir\<close> returns. Modification times of files are not modelled.\<close>

definition loadObjects :: "io_env \<Rightarrow> int \<Rightarrow> dir_entry list \<Rightarrow> sys \<Rightarrow> cache_error option \<times> sys" where
  "loadObjects io now listing s =
     (let s1 = set_objects (\<lambda>_. None) s
      in if io_readdir_fails io then (Some CErrIO, s1)
         else (None, foldl (load_entry io now) s1 listing))"

definition New :: "io_env \<Rightarrow> path \<Rightarrow> int \<Rightarrow> int \<Rightarrow> int \<Rightarrow> dir_entry list \<Rightarrow> world \<Rightarrow> (cache_error + sys)" where
  "New io dir maxSize maxUnusedTime now listing w =
     (case os_MkdirAll io dir w of
        (Some e, _) \<Rightarrow> Inl e
      | (None, w1) \<Rightarrow>
          (case loadObjects io now listing
                  \<lparr> sy_cache = \<lparr> c_dir = dir, c_maxSize = maxSize, c_maxUnusedTime = maxUnusedTime,
                      c_objects = (\<lambda>_. None), c_cleaning = False, c_closed = False \<rparr>,
                    sy_heap = (\<lambda>_. undefined), sy_next = 0, sy_world = w1 \<rparr> of
             (Some e, _) \<Rightarrow> Inl e
           | (None, s) \<Rightarrow> Inr s))"

text \<open>The goroutine started by \<open>New\<close>: it cleans at once and at every tick until the cache is closed.\<close>

datatype cleaner_event = Tick io_env int "string list" | CloseSignal

fun cleaner_loop :: "sys \<Rightarrow> cleaner_event list \<Rightarrow> sys" where
  "cleaner_loop s [] = s"
| "cleaner_loop s (CloseSignal # _) = s"
| "cleaner_loop s (Tick io now order # es) = cleaner_loop (clean io now order s) es"

definition cleaner :: "io_env \<Rightarrow> int \<Rightarrow> string list \<Rightarrow> cleaner_event list \<Rightarrow> sys \<Rightarrow> sys" where
  "cleaner io now order es s = cleaner_loop (clean io now order s) es"

text \<open>Closing the signal channel twice panics: \<open>None\<close>.\<close>

definition Close :: "io_env \<Rightarrow> string list \<Rightarrow> sys \<Rightarrow> sys option" where
  "Close io order s =
     (if c_closed (sy_cache s) then None
      else let s1 = foldl (close_ref io) (s\<lparr> sy_cache := (sy_cache s)\<lparr> c_closed := True \<rparr> \<rparr>) order
           in Some (set_objects (\<lambda>_. None) s1))"

definition Keys :: "string list \<Rightarrow> sys \<Rightarrow> string list" where
  "Keys order s = [k \<leftarrow> order. sy_objects s k \<noteq> None]"


section \<open>Well-formed caches\<close>

definition sys_wf :: "sys \<Rightarrow> bool" where
  "sys_wf s \<longleftrightarrow> (\<forall>k r. sy_objects s k = Some r \<longrightarrow>
     r < sy_next s \<and> ob_key (sy_heap s r) = k \<and> 0 \<le> ob_readerCount (sy_heap s r))"

lemma sys_wfD:
  "\<lbrakk>sys_wf s; sy_objects s k = Some r\<rbrakk> \<Longrightarrow> r < sy_next s \<and> ob_key (sy_heap s r) = k \<and> 0 \<le> ob_readerCount (sy_heap s r)"
  by (simp add: sys_wf_def)

lemma set_objects_simps [simp]:
  "sy_objects (set_objects m s) = m" "sy_heap (set_objects m s) = sy_heap s"
  "sy_next (set_objects m s) = sy_next s" "sy_world (set_objects m s) = sy_world s"
  "sy_dir (set_objects m s) = sy_dir s" "c_maxSize (sy_cache (set_objects m s)) = c_maxSize (sy_cache s)"
  "c_maxUnusedTime (sy_cache (set_objects m s)) = c_maxUnusedTime (sy_cache s)"
  "c_cleaning (sy_cache (set_objects m s)) = c_cleaning (sy_cache s)"
  by (simp_all add: set_objects_def)

lemma set_obj_simps [simp]:
  "sy_cache (set_obj r ob w s) = sy_cache s" "sy_heap (set_obj r ob w s) = (sy_heap s)(r := ob)"
  "sy_next (set_obj r ob w s) = sy_next s" "sy_world (set_obj r ob w s) = w"
  by (simp_all add: set_obj_def)

definition world_remove :: "io_env \<Rightarrow> path \<Rightarrow> world \<Rightarrow> world" where
  "world_remove io p w = (case os_Remove io p w of Inl _ \<Rightarrow> w | Inr w' \<Rightarrow> w')"

lemma remove_path_eq:
  "snd (remove_path io p s) = s\<lparr> sy_world := world_remove io p (sy_world s) \<rparr>"
  by (simp add: remove_path_def world_remove_def split: sum.split)

lemma world_remove_simps [simp]:
  "w_data (world_remove io p w) = w_data w" "w_isdir (world_remove io p w) = w_isdir w"
  "w_next (world_remove io p w) = w_next w" "q \<noteq> p \<Longrightarrow> w_dir (world_remove io p w) q = w_dir w q"
  by (auto simp: world_remove_def os_Remove_def split: sum.splits option.splits)

lemma world_remove_gone:
  "\<lbrakk>\<not> io_remove_fails io p; \<not> w_isdir w p\<rbrakk> \<Longrightarrow> w_dir (world_remove io p w) p = None"
  by (auto simp: world_remove_def os_Remove_def split: sum.splits option.splits)

lemma world_remove_dir: "w_dir (world_remove io p w) q = w_dir w q \<or> w_dir (world_remove io p w) q = None"
  by (auto simp: world_remove_def os_Remove_def split: sum.splits option.splits)

lemma world_remove_none [simp]: "w_dir w p = None \<Longrightarrow> w_dir (world_remove io p w) p = None"
  by (auto simp: world_remove_def os_Remove_def split: sum.splits option.splits)

definition closed_ob :: "Object \<Rightarrow> Object" where
  "closed_ob ob = (case ob_file ob of None \<Rightarrow> ob | Some f \<Rightarrow> signalDataChanged (ob\<lparr> ob_file := None \<rparr>))"

lemma closed_ob_simps [simp]:
  "ob_key (closed_ob ob) = ob_key ob" "ob_size (closed_ob ob) = ob_size ob" "ob_file (closed_ob ob) = None"
  "ob_readerCount (closed_ob ob) = ob_readerCount ob" "ob_complete (closed_ob ob) = ob_complete ob"
  "ob_accessed (closed_ob ob) = ob_accessed ob"
  by (auto simp: closed_ob_def signalDataChanged_def split: option.split)

lemma Object_Close_eq: "snd (Object_Close io ob) = closed_ob ob"
  by (simp add: Object_Close_def closed_ob_def split: option.split)

definition evict_world :: "io_env \<Rightarrow> path \<Rightarrow> string \<Rightarrow> world \<Rightarrow> world" where
  "evict_world io dir key w = world_remove io (completePath dir key) (world_remove io (keyToPath dir key) w)"

text \<open>What an eviction does, in one equation.\<close>

lemma evict_eq:
  "evict io r s =
     (if ob_readerCount (sy_heap s r) > 0 then (False, s)
      else (True, set_objects ((sy_objects s)(ob_key (sy_heap s r) := None))
                    (set_obj r (closed_ob (sy_heap s r))
                       (evict_world io (sy_dir s) (ob_key (sy_heap s r)) (sy_world s)) s)))"
proof -
  have "set_obj r (sy_heap s r) (sy_world s) s = s" by (simp add: set_obj_def)
  moreover have "snd (snd (closeForEviction io (sy_heap s r)))
    = (if ob_readerCount (sy_heap s r) > 0 then sy_heap s r else closed_ob (sy_heap s r))"
    by (simp add: closeForEviction_def closed_ob_def split: option.split)
  moreover have "fst (closeForEviction io (sy_heap s r)) = (ob_readerCount (sy_heap s r) \<le> 0)"
    by (auto simp: closeForEviction_def split: option.split)
  ultimately show ?thesis
    by (simp add: evict_def Let_def split_beta remove_path_eq evict_world_def)
      (simp add: set_objects_def set_obj_def)
qed

section \<open>What cleaning keeps\<close>

text \<open>
  \<open>keeps io s s'\<close>: from \<open>s\<close> to \<open>s'\<close> only idle objects were dropped, with nothing but their own two
  directory entries, which are gone unless removing them failed.
\<close>

definition files_gone :: "io_env \<Rightarrow> sys \<Rightarrow> sys \<Rightarrow> bool" where
  "files_gone io s s' \<longleftrightarrow> (\<forall>k p. sy_objects s k \<noteq> None \<longrightarrow> sy_objects s' k = None
     \<longrightarrow> p = keyToPath (sy_dir s) k \<or> p = completePath (sy_dir s) k
     \<longrightarrow> \<not> io_remove_fails io p \<longrightarrow> \<not> w_isdir (sy_world s) p \<longrightarrow> w_dir (sy_world s') p = None)"

definition keeps :: "io_env \<Rightarrow> sys \<Rightarrow> sys \<Rightarrow> bool" where
  "keeps io s s' \<longleftrightarrow> (\<exists>m. sy_cache s' = (sy_cache s)\<lparr> c_objects := m \<rparr>) \<and> sy_next s' = sy_next s
     \<and> w_data (sy_world s') = w_data (sy_world s) \<and> w_next (sy_world s') = w_next (sy_world s)
     \<and> w_isdir (sy_world s') = w_isdir (sy_world s)
     \<and> (\<forall>r. ob_key (sy_heap s' r) = ob_key (sy_heap s r))
     \<and> (\<forall>k r. sy_objects s k = Some r \<longrightarrow>
          sy_objects s' k = Some r \<and> sy_heap s' r = sy_heap s r
          \<or> sy_objects s' k = None \<and> ob_readerCount (sy_heap s r) \<le> 0)
     \<and> (\<forall>k. sy_objects s k = None \<longrightarrow> sy_objects s' k = None)
     \<and> files_gone io s s'
     \<and> (\<forall>p. w_dir (sy_world s') p = w_dir (sy_world s) p
          \<or> w_dir (sy_world s') p = None \<and> (\<exists>k. sy_objects s k \<noteq> None \<and> sy_objects s' k = None
               \<and> (p = keyToPath (sy_dir s) k \<or> p = completePath (sy_dir s) k)))"

lemma files_goneD:
  "\<lbrakk>files_gone io s s'; sy_objects s k \<noteq> None; sy_objects s' k = None;
    p = keyToPath (sy_dir s) k \<or> p = completePath (sy_dir s) k;
    \<not> io_remove_fails io p; \<not> w_isdir (sy_world s) p\<rbrakk> \<Longrightarrow> w_dir (sy_world s') p = None"
  unfolding files_gone_def by (elim allE [of _ k] allE [of _ p] impE) assumption+

lemma keeps_gone: "keeps io s s' \<Longrightarrow> files_gone io s s'"
  by (simp add: keeps_def)

lemma keeps_refl: "keeps io s s"
  unfolding keeps_def files_gone_def by (intro conjI exI [of _ "sy_objects s"]) auto

lemma keeps_params:
  assumes "keeps io s s'"
  shows "sy_dir s' = sy_dir s" "c_maxSize (sy_cache s') = c_maxSize (sy_cache s)"
    "c_maxUnusedTime (sy_cache s') = c_maxUnusedTime (sy_cache s)"
    "c_cleaning (sy_cache s') = c_cleaning (sy_cache s)" "sy_next s' = sy_next s"
    "ob_key (sy_heap s' r) = ob_key (sy_heap s r)"
  using assms by (auto simp: keeps_def)

lemma keeps_cases:
  assumes "keeps io s s'"
  obtains "sy_objects s k = None" "sy_objects s' k = None"
  | r where "sy_objects s k = Some r" "sy_objects s' k = Some r" "sy_heap s' r = sy_heap s r"
  | r where "sy_objects s k = Some r" "sy_objects s' k = None" "ob_readerCount (sy_heap s r) \<le> 0"
proof (cases "sy_objects s k")
  case None
  then show ?thesis using assms that(1) by (simp add: keeps_def)
next
  case (Some r)
  with assms have "sy_objects s' k = Some r \<and> sy_heap s' r = sy_heap s r
    \<or> sy_objects s' k = None \<and> ob_readerCount (sy_heap s r) \<le> 0"
    by (simp add: keeps_def)
  then show ?thesis using Some that(2,3) by blast
qed

lemma keeps_Some:
  assumes "keeps io s s'" "sy_objects s' k = Some r"
  shows "sy_objects s k = Some r \<and> sy_heap s' r = sy_heap s r"
  using assms(2) by (cases rule: keeps_cases [OF assms(1), of k]) auto

lemma keeps_wf:
  assumes "keeps io s s'" "sys_wf s"
  shows "sys_wf s'"
  unfolding sys_wf_def
proof (intro allI impI)
  fix k r assume "sy_objects s' k = Some r"
  with keeps_Some [OF assms(1)] have "sy_objects s k = Some r" "sy_heap s' r = sy_heap s r" by auto
  with sys_wfD [OF assms(2)] keeps_params(5) [OF assms(1)]
  show "r < sy_next s' \<and> ob_key (sy_heap s' r) = k \<and> 0 \<le> ob_readerCount (sy_heap s' r)" by simp
qed

lemma keeps_trans:
  assumes "keeps io s1 s2" "keeps io s2 s3"
  shows "keeps io s1 s3"
proof -
  have objs: "(\<forall>r. sy_objects s1 k = Some r \<longrightarrow>
        sy_objects s3 k = Some r \<and> sy_heap s3 r = sy_heap s1 r
        \<or> sy_objects s3 k = None \<and> ob_readerCount (sy_heap s1 r) \<le> 0)
      \<and> (sy_objects s1 k = None \<longrightarrow> sy_objects s3 k = None)" for k
    by (cases rule: keeps_cases [OF assms(1), of k]; cases rule: keeps_cases [OF assms(2), of k]) auto
  have dirs: "w_dir (sy_world s3) p = w_dir (sy_world s1) p
      \<or> w_dir (sy_world s3) p = None \<and> (\<exists>k. sy_objects s1 k \<noteq> None \<and> sy_objects s3 k = None
           \<and> (p = keyToPath (sy_dir s1) k \<or> p = completePath (sy_dir s1) k))" for p
  proof (cases "w_dir (sy_world s2) p = w_dir (sy_world s1) p")
    case True
    show ?thesis
    proof (cases "w_dir (sy_world s3) p = w_dir (sy_world s2) p")
      case True2: True
      then show ?thesis using True by simp
    next
      case False
      with assms(2) obtain k where "sy_objects s2 k \<noteq> None" "sy_objects s3 k = None"
        "w_dir (sy_world s3) p = None" "p = keyToPath (sy_dir s1) k \<or> p = completePath (sy_dir s1) k"
        using keeps_params(1) [OF assms(1)] unfolding keeps_def by metis
      then show ?thesis by (cases rule: keeps_cases [OF assms(1), of k]) auto
    qed
  next
    case False
    with assms(1) obtain k where "sy_objects s1 k \<noteq> None" "sy_objects s2 k = None"
      "w_dir (sy_world s2) p = None" "p = keyToPath (sy_dir s1) k \<or> p = completePath (sy_dir s1) k"
      unfolding keeps_def by metis
    moreover from this(2) have "sy_objects s3 k = None"
      by (cases rule: keeps_cases [OF assms(2), of k]) auto
    moreover have "w_dir (sy_world s3) p = None"
      using \<open>w_dir (sy_world s2) p = None\<close> assms(2) unfolding keeps_def by metis
    ultimately show ?thesis by blast
  qed
  have gone: "files_gone io s1 s3" unfolding files_gone_def
  proof (intro allI impI)
    fix k p
    assume k: "sy_objects s1 k \<noteq> None" "sy_objects s3 k = None"
      and p: "p = keyToPath (sy_dir s1) k \<or> p = completePath (sy_dir s1) k"
      and ok: "\<not> io_remove_fails io p" "\<not> w_isdir (sy_world s1) p"
    have dir: "sy_dir s2 = sy_dir s1" by (rule keeps_params(1) [OF assms(1)])
    show "w_dir (sy_world s3) p = None"
    proof (cases "sy_objects s2 k")
      case None
      have "w_dir (sy_world s2) p = None"
        by (rule files_goneD [OF keeps_gone [OF assms(1)] k(1) None p ok])
      then show ?thesis using assms(2) unfolding keeps_def by metis
    next
      case (Some r)
      have d: "\<not> w_isdir (sy_world s2) p" using ok(2) assms(1) by (simp add: keeps_def)
      have n: "sy_objects s2 k \<noteq> None" using Some by simp
      show ?thesis
        by (rule files_goneD [OF keeps_gone [OF assms(2)] n k(2) p [folded dir] ok(1) d])
    qed
  qed
  from assms have params: "\<exists>m. sy_cache s3 = (sy_cache s1)\<lparr> c_objects := m \<rparr>"
    "sy_next s3 = sy_next s1" "w_data (sy_world s3) = w_data (sy_world s1)"
    "w_next (sy_world s3) = w_next (sy_world s1)" "w_isdir (sy_world s3) = w_isdir (sy_world s1)"
    "\<forall>r. ob_key (sy_heap s3 r) = ob_key (sy_heap s1 r)"
    by (auto simp: keeps_def)
  show ?thesis unfolding keeps_def
    apply (intro conjI)
             apply (rule params)+
    subgoal using objs by blast
    subgoal using objs by blast
     apply (rule gone)
    subgoal using dirs by blast
    done
qed

lemma evict_keeps:
  assumes "sys_wf s" "sy_objects s k = Some r" "evict io r s = (b, s')"
  shows "keeps io s s'"
proof (cases "ob_readerCount (sy_heap s r) > 0")
  case True
  with assms(3) show ?thesis by (simp add: evict_eq keeps_refl)
next
  case False
  have k: "ob_key (sy_heap s r) = k" using sys_wfD [OF assms(1,2)] by simp
  have other: "k' \<noteq> k \<Longrightarrow> sy_objects s k' = Some r' \<Longrightarrow> r' \<noteq> r" for k' r'
    using sys_wfD [OF assms(1), of k' r'] k by auto
  from False assms(3) k have s': "s' = set_objects ((sy_objects s)(k := None))
      (set_obj r (closed_ob (sy_heap s r)) (evict_world io (sy_dir s) k (sy_world s)) s)"
    by (simp add: evict_eq)
  have d: "p \<noteq> keyToPath (sy_dir s) k \<Longrightarrow> p \<noteq> completePath (sy_dir s) k
    \<Longrightarrow> w_dir (sy_world s') p = w_dir (sy_world s) p" for p
    by (simp add: s' evict_world_def)
  have gone: "w_dir (sy_world s') p = None"
    if "p = keyToPath (sy_dir s) k \<or> p = completePath (sy_dir s) k"
      "\<not> io_remove_fails io p" "\<not> w_isdir (sy_world s) p" for p
    using that by (auto simp: s' evict_world_def world_remove_gone)
  have gone: "files_gone io s s'" unfolding files_gone_def
  proof (intro allI impI)
    fix k' p
    assume a: "sy_objects s k' \<noteq> None" "sy_objects s' k' = None"
      "p = keyToPath (sy_dir s) k' \<or> p = completePath (sy_dir s) k'"
      "\<not> io_remove_fails io p" "\<not> w_isdir (sy_world s) p"
    then have "k' = k" by (auto simp: s' split: if_splits)
    with a(3) have "p = keyToPath (sy_dir s) k \<or> p = completePath (sy_dir s) k" by simp
    then show "w_dir (sy_world s') p = None" by (rule gone [OF _ a(4,5)])
  qed
  show ?thesis unfolding keeps_def
  proof (intro conjI allI impI)
    show "files_gone io s s'" by (rule gone)
    show "\<exists>m. sy_cache s' = (sy_cache s)\<lparr>c_objects := m\<rparr>"
      by (auto simp: s' set_objects_def set_obj_def)
    show "w_dir (sy_world s') p = w_dir (sy_world s) p
      \<or> w_dir (sy_world s') p = None \<and> (\<exists>k. sy_objects s k \<noteq> None \<and> sy_objects s' k = None
           \<and> (p = keyToPath (sy_dir s) k \<or> p = completePath (sy_dir s) k))" for p
    proof (cases "p = keyToPath (sy_dir s) k \<or> p = completePath (sy_dir s) k")
      case True
      have "w_dir (sy_world s') p = w_dir (sy_world s) p \<or> w_dir (sy_world s') p = None"
        using world_remove_dir [of io "keyToPath (sy_dir s) k" "sy_world s" p]
          world_remove_dir [of io "completePath (sy_dir s) k" "world_remove io (keyToPath (sy_dir s) k) (sy_world s)" p]
        by (auto simp: s' evict_world_def)
      then show ?thesis using True assms(2) by (auto simp: s')
    next
      case False
      then show ?thesis using d [of p] by simp
    qed
  qed (use other False assms(2) in \<open>auto simp: s' evict_world_def\<close>)
qed


section \<open>What cleaning drops\<close>

definition obj_of :: "sys \<Rightarrow> string \<Rightarrow> Object" where
  "obj_of s k = sy_heap s (the (sy_objects s k))"

definition idle :: "sys \<Rightarrow> string \<Rightarrow> bool" where
  "idle s k \<longleftrightarrow> sy_objects s k \<noteq> None \<and> ob_readerCount (obj_of s k) \<le> 0"

definition expired :: "sys \<Rightarrow> int \<Rightarrow> string \<Rightarrow> bool" where
  "expired s now k \<longleftrightarrow> idle s k \<and> now - ob_accessed (obj_of s k) > c_maxUnusedTime (sy_cache s)"

definition old_idle :: "sys \<Rightarrow> int \<Rightarrow> string \<Rightarrow> bool" where
  "old_idle s now k \<longleftrightarrow> idle s k \<and> now - ob_accessed (obj_of s k) > idleMinimum"

definition kept_keys :: "sys \<Rightarrow> int \<Rightarrow> string list \<Rightarrow> string list" where
  "kept_keys s now order = [k \<leftarrow> order. sy_objects s k \<noteq> None \<and> \<not> expired s now k]"

definition entry_of :: "sys \<Rightarrow> string \<Rightarrow> entry" where
  "entry_of s k = \<lparr> en_obj = the (sy_objects s k), en_size = ob_size (obj_of s k), en_accessed = ob_accessed (obj_of s k) \<rparr>"

definition sizes :: "sys \<Rightarrow> string list \<Rightarrow> int" where
  "sizes s ks = sum_list (map (\<lambda>k. ob_size (obj_of s k)) ks)"

fun pick_largest :: "sys \<Rightarrow> int \<Rightarrow> ref option \<times> int \<Rightarrow> string list \<Rightarrow> ref option \<times> int" where
  "pick_largest s now b [] = b"
| "pick_largest s now (l, sz) (k # ks) =
     pick_largest s now (if old_idle s now k \<and> (l = None \<or> ob_size (obj_of s k) > sz)
                         then (sy_objects s k, ob_size (obj_of s k)) else (l, sz)) ks"

definition without :: "(string \<rightharpoonup> ref) \<Rightarrow> (string \<Rightarrow> bool) \<Rightarrow> (string \<rightharpoonup> ref)" where
  "without m P = (\<lambda>k. if P k then None else m k)"

lemma without_simps [simp]:
  "without m (\<lambda>_. False) = m" "without m P k = (if P k then None else m k)"
  by (simp_all add: without_def)

lemma evict_objects:
  assumes "sys_wf s" "sy_objects s k = Some r"
  shows "sy_objects (snd (evict io r s)) = without (sy_objects s) (\<lambda>k'. k' = k \<and> idle s k)
    \<and> fst (evict io r s) = idle s k"
  using sys_wfD [OF assms] assms(2)
  by (auto simp: evict_eq idle_def obj_of_def without_def)

lemma clean_scan_spec:
  assumes "sys_wf s" "keeps io s (sc_sys st)" "distinct keys" "\<forall>k\<in>set keys. sy_objects (sc_sys st) k = sy_objects s k"
    "st' = clean_scan io now st keys"
  shows "keeps io s (sc_sys st')
    \<and> sy_objects (sc_sys st') = without (sy_objects (sc_sys st)) (\<lambda>k. k \<in> set keys \<and> expired s now k)
    \<and> sc_entries st' = sc_entries st @ map (entry_of s) (kept_keys s now keys)
    \<and> sc_size st' = sc_size st + sizes s (kept_keys s now keys)
    \<and> (sc_largest st', sc_largestSize st')
        = pick_largest s now (sc_largest st, sc_largestSize st) (kept_keys s now keys)"
  using assms(2-5)
proof (induction keys arbitrary: st)
  case Nil
  then show ?case by (simp add: kept_keys_def sizes_def)
next
  case (Cons key keys)
  have wf: "sys_wf (sc_sys st)" using keeps_wf [OF Cons.prems(1) assms(1)] .
  have sub: "\<forall>k\<in>set keys. sy_objects (sc_sys st) k = sy_objects s k" using Cons.prems(3) by simp
  show ?case
  proof (cases "sy_objects s key")
    case None
    have k: "kept_keys s now (key # keys) = kept_keys s now keys" by (simp add: kept_keys_def None)
    have e: "without m (\<lambda>k. k \<in> set (key # keys) \<and> expired s now k) = without m (\<lambda>k. k \<in> set keys \<and> expired s now k)" for m
      using None by (auto simp: without_def expired_def idle_def fun_eq_iff)
    from None Cons.prems(3,4) have st': "st' = clean_scan io now st keys" by simp
    show ?thesis unfolding k e
      by (rule Cons.IH) (use Cons.prems(1,2) sub st' in simp_all)
  next
    case (Some r)
    then have r: "sy_objects (sc_sys st) key = Some r" using Cons.prems(3) by simp
    then have h: "sy_heap (sc_sys st) r = sy_heap s r" using keeps_Some [OF Cons.prems(1)] by simp
    have o: "obj_of s key = sy_heap s r" by (simp add: obj_of_def Some)
    note pars = keeps_params [OF Cons.prems(1)]
    show ?thesis
    proof (cases "expired s now key")
      case True
      have k: "kept_keys s now (key # keys) = kept_keys s now keys" by (simp add: kept_keys_def True)
      let ?st = "st\<lparr> sc_sys := snd (evict io r (sc_sys st)) \<rparr>"
      have idle: "idle (sc_sys st) key"
        using True h r o by (simp add: expired_def idle_def obj_of_def)
      have ev: "sy_objects (sc_sys ?st) = without (sy_objects (sc_sys st)) (\<lambda>k'. k' = key)"
        using evict_objects [OF wf r, of io] idle by simp
      have kp: "keeps io s (sc_sys ?st)"
        using keeps_trans [OF Cons.prems(1) evict_keeps [OF wf r, of io]] by (simp add: prod_eq_iff)
      have st': "st' = clean_scan io now ?st keys"
        using Cons.prems(4) r True h o pars Some by (simp add: Object_stats_def expired_def idle_def)
      have "\<forall>k\<in>set keys. sy_objects (sc_sys ?st) k = sy_objects s k"
        unfolding ev using sub Cons.prems(2) by auto
      note ih = Cons.IH [OF kp _ this st']
      have e: "without (sy_objects (sc_sys ?st)) (\<lambda>k. k \<in> set keys \<and> expired s now k)
        = without (sy_objects (sc_sys st)) (\<lambda>k. k \<in> set (key # keys) \<and> expired s now k)"
        unfolding ev using True by (auto simp: without_def fun_eq_iff)
      show ?thesis unfolding k e [symmetric]
        using ih Cons.prems(2) by simp
    next
      case False
      have k: "kept_keys s now (key # keys) = key # kept_keys s now keys" by (simp add: kept_keys_def False Some)
      let ?l = "if old_idle s now key \<and> (sc_largest st = None \<or> ob_size (sy_heap s r) > sc_largestSize st)
        then st\<lparr> sc_largest := Some r, sc_largestSize := ob_size (sy_heap s r) \<rparr> else st"
      let ?st = "?l\<lparr> sc_size := sc_size st + ob_size (sy_heap s r), sc_entries := sc_entries st @ [entry_of s key] \<rparr>"
      have st': "st' = clean_scan io now ?st keys"
      proof -
        have ne: "\<not> (ob_readerCount (sy_heap s r) \<le> 0
            \<and> now - ob_accessed (sy_heap s r) > c_maxUnusedTime (sy_cache s))"
          using False Some o by (simp add: expired_def idle_def)
        have oi: "old_idle s now key \<longleftrightarrow> ob_readerCount (sy_heap s r) \<le> 0
            \<and> now - ob_accessed (sy_heap s r) > idleMinimum"
          using Some o by (simp add: old_idle_def idle_def)
        have "clean_scan io now st (key # keys) = (let st1 = ?l in clean_scan io now
            (st1\<lparr> sc_size := sc_size st + ob_size (sy_heap s r), sc_entries := sc_entries st @
              [\<lparr> en_obj = r, en_size = ob_size (sy_heap s r), en_accessed = ob_accessed (sy_heap s r) \<rparr>] \<rparr>) keys)"
          unfolding clean_scan.simps r h Object_stats_def option.case prod.case Let_def pars oi
          by (simp only: ne if_False conj_assoc)
        then show ?thesis using Cons.prems(4) by (simp add: Let_def entry_of_def o Some)
      qed
      have l: "sc_sys ?st = sc_sys st" "sc_entries ?st = sc_entries st @ [entry_of s key]"
        "sc_size ?st = sc_size st + ob_size (sy_heap s r)" by simp_all
      have e: "without m (\<lambda>k. k \<in> set (key # keys) \<and> expired s now k) = without m (\<lambda>k. k \<in> set keys \<and> expired s now k)" for m
        using False by (auto simp: without_def fun_eq_iff)
      have "keeps io s (sc_sys ?st)" "\<forall>k\<in>set keys. sy_objects (sc_sys ?st) k = sy_objects s k"
        unfolding l using Cons.prems(1) sub by simp_all
      note ih = Cons.IH [OF this(1) _ this(2) st', unfolded l]
      have p: "pick_largest s now (sc_largest st, sc_largestSize st) (key # ks)
        = pick_largest s now (sc_largest ?st, sc_largestSize ?st) ks" for ks
        by (auto simp: o Some)
      show ?thesis unfolding k e p
        using ih Cons.prems(2) o by (simp add: sizes_def)
    qed
  qed
qed


lemma pick_largest_gen:
  assumes "pick_largest s now (l, sz) ks = (l', sz')"
  shows "l' = l \<and> sz' = sz \<and> (\<forall>k\<in>set ks. old_idle s now k \<longrightarrow> l \<noteq> None \<and> ob_size (obj_of s k) \<le> sz)
    \<or> (\<exists>k\<in>set ks. old_idle s now k \<and> sy_objects s k = l' \<and> sz' = ob_size (obj_of s k)
         \<and> (\<forall>k'\<in>set ks. old_idle s now k' \<longrightarrow> ob_size (obj_of s k') \<le> sz') \<and> (l \<noteq> None \<longrightarrow> sz \<le> sz'))"
  using assms
proof (induction ks arbitrary: l sz)
  case Nil
  then show ?case by simp
next
  case (Cons k ks)
  show ?case
  proof (cases "old_idle s now k \<and> (l = None \<or> ob_size (obj_of s k) > sz)")
    case True
    then have n: "sy_objects s k \<noteq> None" by (simp add: old_idle_def idle_def)
    from True Cons.prems have "pick_largest s now (sy_objects s k, ob_size (obj_of s k)) ks = (l', sz')" by simp
    from Cons.IH [OF this] True n show ?thesis by auto
  next
    case False
    with Cons.prems have "pick_largest s now (l, sz) ks = (l', sz')" by auto
    from Cons.IH [OF this] False show ?thesis by auto
  qed
qed

lemma pick_largest_spec:
  assumes "pick_largest s now (None, 0) ks = (l, sz)"
  shows "case l of None \<Rightarrow> \<forall>k\<in>set ks. \<not> old_idle s now k
    | Some r \<Rightarrow> \<exists>k\<in>set ks. old_idle s now k \<and> sy_objects s k = Some r \<and> sz = ob_size (obj_of s k)
        \<and> (\<forall>k'\<in>set ks. old_idle s now k' \<longrightarrow> ob_size (obj_of s k') \<le> sz)"
  using pick_largest_gen [OF assms] by (auto simp: old_idle_def idle_def split: option.split)

lemma keeps_obj_of:
  assumes "keeps io s s'" "sy_objects s' k = sy_objects s k" "sy_objects s k \<noteq> None"
  shows "obj_of s' k = obj_of s k" "idle s' k = idle s k"
  using keeps_Some [OF assms(1), of k] assms(2,3) by (auto simp: obj_of_def idle_def)

lemma entry_of_simps [simp]:
  "en_obj (entry_of s k) = the (sy_objects s k)" "en_size (entry_of s k) = ob_size (obj_of s k)"
  "en_accessed (entry_of s k) = ob_accessed (obj_of s k)"
  by (simp_all add: entry_of_def)

lemma clean_evict_spec:
  assumes "sys_wf s" "keeps io s t" "distinct ks"
    "\<forall>k\<in>set ks. sy_objects s k \<noteq> None \<and> (l \<noteq> Some k \<longrightarrow> sy_objects t k = sy_objects s k)"
    "clean_evict io l t z (map (entry_of s) ks) = (t', z')"
  shows "\<exists>n \<le> length ks. keeps io s t'
    \<and> sy_objects t' = without (sy_objects t) (\<lambda>k. k \<in> set (take n ks) \<and> l \<noteq> Some k \<and> idle s k)
    \<and> z' = z - sizes s [k \<leftarrow> take n ks. l \<noteq> Some k \<and> idle s k]
    \<and> (n < length ks \<longrightarrow> z' \<le> c_maxSize (sy_cache s))"
  using assms(2-5)
proof (induction ks arbitrary: t z)
  case Nil
  then show ?case by (simp add: sizes_def)
next
  case (Cons k ks)
  from Cons.prems(3) obtain r where r: "sy_objects s k = Some r" by auto
  then have key: "ob_key (sy_heap t r) = k"
    using keeps_params(6) [OF Cons.prems(1), of r] sys_wfD [OF assms(1)] by simp
  note pars = keeps_params [OF Cons.prems(1)]
  show ?case
  proof (cases "l = Some k")
    case True
    with Cons.prems(4) key r have "clean_evict io l t z (map (entry_of s) ks) = (t', z')"
      by simp
    moreover have "distinct ks" "\<forall>k\<in>set ks. sy_objects s k \<noteq> None \<and> (l \<noteq> Some k \<longrightarrow> sy_objects t k = sy_objects s k)"
      using Cons.prems(2,3) by simp_all
    ultimately obtain n where n: "n \<le> length ks"
      "keeps io s t'" "sy_objects t' = without (sy_objects t) (\<lambda>k. k \<in> set (take n ks) \<and> l \<noteq> Some k \<and> idle s k)"
      "z' = z - sizes s [k \<leftarrow> take n ks. l \<noteq> Some k \<and> idle s k]"
      "n < length ks \<longrightarrow> z' \<le> c_maxSize (sy_cache s)"
      using Cons.IH [OF Cons.prems(1)] by blast
    show ?thesis
      by (rule exI [of _ "Suc n"]) (use n True in \<open>auto simp: without_def fun_eq_iff\<close>)
  next
    case False
    then have t: "sy_objects t k = Some r" using Cons.prems(3) r by simp
    show ?thesis
    proof (cases "z \<le> c_maxSize (sy_cache s)")
      case True
      with Cons.prems(4) key r False pars(2) have "t' = t" "z' = z" by auto
      then show ?thesis using Cons.prems(1) True by (intro exI [of _ 0]) (simp add: sizes_def)
    next
      case big: False
      have wft: "sys_wf t" by (rule keeps_wf [OF Cons.prems(1) assms(1)])
      obtain b t1 where ev: "evict io r t = (b, t1)" by (cases "evict io r t")
      have it: "idle t k = idle s k" using keeps_obj_of(2) [OF Cons.prems(1)] t r by simp
      from evict_objects [OF wft t, of io] ev it
      have t1: "sy_objects t1 = without (sy_objects t) (\<lambda>k'. k' = k \<and> idle s k)" "b = idle s k" by simp_all
      have kp: "keeps io s t1" by (rule keeps_trans [OF Cons.prems(1) evict_keeps [OF wft t ev]])
      from Cons.prems(4) key r False pars(2) big ev t1(2)
      have "clean_evict io l t1 (if idle s k then z - ob_size (obj_of s k) else z) (map (entry_of s) ks) = (t', z')"
        by (cases "idle s k") simp_all
      moreover have "\<forall>k'\<in>set ks. sy_objects s k' \<noteq> None \<and> (l \<noteq> Some k' \<longrightarrow> sy_objects t1 k' = sy_objects s k')"
        unfolding t1(1) using Cons.prems(2,3) by auto
      moreover have "distinct ks" using Cons.prems(2) by simp
      ultimately obtain n where n: "n \<le> length ks"
        "keeps io s t'" "sy_objects t' = without (sy_objects t1) (\<lambda>k. k \<in> set (take n ks) \<and> l \<noteq> Some k \<and> idle s k)"
        "z' = (if idle s k then z - ob_size (obj_of s k) else z) - sizes s [k \<leftarrow> take n ks. l \<noteq> Some k \<and> idle s k]"
        "n < length ks \<longrightarrow> z' \<le> c_maxSize (sy_cache s)"
        using Cons.IH [OF kp] by blast
      show ?thesis
      proof (rule exI [of _ "Suc n"], intro conjI)
        show "sy_objects t' = without (sy_objects t) (\<lambda>k'. k' \<in> set (take (Suc n) (k # ks)) \<and> l \<noteq> Some k' \<and> idle s k')"
          unfolding n(3) t1(1) using False by (auto simp: without_def fun_eq_iff)
      qed (use n False in \<open>auto simp: sizes_def\<close>)
    qed
  qed
qed


lemma insort_key_map: "insort_key f (g x) (map g xs) = map g (insort_key (\<lambda>x. f (g x)) x xs)"
  by (induction xs) auto

lemma sort_key_map: "sort_key f (map g xs) = map g (sort_key (\<lambda>x. f (g x)) xs)"
  by (induction xs) (simp_all add: insort_key_map)

lemma sizes_set: "distinct ks \<Longrightarrow> sizes s ks = (\<Sum>k\<in>set ks. ob_size (obj_of s k))"
  by (simp add: sizes_def sum_list_distinct_conv_sum_set)

definition by_access :: "sys \<Rightarrow> string list \<Rightarrow> string list" where
  "by_access s ks = sort_key (\<lambda>k. ob_accessed (obj_of s k)) ks"

lemma by_access_simps [simp]:
  "set (by_access s ks) = set ks" "distinct (by_access s ks) = distinct ks" "length (by_access s ks) = length ks"
  by (simp_all add: by_access_def)

text \<open>
  Everything a cleaning run does: \<open>l\<close> is the largest old idle object, \<open>big\<close> tells whether it was
  dropped, and \<open>n\<close> how far down the list ordered by access time the rest was dropped.
\<close>

lemma clean_spec:
  assumes wf: "sys_wf s" and order: "distinct order" "set order = dom (sy_objects s)"
    and free: "\<not> c_cleaning (sy_cache s)" and s': "s' = clean io now order s"
    and ks: "ks = kept_keys s now order" and mx: "mx = c_maxSize (sy_cache s)"
  obtains l big n where
    "keeps io s s'"
    "sy_objects s' = without (sy_objects s) (\<lambda>k. expired s now k \<or> big \<and> l = Some k
       \<or> k \<in> set (take n (by_access s ks)) \<and> l \<noteq> Some k \<and> idle s k)"
    "case l of None \<Rightarrow> \<forall>k\<in>set ks. \<not> old_idle s now k
     | Some k \<Rightarrow> k \<in> set ks \<and> old_idle s now k
         \<and> (\<forall>k'\<in>set ks. old_idle s now k' \<longrightarrow> ob_size (obj_of s k') \<le> ob_size (obj_of s k))"
    "big \<longleftrightarrow> sizes s ks > mx \<and> (case l of None \<Rightarrow> False | Some k \<Rightarrow> 10 * mx > 3 * ob_size (obj_of s k))"
    "sizes s ks \<le> mx \<longrightarrow> n = 0"
    "sizes s ks > mx \<longrightarrow> n < length ks \<longrightarrow>
       sizes s ks - (if big then ob_size (obj_of s (the l)) else 0)
         - sizes s [k \<leftarrow> take n (by_access s ks). l \<noteq> Some k \<and> idle s k] \<le> mx"
proof -
  let ?st0 = "\<lparr> sc_sys = s, sc_size = 0, sc_entries = [], sc_largest = None, sc_largestSize = 0 \<rparr>"
  define st where "st = clean_scan io now ?st0 order"
  have "keeps io s (sc_sys ?st0)" "\<forall>k\<in>set order. sy_objects (sc_sys ?st0) k = sy_objects s k"
    by (simp_all add: keeps_refl)
  note sc = clean_scan_spec [OF wf this(1) order(1) this(2) st_def, folded ks]
  have kp1: "keeps io s (sc_sys st)" and ents: "sc_entries st = map (entry_of s) ks"
    and size: "sc_size st = sizes s ks"
    and pl: "pick_largest s now (None, 0) ks = (sc_largest st, sc_largestSize st)"
    and ob1: "sy_objects (sc_sys st) = without (sy_objects s) (\<lambda>k. k \<in> set order \<and> expired s now k)"
    using sc by simp_all
  have obj1: "sy_objects (sc_sys st) = without (sy_objects s) (expired s now)"
    unfolding ob1 using order(2) by (auto simp: without_def fun_eq_iff expired_def idle_def)
  have dk: "distinct ks" and inks: "\<And>k. k \<in> set ks \<Longrightarrow> sy_objects s k \<noteq> None \<and> \<not> expired s now k"
    using order by (auto simp: ks kept_keys_def)
  define l where "l = map_option (\<lambda>r. ob_key (sy_heap s r)) (sc_largest st)"
  have lsp: "case l of None \<Rightarrow> sc_largest st = None \<and> (\<forall>k\<in>set ks. \<not> old_idle s now k)
     | Some k \<Rightarrow> k \<in> set ks \<and> old_idle s now k \<and> sy_objects s k = sc_largest st
         \<and> sc_largestSize st = ob_size (obj_of s k)
         \<and> (\<forall>k'\<in>set ks. old_idle s now k' \<longrightarrow> ob_size (obj_of s k') \<le> ob_size (obj_of s k))"
    using pick_largest_spec [OF pl] sys_wfD [OF wf] by (auto simp: l_def split: option.splits)
  show ?thesis
  proof (cases "sizes s ks \<le> mx")
    case True
    then have "s' = sc_sys st" using s' free size by (simp add: clean_def st_def [symmetric] Let_def mx)
    with True show ?thesis using kp1 obj1 lsp
      by (intro that [where l = l and big = False and n = 0]) (auto simp: without_def fun_eq_iff split: option.splits)
  next
    case False
    define big where "big = (case l of None \<Rightarrow> False | Some k \<Rightarrow> 10 * mx > 3 * ob_size (obj_of s k))"
    define t where "t = (if big then snd (evict io (the (sc_largest st)) (sc_sys st)) else sc_sys st)"
    define z where "z = sizes s ks - (if big then ob_size (obj_of s (the l)) else 0)"
    have tfacts: "keeps io s t \<and> sy_objects t = without (sy_objects (sc_sys st)) (\<lambda>k. big \<and> l = Some k)
      \<and> (big \<longrightarrow> fst (evict io (the (sc_largest st)) (sc_sys st)))"
    proof (cases big)
      case b: True
      then obtain k where k: "l = Some k" by (auto simp: big_def split: option.splits)
      with lsp obtain r where r: "k \<in> set ks" "old_idle s now k" "sy_objects s k = Some r" "sc_largest st = Some r"
        by (auto simp: old_idle_def idle_def)
      then have rt: "sy_objects (sc_sys st) k = Some r" using inks by (simp add: obj1)
      have "idle (sc_sys st) k"
        using keeps_obj_of(2) [OF kp1, of k] rt r by (simp add: old_idle_def)
      with evict_objects [OF keeps_wf [OF kp1 wf] rt, of io]
        keeps_trans [OF kp1 evict_keeps [OF keeps_wf [OF kp1 wf] rt, of io]] r(4) b k
      show ?thesis by (auto simp: t_def without_def fun_eq_iff prod_eq_iff)
    next
      case False
      then show ?thesis by (simp add: t_def kp1)
    qed
    have lt: "map_option (\<lambda>r. ob_key (sy_heap t r)) (sc_largest st) = l"
      using keeps_params(6) [OF conjunct1 [OF tfacts]] by (simp add: l_def)
    obtain s2 z' where ce: "clean_evict io l t z (map (entry_of s) (by_access s ks)) = (s2, z')"
      by (cases "clean_evict io l t z (map (entry_of s) (by_access s ks))")
    have lz: "l = Some k \<Longrightarrow> sc_largestSize st = ob_size (obj_of s k)" for k using lsp by simp
    have l0: "sc_largest st = None \<longleftrightarrow> l = None" by (simp add: l_def)
    have "s' = s2"
    proof (cases "sc_largest st")
      case None
      then have "l = None" "\<not> big" by (simp_all add: l_def big_def)
      with None show ?thesis using s' free size False ce
        by (simp add: clean_def st_def [symmetric] Let_def mx ents sort_key_map by_access_def t_def z_def)
    next
      case (Some r)
      then obtain k where k: "l = Some k" by (auto simp: l_def)
      have b: "big \<longleftrightarrow> 10 * c_maxSize (sy_cache s) > 3 * sc_largestSize st"
        using lz [OF k] by (simp add: big_def k mx)
      have z: "z = (if big then sizes s ks - sc_largestSize st else sizes s ks)"
        using lz [OF k] by (simp add: z_def k)
      show ?thesis
      proof (cases big)
        case True
        with tfacts have e: "evict io r (sc_sys st) = (True, t)" by (simp add: t_def Some prod_eq_iff)
        show ?thesis using s' free size False ce True b e lt Some
          by (simp add: clean_def st_def [symmetric] Let_def mx ents sort_key_map by_access_def z)
      next
        case nb: False
        then have "t = sc_sys st" by (simp add: t_def)
        with nb show ?thesis using s' free size False ce b lt Some
          by (simp add: clean_def st_def [symmetric] Let_def mx ents sort_key_map by_access_def z)
      qed
    qed
    moreover have "\<forall>k\<in>set (by_access s ks). sy_objects s k \<noteq> None \<and> (l \<noteq> Some k \<longrightarrow> sy_objects t k = sy_objects s k)"
      using inks tfacts by (simp add: obj1)
    from clean_evict_spec [OF wf _ _ this ce] tfacts dk obtain n where n: "keeps io s s2"
      "sy_objects s2 = without (sy_objects t) (\<lambda>k. k \<in> set (take n (by_access s ks)) \<and> l \<noteq> Some k \<and> idle s k)"
      "z' = z - sizes s [k \<leftarrow> take n (by_access s ks). l \<noteq> Some k \<and> idle s k]"
      "n < length ks \<longrightarrow> z' \<le> mx"
      by (auto simp: mx)
    have "sy_objects s2 = without (sy_objects s) (\<lambda>k. expired s now k \<or> big \<and> l = Some k
       \<or> k \<in> set (take n (by_access s ks)) \<and> l \<noteq> Some k \<and> idle s k)"
      unfolding n(2) using tfacts by (auto simp: obj1 without_def fun_eq_iff)
    ultimately show ?thesis using n False lsp
      by (intro that [where l = l and big = big and n = n]) (auto simp: z_def big_def split: option.splits)
  qed
qed


lemma clean_keeps:
  assumes "sys_wf s" "distinct order" "set order = dom (sy_objects s)"
  shows "keeps io s (clean io now order s)"
proof (cases "c_cleaning (sy_cache s)")
  case True
  then show ?thesis by (simp add: clean_def keeps_refl)
next
  case False
  show ?thesis by (rule clean_spec [OF assms False refl refl refl])
qed

section \<open>Keys and file names\<close>

text \<open>
  The keys the cache can store: \<open>good_key\<close> excludes the three whose escaped form is no file name and
  those that would be taken for the completion marker of another key.
\<close>

definition good_key :: "string \<Rightarrow> bool" where
  "good_key k \<longleftrightarrow> k \<noteq> [] \<and> k \<noteq> ''.'' \<and> k \<noteq> ''..'' \<and> \<not> HasSuffix k ''-complete''"

lemma PathEscape_append: "PathEscape (a @ b) = PathEscape a @ PathEscape b"
  by (induction a) simp_all

lemma path_keep_marker [simp]:
  "path_keep (CHR ''.'')" "path_keep (CHR ''-'')" "path_keep (CHR ''c'')" "path_keep (CHR ''o'')"
  "path_keep (CHR ''m'')" "path_keep (CHR ''p'')" "path_keep (CHR ''l'')" "path_keep (CHR ''e'')"
  "path_keep (CHR ''t'')"
  by code_simp+

lemma PathEscape_complete [simp]: "PathEscape ''-complete'' = ''-complete''"
  by code_simp

lemma PathEscape_dots [simp]: "PathEscape ''.'' = ''.''" "PathEscape ''..'' = ''..''"
  by code_simp+

lemma HasSuffix_append: "HasSuffix s suf \<longleftrightarrow> (\<exists>p. s = p @ suf)"
proof
  assume "HasSuffix s suf"
  then have "s = take (length s - length suf) s @ suf"
    unfolding HasSuffix_def by (metis append_take_drop_id)
  then show "\<exists>p. s = p @ suf" by blast
qed (auto simp: HasSuffix_def)

lemma PathEscape_empty [simp]: "PathEscape k = [] \<longleftrightarrow> k = []"
  by (cases k) simp_all

lemma good_path: "good_key k \<Longrightarrow> keyToPath dir k = dir @ [PathEscape k]"
  using PathEscape_inj [of k "''.''"] PathEscape_inj [of k "''..''"]
  by (simp add: keyToPath_def good_key_def Let_def)

lemma good_complete: "good_key k \<Longrightarrow> completePath dir k = dir @ [PathEscape (k @ ''-complete'')]"
  by (simp add: completePath_def good_path path_suffix_def PathEscape_append)

lemma good_paths_differ:
  assumes "good_key k" "good_key k'"
  shows "keyToPath dir k \<noteq> completePath dir k'" "keyToPath dir k = keyToPath dir k' \<longleftrightarrow> k = k'"
    "completePath dir k = completePath dir k' \<longleftrightarrow> k = k'"
  using assms by (auto simp: good_path good_complete PathEscape_inj good_key_def HasSuffix_append)

section \<open>Properties of cleaning\<close>

text \<open>
  C32: Cleaning never takes an object away from its readers and touches nothing it keeps. An object
  with an open reader stays; an object that stays is unchanged, with both its directory entries and
  all file contents; an object that goes had no reader, is no longer found, and its file and marker
  are removed unless the system refuses.
\<close>

theorem clean_keeps_readers:
  assumes "sys_wf s" "distinct order" "set order = dom (sy_objects s)" "s' = clean io now order s"
    "\<forall>k'. sy_objects s k' \<noteq> None \<longrightarrow> good_key k'" "GetObject k s = Some r"
  shows "(ob_readerCount (sy_heap s r) > 0 \<longrightarrow> GetObject k s' = Some r)
    \<and> (if GetObject k s' = Some r
       then sy_heap s' r = sy_heap s r \<and> w_data (sy_world s') = w_data (sy_world s)
         \<and> w_dir (sy_world s') (keyToPath (sy_dir s) k) = w_dir (sy_world s) (keyToPath (sy_dir s) k)
         \<and> w_dir (sy_world s') (completePath (sy_dir s) k) = w_dir (sy_world s) (completePath (sy_dir s) k)
       else GetObject k s' = None \<and> ob_readerCount (sy_heap s r) \<le> 0
         \<and> (\<forall>p. (p = keyToPath (sy_dir s) k \<or> p = completePath (sy_dir s) k)
              \<and> \<not> io_remove_fails io p \<and> \<not> w_isdir (sy_world s) p \<longrightarrow> w_dir (sy_world s') p = None))"
proof -
  have kp: "keeps io s s'" using clean_keeps [OF assms(1-3)] assms(4) by simp
  have r: "sy_objects s k = Some r" using assms(6) by (simp add: GetObject_def)
  show ?thesis
  proof (cases "sy_objects s' k = Some r")
    case True
    have "p = keyToPath (sy_dir s) k \<or> p = completePath (sy_dir s) k
      \<Longrightarrow> w_dir (sy_world s') p = w_dir (sy_world s) p" for p
    proof (rule ccontr)
      assume p: "p = keyToPath (sy_dir s) k \<or> p = completePath (sy_dir s) k"
        and "w_dir (sy_world s') p \<noteq> w_dir (sy_world s) p"
      with kp obtain k' where k': "sy_objects s k' \<noteq> None" "sy_objects s' k' = None"
        "p = keyToPath (sy_dir s) k' \<or> p = completePath (sy_dir s) k'"
        unfolding keeps_def by metis
      have "good_key k" "good_key k'" using assms(5) r k'(1) by auto
      with p k'(3) have "k = k'" using good_paths_differ by metis
      with True k'(2) show False by simp
    qed
    then show ?thesis using True keeps_Some [OF kp True] kp by (auto simp: GetObject_def keeps_def)
  next
    case False
    then have n: "sy_objects s' k = None" "ob_readerCount (sy_heap s r) \<le> 0"
      using r by (cases rule: keeps_cases [OF kp, of k]; simp)+
    then show ?thesis using False files_goneD [OF keeps_gone [OF kp], of k] r by (auto simp: GetObject_def)
  qed
qed

text \<open>
  Cleaning frees what it should, in the right order. After a run every idle object that was
  unused for longer than the limit is gone. If the rest fits the size limit nothing else is dropped.
  Otherwise objects are dropped from the least recently used on, passing over those in use, until
  the rest fits or only objects in use are left; the one exception is the largest object that was
  idle for half an hour, which goes first when the limit is more than 0.3 times its size and stays
  otherwise.
\<close>

lemma clean_frees_space:
  assumes "sys_wf s" "distinct order" "set order = dom (sy_objects s)" "\<not> c_cleaning (sy_cache s)"
    "s' = clean io now order s" "mx = c_maxSize (sy_cache s)"
  shows "\<exists>largest.
    (case largest of None \<Rightarrow> \<forall>k. old_idle s now k \<longrightarrow> expired s now k
     | Some k \<Rightarrow> old_idle s now k \<and> \<not> expired s now k
         \<and> (\<forall>k'. old_idle s now k' \<and> \<not> expired s now k' \<longrightarrow> ob_size (obj_of s k') \<le> ob_size (obj_of s k)))
    \<and> (\<forall>k. expired s now k \<longrightarrow> GetObject k s' = None)
    \<and> (sizes s [k \<leftarrow> order. \<not> expired s now k] \<le> mx \<longrightarrow>
         (\<forall>k. \<not> expired s now k \<longrightarrow> GetObject k s' = GetObject k s))
    \<and> (mx < sizes s [k \<leftarrow> order. \<not> expired s now k] \<longrightarrow>
         (\<forall>k. largest = Some k \<longrightarrow> (GetObject k s' = None \<longleftrightarrow> 3 * ob_size (obj_of s k) < 10 * mx))
       \<and> (sizes s [k \<leftarrow> order. GetObject k s' \<noteq> None] \<le> mx
          \<or> (\<forall>k. GetObject k s' \<noteq> None \<longrightarrow> largest = Some k \<or> \<not> idle s k))
       \<and> (\<forall>k k'. GetObject k s' \<noteq> None \<and> idle s k \<and> largest \<noteq> Some k
            \<and> GetObject k' s \<noteq> None \<and> GetObject k' s' = None \<and> \<not> expired s now k' \<and> largest \<noteq> Some k'
          \<longrightarrow> ob_accessed (obj_of s k') \<le> ob_accessed (obj_of s k)))"
proof -
  let ?ks = "kept_keys s now order"
  have keq: "[k \<leftarrow> order. \<not> expired s now k] = ?ks"
    unfolding kept_keys_def using assms(3) by (intro filter_cong) auto
  have dk: "distinct ?ks" and inks: "k \<in> set ?ks \<longleftrightarrow> sy_objects s k \<noteq> None \<and> \<not> expired s now k" for k
    using assms(2,3) by (auto simp: kept_keys_def)
  have old: "old_idle s now k \<Longrightarrow> \<not> expired s now k \<Longrightarrow> k \<in> set ?ks" for k
    by (simp add: inks old_idle_def idle_def)
  obtain l big n where
    obj: "sy_objects s' = without (sy_objects s) (\<lambda>k. expired s now k \<or> big \<and> l = Some k
       \<or> k \<in> set (take n (by_access s ?ks)) \<and> l \<noteq> Some k \<and> idle s k)"
    and l: "case l of None \<Rightarrow> \<forall>k\<in>set ?ks. \<not> old_idle s now k
     | Some k \<Rightarrow> k \<in> set ?ks \<and> old_idle s now k
         \<and> (\<forall>k'\<in>set ?ks. old_idle s now k' \<longrightarrow> ob_size (obj_of s k') \<le> ob_size (obj_of s k))"
    and big: "big \<longleftrightarrow> sizes s ?ks > mx \<and> (case l of None \<Rightarrow> False | Some k \<Rightarrow> 10 * mx > 3 * ob_size (obj_of s k))"
    and fit: "sizes s ?ks \<le> mx \<longrightarrow> n = 0"
    and stop: "sizes s ?ks > mx \<longrightarrow> n < length ?ks \<longrightarrow>
       sizes s ?ks - (if big then ob_size (obj_of s (the l)) else 0)
         - sizes s [k \<leftarrow> take n (by_access s ?ks). l \<noteq> Some k \<and> idle s k] \<le> mx"
    by (rule clean_spec [OF assms(1-5) refl assms(6)]) (rule that; assumption)
  have largest: "case l of None \<Rightarrow> \<forall>k. old_idle s now k \<longrightarrow> expired s now k
     | Some k \<Rightarrow> old_idle s now k \<and> \<not> expired s now k
         \<and> (\<forall>k'. old_idle s now k' \<and> \<not> expired s now k' \<longrightarrow> ob_size (obj_of s k') \<le> ob_size (obj_of s k))"
  proof (cases l)
    case None
    then show ?thesis using l old by auto
  next
    case (Some k)
    then show ?thesis using l old inks [of k] by auto
  qed
  have gone: "\<forall>k. expired s now k \<longrightarrow> GetObject k s' = None"
    by (simp add: obj GetObject_def)
  have fits: "sizes s ?ks \<le> mx \<longrightarrow> (\<forall>k. \<not> expired s now k \<longrightarrow> GetObject k s' = GetObject k s)"
    using fit big by (simp add: obj GetObject_def)
  have big_l: "\<forall>k. l = Some k \<longrightarrow> (GetObject k s' = None \<longleftrightarrow> 3 * ob_size (obj_of s k) < 10 * mx)"
    if "mx < sizes s ?ks" using that l big by (auto simp: obj GetObject_def inks)
  let ?left = "[k \<leftarrow> order. GetObject k s' \<noteq> None]"
  let ?out = "{k \<in> set (take n (by_access s ?ks)). l \<noteq> Some k \<and> idle s k}"
  have "?out \<subseteq> set ?ks" by (auto dest: in_set_takeD)
  then have split: "set ?ks = set ?left \<union> (if big then {the l} else {}) \<union> ?out"
    using l big assms(3) by (auto simp: obj GetObject_def inks split: option.splits if_splits)
  have rest: "sizes s ?left \<le> mx" if m: "mx < sizes s ?ks" and n: "n < length ?ks"
  proof -
    let ?f = "\<lambda>k. ob_size (obj_of s k)"
    have d1: "set ?left \<inter> ?out = {}" "set ?left \<inter> (if big then {the l} else {}) = {}"
      "(if big then {the l} else {}) \<inter> ?out = {}"
      using l big by (auto simp: obj GetObject_def split: option.splits)
    have "sum ?f (set ?ks) = sum ?f (set ?left) + sum ?f (if big then {the l} else {}) + sum ?f ?out"
      unfolding split using d1 by (subst sum.union_disjoint; auto)+
    moreover have "sizes s ?ks = sum ?f (set ?ks)" "sizes s ?left = sum ?f (set ?left)"
      "sizes s [k \<leftarrow> take n (by_access s ?ks). l \<noteq> Some k \<and> idle s k] = sum ?f ?out"
      using dk assms(2) by (simp_all add: sizes_set)
    ultimately show ?thesis using stop m n by (simp split: if_splits)
  qed
  have all: "\<forall>k. GetObject k s' \<noteq> None \<longrightarrow> l = Some k \<or> \<not> idle s k" if "\<not> n < length ?ks"
    using that inks by (auto simp: obj GetObject_def)
  have lru: "ob_accessed (obj_of s k') \<le> ob_accessed (obj_of s k)"
    if a: "GetObject k s' \<noteq> None" "idle s k" "l \<noteq> Some k"
      and b: "GetObject k' s \<noteq> None" "GetObject k' s' = None" "\<not> expired s now k'" "l \<noteq> Some k'" for k k'
  proof -
    let ?xs = "by_access s ?ks"
    have "k' \<in> set (take n ?xs)" using b by (auto simp: obj GetObject_def split: if_splits)
    then obtain i where i: "i < n" "i < length ?xs" "?xs ! i = k'" by (auto simp: in_set_conv_nth)
    have "k \<in> set ?xs" "k \<notin> set (take n ?xs)" using a by (auto simp: obj GetObject_def inks split: if_splits)
    then obtain j where j: "j < length ?xs" "?xs ! j = k" unfolding in_set_conv_nth [of k ?xs] by blast
    have "n \<le> j"
    proof (rule ccontr)
      assume "\<not> n \<le> j"
      with j have "k \<in> set (take n ?xs)" by (auto simp: in_set_conv_nth intro!: exI [of _ j])
      with \<open>k \<notin> set (take n ?xs)\<close> show False by simp
    qed
    with i have "i \<le> j" by simp
    moreover have "sorted (map (\<lambda>k. ob_accessed (obj_of s k)) ?xs)" by (simp add: by_access_def)
    ultimately show ?thesis using sorted_nth_mono [of "map (\<lambda>k. ob_accessed (obj_of s k)) ?xs" i j] i j by simp
  qed
  show ?thesis unfolding keq
    by (rule exI [of _ l]) (use largest gone fits big_l rest all lru in blast)
qed


definition ex_obj :: "string \<Rightarrow> int \<Rightarrow> int \<Rightarrow> int \<Rightarrow> Object" where
  "ex_obj k sz readers acc = \<lparr> ob_key = k, ob_size = sz, ob_file = None, ob_readerCount = readers,
     ob_complete = True, ob_dataChanged = 0, ob_modified = 0, ob_accessed = acc \<rparr>"

definition ex_sys :: sys where
  "ex_sys = \<lparr> sy_cache = \<lparr> c_dir = [''c''], c_maxSize = 30, c_maxUnusedTime = 1000,
       c_objects = [''a'' \<mapsto> 0, ''b'' \<mapsto> 1, ''d'' \<mapsto> 2], c_cleaning = False, c_closed = False \<rparr>,
     sy_heap = (\<lambda>r. if r = 0 then ex_obj ''a'' 20 1 0 else if r = 1 then ex_obj ''b'' 20 0 1 else ex_obj ''d'' 20 0 2),
     sy_next = 3, sy_world = ex_world \<rparr>"

lemma ex_sys_wf: "sys_wf ex_sys"
  by (auto simp: sys_wf_def ex_sys_def ex_obj_def split: if_splits)

lemma ex_sys_dom: "set [''a'', ''b'', ''d''] = dom (sy_objects ex_sys)"
  by (auto simp: ex_sys_def split: if_splits)

lemma ex_sys_good: "\<forall>k. sy_objects ex_sys k \<noteq> None \<longrightarrow> good_key k"
  by (auto simp: ex_sys_def good_key_def HasSuffix_def split: if_splits)

theorem clean_keeps_readers_witness:
  "GetObject ''a'' (clean io_ok 3 [''a'', ''b'', ''d''] ex_sys) = Some 0
    \<and> sy_heap (clean io_ok 3 [''a'', ''b'', ''d''] ex_sys) 0 = ex_obj ''a'' 20 1 0"
proof -
  have "GetObject ''a'' ex_sys = Some 0" "distinct [''a'', ''b'', ''d'']" by (simp_all add: GetObject_def ex_sys_def)
  from clean_keeps_readers [OF ex_sys_wf this(2) ex_sys_dom refl ex_sys_good this(1), of io_ok 3]
  show ?thesis by (auto simp: ex_sys_def ex_obj_def)
qed

lemma clean_ex_sys:
  "map (\<lambda>k. GetObject k (clean io_ok 3 [''a'', ''b'', ''d''] ex_sys)) [''a'', ''b'', ''d''] = [Some 0, None, None]"
  by code_simp

lemma clean_frees_space_example:
  "map (\<lambda>k. GetObject k (clean io_ok 3 [''a'', ''b'', ''d''] ex_sys)) [''a'', ''b'', ''d''] = [Some 0, None, None]
    \<and> GetObject ''b'' (clean io_ok 5000 [''a'', ''b'', ''d''] ex_sys) = None"
proof -
  have d: "distinct [''a'', ''b'', ''d'']" "\<not> c_cleaning (sy_cache ex_sys)" by (simp_all add: ex_sys_def)
  have "expired ex_sys 5000 ''b''"
    by (simp add: expired_def idle_def obj_of_def ex_sys_def ex_obj_def)
  moreover have "\<forall>k. expired ex_sys 5000 k \<longrightarrow> GetObject k (clean io_ok 5000 [''a'', ''b'', ''d''] ex_sys) = None"
    using clean_frees_space [OF ex_sys_wf d(1) ex_sys_dom d(2) refl refl, of 5000 io_ok] by (elim exE conjE)
  ultimately show ?thesis using clean_ex_sys by simp
qed

text \<open>
  An idle object that is too large shields itself. If the largest object idle for half an hour is
  not used for too long but is at least 10/3 of the size limit, a run keeps it, although it alone is
  over the limit, and drops every other idle object instead.
\<close>

lemma oversized_object_stays:
  assumes "sys_wf s" "distinct order" "set order = dom (sy_objects s)" "\<not> c_cleaning (sy_cache s)"
    "s' = clean io now order s" "0 \<le> c_maxSize (sy_cache s)" "\<forall>k \<in> dom (sy_objects s). 0 \<le> ob_size (obj_of s k)"
    "old_idle s now k" "\<not> expired s now k" "10 * c_maxSize (sy_cache s) \<le> 3 * ob_size (obj_of s k)"
    "\<forall>k' \<in> dom (sy_objects s). k' \<noteq> k \<longrightarrow> ob_size (obj_of s k') < ob_size (obj_of s k)"
    "0 < ob_size (obj_of s k)"
  shows "GetObject k s' = GetObject k s \<and> GetObject k s' \<noteq> None
    \<and> (\<forall>k'. k' \<noteq> k \<and> idle s k' \<longrightarrow> GetObject k' s' = None)"
proof -
  let ?ks = "kept_keys s now order" and ?f = "\<lambda>k. ob_size (obj_of s k)" and ?mx = "c_maxSize (sy_cache s)"
  have dk: "distinct ?ks" and inks: "k \<in> set ?ks \<longleftrightarrow> sy_objects s k \<noteq> None \<and> \<not> expired s now k" for k
    using assms(2,3) by (auto simp: kept_keys_def)
  have kks: "k \<in> set ?ks" using assms(8,9) by (simp add: inks old_idle_def idle_def)
  have nn: "\<forall>k'\<in>set ?ks. 0 \<le> ?f k'" using assms(7) inks by auto
  obtain l big n where
    obj: "sy_objects s' = without (sy_objects s) (\<lambda>k. expired s now k \<or> big \<and> l = Some k
       \<or> k \<in> set (take n (by_access s ?ks)) \<and> l \<noteq> Some k \<and> idle s k)"
    and l: "case l of None \<Rightarrow> \<forall>k\<in>set ?ks. \<not> old_idle s now k
     | Some k \<Rightarrow> k \<in> set ?ks \<and> old_idle s now k
         \<and> (\<forall>k'\<in>set ?ks. old_idle s now k' \<longrightarrow> ob_size (obj_of s k') \<le> ob_size (obj_of s k))"
    and big: "big \<longleftrightarrow> sizes s ?ks > ?mx \<and> (case l of None \<Rightarrow> False | Some k \<Rightarrow> 10 * ?mx > 3 * ob_size (obj_of s k))"
    and stop: "sizes s ?ks > ?mx \<longrightarrow> n < length ?ks \<longrightarrow>
       sizes s ?ks - (if big then ob_size (obj_of s (the l)) else 0)
         - sizes s [k \<leftarrow> take n (by_access s ?ks). l \<noteq> Some k \<and> idle s k] \<le> ?mx"
    by (rule clean_spec [OF assms(1-5) refl refl]) (rule that; assumption)
  have lk: "l = Some k"
  proof (cases l)
    case None
    then show ?thesis using l kks assms(8) by auto
  next
    case (Some k0)
    then have "k0 \<in> set ?ks" "?f k \<le> ?f k0" using l kks assms(8) by auto
    then have "k0 = k" using assms(11) inks by force
    then show ?thesis using Some by simp
  qed
  have nb: "\<not> big" using big lk assms(10) by simp
  have kmx: "?mx < ?f k" using assms(6,10,12) by arith
  have sub: "sizes s ?ks - sizes s [k \<leftarrow> take n (by_access s ?ks). l \<noteq> Some k \<and> idle s k] \<ge> ?f k"
  proof -
    let ?out = "{k \<in> set (take n (by_access s ?ks)). l \<noteq> Some k \<and> idle s k}"
    have o: "?out \<subseteq> set ?ks" by (auto dest: in_set_takeD)
    have "sum ?f (insert k ?out) \<le> sum ?f (set ?ks)"
      using o kks nn by (intro sum_mono2) auto
    moreover have "sum ?f (insert k ?out) = ?f k + sum ?f ?out" using lk by simp
    moreover have "sizes s [k \<leftarrow> take n (by_access s ?ks). l \<noteq> Some k \<and> idle s k] = sum ?f ?out"
      using dk by (simp add: sizes_set)
    ultimately show ?thesis using dk by (simp add: sizes_set)
  qed
  have over: "sizes s ?ks > ?mx"
  proof -
    have "sum ?f {k} \<le> sum ?f (set ?ks)" using kks nn by (intro sum_mono2) auto
    then show ?thesis using kmx dk by (simp add: sizes_set)
  qed
  have "\<not> n < length ?ks"
  proof
    assume "n < length ?ks"
    with stop over nb sub have "?f k \<le> ?mx" by simp
    with kmx show False by simp
  qed
  then show ?thesis using obj lk nb kks inks assms(9) by (auto simp: GetObject_def)
qed

definition ex_big :: sys where
  "ex_big = ex_sys\<lparr> sy_cache := (sy_cache ex_sys)\<lparr> c_maxUnusedTime := 10 ^ 15 \<rparr>,
     sy_heap := (\<lambda>r. if r = 0 then ex_obj ''a'' 100 0 0 else if r = 1 then ex_obj ''b'' 5 0 1 else ex_obj ''d'' 5 0 2) \<rparr>"

lemma oversized_object_stays_example:
  "GetObject ''a'' (clean io_ok (10 ^ 13) [''a'', ''b'', ''d''] ex_big) \<noteq> None
    \<and> GetObject ''b'' (clean io_ok (10 ^ 13) [''a'', ''b'', ''d''] ex_big) = None"
proof -
  note defs = ex_big_def ex_sys_def ex_obj_def obj_of_def
  have wf: "sys_wf ex_big" by (auto simp: sys_wf_def defs split: if_splits)
  have di: "distinct [''a'', ''b'', ''d'']" by simp
  have dom: "set [''a'', ''b'', ''d''] = dom (sy_objects ex_big)" by (auto simp: defs split: if_splits)
  have nc: "\<not> c_cleaning (sy_cache ex_big)" "0 \<le> c_maxSize (sy_cache ex_big)" by (simp_all add: defs)
  have nn: "\<forall>k \<in> dom (sy_objects ex_big). 0 \<le> ob_size (obj_of ex_big k)"
    by (auto simp: defs split: if_splits)
  have old: "old_idle ex_big (10 ^ 13) ''a''" "\<not> expired ex_big (10 ^ 13) ''a''"
    "10 * c_maxSize (sy_cache ex_big) \<le> 3 * ob_size (obj_of ex_big ''a'')"
    by (simp_all add: old_idle_def expired_def idle_def idleMinimum_def defs)
  have lt: "\<forall>k' \<in> dom (sy_objects ex_big). k' \<noteq> ''a'' \<longrightarrow> ob_size (obj_of ex_big k') < ob_size (obj_of ex_big ''a'')"
    "0 < ob_size (obj_of ex_big ''a'')"
    by (auto simp: defs split: if_splits)
  have b: "''b'' \<noteq> ''a''" "idle ex_big ''b''" by (simp_all add: idle_def defs)
  note t = oversized_object_stays [OF wf di dom nc(1) refl nc(2) nn old lt, of io_ok]
  show ?thesis
    by (rule conjI [OF conjunct1 [OF conjunct2 [OF t]] mp [OF spec [OF conjunct2 [OF conjunct2 [OF t]]] conjI [OF b]]])
qed

end
