(* ===== verification/CacheDisk.thy ===== *)
theory CacheDisk
  imports Cache
begin

text \<open>
  The cache and its directory: an invariant that ties every object to its file and marker, kept by all
  operations on objects the cache holds when the file system works, and what a restart finds. The
  laws of the cache as a store of objects, which its callers rely on.
\<close>

section \<open>The directory holds the objects\<close>

definition no_faults :: "io_env \<Rightarrow> bool" where
  "no_faults io \<longleftrightarrow> (\<forall>p. \<not> io_create_fails io p \<and> \<not> io_open_fails io p \<and> \<not> io_remove_fails io p \<and> \<not> io_stat_fails io p)
     \<and> \<not> io_close_fails io \<and> \<not> io_mkdir_fails io \<and> \<not> io_removeall_fails io \<and> \<not> io_readdir_fails io"

definition obj_on_disk :: "path \<Rightarrow> world \<Rightarrow> string \<Rightarrow> Object \<Rightarrow> bool" where
  "obj_on_disk dir w k ob \<longleftrightarrow>
     (case w_dir w (keyToPath dir k) of None \<Rightarrow> False
      | Some i \<Rightarrow> ob_size ob = int (length (w_data w i))
          \<and> (case ob_file ob of None \<Rightarrow> ob_complete ob
             | Some f \<Rightarrow> fh_ino f = i \<and> (ob_complete ob \<or> fh_writable f \<and> fh_off f = length (w_data w i))))
     \<and> (ob_complete ob \<longleftrightarrow> w_dir w (completePath dir k) \<noteq> None)"

definition disk_ok :: "sys \<Rightarrow> bool" where
  "disk_ok s \<longleftrightarrow> sys_wf s \<and> world_wf (sy_world s)
     \<and> w_isdir (sy_world s) (sy_dir s) \<and> (\<forall>n. \<not> w_isdir (sy_world s) (sy_dir s @ [n]))
     \<and> (\<forall>n. w_dir (sy_world s) (take n (sy_dir s)) = None)
     \<and> (\<forall>k r. sy_objects s k = Some r \<longrightarrow> good_key k \<and> obj_on_disk (sy_dir s) (sy_world s) k (sy_heap s r))
     \<and> (\<forall>n. w_dir (sy_world s) (sy_dir s @ [n]) \<noteq> None \<longrightarrow>
          (\<exists>k. sy_objects s k \<noteq> None \<and> (n = PathEscape k \<or> n = PathEscape (k @ ''-complete''))))"

text \<open>The steps: operations on the cache and on objects it holds, on a working file system.\<close>

definition holds :: "sys \<Rightarrow> ref \<Rightarrow> bool" where
  "holds s r \<longleftrightarrow> sy_objects s (ob_key (sy_heap s r)) = Some r"

inductive cache_step :: "sys \<Rightarrow> sys \<Rightarrow> bool" where
  c_create: "\<lbrakk>no_faults io; good_key key; CreateObject io now key s = (res, s')\<rbrakk> \<Longrightarrow> cache_step s s'"
| c_delete: "\<lbrakk>no_faults io; DeleteObject io key s = (res, s')\<rbrakk> \<Longrightarrow> cache_step s s'"
| c_clean: "\<lbrakk>no_faults io; distinct order; set order = dom (sy_objects s)\<rbrakk> \<Longrightarrow> cache_step s (clean io now order s)"
| c_clear: "\<lbrakk>no_faults io; set order = dom (sy_objects s); Clear io order s = (res, s')\<rbrakk> \<Longrightarrow> cache_step s s'"
| c_write: "\<lbrakk>no_faults io; holds s r; Object_Write io now p (sy_heap s r) (sy_world s) = (res, ob, w)\<rbrakk>
    \<Longrightarrow> cache_step s (set_obj r ob w s)"
| c_complete: "\<lbrakk>no_faults io; holds s r; Object_SetComplete io (sy_dir s) (sy_heap s r) (sy_world s) = (res, ob, w)\<rbrakk>
    \<Longrightarrow> cache_step s (set_obj r ob w s)"
| c_use: "\<lbrakk>no_faults io; holds s r; newCacheReader io (sy_dir s) now (sy_heap s r) (sy_world s) = (res, ob)\<rbrakk>
    \<Longrightarrow> cache_step s (set_obj r ob (sy_world s) s)"
| c_release: "\<lbrakk>no_faults io; holds s r; cacheReader_Close io (sy_heap s r) = (res, ob)\<rbrakk>
    \<Longrightarrow> cache_step s (set_obj r ob (sy_world s) s)"

lemma disk_okD:
  assumes "disk_ok s"
  shows "sys_wf s" "world_wf (sy_world s)" "w_isdir (sy_world s) (sy_dir s)" "\<not> w_isdir (sy_world s) (sy_dir s @ [n])"
    "sy_objects s k = Some r \<Longrightarrow> good_key k" "sy_objects s k = Some r \<Longrightarrow> obj_on_disk (sy_dir s) (sy_world s) k (sy_heap s r)"
  using assms by (simp_all add: disk_ok_def)

text \<open>Inodes of different paths are different, so a change to one object's file leaves the others.\<close>

lemma obj_on_disk_frame:
  assumes "obj_on_disk dir w k ob"
    "w_dir w' (keyToPath dir k) = w_dir w (keyToPath dir k)"
    "w_dir w' (completePath dir k) = w_dir w (completePath dir k)"
    "\<And>i. w_dir w (keyToPath dir k) = Some i \<Longrightarrow> w_data w' i = w_data w i"
  shows "obj_on_disk dir w' k ob"
  using assms unfolding obj_on_disk_def by (auto split: option.splits)

text \<open>
  Preservation by a step that changes one object \<open>r\<close> in place and only its own two entries and
  inode.
\<close>

lemma disk_ok_update:
  assumes ok: "disk_ok s" and k: "sy_objects s k = Some r" and key: "ob_key ob = k" "0 \<le> ob_readerCount ob"
    and od: "obj_on_disk (sy_dir s) w k ob" and wf: "world_wf w"
    and dirs: "w_isdir w = w_isdir (sy_world s)"
    and other: "\<And>p. p \<noteq> completePath (sy_dir s) k \<Longrightarrow> w_dir w p = w_dir (sy_world s) p"
    and data: "\<And>p i. w_dir (sy_world s) p = Some i \<Longrightarrow> p \<noteq> keyToPath (sy_dir s) k \<Longrightarrow> p \<noteq> completePath (sy_dir s) k
      \<Longrightarrow> w_data w i = w_data (sy_world s) i"
  shows "disk_ok (set_obj r ob w s)"
proof -
  note wfs = disk_okD(1) [OF ok]
  have rk: "ob_key (sy_heap s r) = k" using sys_wfD [OF wfs k] by simp
  have uniq: "sy_objects s k' = Some r \<Longrightarrow> k' = k" for k' using sys_wfD [OF wfs, of k' r] rk by simp
  have gk: "good_key k" using disk_okD(5) [OF ok k] .
  have wf': "sys_wf (set_obj r ob w s)"
    unfolding sys_wf_def
  proof (intro allI impI)
    fix k' r' assume "sy_objects (set_obj r ob w s) k' = Some r'"
    then have k': "sy_objects s k' = Some r'" by simp
    show "r' < sy_next (set_obj r ob w s) \<and> ob_key (sy_heap (set_obj r ob w s) r') = k'
      \<and> 0 \<le> ob_readerCount (sy_heap (set_obj r ob w s) r')"
      using sys_wfD [OF wfs k'] uniq [of k'] k' key by (cases "r' = r") simp_all
  qed
  have objs: "obj_on_disk (sy_dir s) w k' (((sy_heap s)(r := ob)) r')" if k': "sy_objects s k' = Some r'" for k' r'
  proof (cases "r' = r")
    case True
    with uniq k' od show ?thesis by simp
  next
    case False
    then have ne: "k' \<noteq> k" using k k' by auto
    have g': "good_key k'" using disk_okD(5) [OF ok k'] .
    note nep = good_paths_differ [OF gk g'] good_paths_differ [OF g' gk]
    have "obj_on_disk (sy_dir s) w k' (sy_heap s r')"
      by (rule obj_on_disk_frame [OF disk_okD(6) [OF ok k']])
        (use nep ne other data in \<open>auto simp: eq_commute [of "completePath (sy_dir s) k"]\<close>)
    with False show ?thesis by simp
  qed
  have ent: "\<exists>k. sy_objects s k \<noteq> None \<and> (n = PathEscape k \<or> n = PathEscape (k @ ''-complete''))"
    if "w_dir w (sy_dir s @ [n]) \<noteq> None" for n
  proof (cases "sy_dir s @ [n] = completePath (sy_dir s) k")
    case True
    then show ?thesis using k gk by (auto simp: good_complete)
  next
    case False
    then show ?thesis using that other ok by (auto simp: disk_ok_def)
  qed
  have pre: "w_dir w (take n (sy_dir s)) = None" for n
  proof -
    have "length (take n (sy_dir s)) < length (completePath (sy_dir s) k)" by (simp add: good_complete gk)
    then have "take n (sy_dir s) \<noteq> completePath (sy_dir s) k" by (metis less_irrefl)
    then show ?thesis using other ok by (simp add: disk_ok_def)
  qed
  show ?thesis
    unfolding disk_ok_def using wf' wf dirs objs ent pre ok by (simp add: disk_ok_def)
qed


lemma holdsD: "\<lbrakk>disk_ok s; holds s r\<rbrakk> \<Longrightarrow> \<exists>k. sy_objects s k = Some r \<and> ob_key (sy_heap s r) = k"
  by (auto simp: holds_def)

lemma world_inj: "\<lbrakk>world_wf w; w_dir w p = Some i; w_dir w q = Some i\<rbrakk> \<Longrightarrow> p = q"
  unfolding world_wf_def by blast

lemma disk_ok_write:
  assumes ok: "disk_ok s" and k: "sy_objects s k = Some r"
    and wr: "Object_Write io now p (sy_heap s r) (sy_world s) = (res, ob, w)"
  shows "disk_ok (set_obj r ob w s)"
proof (cases "ob_complete (sy_heap s r)")
  case True
  with wr have "ob = sy_heap s r" "w = sy_world s" by (simp_all add: Object_Write_def)
  then have "set_obj r ob w s = s" by (simp add: set_obj_def)
  then show ?thesis using ok by simp
next
  case False
  note wfs = sys_wfD [OF disk_okD(1) [OF ok] k]
  from disk_okD(6) [OF ok k] False obtain i f where i: "w_dir (sy_world s) (keyToPath (sy_dir s) k) = Some i"
    and f: "ob_file (sy_heap s r) = Some f" "fh_ino f = i" "fh_writable f" "fh_off f = length (w_data (sy_world s) i)"
    and sz: "ob_size (sy_heap s r) = int (length (w_data (sy_world s) i))"
    and nc: "w_dir (sy_world s) (completePath (sy_dir s) k) = None"
    by (auto simp: obj_on_disk_def split: option.splits)
  define n where "n = (case io_write_limit io of None \<Rightarrow> length p | Some k \<Rightarrow> min k (length p))"
  have n: "n \<le> length p" by (simp add: n_def split: option.split)
  from f have fw: "file_Write io f p (sy_world s)
      = (n, if n < length p then Some CErrIO else None, f\<lparr> fh_off := fh_off f + n \<rparr>,
         (sy_world s)\<lparr> w_data := (w_data (sy_world s))(i := w_data (sy_world s) i @ take n p) \<rparr>)"
    by (simp add: file_Write_def Let_def n_def [symmetric] write_at_end)
  from wr False f fw have w: "w = (sy_world s)\<lparr> w_data := (w_data (sy_world s))(i := w_data (sy_world s) i @ take n p) \<rparr>"
    and ob: "ob_key ob = ob_key (sy_heap s r)" "ob_readerCount ob = ob_readerCount (sy_heap s r)"
      "ob_complete ob = False" "ob_file ob = Some (f\<lparr> fh_off := fh_off f + n \<rparr>)"
      "ob_size ob = ob_size (sy_heap s r) + int n"
    by (auto simp: Object_Write_def Let_def signalDataChanged_def split: if_splits)
  show ?thesis
  proof (rule disk_ok_update [OF ok k])
    show "obj_on_disk (sy_dir s) w k ob"
      using i f sz nc n by (simp add: obj_on_disk_def w ob)
    show "world_wf w" using disk_okD(2) [OF ok] by (simp add: w world_wf_def)
    show "w_data w j = w_data (sy_world s) j"
      if "w_dir (sy_world s) q = Some j" "q \<noteq> keyToPath (sy_dir s) k" for q j
      using world_inj [OF disk_okD(2) [OF ok] i] that by (auto simp: w)
  qed (use wfs ob in \<open>simp_all add: w\<close>)
qed

lemma disk_ok_complete:
  assumes ok: "disk_ok s" and k: "sy_objects s k = Some r" and nf: "no_faults io"
    and sc: "Object_SetComplete io (sy_dir s) (sy_heap s r) (sy_world s) = (res, ob, w)"
  shows "disk_ok (set_obj r ob w s)"
proof -
  note wfs = sys_wfD [OF disk_okD(1) [OF ok] k] and gk = disk_okD(5) [OF ok k]
  let ?c = "completePath (sy_dir s) k"
  have "w_isdir (sy_world s) (butlast ?c)" "\<not> w_isdir (sy_world s) ?c"
    using disk_okD(3,4) [OF ok] by (simp_all add: good_complete [OF gk])
  then obtain g where cr: "os_Create io ?c (sy_world s) = Some (g, w)"
    using sc nf wfs by (auto simp: Object_SetComplete_def os_Create_def no_faults_def Let_def split: option.splits if_splits)
  note cw = os_Create_wf [OF disk_okD(2) [OF ok] cr]
  from sc cr wfs have ob: "ob = signalDataChanged ((sy_heap s r)\<lparr> ob_complete := True \<rparr>)"
    by (simp add: Object_SetComplete_def Let_def)
  from disk_okD(6) [OF ok k] obtain i where i: "w_dir (sy_world s) (keyToPath (sy_dir s) k) = Some i"
    and sz: "ob_size (sy_heap s r) = int (length (w_data (sy_world s) i))"
    by (auto simp: obj_on_disk_def split: option.splits)
  have lt: "i < w_next (sy_world s)" using disk_okD(2) [OF ok] i by (simp add: world_wf_def)
  have ni: "w_dir (sy_world s) ?c \<noteq> Some i" using world_inj [OF disk_okD(2) [OF ok] i, of ?c] by auto
  show ?thesis
  proof (rule disk_ok_update [OF ok k])
    have di: "w_data w i = w_data (sy_world s) i" using cw lt ni by simp
    have ki: "w_dir w (keyToPath (sy_dir s) k) = Some i" using cw i by simp
    show "obj_on_disk (sy_dir s) w k ob"
      using disk_okD(6) [OF ok k] i cw di ki
      by (simp add: obj_on_disk_def ob signalDataChanged_def split: option.splits)
    show "w_data w j = w_data (sy_world s) j" if "w_dir (sy_world s) q = Some j" "q \<noteq> ?c" for q j
    proof -
      have "j < w_next (sy_world s)" using disk_okD(2) [OF ok] that by (simp add: world_wf_def)
      moreover have "w_dir (sy_world s) ?c \<noteq> Some j" using world_inj [OF disk_okD(2) [OF ok] that(1)] that(2) by auto
      ultimately show ?thesis using cw by simp
    qed
  qed (use wfs ob cw in \<open>simp_all add: signalDataChanged_def\<close>)
qed

lemma disk_ok_use:
  assumes ok: "disk_ok s" and k: "sy_objects s k = Some r" and nf: "no_faults io"
    and us: "newCacheReader io (sy_dir s) now (sy_heap s r) (sy_world s) = (res, ob)"
  shows "disk_ok (set_obj r ob (sy_world s) s)"
proof (rule disk_ok_update [OF ok k])
  note wfs = sys_wfD [OF disk_okD(1) [OF ok] k]
  show "obj_on_disk (sy_dir s) (sy_world s) k ob"
    using us disk_okD(6) [OF ok k] wfs
    by (auto simp: newCacheReader_def Object_UseFile_def obj_on_disk_def os_Open_def Let_def
        split: option.splits if_splits)
  show "ob_key ob = k" "0 \<le> ob_readerCount ob" using us wfs
    by (auto simp: newCacheReader_def Object_UseFile_def Let_def split: option.splits)
qed (use disk_okD(2) [OF ok] in simp_all)

lemma disk_ok_release:
  assumes ok: "disk_ok s" and k: "sy_objects s k = Some r" and nf: "no_faults io"
    and us: "cacheReader_Close io (sy_heap s r) = (res, ob)"
  shows "disk_ok (set_obj r ob (sy_world s) s)"
proof (rule disk_ok_update [OF ok k])
  note wfs = sys_wfD [OF disk_okD(1) [OF ok] k]
  show "obj_on_disk (sy_dir s) (sy_world s) k ob"
    using us disk_okD(6) [OF ok k] wfs
    by (auto simp: cacheReader_Close_def Object_ReleaseFile_def obj_on_disk_def Let_def
        split: option.splits if_splits)
  show "ob_key ob = k" "0 \<le> ob_readerCount ob" using us wfs
    by (auto simp: cacheReader_Close_def Object_ReleaseFile_def Let_def split: if_splits)
qed (use disk_okD(2) [OF ok] in simp_all)


text \<open>Preservation by a step that drops objects and nothing but their entries.\<close>

lemma disk_ok_drop:
  assumes ok: "disk_ok s" and kp: "keeps io s s'" and nf: "no_faults io"
  shows "disk_ok s'"
proof -
  have wf: "sys_wf s'" by (rule keeps_wf [OF kp disk_okD(1) [OF ok]])
  note par = keeps_params [OF kp]
  have w: "w_data (sy_world s') = w_data (sy_world s)" "w_next (sy_world s') = w_next (sy_world s)"
    "w_isdir (sy_world s') = w_isdir (sy_world s)" using kp by (simp_all add: keeps_def)
  have dirs: "w_dir (sy_world s') p = w_dir (sy_world s) p
      \<or> w_dir (sy_world s') p = None \<and> (\<exists>k. sy_objects s k \<noteq> None \<and> sy_objects s' k = None
          \<and> (p = keyToPath (sy_dir s) k \<or> p = completePath (sy_dir s) k))" for p
    using kp by (simp add: keeps_def)
  have sub: "w_dir (sy_world s') p = Some i \<Longrightarrow> w_dir (sy_world s) p = Some i" for p i
    using dirs [of p] by auto
  have wwf: "world_wf (sy_world s')"
    using disk_okD(2) [OF ok] sub w(2) unfolding world_wf_def by metis
  have keep: "w_dir (sy_world s') p = w_dir (sy_world s) p"
    if "sy_objects s' k = Some r" "p = keyToPath (sy_dir s) k \<or> p = completePath (sy_dir s) k" for k r p
  proof (rule ccontr)
    assume "w_dir (sy_world s') p \<noteq> w_dir (sy_world s) p"
    with dirs [of p] obtain k' where k': "sy_objects s k' \<noteq> None" "sy_objects s' k' = None"
      "p = keyToPath (sy_dir s) k' \<or> p = completePath (sy_dir s) k'" by auto
    have "good_key k" "good_key k'" using disk_okD(5) [OF ok] keeps_Some [OF kp that(1)] k'(1) by auto
    with that(2) k'(3) have "k = k'" using good_paths_differ by metis
    with that(1) k'(2) show False by simp
  qed
  have objs: "good_key k \<and> obj_on_disk (sy_dir s') (sy_world s') k (sy_heap s' r)"
    if "sy_objects s' k = Some r" for k r
  proof -
    from keeps_Some [OF kp that] have o: "sy_objects s k = Some r" "sy_heap s' r = sy_heap s r" by simp_all
    have "obj_on_disk (sy_dir s) (sy_world s') k (sy_heap s r)"
      by (rule obj_on_disk_frame [OF disk_okD(6) [OF ok o(1)]]) (use keep [OF that] w in auto)
    then show ?thesis using o disk_okD(5) [OF ok o(1)] by (simp add: par)
  qed
  have ent: "\<exists>k. sy_objects s' k \<noteq> None \<and> (n = PathEscape k \<or> n = PathEscape (k @ ''-complete''))"
    if n: "w_dir (sy_world s') (sy_dir s @ [n]) \<noteq> None" for n
  proof -
    have "w_dir (sy_world s) (sy_dir s @ [n]) \<noteq> None" using sub [of "sy_dir s @ [n]"] n by auto
    with ok obtain k where k: "sy_objects s k \<noteq> None" "n = PathEscape k \<or> n = PathEscape (k @ ''-complete'')"
      unfolding disk_ok_def by blast
    then have gk: "good_key k" using disk_okD(5) [OF ok] by auto
    have p: "sy_dir s @ [n] = keyToPath (sy_dir s) k \<or> sy_dir s @ [n] = completePath (sy_dir s) k"
      using k(2) gk by (auto simp: good_path good_complete)
    have "sy_objects s' k \<noteq> None"
    proof
      assume "sy_objects s' k = None"
      from files_goneD [OF keeps_gone [OF kp] k(1) this p] nf disk_okD(4) [OF ok] n
      show False by (simp add: no_faults_def)
    qed
    then show ?thesis using k(2) by blast
  qed
  have pre: "w_dir (sy_world s') (take n (sy_dir s)) = None" for n
    using sub [of "take n (sy_dir s)"] ok unfolding disk_ok_def by fastforce
  show ?thesis unfolding disk_ok_def
    using wf wwf objs ent pre disk_okD(3,4) [OF ok] by (simp add: par w)
qed

lemma disk_ok_clean:
  assumes "disk_ok s" "no_faults io" "distinct order" "set order = dom (sy_objects s)"
  shows "disk_ok (clean io now order s)"
  by (rule disk_ok_drop [OF assms(1) clean_keeps [OF disk_okD(1) [OF assms(1)] assms(3,4)] assms(2)])

lemma disk_ok_create:
  assumes ok: "disk_ok s" and nf: "no_faults io" and gk: "good_key key"
    and cr: "CreateObject io now key s = (res, s')"
  shows "disk_ok s'"
proof (cases "sy_objects s key")
  case (Some r)
  with cr ok show ?thesis by (simp add: CreateObject_def)
next
  case None
  let ?p = "keyToPath (sy_dir s) key" and ?c = "completePath (sy_dir s) key"
  have nent: "w_dir (sy_world s) ?p = None" "w_dir (sy_world s) ?c = None"
  proof -
    have "\<not> (w_dir (sy_world s) (sy_dir s @ [n]) \<noteq> None)" if n: "n = PathEscape key \<or> n = PathEscape (key @ ''-complete'')" for n
    proof
      assume "w_dir (sy_world s) (sy_dir s @ [n]) \<noteq> None"
      with ok obtain k where k: "sy_objects s k \<noteq> None" "n = PathEscape k \<or> n = PathEscape (k @ ''-complete'')"
        unfolding disk_ok_def by blast
      then have "good_key k" "k \<noteq> key" using disk_okD(5) [OF ok] None by auto
      with n k(2) gk show False by (auto simp: PathEscape_inj good_key_def HasSuffix_append)
    qed
    then show "w_dir (sy_world s) ?p = None" "w_dir (sy_world s) ?c = None"
      using gk by (auto simp: good_path good_complete)
  qed
  have dirs: "\<not> w_isdir (sy_world s) ?p" "w_isdir (sy_world s) (butlast ?p)" "\<not> w_isdir (sy_world s) ?c"
    using disk_okD(3,4) [OF ok] gk by (simp_all add: good_path good_complete)
  let ?i = "w_next (sy_world s)"
  let ?w = "(sy_world s)\<lparr> w_data := (w_data (sy_world s))(?i := []), w_dir := (w_dir (sy_world s))(?p \<mapsto> ?i),
      w_next := Suc ?i \<rparr>"
  let ?f = "\<lparr> fh_ino = ?i, fh_writable = True, fh_off = 0 \<rparr>"
  have oc: "os_Create io ?p (sy_world s) = Some (?f, ?w)"
    using nf dirs nent by (simp add: os_Create_def no_faults_def Let_def)
  have rm: "os_Remove io ?c ?w = Inl CErrNotExist" using dirs nent by (simp add: os_Remove_def)
  obtain ob where ob: "newCacheObject io (sy_dir s) now key (sy_world s) = (Inr ob, ?w)"
    "ob_key ob = key" "ob_size ob = 0" "ob_file ob = Some ?f" "ob_readerCount ob = 0" "ob_complete ob = False"
    by (simp add: newCacheObject_def oc rm)
  from cr None ob have s': "sy_objects s' = (sy_objects s)(key \<mapsto> sy_next s)" "sy_heap s' = (sy_heap s)(sy_next s := ob)"
    "sy_next s' = Suc (sy_next s)" "sy_world s' = ?w" "sy_dir s' = sy_dir s"
    by (auto simp: CreateObject_def Let_def set_objects_def set_obj_def)
  note wf = disk_okD(1) [OF ok]
  have "sys_wf s'" unfolding sys_wf_def
  proof (intro allI impI)
    fix k r assume a: "sy_objects s' k = Some r"
    show "r < sy_next s' \<and> ob_key (sy_heap s' r) = k \<and> 0 \<le> ob_readerCount (sy_heap s' r)"
    proof (cases "k = key")
      case True
      then show ?thesis using a ob by (simp add: s')
    next
      case False
      then have "sy_objects s k = Some r" using a by (simp add: s')
      from sys_wfD [OF wf this] show ?thesis by (simp add: s')
    qed
  qed
  moreover have "world_wf ?w" by (rule world_wf_create [OF disk_okD(2) [OF ok] oc])
  moreover have "good_key k \<and> obj_on_disk (sy_dir s) ?w k (sy_heap s' r)" if a: "sy_objects s' k = Some r" for k r
  proof (cases "k = key")
    case True
    then show ?thesis using a gk ob nent by (simp add: s' obj_on_disk_def)
  next
    case False
    then have k: "sy_objects s k = Some r" using a by (simp add: s')
    have g: "good_key k" by (rule disk_okD(5) [OF ok k])
    have "obj_on_disk (sy_dir s) ?w k (sy_heap s r)"
    proof (rule obj_on_disk_frame [OF disk_okD(6) [OF ok k]])
      show "w_data ?w i = w_data (sy_world s) i" if "w_dir (sy_world s) (keyToPath (sy_dir s) k) = Some i" for i
        using disk_okD(2) [OF ok] that by (auto simp: world_wf_def)
    qed (use good_paths_differ [OF g gk] good_paths_differ(1) [OF gk g, THEN not_sym] False in auto)
    then show ?thesis using g sys_wfD [OF wf k] by (simp add: s')
  qed
  moreover have "\<exists>k. sy_objects s' k \<noteq> None \<and> (n = PathEscape k \<or> n = PathEscape (k @ ''-complete''))"
    if "w_dir ?w (sy_dir s @ [n]) \<noteq> None" for n
  proof (cases "n = PathEscape key")
    case True
    then show ?thesis by (intro exI [of _ key]) (simp add: s')
  next
    case False
    then have "w_dir (sy_world s) (sy_dir s @ [n]) \<noteq> None" using that gk by (simp add: good_path)
    with ok obtain k where "sy_objects s k \<noteq> None" "n = PathEscape k \<or> n = PathEscape (k @ ''-complete'')"
      unfolding disk_ok_def by blast
    then show ?thesis by (intro exI [of _ k]) (simp add: s')
  qed
  moreover have "w_dir ?w (take n (sy_dir s)) = None" for n
  proof -
    have "take n (sy_dir s) \<noteq> ?p"
      using length_take [of n "sy_dir s"] by (auto simp: good_path gk dest: arg_cong [where f = length])
    then show ?thesis using ok by (simp add: disk_ok_def)
  qed
  ultimately show ?thesis unfolding disk_ok_def using disk_okD(3,4) [OF ok] by (simp add: s')
qed


lemma obj_on_disk_readers: "obj_on_disk dir w k (ob\<lparr> ob_readerCount := n \<rparr>) = obj_on_disk dir w k ob"
  by (auto simp: obj_on_disk_def split: option.splits)

lemma disk_ok_cong:
  assumes "disk_ok u" "sy_cache s = sy_cache u" "sy_next s = sy_next u" "sy_world s = sy_world u"
    "\<And>k r. sy_objects u k = Some r \<Longrightarrow> sy_heap s r = sy_heap u r"
  shows "disk_ok s"
  using assms by (simp add: disk_ok_def sys_wf_def)

lemma MkdirAll_ok:
  assumes "no_faults io" "\<And>n. w_dir w (take n dir) = None"
  shows "os_MkdirAll io dir w = (None, w\<lparr> w_isdir := (\<lambda>p. w_isdir w p \<or> under p dir) \<rparr>)"
proof -
  have "\<not> list_ex (\<lambda>n. w_dir w (take n dir) \<noteq> None) [0..<Suc (length dir)]"
    by (simp add: list_ex_iff assms(2) del: upt_Suc)
  then show ?thesis using assms(1) by (simp add: os_MkdirAll_def no_faults_def del: upt_Suc)
qed

text \<open>On a working file system deleting an object is dropping it, whether or not it has readers.\<close>

lemma DeleteObject_eq:
  assumes nf: "no_faults io" and ok: "disk_ok s" and k: "sy_objects s key = Some r"
  shows "DeleteObject io key s = (None, set_objects ((sy_objects s)(key := None))
    (set_obj r (closed_ob (sy_heap s r)) (evict_world io (sy_dir s) key (sy_world s)) s))"
proof -
  have gk: "good_key key" by (rule disk_okD(5) [OF ok k])
  from disk_okD(6) [OF ok k] obtain i where i: "w_dir (sy_world s) (keyToPath (sy_dir s) key) = Some i"
    and c: "ob_complete (sy_heap s r) \<longleftrightarrow> w_dir (sy_world s) (completePath (sy_dir s) key) \<noteq> None"
    by (auto simp: obj_on_disk_def split: option.splits)
  have nd: "\<not> w_isdir (sy_world s) (keyToPath (sy_dir s) key)" "\<not> w_isdir (sy_world s) (completePath (sy_dir s) key)"
    using disk_okD(4) [OF ok] gk by (simp_all add: good_path good_complete)
  have cl: "Object_Close io (sy_heap s r) = (None, closed_ob (sy_heap s r))"
    using nf by (simp add: Object_Close_def closed_ob_def no_faults_def split: option.split)
  show ?thesis
    using nf k i c nd cl
    by (cases "w_dir (sy_world s) (completePath (sy_dir s) key)")
      (simp_all add: DeleteObject_def remove_path_def os_Remove_def no_faults_def evict_world_def
        world_remove_def set_objects_def set_obj_def)
qed

lemma disk_ok_delete:
  assumes ok: "disk_ok s" and nf: "no_faults io" and d: "DeleteObject io key s = (res, s')"
  shows "disk_ok s'"
proof (cases "sy_objects s key")
  case None
  with d ok show ?thesis by (simp add: DeleteObject_def)
next
  case (Some r)
  text \<open>An object without readers may be dropped; the state without its readers differs in nothing else.\<close>
  let ?ob = "(sy_heap s r)\<lparr> ob_readerCount := 0 \<rparr>"
  let ?t = "set_obj r ?ob (sy_world s) s"
  note wfs = sys_wfD [OF disk_okD(1) [OF ok] Some]
  have okt: "disk_ok ?t"
  proof (rule disk_ok_update [OF ok Some])
    show "obj_on_disk (sy_dir s) (sy_world s) key ?ob"
      using disk_okD(6) [OF ok Some] by (simp only: obj_on_disk_readers)
  qed (use wfs disk_okD(2) [OF ok] in simp_all)
  have "evict io r ?t = (True, set_objects ((sy_objects s)(key := None))
      (set_obj r (closed_ob ?ob) (evict_world io (sy_dir s) key (sy_world s)) s))"
    using wfs by (simp add: evict_eq) (simp add: set_obj_def set_objects_def)
  from disk_ok_drop [OF okt evict_keeps [OF disk_okD(1) [OF okt] _ this] nf, of key] Some
  have e: "disk_ok (set_objects ((sy_objects s)(key := None))
      (set_obj r (closed_ob ?ob) (evict_world io (sy_dir s) key (sy_world s)) s))" (is "disk_ok ?u") by simp
  have s': "s' = set_objects ((sy_objects s)(key := None))
      (set_obj r (closed_ob (sy_heap s r)) (evict_world io (sy_dir s) key (sy_world s)) s)"
    using d DeleteObject_eq [OF nf ok Some] by simp
  have nr: "sy_objects ?u k \<noteq> Some r" for k
    using sys_wfD [OF disk_okD(1) [OF ok], of k r] wfs by auto
  show ?thesis
  proof (rule disk_ok_cong [OF e])
    show "sy_heap s' r' = sy_heap ?u r'" if "sy_objects ?u k = Some r'" for k r'
    proof -
      have "r' \<noteq> r" using that nr by blast
      then show ?thesis by (simp add: s')
    qed
  qed (simp_all add: s' set_objects_def set_obj_def)
qed

lemma close_refs_world: "sy_world (foldl (close_ref io) s order) = sy_world s
    \<and> sy_cache (foldl (close_ref io) s order) = sy_cache s"
  by (induction order arbitrary: s) (simp_all add: close_ref_def split: option.split)

lemma under_simps [simp]: "under dir dir" "under dir (dir @ xs)" "n < length dir \<Longrightarrow> \<not> under dir (take n dir)"
  by (auto simp: under_def min_def dest: arg_cong [where f = length])

lemma disk_ok_clear:
  assumes ok: "disk_ok s" and nf: "no_faults io" and c: "Clear io order s = (res, s')"
  shows "disk_ok s' \<and> res = None \<and> sy_objects s' = (\<lambda>_. None)"
proof -
  let ?w = "(sy_world s)\<lparr> w_dir := (\<lambda>p. if under (sy_dir s) p then None else w_dir (sy_world s) p),
      w_isdir := (\<lambda>p. \<not> under (sy_dir s) p \<and> w_isdir (sy_world s) p) \<rparr>"
  have pre: "w_dir (sy_world s) (take n (sy_dir s)) = None" for n using ok by (simp add: disk_ok_def)
  have "w_dir ?w (take n (sy_dir s)) = None" for n by (simp add: pre)
  note mk = MkdirAll_ok [OF nf this]
  let ?t = "set_objects (\<lambda>_. None) (foldl (close_ref io) s order)"
  have t: "sy_world ?t = sy_world s" by (simp add: close_refs_world)
  have ra: "os_RemoveAll io (sy_dir s) (sy_world s) = (None, ?w)"
    using nf by (simp add: os_RemoveAll_def no_faults_def)
  have "Clear io order s = (None, ?t\<lparr> sy_world := ?w\<lparr> w_isdir := (\<lambda>p. w_isdir ?w p \<or> under p (sy_dir s)) \<rparr> \<rparr>)"
    unfolding Clear_def Let_def t ra by (simp only: mk prod.case option.case)
  with c have s': "s' = ?t\<lparr> sy_world :=
      ?w\<lparr> w_isdir := (\<lambda>p. w_isdir ?w p \<or> under p (sy_dir s)) \<rparr> \<rparr> \<and> res = None"
    by simp
  have "world_wf ?w" using disk_okD(2) [OF ok] by (auto simp: world_wf_def split: if_splits)
  then have "world_wf (sy_world s')" by (simp add: s' world_wf_def)
  moreover have "\<not> under (sy_dir s @ [n]) (sy_dir s)" for n by (simp add: under_def)
  ultimately show ?thesis
    unfolding disk_ok_def sys_wf_def using s' pre by (simp add: set_objects_def close_refs_world)
qed

lemma cache_step_ok:
  assumes "cache_step s s'" "disk_ok s"
  shows "disk_ok s'"
  using assms
proof (induction rule: cache_step.induct)
  case c_create
  then show ?case using disk_ok_create by blast
next
  case c_delete
  then show ?case using disk_ok_delete by blast
next
  case c_clean
  then show ?case using disk_ok_clean by blast
next
  case c_clear
  then show ?case using disk_ok_clear by blast
next
  case c_write
  then show ?case using disk_ok_write holdsD by blast
next
  case c_complete
  then show ?case using disk_ok_complete holdsD by blast
next
  case c_use
  then show ?case using disk_ok_use holdsD by blast
next
  case c_release
  then show ?case using disk_ok_release holdsD by blast
qed


section \<open>Restarting\<close>

lemma upper_hex_not_minus: "d < 16 \<Longrightarrow> upper_hex d \<noteq> CHR ''-''"
proof
  assume "d < 16" "upper_hex d = CHR ''-''"
  then have "hex_val (CHR ''-'') = Some d" using hex_val_digits(1) [of d] by simp
  moreover have "hex_val (CHR ''-'') = None" by code_simp
  ultimately show False by simp
qed

lemma PathEscape_suffix:
  assumes "PathEscape k = p @ ''-complete''"
  shows "HasSuffix k ''-complete''"
  using assms
proof (induction k arbitrary: p)
  case Nil
  then show ?case by simp
next
  case (Cons c k)
  have step: "HasSuffix (c # k) ''-complete''" if "PathEscape k = p' @ ''-complete''" for p'
    using Cons.IH [OF that] unfolding HasSuffix_append by (metis append_Cons)
  show ?case
  proof (cases "path_keep c")
    case True
    show ?thesis
    proof (cases p)
      case Nil
      with Cons.prems have "PathEscape (c # k) = PathEscape ''-complete''" by (simp only: append_Nil PathEscape_complete)
      then show ?thesis by (simp only: PathEscape_inj) (simp add: HasSuffix_def)
    next
      case (Cons a p')
      then show ?thesis using Cons.prems True step [of p'] by simp
    qed
  next
    case False
    let ?a = "upper_hex (code_of c div 16)" and ?b = "upper_hex (code_of c mod 16)"
    have m: "?a \<noteq> CHR ''-''" "?b \<noteq> CHR ''-''" by (simp_all add: upper_hex_not_minus)
    have e: "CHR ''%'' # ?a # ?b # PathEscape k = p @ ''-complete''" using Cons.prems False by simp
    then obtain p1 where p1: "p = CHR ''%'' # p1" "?a # ?b # PathEscape k = p1 @ ''-complete''"
      by (cases p) auto
    then obtain p2 where p2: "p1 = ?a # p2" "?b # PathEscape k = p2 @ ''-complete''"
      using m by (cases p1) auto
    then obtain p3 where "PathEscape k = p3 @ ''-complete''"
      using m by (cases p2) auto
    then show ?thesis by (rule step)
  qed
qed

definition loaded :: "sys \<Rightarrow> sys \<Rightarrow> string set \<Rightarrow> string \<Rightarrow> bool" where
  "loaded s t seen k \<longleftrightarrow>
     (case sy_objects s k of None \<Rightarrow> sy_objects t k = None
      | Some r \<Rightarrow>
          if ob_complete (sy_heap s r) \<and> PathEscape k \<in> seen
          then (case sy_objects t k of None \<Rightarrow> False
                | Some r' \<Rightarrow> r' < sy_next t \<and> ob_key (sy_heap t r') = k \<and> ob_size (sy_heap t r') = ob_size (sy_heap s r)
                    \<and> ob_complete (sy_heap t r') \<and> ob_readerCount (sy_heap t r') = 0 \<and> ob_file (sy_heap t r') = None)
          else sy_objects t k = None)"

definition load_inv :: "sys \<Rightarrow> sys \<Rightarrow> string set \<Rightarrow> bool" where
  "load_inv s t seen \<longleftrightarrow> sy_dir t = sy_dir s \<and> w_data (sy_world t) = w_data (sy_world s)
     \<and> (\<forall>n. \<not> w_isdir (sy_world t) (sy_dir s @ [n])) \<and> w_next (sy_world t) = w_next (sy_world s)
     \<and> (\<forall>p. w_dir (sy_world t) p =
          (if \<exists>k r. sy_objects s k = Some r \<and> \<not> ob_complete (sy_heap s r) \<and> p = keyToPath (sy_dir s) k
                 \<and> PathEscape k \<in> seen then None else w_dir (sy_world s) p))
     \<and> (\<forall>k. loaded s t seen k)"


lemma load_inv_mono:
  assumes "load_inv s t seen" "\<And>k r. sy_objects s k = Some r \<Longrightarrow> PathEscape k \<noteq> n"
  shows "load_inv s t (insert n seen)"
proof -
  have "(\<exists>k r. sy_objects s k = Some r \<and> \<not> ob_complete (sy_heap s r) \<and> p = keyToPath (sy_dir s) k
      \<and> PathEscape k \<in> insert n seen) \<longleftrightarrow>
    (\<exists>k r. sy_objects s k = Some r \<and> \<not> ob_complete (sy_heap s r) \<and> p = keyToPath (sy_dir s) k
      \<and> PathEscape k \<in> seen)" for p
    using assms(2) by blast
  moreover have "loaded s t (insert n seen) k = loaded s t seen k" for k
    using assms(2) [of k] by (auto simp: loaded_def split: option.split)
  ultimately show ?thesis using assms(1) by (simp add: load_inv_def)
qed

lemma load_step:
  assumes ok: "disk_ok s" and nf: "no_faults io" and inv: "load_inv s t seen"
    and n: "w_dir (sy_world s) (sy_dir s @ [de_name f]) \<noteq> None" "\<not> de_isdir f" "de_name f \<notin> seen"
  shows "load_inv s (load_entry io now t f) (insert (de_name f) seen)"
proof (cases "HasSuffix (de_name f) ''-complete''")
  case True
  have "PathEscape k \<noteq> de_name f" if "sy_objects s k = Some r" for k r
    using disk_okD(5) [OF ok that] True PathEscape_suffix [of k]
    by (auto simp: good_key_def HasSuffix_append [of "de_name f"])
  with True load_inv_mono [OF inv] show ?thesis by (simp add: load_entry_def)
next
  case False
  from ok n(1) obtain k where "sy_objects s k \<noteq> None"
    and nk: "de_name f = PathEscape k \<or> de_name f = PathEscape (k @ ''-complete'')"
    unfolding disk_ok_def by blast
  then obtain r where k: "sy_objects s k = Some r" by blast
  with False nk have nk: "de_name f = PathEscape k" by (auto simp: PathEscape_append HasSuffix_append)
  have gk: "good_key k" by (rule disk_okD(5) [OF ok k])
  have kf: "keyFromPath (de_name f) = Inr k" by (simp add: keyFromPath_def nk)
  from inv have dir: "sy_dir t = sy_dir s" and isdir: "\<And>n. \<not> w_isdir (sy_world t) (sy_dir s @ [n])"
    and data: "w_data (sy_world t) = w_data (sy_world s)" and nx: "w_next (sy_world t) = w_next (sy_world s)"
    and wd: "\<And>p. w_dir (sy_world t) p =
      (if \<exists>k r. sy_objects s k = Some r \<and> \<not> ob_complete (sy_heap s r) \<and> p = keyToPath (sy_dir s) k
         \<and> PathEscape k \<in> seen then None else w_dir (sy_world s) p)"
    and ld: "\<And>k. loaded s t seen k" by (auto simp: load_inv_def)
  have other: "PathEscape k' \<in> insert (de_name f) seen \<longleftrightarrow> k' = k \<or> PathEscape k' \<in> seen" for k'
    by (auto simp: nk PathEscape_inj)
  have "w_dir (sy_world t) (completePath (sy_dir s) k) = w_dir (sy_world s) (completePath (sy_dir s) k)"
  proof -
    have "\<not> (\<exists>k' r'. sy_objects s k' = Some r' \<and> completePath (sy_dir s) k = keyToPath (sy_dir s) k')"
      using good_paths_differ(1) [OF _ gk] disk_okD(5) [OF ok] by (metis)
    then show ?thesis unfolding wd by metis
  qed
  then have st: "os_Stat io (completePath (sy_dir t) k) (sy_world t) \<longleftrightarrow> ob_complete (sy_heap s r)"
    using nf disk_okD(4,6) [OF ok] k gk
    by (auto simp: os_Stat_def dir isdir no_faults_def good_complete obj_on_disk_def)
  have kd: "w_dir (sy_world t) (sy_dir s @ [de_name f]) = w_dir (sy_world s) (sy_dir s @ [de_name f])"
  proof -
    have "\<not> (\<exists>k' r'. sy_objects s k' = Some r' \<and> sy_dir s @ [de_name f] = keyToPath (sy_dir s) k'
        \<and> PathEscape k' \<in> seen)"
      using good_path disk_okD(5) [OF ok] n(3) by fastforce
    then show ?thesis unfolding wd by auto
  qed
  show ?thesis
  proof (cases "ob_complete (sy_heap s r)")
    case nc: False
    have t': "load_entry io now t f = t\<lparr> sy_world := world_remove io (keyToPath (sy_dir s) k) (sy_world t) \<rparr>"
      using False n(2) kf st nc by (simp add: load_entry_def remove_path_eq dir)
    have gone: "w_dir (world_remove io (keyToPath (sy_dir s) k) (sy_world t)) p
      = (if p = keyToPath (sy_dir s) k then None else w_dir (sy_world t) p)" for p
      using nf disk_okD(4) [OF ok] gk by (simp add: world_remove_gone no_faults_def isdir good_path)
    have ld': "loaded s (t\<lparr> sy_world := w \<rparr>) (insert (de_name f) seen) k' = loaded s t seen k'" for w k'
      using k nc unfolding loaded_def other by (auto split: option.split)
    have ex: "(\<exists>k r. sy_objects s k = Some r \<and> \<not> ob_complete (sy_heap s r) \<and> p = keyToPath (sy_dir s) k
        \<and> PathEscape k \<in> insert (de_name f) seen) \<longleftrightarrow> p = keyToPath (sy_dir s) k \<or>
      (\<exists>k r. sy_objects s k = Some r \<and> \<not> ob_complete (sy_heap s r) \<and> p = keyToPath (sy_dir s) k
        \<and> PathEscape k \<in> seen)" for p
      unfolding other using k nc by blast
    have WD: "w_dir (world_remove io (keyToPath (sy_dir s) k) (sy_world t)) p =
      (if \<exists>k r. sy_objects s k = Some r \<and> \<not> ob_complete (sy_heap s r) \<and> p = keyToPath (sy_dir s) k
         \<and> PathEscape k \<in> insert (de_name f) seen then None else w_dir (sy_world s) p)" for p
      unfolding ex gone wd by auto
    have sel: "sy_world (t\<lparr> sy_world := w \<rparr>) = w" "sy_dir (t\<lparr> sy_world := w \<rparr>) = sy_dir t" for w by simp_all
    show ?thesis unfolding t' load_inv_def sel
      by (intro conjI allI; (rule WD | simp add: dir isdir data nx ld' ld del: insert_iff))
  next
    case c: True
    from disk_okD(6) [OF ok k] obtain i where i: "w_dir (sy_world s) (sy_dir s @ [de_name f]) = Some i"
      and sz: "ob_size (sy_heap s r) = int (length (w_data (sy_world s) i))"
      by (auto simp: obj_on_disk_def good_path [OF gk] nk split: option.splits)
    let ?ob = "\<lparr> ob_key = k, ob_size = ob_size (sy_heap s r), ob_file = None, ob_readerCount = 0, ob_complete = True,
       ob_dataChanged = 0, ob_modified = 0, ob_accessed = now \<rparr>"
    have t': "load_entry io now t f = set_objects ((sy_objects t)(k \<mapsto> sy_next t))
        ((set_obj (sy_next t) ?ob (sy_world t) t)\<lparr> sy_next := Suc (sy_next t) \<rparr>)"
      using False n(2) kf st c kd i nf sz
      by (simp add: load_entry_def Let_def dir data no_faults_def)
    have wd': "(\<exists>k r. sy_objects s k = Some r \<and> \<not> ob_complete (sy_heap s r) \<and> p = keyToPath (sy_dir s) k
        \<and> PathEscape k \<in> insert (de_name f) seen) \<longleftrightarrow>
      (\<exists>k r. sy_objects s k = Some r \<and> \<not> ob_complete (sy_heap s r) \<and> p = keyToPath (sy_dir s) k
        \<and> PathEscape k \<in> seen)" for p
      unfolding other using k c by (metis option.inject)
    have "loaded s (set_objects ((sy_objects t)(k \<mapsto> sy_next t))
        ((set_obj (sy_next t) ?ob (sy_world t) t)\<lparr> sy_next := Suc (sy_next t) \<rparr>)) (insert (de_name f) seen) k'" for k'
      using ld [of k'] k c unfolding loaded_def other
      by (auto simp: set_objects_def set_obj_def split: option.splits if_splits)
    note ld' = this
    let ?t' = "set_objects ((sy_objects t)(k \<mapsto> sy_next t))
        ((set_obj (sy_next t) ?ob (sy_world t) t)\<lparr> sy_next := Suc (sy_next t) \<rparr>)"
    have sel: "sy_world ?t' = sy_world t" "sy_dir ?t' = sy_dir t" by (simp_all add: set_objects_def set_obj_def)
    show ?thesis unfolding t' load_inv_def wd' sel
      by (intro conjI allI; (rule wd | rule ld' | simp add: dir isdir data nx))
  qed
qed

lemma load_all:
  assumes "disk_ok s" "no_faults io" "load_inv s t seen" "distinct (map de_name fs)"
    "\<forall>f\<in>set fs. w_dir (sy_world s) (sy_dir s @ [de_name f]) \<noteq> None \<and> \<not> de_isdir f \<and> de_name f \<notin> seen"
  shows "load_inv s (foldl (load_entry io now) t fs) (set (map de_name fs) \<union> seen)"
  using assms(3-)
proof (induction fs arbitrary: t seen)
  case Nil
  then show ?case by simp
next
  case (Cons f fs)
  have "load_inv s (load_entry io now t f) (insert (de_name f) seen)"
    by (rule load_step [OF assms(1,2) Cons.prems(1)]) (use Cons.prems(3) in simp_all)
  moreover have "distinct (map de_name fs)" using Cons.prems(2) by simp
  moreover have "\<forall>fa\<in>set fs. w_dir (sy_world s) (sy_dir s @ [de_name fa]) \<noteq> None \<and> \<not> de_isdir fa
      \<and> de_name fa \<notin> insert (de_name f) seen"
    using Cons.prems(2,3) by (auto simp: image_iff)
  ultimately have "load_inv s (foldl (load_entry io now) (load_entry io now t f) fs)
      (set (map de_name fs) \<union> insert (de_name f) seen)" by (rule Cons.IH)
  then show ?case by simp
qed


lemma New_empty_ok:
  assumes "New io dir mx un now [] w = Inr s" "world_wf w" "\<And>p. under dir p \<Longrightarrow> w_dir w p = None \<and> (p \<noteq> dir \<longrightarrow> \<not> w_isdir w p)"
    "\<And>n. w_dir w (take n dir) = None" "no_faults io"
  shows "disk_ok s"
proof -
  have s: "sy_objects s = (\<lambda>_. None)" "sy_dir s = dir"
    "sy_world s = w\<lparr> w_isdir := (\<lambda>p. w_isdir w p \<or> under p dir) \<rparr>"
    using assms(1,5) MkdirAll_ok [OF assms(5,4)]
    by (auto simp: New_def loadObjects_def set_objects_def no_faults_def Let_def)
  have "\<not> under (dir @ [n]) dir" for n by (simp add: under_def)
  then show ?thesis
    using assms(2-4) by (simp add: disk_ok_def sys_wf_def s world_wf_def)
qed

lemma obj_on_disk_isdir: "obj_on_disk dir (w\<lparr> w_isdir := d \<rparr>) k ob = obj_on_disk dir w k ob"
  by (auto simp: obj_on_disk_def split: option.splits)

lemma load_inv_isdir:
  "load_inv (s\<lparr> sy_world := (sy_world s)\<lparr> w_isdir := d \<rparr> \<rparr>) t seen = load_inv s t seen"
  by (simp add: load_inv_def loaded_def cong: if_cong option.case_cong)

lemma restart:
  assumes ok: "disk_ok s" and nf: "no_faults io" and ls: "distinct (map de_name fs)"
    "\<forall>f\<in>set fs. \<not> de_isdir f" "\<And>n. n \<in> set (map de_name fs) \<longleftrightarrow> w_dir (sy_world s) (sy_dir s @ [n]) \<noteq> None"
  shows "\<exists>t. New io (sy_dir s) mx un now fs (sy_world s) = Inr t \<and> load_inv s t (set (map de_name fs))"
proof -
  let ?w = "(sy_world s)\<lparr> w_isdir := (\<lambda>p. w_isdir (sy_world s) p \<or> under p (sy_dir s)) \<rparr>"
  let ?t = "\<lparr> sy_cache = \<lparr> c_dir = sy_dir s, c_maxSize = mx, c_maxUnusedTime = un,
                      c_objects = (\<lambda>_. None), c_cleaning = False, c_closed = False \<rparr>,
                    sy_heap = (\<lambda>_. undefined), sy_next = 0, sy_world = ?w \<rparr>"
  let ?s = "s\<lparr> sy_world := ?w \<rparr>"
  have nu: "\<not> under (sy_dir s @ [n]) (sy_dir s)" for n by (simp add: under_def)
  have oks: "disk_ok ?s"
    using ok nu by (simp add: disk_ok_def sys_wf_def world_wf_def obj_on_disk_isdir)
  have inv: "load_inv ?s ?t {}" using disk_okD(4) [OF oks]
    by (auto simp: load_inv_def loaded_def split: option.split)
  have l: "load_inv ?s (foldl (load_entry io now) ?t fs) (set (map de_name fs) \<union> {})"
    by (rule load_all [OF oks nf inv ls(1)]) (use ls(2,3) in auto)
  have "w_dir (sy_world s) (take n (sy_dir s)) = None" for n using ok by (simp add: disk_ok_def)
  note mk = MkdirAll_ok [OF nf this]
  have "New io (sy_dir s) mx un now fs (sy_world s) = Inr (foldl (load_entry io now) ?t fs)"
    using nf by (simp add: New_def mk loadObjects_def set_objects_def no_faults_def Let_def)
  moreover have "load_inv s (foldl (load_entry io now) ?t fs) (set (map de_name fs))"
    using l unfolding load_inv_isdir by simp
  ultimately show ?thesis by blast
qed


lemma cache_reachable_ok:
  assumes "cache_step\<^sup>*\<^sup>* s0 s" "disk_ok s0"
  shows "disk_ok s"
  using assms by (induction rule: rtranclp_induct) (auto intro: cache_step_ok)

lemma cache_step_dir: "cache_step s s' \<Longrightarrow> disk_ok s \<Longrightarrow> sy_dir s' = sy_dir s"
proof (induction rule: cache_step.induct)
  case (c_create io key now s res s')
  then show ?case
    by (auto simp: CreateObject_def Let_def set_objects_def set_obj_def split: option.splits sum.splits prod.splits)
next
  case (c_delete io key s res s')
  show ?case
  proof (cases "sy_objects s key")
    case None
    then show ?thesis using c_delete by (simp add: DeleteObject_def)
  next
    case (Some r)
    from DeleteObject_eq [OF c_delete(1,3) Some] c_delete(2) show ?thesis by auto
  qed
next
  case (c_clean io order s now)
  from keeps_params(1) [OF clean_keeps [OF disk_okD(1) [OF c_clean(4)] c_clean(2,3)]] show ?case .
next
  case (c_clear io order s res s')
  then show ?case by (auto simp: Clear_def Let_def set_objects_def close_refs_world split: option.splits prod.splits)
qed simp_all

lemma cache_reachable_dir: "\<lbrakk>cache_step\<^sup>*\<^sup>* s0 s; disk_ok s0\<rbrakk> \<Longrightarrow> sy_dir s = sy_dir s0"
  by (induction rule: rtranclp_induct) (auto simp: cache_step_dir cache_reachable_ok)




definition wit_new :: sys where
  "wit_new = (case New io_ok [''c''] 30 1000 0 [] (empty_world [''c'']) of Inr s \<Rightarrow> s | Inl _ \<Rightarrow> undefined)"

definition wit_created :: sys where
  "wit_created = snd (CreateObject io_ok 1 ''k'' wit_new)"

definition wit_completed :: sys where
  "wit_completed = (let (res, ob, w) = Object_SetComplete io_ok (sy_dir wit_created) (sy_heap wit_created 0) (sy_world wit_created)
     in set_obj 0 ob w wit_created)"

lemma no_faults_io_ok: "no_faults io_ok"
  by (simp add: no_faults_def io_ok_def)

lemma empty_world_ok:
  "world_wf (empty_world [''c''])"
  "under [''c''] p \<Longrightarrow> w_dir (empty_world [''c'']) p = None \<and> (p \<noteq> [''c''] \<longrightarrow> \<not> w_isdir (empty_world [''c'']) p)"
  "w_dir (empty_world [''c'']) (take n [''c'']) = None"
  by (auto simp: world_wf_def empty_world_def under_def Cons_eq_append_conv take_Cons' split: if_splits)

lemma good_key_k: "good_key ''k''"
  by (simp add: good_key_def HasSuffix_def)

lemma wit_new_eq: "New io_ok [''c''] 30 1000 0 [] (empty_world [''c'']) = Inr wit_new"
proof -
  have "\<not> isl (New io_ok [''c''] 30 1000 0 [] (empty_world [''c'']))" by code_simp
  then show ?thesis by (auto simp: wit_new_def split: sum.splits)
qed

lemma wit_steps: "cache_step\<^sup>*\<^sup>* wit_new wit_completed"
proof -
  have "cache_step wit_new wit_created"
    by (rule c_create [OF no_faults_io_ok good_key_k, of 1 _ "fst (CreateObject io_ok 1 ''k'' wit_new)"])
      (simp add: wit_created_def)
  moreover have "holds wit_created 0" by code_simp
  then have "cache_step wit_created wit_completed"
    unfolding wit_completed_def Let_def
    by (cases "Object_SetComplete io_ok (sy_dir wit_created) (sy_heap wit_created 0) (sy_world wit_created)")
      (auto intro: c_complete [OF no_faults_io_ok])
  ultimately show ?thesis by (meson rtranclp.simps)
qed

lemma wit_dir: "sy_dir wit_completed = [''c'']"
  by code_simp

lemma wit_objects: "GetObject ''k'' wit_completed = Some 0" "ob_complete (sy_heap wit_completed 0)"
    "ob_size (sy_heap wit_completed 0) = 0"
  by code_simp+


lemma CreateObject_objects:
  "sy_objects (snd (CreateObject io now key s)) k \<noteq> None \<Longrightarrow> k = key \<or> sy_objects s k \<noteq> None"
  by (auto simp: CreateObject_def Let_def split: option.splits sum.splits prod.splits if_splits)

lemma wit_only_k: "GetObject k wit_completed \<noteq> None \<Longrightarrow> k = ''k''"
proof -
  assume "GetObject k wit_completed \<noteq> None"
  then have "sy_objects wit_created k \<noteq> None"
    by (simp add: GetObject_def wit_completed_def Let_def split_beta)
  moreover have "sy_objects wit_new = (\<lambda>_. None)"
    by (simp add: wit_new_def New_def loadObjects_def set_objects_def Let_def os_MkdirAll_def io_ok_def empty_world_def)
  ultimately show ?thesis unfolding wit_created_def using CreateObject_objects by metis
qed

lemma wit_listing: "n \<in> set (map de_name [\<lparr> de_name = ''k'', de_isdir = False \<rparr>, \<lparr> de_name = ''k-complete'', de_isdir = False \<rparr>])
    \<longleftrightarrow> w_dir (sy_world wit_completed) ([''c''] @ [n]) \<noteq> None"
proof -
  have e: "w_dir (sy_world wit_completed) [''c'', ''k''] \<noteq> None" "w_dir (sy_world wit_completed) [''c'', ''k-complete''] \<noteq> None"
    by code_simp+
  have p: "PathEscape ''k'' = ''k''" "PathEscape (''k'' @ ''-complete'') = ''k-complete''" by code_simp+
  have ok: "disk_ok wit_completed"
    by (rule cache_reachable_ok [OF wit_steps New_empty_ok [OF wit_new_eq empty_world_ok no_faults_io_ok]])
  have "n = ''k'' \<or> n = ''k-complete''" if "w_dir (sy_world wit_completed) (sy_dir wit_completed @ [n]) \<noteq> None"
  proof -
    from ok that obtain k where "sy_objects wit_completed k \<noteq> None" "n = PathEscape k \<or> n = PathEscape (k @ ''-complete'')"
      unfolding disk_ok_def by blast
    with wit_only_k [of k] p show ?thesis by (simp add: GetObject_def)
  qed
  then show ?thesis using e by (auto simp: wit_dir)
qed


definition stale_run :: "sys" where
  "stale_run =
     (let s1 = snd (CreateObject io_ok 1 ''k'' wit_new);
          s2 = clean io_ok 5000 [''k''] s1;
          s3 = snd (CreateObject io_ok 5001 ''k'' s2);
          (_, ob, w) = Object_Write io_ok 5002 ''ab'' (sy_heap s3 1) (sy_world s3);
          s4 = set_obj 1 ob w s3;
          (_, ob', w') = Object_SetComplete io_ok (sy_dir s4) (sy_heap s4 0) (sy_world s4)
      in set_obj 0 ob' w' s4)"

text \<open>
  A writer that lost its object can mark somebody else's as complete. If the object is evicted
  while it is being written and created again by another caller, the first writer's
  \<open>SetComplete\<close> still creates the marker of that key: the directory then shows the new object as
  complete although it is not, and a restart serves the bytes that happened to be written.
\<close>

lemma stale_writer_completes_successor:
  "GetObject ''k'' stale_run = Some 1 \<and> \<not> ob_complete (sy_heap stale_run 1)
    \<and> w_dir (sy_world stale_run) (completePath [''c''] ''k'') \<noteq> None
    \<and> (case New io_ok [''c''] 30 1000 6000 [\<lparr> de_name = ''k'', de_isdir = False \<rparr>, \<lparr> de_name = ''k-complete'', de_isdir = False \<rparr>]
              (sy_world stale_run) of
         Inl _ \<Rightarrow> False
       | Inr t \<Rightarrow> (case GetObject ''k'' t of None \<Rightarrow> False
                   | Some r \<Rightarrow> ob_complete (sy_heap t r) \<and> ob_size (sy_heap t r) = 2))"
  by code_simp

end
