(* ===== verification/ObjectStore.thy ===== *)
theory ObjectStore
  imports CacheDisk
begin

text \<open>
  What the callers of the cache rely on: the laws of a store of objects under keys, the two ways in
  which the media handlers obtain an object (\<open>handlers/subsonic_mediaretrieval.go\<close>), and the cache as
  an instance of the laws.
\<close>

section \<open>The interface\<close>

locale object_store =
  fixes get :: "'k \<Rightarrow> 's \<Rightarrow> 'r option"
    and create :: "'k \<Rightarrow> 's \<Rightarrow> ('e + 'r) \<times> 's"
    and delete :: "'k \<Rightarrow> 's \<Rightarrow> 'e option \<times> 's"
    and exist_err :: 'e
  assumes create_taken: "get k s = Some r \<Longrightarrow> create k s = (Inl exist_err, s)"
    and create_free: "\<lbrakk>get k s = None; create k s = (Inl e, s')\<rbrakk> \<Longrightarrow> e \<noteq> exist_err"
    and create_ok: "create k s = (Inr r, s') \<Longrightarrow> get k' s' = (if k' = k then Some r else get k' s)"
    and create_fail: "create k s = (Inl e, s') \<Longrightarrow> get k' s' = get k' s"
    and delete_ok: "delete k s = (None, s') \<Longrightarrow> get k' s' = (if k' = k then None else get k' s)"
    and delete_fail: "delete k s = (Some e, s') \<Longrightarrow> k' \<noteq> k \<Longrightarrow> get k' s' = get k' s"

section \<open>Obtaining an object\<close>

text \<open>
  Both handlers look a key up and create its object if there is none; other requests may act between
  the two, so the look-up sees one state and the creation another. \<open>stream_acquire\<close> gives up when the
  creation fails, \<open>cover_acquire\<close> looks again when it fails because the object exists by then. The
  result tells whether the object is new and has to be filled by the caller.
\<close>

definition stream_acquire ::
  "('k \<Rightarrow> 's \<Rightarrow> 'r option) \<Rightarrow> ('k \<Rightarrow> 's \<Rightarrow> ('e + 'r) \<times> 's) \<Rightarrow> 'k \<Rightarrow> 's \<Rightarrow> ('s \<Rightarrow> 's)
     \<Rightarrow> ('e + 'r \<times> bool) \<times> 's" where
  "stream_acquire get create k s others =
     (case get k s of Some r \<Rightarrow> (Inr (r, False), s)
      | None \<Rightarrow> (case create k (others s) of (Inl e, s') \<Rightarrow> (Inl e, s') | (Inr r, s') \<Rightarrow> (Inr (r, True), s')))"

definition cover_acquire ::
  "('k \<Rightarrow> 's \<Rightarrow> 'r option) \<Rightarrow> ('k \<Rightarrow> 's \<Rightarrow> ('e + 'r) \<times> 's) \<Rightarrow> 'e \<Rightarrow> 'k \<Rightarrow> 's \<Rightarrow> ('s \<Rightarrow> 's) \<Rightarrow> ('s \<Rightarrow> 's)
     \<Rightarrow> ('e + 'r \<times> bool) \<times> 's" where
  "cover_acquire get create exist_err k s others others' =
     (case get k s of Some r \<Rightarrow> (Inr (r, False), s)
      | None \<Rightarrow>
          (case create k (others s) of
             (Inr r, s') \<Rightarrow> (Inr (r, True), s')
           | (Inl e, s') \<Rightarrow>
               (if e = exist_err
                then (case get k (others' s') of Some r \<Rightarrow> (Inr (r, False), others' s')
                      | None \<Rightarrow> (Inl e, others' s'))
                else (Inl e, s'))))"

context object_store
begin

lemma acquired_is_stored:
  assumes "stream_acquire get create k s others = (Inr (r, new), s')"
  shows "get k s' = Some r \<and> (new \<longleftrightarrow> get k s = None)"
  using assms by (auto simp: stream_acquire_def create_ok split: option.splits sum.splits prod.splits)

lemma acquired_again:
  assumes "stream_acquire get create k s others = (Inr (r, new), s')"
  shows "stream_acquire get create k s' others' = (Inr (r, False), s')"
  using acquired_is_stored [OF assms] by (simp add: stream_acquire_def)

lemma stream_race:
  assumes "get k s = None" "get k (others s) = Some r"
  shows "stream_acquire get create k s others = (Inl exist_err, others s)"
  using assms by (simp add: stream_acquire_def create_taken)

lemma cover_race:
  assumes "get k s = None" "get k (others s) = Some r" "get k (others' (others s)) = Some r'"
  shows "cover_acquire get create exist_err k s others others' = (Inr (r', False), others' (others s))"
  using assms by (simp add: cover_acquire_def create_taken)

lemma cover_acquired:
  assumes "cover_acquire get create exist_err k s others others' = (Inr (r, new), s')"
  shows "get k s' = Some r \<and> (new \<longrightarrow> get k s = None \<and> get k (others s) = None)"
  using assms create_taken [of k "others s"]
  by (cases "get k (others s)")
    (auto simp: cover_acquire_def create_ok split: option.splits sum.splits prod.splits if_splits)

lemma abandoned:
  assumes "stream_acquire get create k s others = (Inr (r, True), s')" "delete k s' = (None, s'')"
  shows "get k s'' = None \<and> (\<forall>k'. k' \<noteq> k \<longrightarrow> get k' s'' = get k' (others s))"
  using assms
  by (auto simp: stream_acquire_def create_ok delete_ok split: option.splits sum.splits prod.splits if_splits)

end

section \<open>The cache is such a store\<close>

lemma CreateObject_cases:
  assumes "CreateObject io now key s = (res, s')"
  shows "case res of
      Inr r \<Rightarrow> sy_objects s key = None \<and> sy_objects s' = (sy_objects s)(key \<mapsto> r)
    | Inl e \<Rightarrow> sy_objects s' = sy_objects s \<and> (if sy_objects s key = None then e = CErrIO else e = CErrExist \<and> s' = s)"
  using assms
  by (auto simp: CreateObject_def newCacheObject_def Let_def split: option.splits sum.splits prod.splits)

lemma remove_path_cache: "sy_cache (snd (remove_path io p s)) = sy_cache s"
  by (simp add: remove_path_eq)

lemma DeleteObject_objects:
  assumes "DeleteObject io key s = (res, s')"
  shows "sy_objects s' = sy_objects s \<or> sy_objects s' = (sy_objects s)(key := None)"
    and "res = None \<Longrightarrow> sy_objects s' = (sy_objects s)(key := None)"
  using assms remove_path_cache
  by (auto simp: DeleteObject_def remove_path_def Let_def fun_upd_idem split: option.splits sum.splits prod.splits if_splits)

interpretation cache: object_store GetObject "CreateObject io now" "DeleteObject io'" CErrExist
proof
  fix k k' :: string and s s' :: sys and r e
  show "GetObject k s = Some r \<Longrightarrow> CreateObject io now k s = (Inl CErrExist, s)"
    by (simp add: GetObject_def CreateObject_def)
  show "\<lbrakk>GetObject k s = None; CreateObject io now k s = (Inl e, s')\<rbrakk> \<Longrightarrow> e \<noteq> CErrExist"
    using CreateObject_cases [of io now k s "Inl e" s'] by (auto simp: GetObject_def)
  show "CreateObject io now k s = (Inr r, s') \<Longrightarrow> GetObject k' s' = (if k' = k then Some r else GetObject k' s)"
    using CreateObject_cases [of io now k s "Inr r" s'] by (simp add: GetObject_def)
  show "CreateObject io now k s = (Inl e, s') \<Longrightarrow> GetObject k' s' = GetObject k' s"
    using CreateObject_cases [of io now k s "Inl e" s'] by (simp add: GetObject_def)
  show "DeleteObject io' k s = (None, s') \<Longrightarrow> GetObject k' s' = (if k' = k then None else GetObject k' s)"
    using DeleteObject_objects(2) [of io' k s None s'] by (simp add: GetObject_def)
  show "\<lbrakk>DeleteObject io' k s = (Some e, s'); k' \<noteq> k\<rbrakk> \<Longrightarrow> GetObject k' s' = GetObject k' s"
    using DeleteObject_objects(1) [of io' k s "Some e" s'] by (auto simp: GetObject_def)
qed


text \<open>
  Requests for the same key share one object. A handler that obtains an object finds it in the
  cache afterwards, and the next request gets the same object and is not told to fill it; when a
  request loses the race against another one that creates the object first, the cover handler still
  gets that object while the stream handler fails with the error that it exists; and an object whose
  filling is abandoned leaves nothing under its key.
\<close>

lemma requests_share_object:
  assumes "stream_acquire GetObject (CreateObject io now) k s others = (Inr (r, new), s')"
    "GetObject k u = None" "GetObject k (others' u) = Some r'" "sy_objects (others'' (others' u)) = sy_objects (others' u)"
  shows "GetObject k s' = Some r \<and> (new \<longleftrightarrow> GetObject k s = None)
    \<and> stream_acquire GetObject (CreateObject io2 now2) k s' others2 = (Inr (r, False), s')
    \<and> (new \<longrightarrow> (\<forall>io' s''. DeleteObject io' k s' = (None, s'') \<longrightarrow> GetObject k s'' = None))
    \<and> stream_acquire GetObject (CreateObject io now) k u others' = (Inl CErrExist, others' u)
    \<and> cover_acquire GetObject (CreateObject io now) CErrExist k u others' others''
        = (Inr (r', False), others'' (others' u))"
proof -
  have "GetObject k (others'' (others' u)) = Some r'" using assms(3,4) by (simp add: GetObject_def)
  with assms(2,3) have cr: "cover_acquire GetObject (CreateObject io now) CErrExist k u others' others''
      = (Inr (r', False), others'' (others' u))"
    by (intro cache.cover_race)
  have del: "GetObject k s'' = None" if "new" "DeleteObject io' k s' = (None, s'')" for io' s''
    using cache.delete_ok [OF that(2), of k] by simp
  show ?thesis
    using cache.acquired_is_stored [OF assms(1)] cache.acquired_again [OF assms(1)]
      cache.stream_race [where k = k and s = u and others = others' and r = r' and io = io and now = now] assms(2,3) cr del
    by (simp add: stream_acquire_def)
qed

lemma requests_share_object_example:
  "\<exists>s'. stream_acquire GetObject (CreateObject io_ok 1) ''k'' wit_new id = (Inr (0, True), s')
    \<and> GetObject ''k'' s' = Some 0
    \<and> stream_acquire GetObject (CreateObject io_ok 1) ''k'' wit_new (\<lambda>s. snd (CreateObject io_ok 1 ''k'' s))
        = (Inl CErrExist, wit_created)"
proof -
  let ?s' = "snd (stream_acquire GetObject (CreateObject io_ok 1) ''k'' wit_new id)"
  have "fst (stream_acquire GetObject (CreateObject io_ok 1) ''k'' wit_new id) = Inr (0, True)" by code_simp
  then have 1: "stream_acquire GetObject (CreateObject io_ok 1) ''k'' wit_new id = (Inr (0, True), ?s')"
    by (simp add: prod_eq_iff)
  have 2: "GetObject ''k'' wit_new = None" by code_simp
  have 3: "GetObject ''k'' ((\<lambda>s. snd (CreateObject io_ok 1 ''k'' s)) wit_new) = Some 0" by code_simp
  have 4: "sy_objects (id ((\<lambda>s. snd (CreateObject io_ok 1 ''k'' s)) wit_new))
      = sy_objects ((\<lambda>s. snd (CreateObject io_ok 1 ''k'' s)) wit_new)" by simp
  from requests_share_object [where others' = "\<lambda>s. snd (CreateObject io_ok 1 ''k'' s)" and others'' = id, OF 1 2 3 4] 1 show ?thesis by (auto simp: wit_created_def)
qed

end
