(* ===== verification/Transcode.thy ===== *)
theory Transcode
  imports GoPrelude
begin

text \<open>
  Choosing a transcoding format and the command line of ffmpeg (\<open>ffmpeg/transcode.go\<close>). Times are
  nanosecond counts; running the command is outside the model: whether it starts is an argument of
  the callers.
\<close>

record Format =
  f_Name :: string
  f_Mime :: string
  f_outFormat :: string
  f_encoder :: string
  f_minBitRateK :: int
  f_defaultBitRateK :: int
  f_maxBitRateK :: int
  f_maxBitRatePerChannelK :: int

definition fmt :: "string \<Rightarrow> string \<Rightarrow> string \<Rightarrow> string \<Rightarrow> int \<Rightarrow> int \<Rightarrow> int \<Rightarrow> int \<Rightarrow> Format" where
  "fmt name out mime enc lo def hi per =
     \<lparr> f_Name = name, f_Mime = mime, f_outFormat = out, f_encoder = enc, f_minBitRateK = lo,
       f_defaultBitRateK = def, f_maxBitRateK = hi, f_maxBitRatePerChannelK = per \<rparr>"

definition emptyFormat :: Format where
  "emptyFormat = fmt [] [] [] [] 0 0 0 0"

definition formats :: "string \<rightharpoonup> Format" where
  "formats =
     [''mp3'' \<mapsto> fmt ''mp3'' ''mp3'' ''audio/mpeg'' ''libmp3lame'' 64 192 320 320,
      ''opus'' \<mapsto> fmt ''opus'' ''ogg'' ''audio/ogg'' ''libopus'' 32 192 512 256,
      ''ogg'' \<mapsto> fmt ''vorbis'' ''ogg'' ''audio/ogg'' ''libvorbis'' 96 192 480 240,
      ''vorbis'' \<mapsto> fmt ''vorbis'' ''ogg'' ''audio/ogg'' ''libvorbis'' 80 192 480 240]"

definition SelectFormat :: "string \<Rightarrow> int \<Rightarrow> int \<Rightarrow> Format \<times> int" where
  "SelectFormat name channels maxBitRateK =
     (if name = ''raw'' then (emptyFormat, 0)
      else let format = to_lower name;
               f = (case formats format of Some f \<Rightarrow> f | None \<Rightarrow> the (formats ''mp3''))
           in if maxBitRateK = 0 then (f, f_defaultBitRateK f)
              else (f, max (f_minBitRateK f)
                        (min (min (f_maxBitRateK f) (channels * f_maxBitRatePerChannelK f)) maxBitRateK)))"

definition clamp_bitrate :: "Format \<Rightarrow> int \<Rightarrow> int \<Rightarrow> int" where
  "clamp_bitrate format channels maxBitRateK =
     (let r = (if maxBitRateK = 0 then f_defaultBitRateK format else maxBitRateK)
      in max (f_minBitRateK format)
           (min (min (f_maxBitRateK format) (channels * f_maxBitRatePerChannelK format)) r))"

definition vorbis_quality :: "int \<Rightarrow> string" where
  "vorbis_quality r =
     (if r \<le> 80 then ''1'' else if r \<le> 96 then ''2'' else if r \<le> 112 then ''3''
      else if r \<le> 128 then ''4'' else if r \<le> 160 then ''5'' else if r \<le> 192 then ''6''
      else if r \<le> 224 then ''7'' else if r \<le> 256 then ''8'' else if r \<le> 320 then ''9'' else ''10'')"

definition Microseconds :: "int \<Rightarrow> int" where
  "Microseconds d = (if d < 0 then - (- d div 1000) else d div 1000)"

definition transcode_args :: "string \<Rightarrow> Format \<Rightarrow> int \<Rightarrow> int \<Rightarrow> string list" where
  "transcode_args path format r timeOffset =
     [''-v'', ''error'', ''-ss'', show_int (Microseconds timeOffset) @ ''us'', ''-i'', path, ''-map'', ''0:a:0'', ''-vn'']
     @ (if f_encoder format = ''libvorbis'' then [''-q:a'', vorbis_quality r] else [''-b:a'', show_int r @ ''k''])
     @ [''-c:a'', f_encoder format, ''-f'', f_outFormat format, ''-'']"

text \<open>
  \<open>Transcode\<close> returns the bit rate it passed on, or fails when ffmpeg does not start; the command
  line is part of the result. What happens when the command ends is up to \<open>onDone\<close>, see the callers.
\<close>

definition Transcode ::
  "(string list \<Rightarrow> bool) \<Rightarrow> string \<Rightarrow> int \<Rightarrow> Format \<Rightarrow> int \<Rightarrow> int \<Rightarrow> (string list \<times> int) option" where
  "Transcode starts path channels format maxBitRateK timeOffset =
     (let r = clamp_bitrate format channels maxBitRateK;
          args = transcode_args path format r timeOffset
      in if starts args then Some (args, r) else None)"

text \<open>\<open>filepath.Ext\<close>: from the last dot of the last path element on.\<close>

definition filepath_Ext :: "string \<Rightarrow> string" where
  "filepath_Ext path =
     (let base = last (split_on (CHR ''/'') path); parts = split_on (CHR ''.'') base
      in if length parts \<le> 1 then [] else CHR ''.'' # last parts)"

definition seek_raw_args :: "string \<Rightarrow> int \<Rightarrow> string list" where
  "seek_raw_args path timeOffset =
     [''-v'', ''error'', ''-ss'', show_int (Microseconds timeOffset) @ ''us'', ''-i'', path, ''-map'', ''0:a:0'', ''-vn'',
      ''-c'', ''copy'', ''-f'', trim_prefix (filepath_Ext path) ''.'', ''-'']"

definition SeekRaw :: "(string list \<Rightarrow> bool) \<Rightarrow> string \<Rightarrow> int \<Rightarrow> string list option" where
  "SeekRaw starts path timeOffset =
     (let args = seek_raw_args path timeOffset in if starts args then Some args else None)"

section \<open>Properties\<close>

definition format_ok :: "Format \<Rightarrow> bool" where
  "format_ok f \<longleftrightarrow> 0 < f_minBitRateK f \<and> f_minBitRateK f \<le> f_defaultBitRateK f \<and> f_defaultBitRateK f \<le> f_maxBitRateK f
     \<and> f_defaultBitRateK f \<le> f_maxBitRatePerChannelK f"

lemma formats_ok: "formats n = Some f \<Longrightarrow> format_ok f"
  by (auto simp: formats_def fmt_def format_ok_def split: if_splits)

lemma formats_mp3: "formats ''mp3'' = Some (fmt ''mp3'' ''mp3'' ''audio/mpeg'' ''libmp3lame'' 64 192 320 320)"
  by (simp add: formats_def)

lemma SelectFormat_format:
  assumes "name \<noteq> ''raw''"
  shows "fst (SelectFormat name channels r)
    = (case formats (to_lower name) of Some f \<Rightarrow> f | None \<Rightarrow> fmt ''mp3'' ''mp3'' ''audio/mpeg'' ''libmp3lame'' 64 192 320 320)"
  using assms by (simp add: SelectFormat_def Let_def formats_mp3 split: option.split)

lemma SelectFormat_ok: "name \<noteq> ''raw'' \<Longrightarrow> format_ok (fst (SelectFormat name channels r))"
  using formats_ok formats_ok [OF formats_mp3] by (auto simp: SelectFormat_format split: option.split)

lemma per_channel:
  fixes c per r :: int
  assumes "1 \<le> c" "r \<le> per" "0 \<le> per"
  shows "r \<le> c * per"
proof -
  have "1 * per \<le> c * per" using assms by (intro mult_right_mono) auto
  with assms show ?thesis by simp
qed

text \<open>
  The bit rate a format is selected with is the one it is encoded with. For a stream with at least
  one channel, \<open>Transcode\<close> passes on exactly the rate \<open>SelectFormat\<close> returned, so the rate in the
  name of a cached transcode is true; that rate is at least the format's minimum and at most what was
  asked for (or the minimum), the format's limit and its limit for the channels; without a request it
  is the format's default; and unknown formats are encoded as mp3.
\<close>

lemma selected_bitrate_is_used:
  assumes "name \<noteq> ''raw''" "1 \<le> channels" "0 \<le> maxBitRate" "SelectFormat name channels maxBitRate = (f, r)"
    "starts (transcode_args path f r off)"
  shows "Transcode starts path channels f r off = Some (transcode_args path f r off, r)
    \<and> f_minBitRateK f \<le> r \<and> r \<le> f_maxBitRateK f \<and> r \<le> channels * f_maxBitRatePerChannelK f
    \<and> (if maxBitRate = 0 then r = f_defaultBitRateK f else r \<le> max (f_minBitRateK f) maxBitRate)
    \<and> (formats (to_lower name) = Some f \<or> formats (to_lower name) = None \<and> f_encoder f = ''libmp3lame'')"
proof -
  have ok: "format_ok f" using SelectFormat_ok [OF assms(1), of channels maxBitRate] assms(4) by simp
  have ff: "f = (case formats (to_lower name) of Some f \<Rightarrow> f | None \<Rightarrow> fmt ''mp3'' ''mp3'' ''audio/mpeg'' ''libmp3lame'' 64 192 320 320)"
    using SelectFormat_format [OF assms(1), of channels maxBitRate] assms(4) by simp
  have r: "r = (if maxBitRate = 0 then f_defaultBitRateK f else max (f_minBitRateK f)
      (min (min (f_maxBitRateK f) (channels * f_maxBitRatePerChannelK f)) maxBitRate))"
    using assms(1,4) by (auto simp: SelectFormat_def Let_def split: if_splits)
  have pc: "f_defaultBitRateK f \<le> channels * f_maxBitRatePerChannelK f"
    using per_channel [OF assms(2), of "f_defaultBitRateK f" "f_maxBitRatePerChannelK f"] ok by (simp add: format_ok_def)
  have bounds: "f_minBitRateK f \<le> r" "r \<le> f_maxBitRateK f" "r \<le> channels * f_maxBitRatePerChannelK f" "0 < r"
    using ok pc unfolding r format_ok_def by auto
  then have "clamp_bitrate f channels r = r" by (simp add: clamp_bitrate_def)
  then have "Transcode starts path channels f r off = Some (transcode_args path f r off, r)"
    using assms(5) by (simp add: Transcode_def Let_def)
  moreover have "if maxBitRate = 0 then r = f_defaultBitRateK f else r \<le> max (f_minBitRateK f) maxBitRate"
    unfolding r by (simp add: min.coboundedI2 max.coboundedI2)
  moreover have "formats (to_lower name) = Some f \<or> formats (to_lower name) = None \<and> f_encoder f = ''libmp3lame''"
    using ff by (cases "formats (to_lower name)") (simp_all add: fmt_def)
  ultimately show ?thesis using bounds(1-3) by blast
qed

lemma selected_bitrate_is_used_example:
  "SelectFormat ''OGG'' 1 320 = (the (formats ''ogg''), 240)
    \<and> Transcode (\<lambda>_. True) ''/m/a.flac'' 1 (the (formats ''ogg'')) 240 1500000
      = Some ([''-v'', ''error'', ''-ss'', ''1500us'', ''-i'', ''/m/a.flac'', ''-map'', ''0:a:0'', ''-vn'', ''-q:a'', ''8'',
         ''-c:a'', ''libvorbis'', ''-f'', ''ogg'', ''-''], 240)"
proof -
  have s: "SelectFormat ''OGG'' 1 320 = (the (formats ''ogg''), 240)" by code_simp
  have "transcode_args ''/m/a.flac'' (the (formats ''ogg'')) 240 1500000
    = [''-v'', ''error'', ''-ss'', ''1500us'', ''-i'', ''/m/a.flac'', ''-map'', ''0:a:0'', ''-vn'', ''-q:a'', ''8'',
         ''-c:a'', ''libvorbis'', ''-f'', ''ogg'', ''-'']"
    by code_simp
  with selected_bitrate_is_used [OF _ _ _ s, of "\<lambda>_. True" "''/m/a.flac''" 1500000] s show ?thesis by simp
qed

end
