(* ===== verification/Lyrics.thy ===== *)
theory Lyrics
  imports GoPrelude "HOL-Library.Multiset"
begin

text \<open>
  Lyrics in the LRC format (\<open>handlers/responses/lyrics.go\<close>): plain text without the metadata, and
  structured lines with their start times. A string is its bytes; ranging over a string yields its
  runes, which are kept in their UTF-8 encoding.
\<close>

section \<open>Runes and lines\<close>

text \<open>The number of bytes of the rune at the front; 0 if the bytes are no encoding of a rune.\<close>

fun rune_len :: "string \<Rightarrow> nat" where
  "rune_len [] = 0"
| "rune_len (a # s) =
     (let c = between 128 191; two = (case s of b # _ \<Rightarrow> c b | [] \<Rightarrow> False)
      in if code_of a < 128 then 1
         else if between 194 223 a then (if two then 2 else 0)
         else case s of
             b # b' # t \<Rightarrow>
               (if between 224 239 a then
                  (if (if a = char_of (224::nat) then between 160 191 b
                       else if a = char_of (237::nat) then between 128 159 b else c b) \<and> c b' then 3 else 0)
                else if between 240 244 a then
                  (case t of
                     b'' # _ \<Rightarrow>
                       (if (if a = char_of (240::nat) then between 144 191 b
                            else if a = char_of (244::nat) then between 128 143 b else c b) \<and> c b' \<and> c b''
                        then 4 else 0)
                   | [] \<Rightarrow> 0)
                else 0)
           | _ \<Rightarrow> 0)"

definition replacement_rune :: string where
  "replacement_rune = bytes_of [239, 191, 189]"

function runes :: "string \<Rightarrow> string list" where
  "runes s =
     (if s = [] then []
      else let n = rune_len s
           in if n = 0 then replacement_rune # runes (tl s) else take n s # runes (drop n s))"
  by pat_completeness auto
termination by (relation "measure length") (auto simp: neq_Nil_conv)

declare runes.simps [simp del]

definition is_space_rune :: "string \<Rightarrow> bool" where
  "is_space_rune r \<longleftrightarrow> r \<in> set space_runes"

text \<open>
  \<open>bufio.Scanner\<close> with its default settings: lines end at a newline, one carriage return before it
  is dropped, and scanning stops at a line that does not fit the buffer of 64 kB.
\<close>

definition drop_cr :: "string \<Rightarrow> string" where
  "drop_cr l = (if l \<noteq> [] \<and> last l = CHR 0x0D then butlast l else l)"

definition raw_lines :: "string \<Rightarrow> string list" where
  "raw_lines s = (let ls = split_on (CHR 0x0A) s in if last ls = [] then butlast ls else ls)"

definition scan_lines :: "string \<Rightarrow> string list" where
  "scan_lines s = map drop_cr (takeWhile (\<lambda>l. length l < 65536) (raw_lines s))"

section \<open>Time tags\<close>

definition wrap64 :: "int \<Rightarrow> int" where
  "wrap64 i = (i + 2 ^ 63) mod 2 ^ 64 - 2 ^ 63"

text \<open>The loop over the colon-separated parts, from the last one on.\<close>

fun time_parts :: "int \<Rightarrow> int \<Rightarrow> string list \<Rightarrow> int option" where
  "time_parts result multiplier [] = Some result"
| "time_parts result multiplier (p # ps) =
     (case atoi p of Inl _ \<Rightarrow> None
      | Inr v \<Rightarrow> time_parts (wrap64 (result + wrap64 (v * multiplier))) (multiplier * 60) ps)"

definition parseLRCTimeTag :: "string \<Rightarrow> int option" where
  "parseLRCTimeTag tag =
     (let dotParts = split_on (CHR ''.'') tag in
      if length dotParts > 2 then None
      else let frac =
             (if length dotParts = 2
              then let d = take 3 (dotParts ! 1); d = (if d = [] then ''0'' else d)
                   in case atoi d of Inl _ \<Rightarrow> None
                      | Inr v \<Rightarrow> Some (if length d = 3 then v else if length d = 2 then v * 10 else v * 100)
              else Some 0)
           in case frac of None \<Rightarrow> None
              | Some result \<Rightarrow>
                  let parts = split_on (CHR '':'') (dotParts ! 0)
                  in if length parts > 3 \<or> length parts = 0 then None
                     else time_parts result 1000 (rev parts))"

section \<open>Structured lyrics\<close>

record Line =
  ln_Value :: string
  ln_Start :: "int option"

record StructuredLyrics =
  sl_Lang :: string
  sl_Synced :: bool
  sl_DisplayArtist :: string
  sl_DisplayTitle :: string
  sl_Offset :: int
  sl_Line :: "Line list"

text \<open>One line split into the contents of its square brackets, run together, and the other text.\<close>

fun split_tags :: "bool \<Rightarrow> bool \<Rightarrow> string list \<Rightarrow> string \<times> string" where
  "split_tags readingTag textStarted [] = ([], [])"
| "split_tags readingTag textStarted (r # rs) =
     (if readingTag then
        (if r = '']'' then split_tags False textStarted rs
         else case split_tags True textStarted rs of (tag, txt) \<Rightarrow> (r @ tag, txt))
      else if \<not> textStarted \<and> is_space_rune r then split_tags False textStarted rs
      else if r = ''['' then split_tags True textStarted rs
      else case split_tags False True rs of (tag, txt) \<Rightarrow> (tag, r @ txt))"

definition apply_tag :: "string \<Rightarrow> StructuredLyrics \<Rightarrow> int option \<times> StructuredLyrics" where
  "apply_tag tagContent l =
     (case tagContent of [] \<Rightarrow> (None, l)
      | c # _ \<Rightarrow>
          if is_digit c then
            (case parseLRCTimeTag tagContent of None \<Rightarrow> (None, l) | Some t \<Rightarrow> (Some t, l\<lparr> sl_Synced := True \<rparr>))
          else
            let parts = split_on (CHR '':'') tagContent in
            if length parts > 1 then
              let tag = to_lower (hd parts); content = trim_space (join_with '':'' (tl parts))
              in (None, if tag = ''ti'' then l\<lparr> sl_DisplayTitle := content \<rparr>
                        else if tag = ''ar'' then l\<lparr> sl_DisplayArtist := content \<rparr>
                        else if tag = ''offset'' then l\<lparr> sl_Offset := fst (atoi_full content) \<rparr>
                        else l)
            else (None, l))"

definition lyrics_line :: "StructuredLyrics \<Rightarrow> string \<Rightarrow> StructuredLyrics" where
  "lyrics_line l initialLine =
     (let (tagContent, txt) = split_tags False False (runes initialLine);
          (start, l1) = apply_tag tagContent l;
          lineText = trim_space txt
      in if lineText = [] \<and> start = None \<and> (sl_Line l1 = [] \<or> ln_Value (last (sl_Line l1)) = []) then l1
         else l1\<lparr> sl_Line := sl_Line l1 @ [\<lparr> ln_Value = lineText, ln_Start = start \<rparr>] \<rparr>)"

text \<open>
  \<open>slices.SortFunc\<close> with a comparison that calls lines without a start equal to all others: the
  insertion sort it uses for short slices. On lines that all have a start the comparison is an order
  and every sorting method gives this result up to the order of lines with the same start.
\<close>

definition line_less :: "Line \<Rightarrow> Line \<Rightarrow> bool" where
  "line_less a b = (case (ln_Start a, ln_Start b) of (Some x, Some y) \<Rightarrow> x < y | _ \<Rightarrow> False)"

fun sift_left :: "Line \<Rightarrow> Line list \<Rightarrow> Line list" where
  "sift_left x [] = [x]"
| "sift_left x (y # ys) = (if line_less x y then y # sift_left x ys else x # y # ys)"

definition sort_lines :: "Line list \<Rightarrow> Line list" where
  "sort_lines xs = rev (foldl (\<lambda>sorted x. sift_left x sorted) [] xs)"

definition parseStructuredLyrics :: "string \<Rightarrow> StructuredLyrics" where
  "parseStructuredLyrics lyrics =
     (let l = foldl lyrics_line \<lparr> sl_Lang = ''und'', sl_Synced = False, sl_DisplayArtist = [],
                 sl_DisplayTitle = [], sl_Offset = 0, sl_Line = [] \<rparr> (scan_lines lyrics)
      in if sl_Synced l then l\<lparr> sl_Line := sort_lines (sl_Line l) \<rparr> else l)"

definition NewLyricsList :: "string option \<Rightarrow> StructuredLyrics list" where
  "NewLyricsList lyrics =
     (case lyrics of None \<Rightarrow> []
      | Some s \<Rightarrow> (let l = parseStructuredLyrics s in if sl_Line l = [] then [] else [l]))"

section \<open>Plain text\<close>

datatype strip_mode = InSquare | InAngle | InText

text \<open>
  The loop over the runes of one line: \<open>first\<close> holds for the rune at index 0. The result is the text
  written and whether anything but spaces was.
\<close>

fun strip_runes :: "bool \<Rightarrow> strip_mode \<Rightarrow> bool \<Rightarrow> string list \<Rightarrow> string \<times> bool" where
  "strip_runes first mode wasSpace [] = ([], False)"
| "strip_runes first mode wasSpace (r # rs) =
     (if r = [CHR 0x0D] then strip_runes False mode wasSpace rs
      else if first \<and> r = ''['' then strip_runes False InSquare wasSpace rs
      else if mode = InSquare then strip_runes False (if r = '']'' then InText else InSquare) wasSpace rs
      else if first \<and> r = ''<'' then strip_runes False InAngle wasSpace rs
      else if mode = InAngle then strip_runes False (if r = ''>'' then InText else InAngle) wasSpace rs
      else if is_space_rune r then
        (case strip_runes False InText True rs of (out, any) \<Rightarrow> (if wasSpace then out else r @ out, any))
      else case strip_runes False InText False rs of (out, any) \<Rightarrow> (r @ out, True))"

fun strip_lines :: "bool \<Rightarrow> string list \<Rightarrow> string" where
  "strip_lines wasEmpty [] = []"
| "strip_lines wasEmpty (l # ls) =
     (case strip_runes True InText True (runes (trim_space l)) of
        (out, any) \<Rightarrow>
          if \<not> any \<and> wasEmpty then out @ strip_lines wasEmpty ls
          else out @ [CHR 0x0A] @ strip_lines (\<not> any) ls)"

definition stripLRCMetadata :: "string \<Rightarrow> string" where
  "stripLRCMetadata lyrics = trim_space (strip_lines True (scan_lines lyrics))"

definition NewLyrics :: "string option \<Rightarrow> string option" where
  "NewLyrics lyrics =
     (case lyrics of None \<Rightarrow> None
      | Some s \<Rightarrow> (let result = stripLRCMetadata s in if result = [] then None else Some result))"


section \<open>Facts about plain text\<close>

definition printable :: "char \<Rightarrow> bool" where
  "printable c \<longleftrightarrow> between 32 126 c"

lemma code_of_chars [simp]:
  "code_of (CHR '' '') = 32" "code_of (CHR ''['') = 91" "code_of (CHR '']'') = 93" "code_of (CHR '':'') = 58"
  "code_of (CHR ''.'') = 46" "code_of (CHR ''<'') = 60" "code_of (CHR ''>'') = 62" "code_of (CHR 0x0D) = 13"
  "code_of (CHR 0x0A) = 10"
  by code_simp+

lemma runes_ascii: "list_all (\<lambda>c. code_of c < 128) s \<Longrightarrow> runes s = map (\<lambda>c. [c]) s"
proof (induction s)
  case Nil
  then show ?case by (subst runes.simps) simp
next
  case (Cons a s)
  then show ?case by (subst runes.simps) simp
qed

lemma is_space_rune_ascii: "is_space_rune [c] \<longleftrightarrow> code_of c \<in> {9, 10, 11, 12, 13, 32}"
proof
  assume "is_space_rune [c]"
  then have "[c] \<in> set (map bytes_of [[9], [10], [11], [12], [13], [32]])"
    by (auto simp: is_space_rune_def space_runes_def bytes_of_def)
  then show "code_of c \<in> {9, 10, 11, 12, 13, 32}" by (auto simp: bytes_of_def)
next
  assume "code_of c \<in> {9, 10, 11, 12, 13, 32}"
  then have "c \<in> char_of ` {9, 10, 11, 12, 13, 32 :: nat}"
    by (metis (no_types, lifting) char_of_char code_of_def image_eqI of_char_of)
  then show "is_space_rune [c]" by (auto simp: is_space_rune_def space_runes_def bytes_of_def)
qed

lemma graph_not_space: "graph c \<Longrightarrow> \<not> is_space_rune [c]"
  by (auto simp: is_space_rune_ascii graph_def between_def)

section \<open>Facts about time tags\<close>

lemma length_show_nat: "length (show_nat n) \<le> k \<longleftrightarrow> n < 10 ^ k \<and> 0 < k" if "k = 1 \<or> k = 2 \<or> k = 3" for k
  using that
  by (auto simp: show_nat.simps [of n] show_nat.simps [of "n div 10"] show_nat.simps [of "n div 10 div 10"]
      show_nat.simps [of "n div 10 div 10 div 10"])


definition fmt_time :: "int \<Rightarrow> string" where
  "fmt_time ms = pad_int 2 (ms div 60000) @ '':'' @ pad_int 2 (ms div 1000 mod 60) @ ''.'' @ pad_int 3 (ms mod 1000)"

lemma length_pad3:
  assumes "0 \<le> i" "i < 1000"
  shows "length (pad_int 3 i) = 3"
proof -
  have "length (show_nat (nat i)) \<le> 3" using assms by (subst length_show_nat) auto
  then show ?thesis using assms by (simp add: pad_int_def Let_def)
qed

lemma pad_int_digits: "0 \<le> i \<Longrightarrow> \<not> is_digit c \<Longrightarrow> c \<notin> set (pad_int w i)"
  using pad_int_nonneg [of i w] by auto

lemma wrap64_id: "in_range i \<Longrightarrow> wrap64 i = i"
  by (simp add: wrap64_def in_range_def min_int_def max_int_def)

lemma in_range_time: "\<lbrakk>0 \<le> i; i \<le> j; in_range j\<rbrakk> \<Longrightarrow> in_range i"
  by (simp add: in_range_def min_int_def)

lemma parse_time_parts:
  assumes nn: "0 \<le> m" "0 \<le> s" "0 \<le> f" "f < 1000" and rng: "in_range (f + s * 1000 + m * 60000)"
  shows "parseLRCTimeTag (pad_int 2 m @ '':'' @ pad_int 2 s @ ''.'' @ pad_int 3 f) = Some (f + s * 1000 + m * 60000)"
proof -
  have r: "in_range m" "in_range s" "in_range f" "in_range (s * 1000)" "in_range (m * 60000)" "in_range (f + s * 1000)"
    by (rule in_range_time [OF _ _ rng]; use nn in simp)+
  have nd: "\<not> is_digit (CHR ''.'')" "\<not> is_digit (CHR '':'')" by (simp_all add: is_digit_def)
  have dots: "split_on (CHR ''.'') (pad_int 2 m @ '':'' @ pad_int 2 s @ ''.'' @ pad_int 3 f)
      = [pad_int 2 m @ CHR '':'' # pad_int 2 s, pad_int 3 f]"
    using split_on_append [of "CHR ''.''" "pad_int 2 m @ '':'' @ pad_int 2 s" "pad_int 3 f"] nn nd
    by (simp add: split_on_no_sep pad_int_digits)
  have cols: "split_on (CHR '':'') (pad_int 2 m @ CHR '':'' # pad_int 2 s) = [pad_int 2 m, pad_int 2 s]"
    using split_on_append [of "CHR '':''" "pad_int 2 m" "pad_int 2 s"] nn nd
    by (simp add: split_on_no_sep pad_int_digits)
  have l3: "length (pad_int 3 f) = 3" "pad_int 3 f \<noteq> []" using length_pad3 [OF nn(3,4)] by auto
  have "time_parts f 1000 [pad_int 2 s, pad_int 2 m] = Some (f + s * 1000 + m * 60000)"
    using r rng by (simp add: atoi_pad_int wrap64_id)
  then show ?thesis
    using l3 r by (simp only: parseLRCTimeTag_def dots cols Let_def)
      (simp add: cols Let_def atoi_pad_int del: time_parts.simps)
qed

lemma parse_fmt_time:
  assumes "0 \<le> ms" "in_range ms"
  shows "parseLRCTimeTag (fmt_time ms) = Some ms"
proof -
  have "ms div 1000 div 60 = ms div 60000" by (simp add: zdiv_zmult2_eq [symmetric])
  then have "ms mod 1000 + ms div 1000 mod 60 * 1000 + ms div 60000 * 60000
      = ms mod 1000 + (ms div 1000 mod 60 + ms div 1000 div 60 * 60) * 1000" by (simp add: algebra_simps)
  also have "\<dots> = ms" by simp
  finally have dec: "ms mod 1000 + ms div 1000 mod 60 * 1000 + ms div 60000 * 60000 = ms" .
  have "0 \<le> ms div 60000" using assms(1) by (rule pos_imp_zdiv_nonneg_iff [THEN iffD2, rotated]) simp
  then show ?thesis
    using parse_time_parts [of "ms div 60000" "ms div 1000 mod 60" "ms mod 1000"] assms(2)
    unfolding dec by (simp add: fmt_time_def)
qed

lemma fmt_time_chars: "0 \<le> ms \<Longrightarrow> c \<in> set (fmt_time ms) \<Longrightarrow> is_digit c \<or> c = CHR '':'' \<or> c = CHR ''.''"
  using pad_int_nonneg [of "ms div 60000" 2] pad_int_nonneg [of "ms div 1000 mod 60" 2] pad_int_nonneg [of "ms mod 1000" 3]
    pos_imp_zdiv_nonneg_iff [of 60000 ms]
  by (auto simp: fmt_time_def)

lemma pad_int_hd: "0 \<le> i \<Longrightarrow> \<exists>c cs. pad_int w i = c # cs \<and> is_digit c"
proof -
  assume "0 \<le> i"
  then have "pad_int w i \<noteq> []" "set (pad_int w i) \<subseteq> {c. is_digit c}"
    using pad_int_nonneg by (auto simp: pad_int_def Let_def)
  then show ?thesis by (cases "pad_int w i") auto
qed

lemma fmt_time_hd: "0 \<le> ms \<Longrightarrow> \<exists>c cs. fmt_time ms = c # cs \<and> is_digit c"
  using pad_int_hd [of "ms div 60000" 2] pos_imp_zdiv_nonneg_iff [of 60000 ms] by (auto simp: fmt_time_def)

section \<open>Lines of an LRC file\<close>

text \<open>Text that a line keeps as it is: printable, no opening bracket, no space at either end.\<close>

definition plain_text :: "string \<Rightarrow> bool" where
  "plain_text t \<longleftrightarrow> t \<noteq> [] \<and> list_all printable t \<and> CHR ''['' \<notin> set t \<and> graph (hd t) \<and> graph (last t)
     \<and> length t \<le> 60000"

definition lrc_line :: "int \<times> string \<Rightarrow> string" where
  "lrc_line x = (case x of (ms, t) \<Rightarrow> ''['' @ fmt_time ms @ '']'' @ t)"

definition lrc_file :: "(int \<times> string) list \<Rightarrow> string" where
  "lrc_file xs = concat (map (\<lambda>x. lrc_line x @ [CHR 0x0A]) xs)"

lemma split_tags_text:
  "CHR ''['' \<notin> set t \<Longrightarrow> split_tags False True (map (\<lambda>c. [c]) t) = ([], t)"
  by (induction t) auto

lemma split_tags_tag:
  "CHR '']'' \<notin> set g \<Longrightarrow> split_tags True st (map (\<lambda>c. [c]) (g @ '']'' @ s))
    = (case split_tags False st (map (\<lambda>c. [c]) s) of (tag, txt) \<Rightarrow> (g @ tag, txt))"
  by (induction g) (auto split: prod.splits)

lemma split_tags_start:
  "plain_text t \<Longrightarrow> split_tags False False (map (\<lambda>c. [c]) t) = ([], t)"
  using split_tags_text [of "tl t"]
  by (cases t) (auto simp: plain_text_def graph_not_space)

lemma lrc_line_ascii:
  assumes "0 \<le> ms" "plain_text t"
  shows "list_all (\<lambda>c. code_of c < 128) (lrc_line (ms, t))"
proof -
  have "code_of c < 128" if "c \<in> set (fmt_time ms)" for c
    using fmt_time_chars [OF assms(1) that] by (auto simp: is_digit_def)
  moreover have "code_of c < 128" if "c \<in> set t" for c
  proof -
    have "printable c" using assms(2) that by (simp add: plain_text_def list_all_iff)
    then show ?thesis by (simp add: printable_def between_def)
  qed
  ultimately show ?thesis by (simp add: lrc_line_def list_all_iff ball_Un)
qed

lemma split_lrc_line:
  assumes "0 \<le> ms" "plain_text t"
  shows "split_tags False False (runes (lrc_line (ms, t))) = (fmt_time ms, t)"
proof -
  have nb: "CHR '']'' \<notin> set (fmt_time ms)" using fmt_time_chars [OF assms(1), of "CHR '']''"] by (auto simp: is_digit_def)
  have "\<not> is_space_rune ''[''" by (simp add: is_space_rune_ascii)
  then show ?thesis
    using split_tags_tag [OF nb, of False t] split_tags_start [OF assms(2)]
    by (simp add: runes_ascii [OF lrc_line_ascii [OF assms]]) (simp add: lrc_line_def)
qed

lemma lyrics_lrc_line:
  assumes "0 \<le> ms" "in_range ms" "plain_text t"
  shows "lyrics_line l (lrc_line (ms, t))
    = l\<lparr> sl_Synced := True, sl_Line := sl_Line l @ [\<lparr> ln_Value = t, ln_Start = Some ms \<rparr>] \<rparr>"
proof -
  obtain c cs where c: "fmt_time ms = c # cs" "is_digit c" using fmt_time_hd [OF assms(1)] by blast
  have "apply_tag (fmt_time ms) l = (Some ms, l\<lparr> sl_Synced := True \<rparr>)"
    using parse_fmt_time [OF assms(1,2)] c by (simp add: apply_tag_def)
  moreover have "trim_space t = t" using assms(3) by (intro trim_space_graph) (simp add: plain_text_def)
  ultimately show ?thesis
    by (simp add: lyrics_line_def split_lrc_line [OF assms(1,3)])
qed


lemma raw_lines_concat:
  assumes "\<forall>l\<in>set ls. CHR 0x0A \<notin> set l"
  shows "raw_lines (concat (map (\<lambda>l. l @ [CHR 0x0A]) ls)) = ls"
proof -
  have "split_on (CHR 0x0A) (concat (map (\<lambda>l. l @ [CHR 0x0A]) ls)) = ls @ [[]]"
    using assms by (induction ls) (simp_all add: split_on_append)
  then show ?thesis by (simp add: raw_lines_def)
qed

lemma scan_lines_concat:
  assumes "\<forall>l\<in>set ls. CHR 0x0A \<notin> set l \<and> length l < 65536 \<and> (l = [] \<or> last l \<noteq> CHR 0x0D)"
  shows "scan_lines (concat (map (\<lambda>l. l @ [CHR 0x0A]) ls)) = ls"
proof -
  have tw: "takeWhile (\<lambda>l. length l < 65536) ls = ls" using assms by (simp add: takeWhile_eq_all_conv)
  moreover have "map drop_cr ls = ls" using assms by (intro map_idI) (auto simp: drop_cr_def)
  moreover have "raw_lines (concat (map (\<lambda>l. l @ [CHR 0x0A]) ls)) = ls" using assms by (intro raw_lines_concat) blast
  ultimately show ?thesis by (simp only: scan_lines_def tw)
qed

lemma length_pad2: "\<lbrakk>0 \<le> i; i < 1000\<rbrakk> \<Longrightarrow> length (pad_int 2 i) \<le> 3"
  using length_show_nat [of 3 "nat i"] by (auto simp: pad_int_def Let_def)

lemma length_fmt_time:
  assumes "0 \<le> ms" "ms < 60000000"
  shows "length (fmt_time ms) \<le> 11"
proof -
  have "ms div 60000 < 1000" using assms by (simp add: div_less_iff_less_mult)
  moreover have "0 \<le> ms div 60000" using assms(1) by (simp add: pos_imp_zdiv_nonneg_iff)
  ultimately have "length (pad_int 2 (ms div 60000)) \<le> 3" by (rule length_pad2 [rotated])
  moreover have "length (pad_int 2 (ms div 1000 mod 60)) \<le> 3"
    by (rule length_pad2) (simp, rule less_trans [of _ 60], simp_all)
  moreover have "length (pad_int 3 (ms mod 1000)) = 3" by (rule length_pad3) simp_all
  ultimately show ?thesis by (simp add: fmt_time_def)
qed

lemma lrc_line_ok:
  assumes "0 \<le> ms" "ms < 60000000" "plain_text t"
  shows "CHR 0x0A \<notin> set (lrc_line (ms, t)) \<and> length (lrc_line (ms, t)) < 65536 \<and> last (lrc_line (ms, t)) \<noteq> CHR 0x0D"
proof -
  have "CHR 0x0A \<notin> set (fmt_time ms)" using fmt_time_chars [OF assms(1), of "CHR 0x0A"] by (auto simp: is_digit_def)
  moreover have "CHR 0x0A \<notin> set t" using assms(3) by (auto simp: plain_text_def list_all_iff printable_def between_def)
  moreover have "last t \<noteq> CHR 0x0D" "t \<noteq> []" using assms(3) by (auto simp: plain_text_def graph_def between_def)
  ultimately show ?thesis using length_fmt_time [OF assms(1,2)] assms(3)
    by (auto simp: lrc_line_def plain_text_def)
qed

definition timed :: "int \<times> string \<Rightarrow> Line" where
  "timed x = \<lparr> ln_Value = snd x, ln_Start = Some (fst x) \<rparr>"

lemma fold_lrc_lines:
  assumes "\<forall>(ms, t)\<in>set xs. 0 \<le> ms \<and> in_range ms \<and> plain_text t"
  shows "foldl lyrics_line l (map lrc_line xs)
    = (if xs = [] then l else l\<lparr> sl_Synced := True, sl_Line := sl_Line l @ map timed xs \<rparr>)"
  using assms
proof (induction xs arbitrary: l)
  case (Cons x xs)
  obtain ms t where x: "x = (ms, t)" by (cases x)
  with Cons.prems have "lyrics_line l (lrc_line x)
      = l\<lparr> sl_Synced := True, sl_Line := sl_Line l @ [timed x] \<rparr>"
    by (simp add: lyrics_lrc_line timed_def)
  then show ?case using Cons by simp
qed simp

section \<open>Sorting\<close>

definition start_of :: "Line \<Rightarrow> int" where
  "start_of l = the (ln_Start l)"

lemma mset_sift: "mset (sift_left x ys) = add_mset x (mset ys)"
  by (induction x ys rule: sift_left.induct) auto

lemma mset_fold_sift: "mset (foldl (\<lambda>s x. sift_left x s) acc xs) = mset xs + mset acc"
  by (induction xs arbitrary: acc) (simp_all add: mset_sift)

lemma mset_sort_lines: "mset (sort_lines xs) = mset xs"
  by (simp add: sort_lines_def mset_fold_sift)

lemma sift_sorted:
  assumes "sorted_wrt (\<ge>) (map start_of ys)" "ln_Start x \<noteq> None" "\<forall>y\<in>set ys. ln_Start y \<noteq> None"
  shows "sorted_wrt (\<ge>) (map start_of (sift_left x ys))"
  using assms
proof (induction ys)
  case (Cons y ys)
  have "set (sift_left x ys) = insert x (set ys)" using mset_sift [of x ys] by (metis set_mset_add_mset_insert set_mset_mset)
  then show ?case using Cons by (auto simp: line_less_def start_of_def split: option.splits)
qed simp

lemma sorted_sort_lines:
  assumes "\<forall>x\<in>set xs. ln_Start x \<noteq> None"
  shows "sorted (map start_of (sort_lines xs))"
proof -
  have "sorted_wrt (\<ge>) (map start_of (foldl (\<lambda>s x. sift_left x s) acc xs))"
    if "sorted_wrt (\<ge>) (map start_of acc)" "\<forall>x\<in>set acc. ln_Start x \<noteq> None" for acc
    using assms that
  proof (induction xs arbitrary: acc)
    case (Cons x xs)
    have "set (sift_left x acc) = insert x (set acc)" using mset_sift [of x acc] by (metis set_mset_add_mset_insert set_mset_mset)
    then show ?case using Cons sift_sorted [of acc x] by auto
  qed simp
  from this [of "[]"] show ?thesis by (simp add: sort_lines_def rev_map [symmetric] sorted_wrt_rev)
qed



lemma plain_k: "plain_text ''a b''" "plain_text ''c''"
  by (simp_all add: plain_text_def printable_def graph_def between_def code_of_def)


section \<open>Stripping\<close>

fun single_spaced :: "string \<Rightarrow> bool" where
  "single_spaced (a # b # s) = (\<not> (a = CHR '' '' \<and> b = CHR '' '') \<and> single_spaced (b # s))"
| "single_spaced _ = True"

lemma printable_space: "printable c \<Longrightarrow> is_space_rune [c] \<longleftrightarrow> c = CHR '' ''"
proof -
  assume "printable c"
  moreover have "c = CHR '' '' \<longleftrightarrow> code_of c = 32" using code_of_eq_iff [of c "CHR '' ''"] by simp
  ultimately show ?thesis by (auto simp: is_space_rune_ascii printable_def between_def)
qed

lemma printable_not_cr: "printable c \<Longrightarrow> c \<noteq> CHR 0x0D"
  by (auto simp: printable_def between_def)

lemma strip_text:
  assumes "list_all printable t" "single_spaced (if ws then CHR '' '' # t else t)"
  shows "strip_runes False InText ws (map (\<lambda>c. [c]) t) = (t, \<exists>c\<in>set t. c \<noteq> CHR '' '')"
  using assms
proof (induction t arbitrary: ws)
  case (Cons c t)
  have p: "printable c" "list_all printable t" using Cons.prems(1) by simp_all
  show ?case
  proof (cases "c = CHR '' ''")
    case True
    then have "\<not> ws" "single_spaced (CHR '' '' # t)" using Cons.prems(2) by (auto split: if_splits)
    then show ?thesis using Cons.IH [of True] p True by (simp add: printable_space is_space_rune_ascii)
  next
    case False
    have "single_spaced t" using Cons.prems(2) by (cases t) (auto split: if_splits)
    then show ?thesis using Cons.IH [of False] p False printable_space [OF p(1)] printable_not_cr [OF p(1)] by simp
  qed
qed simp

lemma strip_tag:
  assumes "CHR '']'' \<notin> set g" "CHR 0x0D \<notin> set g"
  shows "strip_runes False InSquare ws (map (\<lambda>c. [c]) (g @ '']'' @ s)) = strip_runes False InText ws (map (\<lambda>c. [c]) s)"
  using assms by (induction g) auto

lemma strip_lrc_line:
  assumes "0 \<le> ms" "plain_text t" "single_spaced t"
  shows "strip_runes True InText True (runes (trim_space (lrc_line (ms, t)))) = (t, True)"
proof -
  have l: "lrc_line (ms, t) = CHR ''['' # fmt_time ms @ '']'' @ t" by (simp add: lrc_line_def)
  have g: "t \<noteq> []" "graph (hd t)" "graph (last t)" "list_all printable t" using assms(2) by (simp_all add: plain_text_def)
  then have "graph (last (lrc_line (ms, t)))" by (simp add: l)
  then have tr: "trim_space (lrc_line (ms, t)) = lrc_line (ms, t)"
    by (intro trim_space_graph) (simp add: l graph_def between_def)
  have nc: "CHR '']'' \<notin> set (fmt_time ms)" "CHR 0x0D \<notin> set (fmt_time ms)"
    using fmt_time_chars [OF assms(1), of "CHR '']''"] fmt_time_chars [OF assms(1), of "CHR 0x0D"] by (auto simp: is_digit_def)
  have sp: "single_spaced (CHR '' '' # t)" using g assms(3) by (cases t) (auto simp: graph_def between_def)
  have "\<exists>c\<in>set t. c \<noteq> CHR '' ''" using g(1,2) by (auto simp: graph_def between_def intro!: bexI [of _ "hd t"])
  then have "strip_runes False InText True (map (\<lambda>c. [c]) t) = (t, True)" using strip_text [OF g(4), of True] sp by simp
  then show ?thesis
    using strip_tag [OF nc, of True t]
    by (simp add: tr runes_ascii [OF lrc_line_ascii [OF assms(1,2)]]) (simp add: l)
qed

lemma strip_lrc_lines:
  assumes "\<forall>(ms, t)\<in>set xs. 0 \<le> ms \<and> plain_text t \<and> single_spaced t"
  shows "strip_lines e (map lrc_line xs) = concat (map (\<lambda>x. snd x @ [CHR 0x0A]) xs)"
  using assms by (induction xs arbitrary: e) (auto simp: strip_lrc_line)

lemma trim_right_newline:
  assumes "s \<noteq> []" "graph (last s)"
  shows "trim_right (s @ [CHR 0x0A]) = s"
proof -
  have "space_runes = [CHR 0x09] # [CHR 0x0A] # drop 2 space_runes" by code_simp
  then obtain rs where rs: "space_runes = [CHR 0x09] # [CHR 0x0A] # rs" by blast
  have "find (\<lambda>r. suffix r (s @ [CHR 0x0A])) space_runes = Some [CHR 0x0A]"
    unfolding rs by (simp add: suffix_def)
  then have "trail_space (s @ [CHR 0x0A]) = 1" by (simp only: trail_space_def) simp
  then show ?thesis
    by (subst trim_right.simps) (simp add: Let_def trim_right.simps [of s] trail_space_graph [OF assms])
qed

lemma concat_lines: "xs \<noteq> [] \<Longrightarrow> concat (map (\<lambda>t. t @ [CHR 0x0A]) xs) = join_with [CHR 0x0A] xs @ [CHR 0x0A]"
  by (induction "[CHR 0x0A]" xs rule: join_with.induct) auto

lemma join_ends:
  assumes "xs \<noteq> []" "\<forall>t\<in>set xs. t \<noteq> [] \<and> graph (hd t) \<and> graph (last t)"
  shows "join_with sep xs \<noteq> [] \<and> graph (hd (join_with sep xs)) \<and> graph (last (join_with sep xs))"
  using assms by (induction sep xs rule: join_with.induct) auto

text \<open>
  The plain text of synchronised lyrics is their lines without the times: stripping the metadata
  of such a file gives the texts in file order, one per line.
\<close>

lemma strip_lrc:
  assumes "\<forall>(ms, t)\<in>set xs. 0 \<le> ms \<and> ms < 60000000 \<and> plain_text t \<and> single_spaced t" "xs \<noteq> []"
  shows "NewLyrics (Some (lrc_file xs)) = Some (join_with [CHR 0x0A] (map snd xs))"
proof -
  let ?j = "join_with [CHR 0x0A] (map snd xs)"
  have "\<forall>l\<in>set (map lrc_line xs). CHR 0x0A \<notin> set l \<and> length l < 65536 \<and> (l = [] \<or> last l \<noteq> CHR 0x0D)"
    using assms(1) lrc_line_ok by fastforce
  from scan_lines_concat [OF this] have sl: "scan_lines (lrc_file xs) = map lrc_line xs"
    by (simp add: lrc_file_def comp_def)
  have "strip_lines True (map lrc_line xs) = concat (map (\<lambda>x. snd x @ [CHR 0x0A]) xs)"
    by (rule strip_lrc_lines) (use assms(1) in auto)
  also have "\<dots> = ?j @ [CHR 0x0A]" using concat_lines [of "map snd xs"] assms(2) by (simp add: comp_def)
  finally have st: "strip_lines True (map lrc_line xs) = ?j @ [CHR 0x0A]" .
  have ends: "?j \<noteq> [] \<and> graph (hd ?j) \<and> graph (last ?j)"
    by (rule join_ends) (use assms in \<open>auto simp: plain_text_def\<close>)
  then have "trim_left (?j @ [CHR 0x0A]) = ?j @ [CHR 0x0A]" by (intro trim_left_graph) simp
  then have "stripLRCMetadata (lrc_file xs) = ?j"
    using ends trim_right_newline by (simp add: stripLRCMetadata_def sl st trim_space_def)
  then show ?thesis using ends by (simp add: NewLyrics_def)
qed

lemma strip_lrc_example:
  "NewLyrics (Some (''[01:01.500]c'' @ [CHR 0x0A] @ ''[00:01.005]a b'' @ [CHR 0x0A])) = Some (''c'' @ [CHR 0x0A] @ ''a b'')"
proof -
  have "\<forall>(ms, t)\<in>set [(61500 :: int, ''c''), (1005, ''a b'')]. 0 \<le> ms \<and> ms < 60000000 \<and> plain_text t \<and> single_spaced t"
    using plain_k by simp
  from strip_lrc [OF this] have "NewLyrics (Some (lrc_file [(61500, ''c''), (1005, ''a b'')])) = Some (''c'' @ [CHR 0x0A] @ ''a b'')"
    by simp
  moreover have "lrc_file [(61500, ''c''), (1005, ''a b'')] = ''[01:01.500]c'' @ [CHR 0x0A] @ ''[00:01.005]a b'' @ [CHR 0x0A]"
    by code_simp
  ultimately show ?thesis by simp
qed

end
