(* ===== verification/MediaRetrieval.thy ===== *)
theory MediaRetrieval
  imports ObjectStore Transcode Lyrics Query RepoTypes
begin

text \<open>
  The media handlers (\<open>handlers/subsonic_mediaretrieval.go\<close>): streaming and transcoding a song,
  downloading it, its lyrics, and cover art. A handler adds to the writer and possibly ends with a
  reply that the HTTP library sends: a file, the contents behind a cache reader, the output of a
  command. The database, last.fm, the image libraries and what other requests do in between are
  arguments.
\<close>

section \<open>Replies\<close>

datatype reply =
    RFile string                    \<comment> \<open>\<open>http.ServeFile\<close>\<close>
  | RCover string                   \<comment> \<open>\<open>http.ServeFileFS\<close> in the directory of the covers\<close>
  | RContent string "int option" ref  \<comment> \<open>\<open>http.ServeContent\<close>: name, modification time, object read\<close>
  | RCopy ref                       \<comment> \<open>\<open>io.Copy(w, cacheReader)\<close>\<close>
  | RCommand "string list"          \<comment> \<open>the output of ffmpeg, run to its end\<close>
  | RHead
  | RLyrics "string option" "string option" string
  | RLyricsList "StructuredLyrics list"

type_synonym outcome = "writer \<times> reply option"

definition errs :: "writer \<Rightarrow> nat" where
  "errs w = length (filter is_error_write w)"

definition answered :: "writer \<Rightarrow> outcome \<Rightarrow> bool" where
  "answered w res \<longleftrightarrow> errs (fst res) + (if snd res = None then 0 else 1) = errs w + 1"

definition cache_err :: "cache_error \<Rightarrow> go_error" where
  "cache_err e = EMsg (if e = CErrExist then ''file already exists'' else ''cache'')"

section \<open>Streaming\<close>

record SongStreamInfo =
  si_Path :: string
  si_BitRate :: int
  si_ContentType :: string
  si_Duration :: DurationMS
  si_ChannelCount :: int

text \<open>
  The environment of a request: \<open>GetStreamInfo\<close> of the song repository, whether a command line
  starts, the HTTP method, the faults of the file system, the time, what other requests do between the
  look-up and the creation of a cache object, and the floating point product that estimates the length
  of a stream from the remaining time and the bit rate.
\<close>

record stream_env =
  se_info :: "string \<Rightarrow> string \<Rightarrow> go_error + SongStreamInfo"
  se_starts :: "string list \<Rightarrow> bool"
  se_head :: bool
  se_io :: io_env
  se_now :: int
  se_others :: "sys \<Rightarrow> sys"
  se_estimate :: "int \<Rightarrow> int \<Rightarrow> int"

record stream_request =
  sr_id :: string
  sr_format :: string
  sr_maxBitRate :: int
  sr_timeOffset :: int

definition stream_offset :: "int option \<Rightarrow> int option \<Rightarrow> int" where
  "stream_offset secs millis =
     (case millis of Some ms \<Rightarrow> wrap64 (ms * 1000000)
      | None \<Rightarrow> (case secs of Some s \<Rightarrow> wrap64 (s * 1000000000) | None \<Rightarrow> 0))"

definition stream_params :: "url_values \<Rightarrow> writer \<Rightarrow> stream_request qres" where
  "stream_params q w =
     (case IDReq q ''id'' w of (None, w') \<Rightarrow> (None, w')
      | (Some id', w') \<Rightarrow>
          (case IntPositiveDef q ''maxBitRate'' 0 w' of (None, w') \<Rightarrow> (None, w')
           | (Some maxBitRate, w') \<Rightarrow>
               (case Q_Int64 q ''timeOffset'' w' of (None, w') \<Rightarrow> (None, w')
                | (Some secs, w') \<Rightarrow>
                    (case Q_Int64 q ''timeOffsetMs'' w' of (None, w') \<Rightarrow> (None, w')
                     | (Some millis, w') \<Rightarrow>
                         (Some \<lparr> sr_id = id', sr_format = Q_Str q ''format'', sr_maxBitRate = maxBitRate,
                                 sr_timeOffset = stream_offset secs millis \<rparr>, w')))))"

text \<open>The format and bit rate of the answer; the flag tells that the file is sent as it is.\<close>

definition stream_choice :: "stream_request \<Rightarrow> SongStreamInfo \<Rightarrow> bool \<times> Format \<times> int" where
  "stream_choice rq info =
     (let maxBitRate = (if sr_maxBitRate rq > si_BitRate info then si_BitRate info else sr_maxBitRate rq);
          (fileFormat, bitRate) = SelectFormat (sr_format rq) (si_ChannelCount info) maxBitRate
      in if sr_format rq = ''raw'' \<or>
            (f_Mime fileFormat = si_ContentType info \<and> (maxBitRate = 0 \<or> maxBitRate \<ge> si_BitRate info))
         then (True, fileFormat\<lparr> f_Mime := si_ContentType info, f_Name := trim_prefix (filepath_Ext (si_Path info)) ''.'' \<rparr>, bitRate)
         else (False, fileFormat, bitRate))"

definition stream_from_offset ::
  "stream_env \<Rightarrow> url_values \<Rightarrow> stream_request \<Rightarrow> SongStreamInfo \<Rightarrow> bool \<times> Format \<times> int \<Rightarrow> writer \<Rightarrow> outcome" where
  "stream_from_offset env q rq info choice w =
     (let (raw, fileFormat, bitRate) = choice;
          w' = w @ [WHeader ''Accept-Ranges'' ''none''];
          started = (if raw then SeekRaw (se_starts env) (si_Path info) (sr_timeOffset rq)
                     else map_option fst (Transcode (se_starts env) (si_Path info) (si_ChannelCount info)
                                            fileFormat bitRate (sr_timeOffset rq)))
      in case started of
           None \<Rightarrow> (respondInternalErr (Q_Format q) (EWrap ''stream'' (EMsg ''ffmpeg'')) w', None)
         | Some args \<Rightarrow> (w', Some (RCommand args)))"

definition stream_key :: "stream_request \<Rightarrow> Format \<Rightarrow> int \<Rightarrow> string" where
  "stream_key rq fileFormat bitRate = sr_id rq @ ''-'' @ f_Name fileFormat @ ''-'' @ show_int bitRate"

text \<open>
  Reading an object of the cache for a request: the reader stays open while the reply is sent and is
  closed afterwards by \<open>stream_close\<close>.
\<close>

definition stream_read ::
  "stream_env \<Rightarrow> url_values \<Rightarrow> stream_request \<Rightarrow> ref \<Rightarrow> writer \<Rightarrow> sys \<Rightarrow> outcome \<times> sys" where
  "stream_read env q rq r w s =
     (case newCacheReader (se_io env) (sy_dir s) (se_now env) (sy_heap s r) (sy_world s) of
        (Inl e, ob) \<Rightarrow> ((respondInternalErr (Q_Format q) (EWrap ''stream'' (cache_err e)) w, None), set_obj r ob (sy_world s) s)
      | (Inr _, ob) \<Rightarrow>
          ((if Object_IsComplete ob then (w, Some (RContent (sr_id rq) (Some (ob_modified ob)) r))
            else (w @ [WHeader ''Accept-Ranges'' ''none''], Some (RCopy r))),
           set_obj r ob (sy_world s) s))"

definition stream_close :: "io_env \<Rightarrow> ref \<Rightarrow> sys \<Rightarrow> sys" where
  "stream_close io r s = set_obj r (snd (cacheReader_Close io (sy_heap s r))) (sy_world s) s"

text \<open>What happens when the command that fills an object ends.\<close>

definition stream_onDone :: "io_env \<Rightarrow> string \<Rightarrow> ref \<Rightarrow> bool \<Rightarrow> sys \<Rightarrow> sys" where
  "stream_onDone io key r failed s =
     (if failed then snd (DeleteObject io key s)
      else let (_, ob, w) = Object_SetComplete io (sy_dir s) (sy_heap s r) (sy_world s) in set_obj r ob w s)"

text \<open>The commands started in the background: what they run and the key and object they fill.\<close>

type_synonym job = "string list \<times> string \<times> ref"

definition stream_cached ::
  "stream_env \<Rightarrow> url_values \<Rightarrow> stream_request \<Rightarrow> SongStreamInfo \<Rightarrow> Format \<Rightarrow> int \<Rightarrow> writer \<Rightarrow> sys
     \<Rightarrow> outcome \<times> job option \<times> sys" where
  "stream_cached env q rq info fileFormat bitRate w s =
     (let key = stream_key rq fileFormat bitRate
      in case stream_acquire GetObject (CreateObject (se_io env) (se_now env)) key s (se_others env) of
           (Inl e, s1) \<Rightarrow> ((respondErr (Q_Format q) (EWrap ''stream'' (cache_err e)) w, None), None, s1)
         | (Inr (r, new), s1) \<Rightarrow>
             if new then
               (case Transcode (se_starts env) (si_Path info) (si_ChannelCount info) fileFormat bitRate 0 of
                  None \<Rightarrow> ((respondInternalErr (Q_Format q) (EWrap ''stream'' (EMsg ''ffmpeg'')) w, None),
                           None, snd (DeleteObject (se_io env) key s1))
                | Some (args, _) \<Rightarrow> (let (out, s2) = stream_read env q rq r w s1 in (out, Some (args, key, r), s2)))
             else (let (out, s2) = stream_read env q rq r w s1 in (out, None, s2)))"

definition stream_headers :: "stream_env \<Rightarrow> url_values \<Rightarrow> stream_request \<Rightarrow> SongStreamInfo \<Rightarrow> Format \<Rightarrow> int \<Rightarrow> writer \<Rightarrow> unit qres" where
  "stream_headers env q rq info fileFormat bitRate w =
     (case BoolDef q ''estimateContentLength'' False (w @ [WHeader ''Content-Type'' (f_Mime fileFormat)]) of
        (None, w') \<Rightarrow> (None, w')
      | (Some est, w') \<Rightarrow>
          (Some (), if est then w' @ [WHeader ''Content-Length''
             (show_int (se_estimate env (sint (si_Duration info - word_of_int (sr_timeOffset rq))) bitRate))] else w'))"

definition handleStream :: "stream_env \<Rightarrow> url_values \<Rightarrow> writer \<Rightarrow> sys \<Rightarrow> outcome \<times> job option \<times> sys" where
  "handleStream env q w s =
     (case stream_params q w of (None, w') \<Rightarrow> ((w', None), None, s)
      | (Some rq, w') \<Rightarrow>
          (case se_info env (sr_id rq) (Q_User q) of
             Inl e \<Rightarrow> ((respondErr (Q_Format q) (EWrap ''stream: get info'' e) w', None), None, s)
           | Inr info \<Rightarrow>
               (case stream_choice rq info of (raw, fileFormat, bitRate) \<Rightarrow>
                  if raw \<and> sr_timeOffset rq = 0 then ((w', Some (RFile (si_Path info))), None, s)
                  else (case stream_headers env q rq info fileFormat bitRate w' of
                    (None, w1) \<Rightarrow> ((w1, None), None, s)
                  | (Some _, w1) \<Rightarrow>
                      if se_head env then ((w1 @ [WStatus 200], Some RHead), None, s)
                      else if sr_timeOffset rq \<noteq> 0
                           then (stream_from_offset env q rq info (raw, fileFormat, bitRate) w1, None, s)
                           else stream_cached env q rq info fileFormat bitRate w1 s))))"

section \<open>Downloads and lyrics\<close>

definition handleDownload :: "(string \<Rightarrow> string \<Rightarrow> go_error + SongStreamInfo) \<Rightarrow> url_values \<Rightarrow> writer \<Rightarrow> outcome" where
  "handleDownload GetStreamInfo q w =
     (case IDReq q ''id'' w of (None, w') \<Rightarrow> (w', None)
      | (Some id', w') \<Rightarrow>
          (case GetStreamInfo id' (Q_User q) of
             Inl e \<Rightarrow> (respondErr (Q_Format q) (EWrap ''download: get info'' e) w', None)
           | Inr info \<Rightarrow> (w', Some (RFile (si_Path info)))))"

text \<open>What the lyrics handlers read of a song: title, names of its artists, lyrics.\<close>

record lyrics_song =
  ls_Title :: string
  ls_Artists :: "string list"
  ls_Lyrics :: "string option"

definition select_song :: "string \<Rightarrow> lyrics_song list \<Rightarrow> lyrics_song option" where
  "select_song artist songs =
     (if artist \<noteq> [] then find (\<lambda>s. artist \<in> set (ls_Artists s)) songs
      else case songs of [] \<Rightarrow> None | s # _ \<Rightarrow> Some s)"

definition respondEmptyLyrics :: "writer \<Rightarrow> outcome" where
  "respondEmptyLyrics w = (w, Some (RLyrics None None []))"

text \<open>\<open>None\<close> is a nil pointer dereference: \<open>NewLyrics\<close> returns no text for lyrics without any line.\<close>

definition handleGetLyrics ::
  "(string \<Rightarrow> string \<Rightarrow> go_error + lyrics_song list) \<Rightarrow> url_values \<Rightarrow> writer \<Rightarrow> outcome option" where
  "handleGetLyrics FindByTitle q w =
     (let title = Q_Str q ''title''; artist = Q_Str q ''artist''
      in if title = [] then Some (respondEmptyLyrics w)
         else case FindByTitle title (Q_User q) of
           Inl e \<Rightarrow> Some (if errors_Is e (EType ErrNotFound) then respondEmptyLyrics w
                        else (respondErr (Q_Format q) (EWrap ''get lyrics: find songs by title'' e) w, None))
         | Inr songs \<Rightarrow>
             (case select_song artist songs of None \<Rightarrow> Some (respondEmptyLyrics w)
              | Some song \<Rightarrow>
                  (case ls_Lyrics song of None \<Rightarrow> Some (respondEmptyLyrics w)
                   | Some l \<Rightarrow>
                       (let artist' = (if artist = [] \<and> ls_Artists song \<noteq> [] then hd (ls_Artists song) else artist)
                        in map_option (\<lambda>v. (w, Some (RLyrics (Some (ls_Title song)) (Some artist') v)))
                             (NewLyrics (Some l))))))"

definition handleGetLyricsBySongId ::
  "(string \<Rightarrow> string \<Rightarrow> go_error + lyrics_song) \<Rightarrow> url_values \<Rightarrow> writer \<Rightarrow> outcome" where
  "handleGetLyricsBySongId FindByID q w =
     (case IDReq q ''id'' w of (None, w') \<Rightarrow> (w', None)
      | (Some id', w') \<Rightarrow>
          (case FindByID id' (Q_User q) of
             Inl e \<Rightarrow> (respondNotFoundErr (Q_Format q) ''song not found'' w', None)
           | Inr song \<Rightarrow>
               (case ls_Lyrics song of None \<Rightarrow> (w', Some (RLyricsList []))
                | Some l \<Rightarrow> (w', Some (RLyricsList (NewLyricsList (Some l)))))))"


section \<open>Access\<close>

text \<open>\<open>find\<close> is the look-up in the repository of the type: \<open>None\<close> if the user can see the entity.\<close>

definition validateUserAccessToID ::
  "(id_type \<Rightarrow> string \<Rightarrow> string \<Rightarrow> go_error option) \<Rightarrow> string \<Rightarrow> string \<Rightarrow> go_error + bool" where
  "validateUserAccessToID find_by_id user id' =
     (case GetIDType id' of None \<Rightarrow> Inr False
      | Some t \<Rightarrow>
          (case find_by_id t user id' of None \<Rightarrow> Inr True
           | Some e \<Rightarrow> if errors_Is e (EType ErrNotFound) then Inr False
                       else Inl (EWrap (''check user access to '' @ id_type_str t @ '' id'') e)))"

section \<open>Cover art\<close>

record cover_file =
  cf_data :: string
  cf_isdir :: bool
  cf_time :: int

record 'img cover_env =
  ce_find :: "id_type \<Rightarrow> string \<Rightarrow> string \<Rightarrow> go_error option"
  ce_LastFM :: bool                                          \<comment> \<open>configured\<close>
  ce_artist :: "string \<Rightarrow> string \<Rightarrow> go_error + string \<times> string option"
  ce_artist_info :: "string \<Rightarrow> string option \<Rightarrow> go_error + string option"   \<comment> \<open>the URL\<close>
  ce_image_url :: "string \<Rightarrow> go_error + string"
  ce_get :: "string \<Rightarrow> go_error + string"
  ce_decode :: "string \<Rightarrow> go_error + 'img"
  ce_dims :: "'img \<Rightarrow> int \<times> int"
  ce_crop :: "int \<Rightarrow> int \<Rightarrow> 'img \<Rightarrow> 'img"
  ce_thumbnail :: "int \<Rightarrow> int \<Rightarrow> 'img \<Rightarrow> 'img"
  ce_jpeg :: "'img \<Rightarrow> string \<times> go_error option"             \<comment> \<open>what is written, and the error\<close>
  ce_time_str :: "int \<Rightarrow> string"
  ce_create_fails :: bool
  ce_open_fails :: bool
  ce_stat_fails :: bool
  ce_io :: io_env
  ce_now :: int
  ce_others :: "sys \<Rightarrow> sys"
  ce_others2 :: "sys \<Rightarrow> sys"

type_synonym covers = "string \<rightharpoonup> cover_file"

definition lastfm_ErrNotFound :: go_error where
  "lastfm_ErrNotFound = EMsg ''not found''"

definition create_cover :: "'img cover_env \<Rightarrow> string \<Rightarrow> string \<Rightarrow> covers \<Rightarrow> covers option" where
  "create_cover env id' data cs =
     (if ce_create_fails env \<or> (case cs id' of Some f \<Rightarrow> cf_isdir f | None \<Rightarrow> False) then None
      else Some (cs(id' \<mapsto> \<lparr> cf_data = data, cf_isdir = False, cf_time = ce_now env \<rparr>)))"

text \<open>The outer \<open>None\<close> is the nil pointer dereference of a missing URL.\<close>

definition loadArtistCoverFromLastFMByID ::
  "'img cover_env \<Rightarrow> string \<Rightarrow> string \<Rightarrow> covers \<Rightarrow> (go_error option \<times> covers) option" where
  "loadArtistCoverFromLastFMByID env id' user cs =
     (let fail = (\<lambda>m e. Some (Some (EWrap (''load artist cover from last fm by id'' @ m) e), cs))
      in case ce_artist env id' user of Inl e \<Rightarrow> fail [] e
         | Inr (name, mbid) \<Rightarrow>
             (case ce_artist_info env name mbid of Inl e \<Rightarrow> fail [] e
              | Inr None \<Rightarrow> None
              | Inr (Some url) \<Rightarrow>
                  (case ce_image_url env url of Inl e \<Rightarrow> fail [] e
                   | Inr imageURL \<Rightarrow>
                       if imageURL = [] then Some (Some lastfm_ErrNotFound, cs)
                       else case ce_get env imageURL of Inl e \<Rightarrow> fail '': download image'' e
                       | Inr body \<Rightarrow>
                           (case ce_decode env body of Inl e \<Rightarrow> fail '': decode image'' e
                            | Inr img \<Rightarrow>
                                (let (dx, dy) = ce_dims env img;
                                     img' = (if dx \<noteq> dy then ce_crop env (min dx dy) (min dx dy) img else img);
                                     (data, err) = ce_jpeg env img'
                                 in case create_cover env id' data cs of
                                      None \<Rightarrow> fail '': create file'' (EMsg ''create'')
                                    | Some cs' \<Rightarrow>
                                        Some (map_option (EWrap ''load artist cover from last fm by id: encode image'') err, cs'))))))"

datatype cover_open = OFile cover_file | ONotFound | OFailed go_error | OPanic

definition open_file :: "'img cover_env \<Rightarrow> string \<Rightarrow> covers \<Rightarrow> cover_open" where
  "open_file env id' cs =
     (case cs id' of Some f \<Rightarrow> if ce_open_fails env then OFailed (EMsg ''open'') else OFile f
      | None \<Rightarrow> OFailed (EMsg ''file does not exist''))"

definition open_cover :: "'img cover_env \<Rightarrow> string \<Rightarrow> string \<Rightarrow> covers \<Rightarrow> cover_open \<times> covers" where
  "open_cover env id' user cs =
     (if cs id' \<noteq> None then (open_file env id' cs, cs)
      else if \<not> ce_LastFM env then (ONotFound, cs)
      else case loadArtistCoverFromLastFMByID env id' user cs of
        None \<Rightarrow> (OPanic, cs)
      | Some (Some e, cs1) \<Rightarrow>
          if errors_Is e (EType ErrNotFound) then (ONotFound, cs1)
          else if errors_Is e lastfm_ErrNotFound
               then (case create_cover env id' [] cs1 of
                       None \<Rightarrow> (OFailed (EWrap (''create placeholder for '' @ id') (EMsg ''create'')), cs1)
                     | Some cs2 \<Rightarrow> (ONotFound, cs2))
          else (OFailed e, cs1)
      | Some (None, cs1) \<Rightarrow> (open_file env id' cs1, cs1))"

definition serveExistingCover ::
  "'img cover_env \<Rightarrow> url_values \<Rightarrow> string \<Rightarrow> covers \<Rightarrow> ref \<Rightarrow> writer \<Rightarrow> sys \<Rightarrow> outcome \<times> sys" where
  "serveExistingCover env q id' cs r w s =
     (case newCacheReader (ce_io env) (sy_dir s) (ce_now env) (sy_heap s r) (sy_world s) of
        (Inl e, ob) \<Rightarrow> ((respondErr (Q_Format q) (EWrap ''get cover art'' (cache_err e)) w, None), set_obj r ob (sy_world s) s)
      | (Inr _, ob) \<Rightarrow>
          (let w1 = w @ [WHeader ''Cache-Control'' ''max-age=10800'', WHeader ''Content-Type'' ''image/webp''];
               lastModified = (if ce_stat_fails env then None else map_option cf_time (cs id'))
           in if Object_IsComplete ob then (w1, Some (RContent (id' @ ''.webp'') lastModified r))
              else (w1 @ (case lastModified of None \<Rightarrow> [] | Some t \<Rightarrow> [WHeader ''Last-Modified'' (ce_time_str env t)]),
                    Some (RCopy r)),
           set_obj r ob (sy_world s) s))"

text \<open>The thumbnail of an opened file, made by a background job that encodes the image into the object.\<close>

type_synonym 'img cover_job = "'img \<times> string \<times> ref"

definition serve_thumbnail ::
  "'img cover_env \<Rightarrow> url_values \<Rightarrow> string \<Rightarrow> int \<Rightarrow> cover_file \<Rightarrow> covers \<Rightarrow> writer \<Rightarrow> sys
     \<Rightarrow> outcome \<times> 'img cover_job option \<times> sys" where
  "serve_thumbnail env q id' sz file cs w s =
     (let key = id' @ ''-'' @ show_int sz; cc = w @ [WHeader ''Cache-Control'' ''max-age=10800'']
      in case ce_decode env (cf_data file) of
           Inl e \<Rightarrow> ((respondErr (Q_Format q) (EWrap (''get cover art: decode '' @ id') e) w, None), None, s)
         | Inr img \<Rightarrow>
             (let (dx, dy) = ce_dims env img; n = min sz (min dx dy); img' = ce_thumbnail env n n img
              in case CreateObject (ce_io env) (ce_now env) key (ce_others env s) of
                   (Inl e, s1) \<Rightarrow>
                     (case if e = CErrExist then GetObject key (ce_others2 env s1) else None of
                        Some r \<Rightarrow> (let (out, s2) = serveExistingCover env q id' cs r cc (ce_others2 env s1) in (out, None, s2))
                      | None \<Rightarrow> ((respondErr (Q_Format q) (EWrap ''get cover art'' (cache_err e)) cc, None), None,
                                 if e = CErrExist then ce_others2 env s1 else s1))
                 | (Inr r, s1) \<Rightarrow>
                     (let w1 = cc @ [WHeader ''Content-Type'' ''image/webp'']
                      in case newCacheReader (ce_io env) (sy_dir s1) (ce_now env) (sy_heap s1 r) (sy_world s1) of
                           (Inl e, ob) \<Rightarrow> ((respondErr (Q_Format q) (EWrap ''get cover art'' (cache_err e)) w1, None),
                                           Some (img', key, r), set_obj r ob (sy_world s1) s1)
                         | (Inr _, ob) \<Rightarrow>
                             ((w1 @ [WHeader ''Last-Modified'' (ce_time_str env (cf_time file)), WStatus 200], Some (RCopy r)),
                              Some (img', key, r), set_obj r ob (sy_world s1) s1))))"

text \<open>The outer \<open>None\<close> is a panic.\<close>

definition serve_cover ::
  "'img cover_env \<Rightarrow> url_values \<Rightarrow> string \<Rightarrow> int \<Rightarrow> writer \<Rightarrow> covers \<Rightarrow> sys
     \<Rightarrow> (outcome \<times> 'img cover_job option \<times> covers \<times> sys) option" where
  "serve_cover env q id' sz w cs s =
     (case open_cover env id' (Q_User q) cs of
        (OPanic, _) \<Rightarrow> None
      | (ONotFound, cs1) \<Rightarrow> Some ((respondNotFoundErr (Q_Format q) [] w, None), None, cs1, s)
      | (OFailed e, cs1) \<Rightarrow> Some ((respondErr (Q_Format q) (EWrap (''get cover art: open '' @ id') e) w, None), None, cs1, s)
      | (OFile f, cs1) \<Rightarrow>
          Some (if ce_stat_fails env
                then ((respondErr (Q_Format q) (EWrap (''get cover art: stat '' @ id') (EMsg ''stat'')) w, None), None, cs1, s)
                else if cf_data f = [] \<or> cf_isdir f then ((respondNotFoundErr (Q_Format q) [] w, None), None, cs1, s)
                else if sz \<le> 0 then ((w @ [WHeader ''Cache-Control'' ''max-age=10800''], Some (RCover id')), None, cs1, s)
                else (let (out, job, s1) = serve_thumbnail env q id' sz f cs1 w s in (out, job, cs1, s1))))"

definition handleGetCoverArt ::
  "'img cover_env \<Rightarrow> url_values \<Rightarrow> writer \<Rightarrow> covers \<Rightarrow> sys
     \<Rightarrow> (outcome \<times> 'img cover_job option \<times> covers \<times> sys) option" where
  "handleGetCoverArt env q w cs s =
     (case IDReq q ''id'' w of (None, w') \<Rightarrow> Some ((w', None), None, cs, s)
      | (Some id', w') \<Rightarrow>
          (case IntPositiveDef q ''size'' 0 w' of (None, w') \<Rightarrow> Some ((w', None), None, cs, s)
           | (Some sz, w') \<Rightarrow>
               (case validateUserAccessToID (ce_find env) (Q_User q) id' of
                  Inl e \<Rightarrow> Some ((respondErr (Q_Format q) (EWrap ''validate user access to id'' e) w', None), None, cs, s)
                | Inr False \<Rightarrow> Some ((respondNotFoundErr (Q_Format q) ''cover not found'' w', None), None, cs, s)
                | Inr True \<Rightarrow>
                    (case if sz > 0 then GetObject (id' @ ''-'' @ show_int sz) s else None of
                       Some r \<Rightarrow> (let (out, s1) = serveExistingCover env q id' cs r w' s in Some (out, None, cs, s1))
                     | None \<Rightarrow> serve_cover env q id' sz w' cs s))))"


section \<open>Every request is answered once\<close>

lemma errs_simps [simp]:
  "errs (w @ w') = errs w + errs w'" "errs [] = 0" "errs (x # w) = (if is_error_write x then 1 else 0) + errs w"
  by (simp_all add: errs_def)

lemma errs_respond [simp]:
  "errs (respondErr f e w) = errs w + 1" "errs (respondInternalErr f e w) = errs w + 1"
  "errs (respondNotFoundErr f m w) = errs w + 1"
  by (simp_all add: respond_defs)

lemma accessor_errs:
  assumes "accessor_ok acc"
  shows "acc w = (None, w') \<Longrightarrow> errs w' = errs w + 1" "acc w = (Some a, w') \<Longrightarrow> w' = w"
proof -
  assume "acc w = (None, w')"
  from accessor_okD(2) [OF assms this] obtain e where e: "is_error_write e" "w' = w @ [e]" by blast
  then show "errs w' = errs w + 1" by (cases e) simp_all
qed (rule accessor_okD(1) [OF assms])

lemma stream_params_ok: "accessor_ok (stream_params q)"
  unfolding stream_params_def by (intro accessor_ok_then IDReq_ok IntPositiveDef_ok Int64_ok accessor_ok_pure)

lemmas id_errs = accessor_errs [OF IDReq_ok]
lemmas size_errs = accessor_errs [OF IntPositiveDef_ok]
lemmas params_errs = accessor_errs [OF stream_params_ok]
lemmas bool_errs = accessor_errs [OF BoolDef_ok]

lemma stream_headers_errs:
  "stream_headers env q rq info f b w = (None, w') \<Longrightarrow> errs w' = errs w + 1"
  "stream_headers env q rq info f b w = (Some u, w') \<Longrightarrow> errs w' = errs w"
  by (auto simp: stream_headers_def split: prod.splits option.splits if_splits dest!: bool_errs)

lemma stream_read_answered: "stream_read env q rq r w s = (out, s') \<Longrightarrow> answered w out"
  by (auto simp: stream_read_def answered_def split: sum.splits prod.splits if_splits)

lemma stream_from_offset_answered: "answered w (stream_from_offset env q rq info ch w)"
  by (auto simp: stream_from_offset_def answered_def Let_def split: prod.splits option.splits)

lemma stream_cached_answered: "stream_cached env q rq info f b w s = (out, job, s') \<Longrightarrow> answered w out"
  by (auto simp: stream_cached_def Let_def answered_def [of _ "(_, None)"] split: sum.splits prod.splits if_splits option.splits dest: stream_read_answered)

lemma answered_mono: "answered w out \<Longrightarrow> errs w = errs w' \<Longrightarrow> answered w' out"
  by (simp add: answered_def)

lemma answered_error: "errs w' = errs w + 1 \<Longrightarrow> answered w (w', None)"
  by (simp add: answered_def)

lemma answered_reply: "errs w' = errs w \<Longrightarrow> answered w (w', Some r)"
  by (simp add: answered_def)

lemma handleStream_answered: "answered w (fst (handleStream env q w s))"
proof (cases "stream_params q w")
  case (Pair rq w')
  show ?thesis
  proof (cases rq)
    case None
    with Pair params_errs(1) show ?thesis by (auto simp: handleStream_def intro: answered_error)
  next
    case (Some rq')
    with Pair params_errs(2) have w': "w' = w" by blast
    show ?thesis
    proof (cases "se_info env (sr_id rq') (Q_User q)")
      case (Inl e)
      then show ?thesis by (simp add: handleStream_def Pair Some w' answered_error)
    next
      case (Inr info)
      obtain raw f b where ch: "stream_choice rq' info = (raw, f, b)" by (cases "stream_choice rq' info") auto
      obtain u w1 where h: "stream_headers env q rq' info f b w = (u, w1)" by fastforce
      show ?thesis
      proof (cases u)
        case None
        with h stream_headers_errs(1) show ?thesis
          by (simp add: handleStream_def Pair Some w' Inr ch answered_error answered_reply)
      next
        case (Some u')
        with h have e: "errs w1 = errs w" by (simp add: stream_headers_errs(2))
        obtain out job s' where c: "stream_cached env q rq' info f b w1 s = (out, job, s')"
          by (cases "stream_cached env q rq' info f b w1 s") auto
        have "answered w out" by (rule answered_mono [OF stream_cached_answered [OF c] e])
        moreover have "answered w (stream_from_offset env q rq' info (raw, f, b) w1)"
          by (rule answered_mono [OF stream_from_offset_answered e])
        ultimately show ?thesis using e
          by (simp add: handleStream_def Pair \<open>rq = Some rq'\<close> w' Inr ch h Some c answered_reply)
      qed
    qed
  qed
qed

lemma serveExistingCover_answered: "serveExistingCover env q i cs r w s = (out, s') \<Longrightarrow> answered w out"
  by (auto simp: serveExistingCover_def answered_def Let_def split: sum.splits prod.splits if_splits option.splits)

lemma serve_thumbnail_answered: "serve_thumbnail env q i sz f cs w s = (out, job, s') \<Longrightarrow> answered w out"
  by (auto simp: serve_thumbnail_def Let_def answered_def [of _ "(_, None)"] answered_def [of _ "(_, Some _)"]
      split: sum.splits prod.splits if_splits option.splits
      dest!: serveExistingCover_answered elim!: answered_mono)

lemma serve_cover_answered: "serve_cover env q i sz w cs s = Some (out, rest) \<Longrightarrow> answered w out"
  by (auto simp: serve_cover_def answered_def [of _ "(_, None)"] answered_def [of _ "(_, Some _)"]
      split: prod.splits cover_open.splits if_splits dest: serve_thumbnail_answered)

lemma handleGetCoverArt_answered: "handleGetCoverArt env q w cs s = Some (out, rest) \<Longrightarrow> answered w out"
  by (auto simp: handleGetCoverArt_def answered_def [of _ "(_, None)"]
      split: prod.splits option.splits sum.splits bool.splits if_splits
      dest: serve_cover_answered serveExistingCover_answered
      dest!: id_errs size_errs)

text \<open>
  Every media request gets exactly one answer. Streaming, downloads, cover art and both lyrics
  requests end either with one error response and nothing else, or with one reply and no error; only a
  nil pointer dereference leaves a lyrics or cover request without an answer.
\<close>

lemma media_answered_once:
  "answered w (fst (handleStream env q w s)) \<and> answered w (handleDownload info q w)
    \<and> answered w (handleGetLyricsBySongId by_id q w)
    \<and> (case handleGetLyrics by_title q w of None \<Rightarrow> True | Some out \<Rightarrow> answered w out)
    \<and> (case handleGetCoverArt cenv q w cs s of None \<Rightarrow> True | Some (out, _) \<Rightarrow> answered w out)"
proof (intro conjI)
  show "answered w (handleDownload info q w)"
    by (auto simp: handleDownload_def answered_def split: prod.splits option.splits sum.splits dest!: id_errs)
  show "answered w (handleGetLyricsBySongId by_id q w)"
    by (auto simp: handleGetLyricsBySongId_def answered_def split: prod.splits option.splits sum.splits dest!: id_errs)
  show "case handleGetLyrics by_title q w of None \<Rightarrow> True | Some out \<Rightarrow> answered w out"
    by (auto simp: handleGetLyrics_def respondEmptyLyrics_def answered_def Let_def split: option.splits sum.splits if_splits)
  show "case handleGetCoverArt cenv q w cs s of None \<Rightarrow> True | Some (out, _) \<Rightarrow> answered w out"
    by (auto split: option.splits dest: handleGetCoverArt_answered)
qed (rule handleStream_answered)


section \<open>Lyrics\<close>

text \<open>
  Lyrics that contain only metadata make the request for them fail. \<open>getLyrics\<close> dereferences a nil
  pointer exactly when the selected song has lyrics from which stripping the metadata leaves nothing,
  for instance a single title tag; the request for the structured lyrics of the same song is answered
  with an empty or non-empty list all the same.
\<close>

lemma lyrics_nil_dereference:
  assumes "Q_Str q ''title'' \<noteq> []" "FindByTitle (Q_Str q ''title'') (Q_User q) = Inr songs"
    "select_song (Q_Str q ''artist'') songs = Some song" "ls_Lyrics song = Some l"
  shows "(handleGetLyrics FindByTitle q w = None \<longleftrightarrow> stripLRCMetadata l = [])
    \<and> (stripLRCMetadata l \<noteq> [] \<longrightarrow> (\<exists>artist. handleGetLyrics FindByTitle q w
          = Some (w, Some (RLyrics (Some (ls_Title song)) (Some artist) (stripLRCMetadata l)))))
    \<and> (IDReq q ''id'' w = (Some i, w) \<and> FindByID i (Q_User q) = Inr song \<longrightarrow>
         handleGetLyricsBySongId FindByID q w = (w, Some (RLyricsList (NewLyricsList (Some l)))))"
  using assms by (auto simp: handleGetLyrics_def handleGetLyricsBySongId_def NewLyrics_def Let_def)

lemma lyrics_nil_dereference_example:
  "handleGetLyrics (\<lambda>_ _. Inr [\<lparr> ls_Title = ''t'', ls_Artists = [''a''], ls_Lyrics = Some ''[ti:x]'' \<rparr>])
     [''title'' \<mapsto> [''t'']] [] = None"
proof -
  let ?song = "\<lparr> ls_Title = ''t'', ls_Artists = [''a''], ls_Lyrics = Some ''[ti:x]'' \<rparr>"
  have "Q_Str [''title'' \<mapsto> [''t'']] ''title'' \<noteq> []"
    "select_song (Q_Str [''title'' \<mapsto> [''t'']] ''artist'') [?song] = Some ?song"
    by code_simp+
  moreover have "stripLRCMetadata ''[ti:x]'' = []"
  proof -
    have "scan_lines ''[ti:x]'' = [''[ti:x]'']" by (simp add: scan_lines_def raw_lines_def drop_cr_def)
    moreover have "runes (trim_space ''[ti:x]'') = map (\<lambda>c. [c]) ''[ti:x]''"
      by (simp add: trim_space_graph graph_def between_def code_of_def runes_ascii)
    moreover have "trim_space [] = []" by (rule trim_space_graph) simp
    ultimately show ?thesis by (simp add: stripLRCMetadata_def is_space_rune_ascii)
  qed
  ultimately show ?thesis
    using lyrics_nil_dereference [of "[''title'' \<mapsto> [''t'']]" "\<lambda>_ _. Inr [?song]" "[?song]" ?song "''[ti:x]''"] by simp
qed

section \<open>Access to covers\<close>

text \<open>
  C8: Covers are only served for entities the user can see. If a cover request is answered with
  anything but an error, or starts a background job, or changes the stored covers or the cache, then
  the requested identifier is well formed and the repository of its type found it for this user.
\<close>

theorem cover_needs_access:
  assumes "handleGetCoverArt env q w cs s = Some ((w', rep), job, cs', s')"
    "rep \<noteq> None \<or> job \<noteq> None \<or> cs' \<noteq> cs \<or> s' \<noteq> s"
  shows "\<exists>i t. IDReq q ''id'' w = (Some i, w) \<and> GetIDType i = Some t \<and> ce_find env t (Q_User q) i = None"
proof -
  obtain i where i: "IDReq q ''id'' w = (Some i, w)"
    using assms by (cases "IDReq q ''id'' w") (auto simp: handleGetCoverArt_def split: option.splits dest: id_errs)
  obtain n w2 where n: "IntPositiveDef q ''size'' 0 w = (n, w2)" by fastforce
  have v: "validateUserAccessToID (ce_find env) (Q_User q) i = Inr True"
  proof (rule ccontr)
    assume neg: "validateUserAccessToID (ce_find env) (Q_User q) i \<noteq> Inr True"
    have "rep = None \<and> job = None \<and> cs' = cs \<and> s' = s"
      using assms(1) i n neg
      by (cases n; cases "validateUserAccessToID (ce_find env) (Q_User q) i") (auto simp: handleGetCoverArt_def)
    with assms(2) show False by blast
  qed
  then have "\<exists>t. GetIDType i = Some t \<and> ce_find env t (Q_User q) i = None"
    by (auto simp: validateUserAccessToID_def split: option.splits if_splits)
  with i show ?thesis by blast
qed

definition wit_cover_env :: "unit cover_env" where
  "wit_cover_env = \<lparr> ce_find = (\<lambda>t u i. if u = ''bob'' then None else Some (EType ErrNotFound)), ce_LastFM = False,
     ce_artist = (\<lambda>_ _. Inl (EMsg ''x'')), ce_artist_info = (\<lambda>_ _. Inl (EMsg ''x'')), ce_image_url = (\<lambda>_. Inl (EMsg ''x'')),
     ce_get = (\<lambda>_. Inl (EMsg ''x'')), ce_decode = (\<lambda>_. Inr ()), ce_dims = (\<lambda>_. (9, 9)), ce_crop = (\<lambda>_ _ i. i),
     ce_thumbnail = (\<lambda>_ _ i. i), ce_jpeg = (\<lambda>_. ([], None)), ce_time_str = (\<lambda>_. ''t''), ce_create_fails = False,
     ce_open_fails = False, ce_stat_fails = False, ce_io = io_ok, ce_now = 1, ce_others = id, ce_others2 = id \<rparr>"

definition wit_query :: "string \<Rightarrow> url_values" where
  "wit_query u = [''id'' \<mapsto> [''al_abcdefghijkl''], ''u'' \<mapsto> [u]]"

definition wit_covers :: covers where
  "wit_covers = [''al_abcdefghijkl'' \<mapsto> \<lparr> cf_data = ''img'', cf_isdir = False, cf_time = 5 \<rparr>]"

theorem cover_needs_access_witness:
  "handleGetCoverArt wit_cover_env (wit_query ''bob'') [] wit_covers wit_new
     = Some (([WHeader ''Cache-Control'' ''max-age=10800''], Some (RCover ''al_abcdefghijkl'')), None, wit_covers, wit_new)
    \<and> handleGetCoverArt wit_cover_env (wit_query ''eve'') [] wit_covers wit_new
     = Some (([WError [] ''cover not found'' SubsonicErrorNotFound], None), None, wit_covers, wit_new)
    \<and> (\<exists>i t. GetIDType i = Some t \<and> ce_find wit_cover_env t ''bob'' i = None)"
proof -
  have 1: "IDReq (wit_query ''bob'') ''id'' [] = (Some ''al_abcdefghijkl'', [])"
      "IDReq (wit_query ''eve'') ''id'' [] = (Some ''al_abcdefghijkl'', [])"
      "IntPositiveDef (wit_query ''bob'') ''size'' 0 [] = (Some 0, [])"
      "IntPositiveDef (wit_query ''eve'') ''size'' 0 [] = (Some 0, [])"
      "Q_User (wit_query ''bob'') = ''bob''" "Q_User (wit_query ''eve'') = ''eve''" "Q_Format (wit_query ''eve'') = []"
      "GetIDType ''al_abcdefghijkl'' = Some IDTypeAlbum"
    by code_simp+
  then have b: "handleGetCoverArt wit_cover_env (wit_query ''bob'') [] wit_covers wit_new
     = Some (([WHeader ''Cache-Control'' ''max-age=10800''], Some (RCover ''al_abcdefghijkl'')), None, wit_covers, wit_new)"
    by (simp add: handleGetCoverArt_def validateUserAccessToID_def serve_cover_def open_cover_def open_file_def wit_covers_def
        wit_cover_env_def)
  have e: "handleGetCoverArt wit_cover_env (wit_query ''eve'') [] wit_covers wit_new
     = Some (([WError [] ''cover not found'' SubsonicErrorNotFound], None), None, wit_covers, wit_new)"
    using 1 by (simp add: handleGetCoverArt_def validateUserAccessToID_def respond_defs wit_cover_env_def errors_Is_def err_is1_def)
  from cover_needs_access [OF b] 1 have "\<exists>i t. GetIDType i = Some t \<and> ce_find wit_cover_env t ''bob'' i = None"
    by auto
  with b e show ?thesis by blast
qed


section \<open>Cached transcodes\<close>

lemma last_sep_unique:
  assumes "xs @ c # ys = xs' @ c # ys'" "c \<notin> set ys" "c \<notin> set ys'"
  shows "xs = xs' \<and> ys = ys'"
  using assms by (auto simp: append_eq_append_conv2 append_eq_Cons_conv Cons_eq_append_conv)

lemma show_int_inj:
  assumes "0 \<le> i" "0 \<le> j" "show_int i = show_int j"
  shows "i = j"
proof -
  have "show_nat (nat i) = show_nat (nat j)" using assms by (simp add: show_int_def)
  then have "digits_val (show_nat (nat i)) = digits_val (show_nat (nat j))" by (rule arg_cong)
  then show ?thesis using assms(1,2) by (simp only: digits_val_show_nat eq_nat_nat_iff)
qed

lemma stream_key_inj:
  assumes "stream_key rq f b = stream_key rq' f' b'" "0 \<le> b" "0 \<le> b'" "CHR ''-'' \<notin> set (f_Name f)" "CHR ''-'' \<notin> set (f_Name f')"
  shows "sr_id rq = sr_id rq' \<and> f_Name f = f_Name f' \<and> b = b'"
proof -
  have nd: "CHR ''-'' \<notin> set (show_int b)" "CHR ''-'' \<notin> set (show_int b')"
    using pad_int_no_dash [OF assms(2), of 0] pad_int_no_dash [OF assms(3), of 0] by (simp_all add: show_int_pad)
  have "(sr_id rq @ ''-'' @ f_Name f) @ CHR ''-'' # show_int b = (sr_id rq' @ ''-'' @ f_Name f') @ CHR ''-'' # show_int b'"
    using assms(1) by (simp add: stream_key_def)
  from last_sep_unique [OF this nd]
  have "sr_id rq @ CHR ''-'' # f_Name f = sr_id rq' @ CHR ''-'' # f_Name f'" "b = b'"
    using show_int_inj [OF assms(2,3)] by auto
  with last_sep_unique [OF this(1) assms(4,5)] show ?thesis by blast
qed

lemma clamp_twice:
  fixes lo d hi per x :: int
  assumes "lo \<le> d" "d \<le> hi" "d \<le> per"
  shows "max lo (min (min hi per) (max lo (min (min hi per) x))) = max lo (min (min hi per) x)"
  using assms by (auto simp: min_def max_def)

text \<open>The formats a file can be transcoded to.\<close>

lemma chosen_format:
  assumes "stream_choice rq info = (False, f, b)"
  shows "sr_format rq \<noteq> ''raw'' \<and> (\<exists>mb. SelectFormat (sr_format rq) (si_ChannelCount info) mb = (f, b))"
  using assms by (auto simp: stream_choice_def Let_def split: prod.splits if_splits)

lemma selected_format:
  assumes "name \<noteq> ''raw''" "SelectFormat name ch mb = (f, b)"
  shows "\<exists>n. formats n = Some f" "1 \<le> ch \<Longrightarrow> clamp_bitrate f ch b = b" "0 < b"
proof -
  have f: "f = fst (SelectFormat name ch mb)" using assms(2) by simp
  show "\<exists>n. formats n = Some f"
    using formats_mp3 by (cases "formats (to_lower name)") (auto simp: f SelectFormat_format [OF assms(1)])
  have ok: "format_ok f" unfolding f by (rule SelectFormat_ok [OF assms(1)])
  have b: "b = (if mb = 0 then f_defaultBitRateK f else max (f_minBitRateK f)
      (min (min (f_maxBitRateK f) (ch * f_maxBitRatePerChannelK f)) mb))"
    using assms by (auto simp: SelectFormat_def Let_def split: if_splits option.splits)
  then show "0 < b" using ok by (auto simp: format_ok_def)
  show "clamp_bitrate f ch b = b" if "1 \<le> ch"
  proof -
    have "f_defaultBitRateK f \<le> ch * f_maxBitRatePerChannelK f"
      using ok that by (intro per_channel) (auto simp: format_ok_def)
    with ok have "max (f_minBitRateK f) (min (min (f_maxBitRateK f) (ch * f_maxBitRatePerChannelK f)) b) = b"
      unfolding b by (auto simp: format_ok_def intro: clamp_twice)
    with \<open>0 < b\<close> show ?thesis by (simp add: clamp_bitrate_def)
  qed
qed

lemma format_names:
  assumes "formats n = Some f" "formats m = Some g"
  shows "CHR ''-'' \<notin> set (f_Name f)"
    "f_Name f = f_Name g \<Longrightarrow> f_encoder f = f_encoder g \<and> f_outFormat f = f_outFormat g \<and> f_Mime f = f_Mime g"
  using assms by (auto simp: formats_def fmt_def split: if_splits)

lemma stream_cached_job:
  assumes "stream_cached env q rq info f b w s = (out, Some (args, key, r), s1)"
  shows "key = stream_key rq f b"
    "\<exists>b'. Transcode (se_starts env) (si_Path info) (si_ChannelCount info) f b 0 = Some (args, b')"
    "\<exists>s2. stream_acquire GetObject (CreateObject (se_io env) (se_now env)) key s (se_others env) = (Inr (r, True), s2)
       \<and> stream_read env q rq r w s2 = (out, s1)"
  using assms by (auto simp: stream_cached_def Let_def split: sum.splits prod.splits if_splits option.splits)

lemma handleStream_job:
  assumes "handleStream env q w s = (out, Some (args, key, r), s1)"
  obtains rq info f b w1 where "stream_params q w = (Some rq, w)" "se_info env (sr_id rq) (Q_User q) = Inr info"
    "stream_choice rq info = (False, f, b)" "stream_headers env q rq info f b w = (Some (), w1)"
    "sr_timeOffset rq = 0" "\<not> se_head env"
    "stream_cached env q rq info f b w1 s = (out, Some (args, key, r), s1)"
proof -
  obtain p w' where p: "stream_params q w = (p, w')" by fastforce
  with assms obtain rq where rq: "p = Some rq" by (cases p) (simp_all add: handleStream_def)
  with p params_errs(2) have w': "w' = w" by blast
  obtain info where i: "se_info env (sr_id rq) (Q_User q) = Inr info"
    using assms by (cases "se_info env (sr_id rq) (Q_User q)") (simp_all add: handleStream_def p rq)
  obtain raw f b where ch: "stream_choice rq info = (raw, f, b)" by (cases "stream_choice rq info") auto
  obtain u w1 where h: "stream_headers env q rq info f b w = (u, w1)" by fastforce
  have main: "\<not> (raw \<and> sr_timeOffset rq = 0) \<and> u = Some () \<and> \<not> se_head env \<and> sr_timeOffset rq = 0
      \<and> stream_cached env q rq info f b w1 s = (out, Some (args, key, r), s1)"
    using assms by (cases u) (auto simp: handleStream_def p rq w' i ch h split: if_splits)
  then show thesis using that p rq w' i ch h by auto
qed

text \<open>
  C7: The key of a cached transcode determines what is in it. Two requests that start transcodes under
  the same key, by whatever users and with whatever formats and bit rates they asked for, run ffmpeg
  with the same arguments, so nobody is served a transcode of another song, format or bit rate. The
  assumption is that the song repository gives both users the same file for the same identifier and
  that files have at least one channel.
\<close>

theorem same_key_same_command:
  assumes "handleStream env q w s = (out, Some (args, key, r), s1)"
    "handleStream env' q' w' s' = (out', Some (args', key, r'), s1')"
    "\<And>i u u' x x'. se_info env i u = Inr x \<Longrightarrow> se_info env' i u' = Inr x' \<Longrightarrow> x = x' \<and> 1 \<le> si_ChannelCount x"
  shows "args = args'"
proof -
  from assms(1) obtain rq info f b w1 where a: "se_info env (sr_id rq) (Q_User q) = Inr info"
    "stream_choice rq info = (False, f, b)" "stream_cached env q rq info f b w1 s = (out, Some (args, key, r), s1)"
    by (rule handleStream_job)
  from assms(2) obtain rq' info' f' b' w1' where a': "se_info env' (sr_id rq') (Q_User q') = Inr info'"
    "stream_choice rq' info' = (False, f', b')" "stream_cached env' q' rq' info' f' b' w1' s' = (out', Some (args', key, r'), s1')"
    by (rule handleStream_job)
  obtain mb mb' where sel: "SelectFormat (sr_format rq) (si_ChannelCount info) mb = (f, b)" "sr_format rq \<noteq> ''raw''"
    "SelectFormat (sr_format rq') (si_ChannelCount info') mb' = (f', b')" "sr_format rq' \<noteq> ''raw''"
    using chosen_format [OF a(2)] chosen_format [OF a'(2)] by blast
  note s1 = selected_format [OF sel(2,1)] and s2 = selected_format [OF sel(4,3)]
  obtain n m where n: "formats n = Some f" "formats m = Some f'" using s1(1) s2(1) by blast
  have "stream_key rq f b = stream_key rq' f' b'" using stream_cached_job(1) [OF a(3)] stream_cached_job(1) [OF a'(3)] by simp
  then have eq: "sr_id rq = sr_id rq'" "f_Name f = f_Name f'" "b = b'"
    using stream_key_inj s1(3) s2(3) format_names(1) [OF n] format_names(1) [OF n(2,1)] by fastforce+
  then have info: "info' = info" "1 \<le> si_ChannelCount info" using assms(3) [OF a(1), of "Q_User q'" info'] a'(1) by auto
  have "f_encoder f = f_encoder f' \<and> f_outFormat f = f_outFormat f'" using format_names(2) [OF n eq(2)] by blast
  then show ?thesis
    using stream_cached_job(2) [OF a(3)] stream_cached_job(2) [OF a'(3)] s1(2) s2(2) info eq(3)
    by (auto simp: Transcode_def Let_def transcode_args_def split: if_splits)
qed


definition wit_info :: SongStreamInfo where
  "wit_info = \<lparr> si_Path = ''/m/a.flac'', si_BitRate = 900, si_ContentType = ''audio/flac'', si_Duration = 0, si_ChannelCount = 2 \<rparr>"

definition wit_stream_env :: stream_env where
  "wit_stream_env = \<lparr> se_info = (\<lambda>_ _. Inr wit_info), se_starts = (\<lambda>_. True), se_head = False, se_io = io_ok,
     se_now = 1, se_others = (\<lambda>s. s), se_estimate = (\<lambda>_ _. 0) \<rparr>"

definition wit_stream_query :: "string \<Rightarrow> string \<Rightarrow> url_values" where
  "wit_stream_query f b = [''id'' \<mapsto> [''tr_abcdefghijkl''], ''format'' \<mapsto> [f], ''maxBitRate'' \<mapsto> [b]]"

definition wit_args :: "string list" where
  "wit_args = [''-v'', ''error'', ''-ss'', ''0us'', ''-i'', ''/m/a.flac'', ''-map'', ''0:a:0'', ''-vn'', ''-b:a'', ''192k'',
     ''-c:a'', ''libopus'', ''-f'', ''ogg'', ''-'']"

lemma wit_stream_runs:
  "fst (handleStream wit_stream_env (wit_stream_query ''opus'' ''192'') [] wit_new)
     = ([WHeader ''Content-Type'' ''audio/ogg'', WHeader ''Accept-Ranges'' ''none''], Some (RCopy 0))"
  "fst (snd (handleStream wit_stream_env (wit_stream_query ''opus'' ''192'') [] wit_new))
     = Some (wit_args, ''tr_abcdefghijkl-opus-192'', 0)"
  "fst (snd (handleStream wit_stream_env (wit_stream_query ''Opus'' ''0'') [] wit_new))
     = Some (wit_args, ''tr_abcdefghijkl-opus-192'', 0)"
  by code_simp+

theorem same_key_same_command_witness:
  "\<exists>args. fst (snd (handleStream wit_stream_env (wit_stream_query ''opus'' ''192'') [] wit_new))
       = Some (wit_args, ''tr_abcdefghijkl-opus-192'', 0)
    \<and> fst (snd (handleStream wit_stream_env (wit_stream_query ''Opus'' ''0'') [] wit_new))
       = Some (args, ''tr_abcdefghijkl-opus-192'', 0) \<and> args = wit_args"
proof -
  have 1: "handleStream wit_stream_env (wit_stream_query ''opus'' ''192'') [] wit_new
      = (fst (handleStream wit_stream_env (wit_stream_query ''opus'' ''192'') [] wit_new),
         Some (wit_args, ''tr_abcdefghijkl-opus-192'', 0),
         snd (snd (handleStream wit_stream_env (wit_stream_query ''opus'' ''192'') [] wit_new)))"
    using wit_stream_runs(2) by (simp add: prod_eq_iff)
  have 2: "handleStream wit_stream_env (wit_stream_query ''Opus'' ''0'') [] wit_new
      = (fst (handleStream wit_stream_env (wit_stream_query ''Opus'' ''0'') [] wit_new),
         Some (wit_args, ''tr_abcdefghijkl-opus-192'', 0),
         snd (snd (handleStream wit_stream_env (wit_stream_query ''Opus'' ''0'') [] wit_new)))"
    using wit_stream_runs(3) by (simp add: prod_eq_iff)
  have "x = x' \<and> 1 \<le> si_ChannelCount x" if "se_info wit_stream_env i u = Inr x" "se_info wit_stream_env i u' = Inr x'" for i u u' x x'
    using that by (auto simp: wit_stream_env_def wit_info_def)
  from same_key_same_command [OF 1 2 this] wit_stream_runs(2,3) show ?thesis by blast
qed

lemma new_object_is_read:
  assumes "stream_acquire GetObject (CreateObject io now) key s others = (Inr (r, True), s2)"
    "stream_read env q rq r w s2 = (out, s1)"
  shows "out = (w @ [WHeader ''Accept-Ranges'' ''none''], Some (RCopy r))"
    "GetObject key s1 = Some r" "ob_file (sy_heap s1 r) \<noteq> None" "\<not> ob_complete (sy_heap s1 r)" "ob_key (sy_heap s1 r) = key"
proof -
  have c: "GetObject key (others s) = None \<and> CreateObject io now key (others s) = (Inr r, s2)"
    using assms(1) cache.create_taken [of key "others s"]
    by (cases "GetObject key (others s)") (auto simp: stream_acquire_def split: option.splits sum.splits prod.splits)
  then have o: "ob_file (sy_heap s2 r) \<noteq> None" "\<not> ob_complete (sy_heap s2 r)" "ob_key (sy_heap s2 r) = key"
    "sy_objects s2 key = Some r"
    by (auto simp: CreateObject_def newCacheObject_def Let_def split: option.splits sum.splits prod.splits)
  with assms(2) show "out = (w @ [WHeader ''Accept-Ranges'' ''none''], Some (RCopy r))"
    "GetObject key s1 = Some r" "ob_file (sy_heap s1 r) \<noteq> None" "\<not> ob_complete (sy_heap s1 r)" "ob_key (sy_heap s1 r) = key"
    by (auto simp: stream_read_def newCacheReader_def Object_UseFile_def Object_IsComplete_def GetObject_def set_obj_def
        split: option.splits sum.splits prod.splits if_splits)
qed

lemma completed_object_is_read:
  assumes "GetObject key s = Some r" "ob_file (sy_heap s r) \<noteq> None"
  shows "\<exists>t s1. stream_acquire GetObject (CreateObject io' now) key (stream_onDone io key r False s) others
        = (Inr (r, False), stream_onDone io key r False s)
      \<and> stream_read env q rq r w (stream_onDone io key r False s) = ((w, Some (RContent (sr_id rq) t r)), s1)"
  using assms
  by (auto simp: stream_onDone_def Object_SetComplete_def signalDataChanged_def Let_def stream_acquire_def GetObject_def
      stream_read_def newCacheReader_def Object_UseFile_def Object_IsComplete_def set_obj_def
      split: option.splits sum.splits prod.splits if_splits)

lemma handleStream_cached:
  assumes "stream_params q w = (Some rq, w)" "se_info env (sr_id rq) (Q_User q) = Inr info"
    "stream_choice rq info = (False, f, b)" "stream_headers env q rq info f b w = (Some (), w1)"
    "sr_timeOffset rq = 0" "\<not> se_head env"
  shows "handleStream env q w s = stream_cached env q rq info f b w1 s"
  using assms by (simp add: handleStream_def)



end
