(* ===== verification/ArtistMap.thy ===== *)
theory ArtistMap
  imports RepoErrors
begin

text \<open>
  The artists a scan knows (\<open>scanner/artist_map.go\<close>): the map built from the database, the resolution
  of an artist name and MusicBrainz identifier to a stored artist, and the folder associations written
  at the end. Pointers into the map are a name and an index, since the lists of the map only grow; the
  repository is an argument acting on a state \<open>'d\<close> of the database.
\<close>

section \<open>Pointers (\<open>util/pointers.go\<close>)\<close>

definition EqPtrVals :: "('a \<Rightarrow> 'a \<Rightarrow> bool) \<Rightarrow> 'a option \<Rightarrow> 'a option \<Rightarrow> bool" where
  "EqPtrVals eq a b =
     (if a = None \<and> b = None then True else if a = None \<or> b = None then False else eq (the a) (the b))"

definition NilIfEmpty :: "'a \<Rightarrow> 'a \<Rightarrow> 'a option" where
  "NilIfEmpty zero a = (if a = zero then None else Some a)"

lemma EqPtrVals_eq: "EqPtrVals (=) a b \<longleftrightarrow> a = b"
  by (cases a; cases b) (auto simp: EqPtrVals_def)

section \<open>State\<close>

record artist =
  ar_id :: string
  ar_mbid :: "string option"
  ar_musicFolderIDs :: "int list"  \<comment> \<open>a set: without duplicates\<close>
  ar_updated :: bool

record artistMap =
  am_artists :: "string \<Rightarrow> artist list"
  am_artistImages :: "string \<rightharpoonup> string"

text \<open>What the scanner uses of a row of the artist table, and the repositories it calls.\<close>

record artist_row =
  ad_ID :: string
  ad_Name :: string
  ad_MusicBrainzID :: "string option"

record 'd artist_repo =
  rp_Create :: "string \<Rightarrow> string option \<Rightarrow> 'd \<Rightarrow> (go_error + string) \<times> 'd"
  rp_Update :: "string \<Rightarrow> string \<Rightarrow> string option \<Rightarrow> 'd \<Rightarrow> go_error option \<times> 'd"
  rp_DeleteAllArtistAssociations :: "'d \<Rightarrow> go_error option \<times> 'd"
  rp_CreateArtistAssociations :: "(int \<times> string) list \<Rightarrow> 'd \<Rightarrow> go_error option \<times> 'd"
  rp_DeleteArtistAssociationsWithoutSongs :: "'d \<Rightarrow> go_error option \<times> 'd"

section \<open>Loading\<close>

definition add_artist :: "artistMap \<times> (string \<rightharpoonup> string \<times> nat) \<Rightarrow> artist_row \<Rightarrow> artistMap \<times> (string \<rightharpoonup> string \<times> nat)" where
  "add_artist st a =
     (let (m, ids) = st; old = am_artists m (ad_Name a);
          art = \<lparr> ar_id = ad_ID a, ar_mbid = ad_MusicBrainzID a, ar_musicFolderIDs = [], ar_updated = False \<rparr>
      in (m\<lparr> am_artists := (am_artists m)(ad_Name a := old @ [art]) \<rparr>, ids(ad_ID a \<mapsto> (ad_Name a, length old))))"

definition set_artist :: "string \<Rightarrow> nat \<Rightarrow> artist \<Rightarrow> artistMap \<Rightarrow> artistMap" where
  "set_artist name i a m = m\<lparr> am_artists := (am_artists m)(name := (am_artists m name)[i := a]) \<rparr>"

definition add_folder :: "int \<Rightarrow> artist \<Rightarrow> artist" where
  "add_folder f a = (if f \<in> set (ar_musicFolderIDs a) then a else a\<lparr> ar_musicFolderIDs := ar_musicFolderIDs a @ [f] \<rparr>)"

text \<open>An association of an artist that is not in the table dereferences a nil pointer: \<open>None\<close>.\<close>

fun add_associations :: "(string \<rightharpoonup> string \<times> nat) \<Rightarrow> artistMap \<Rightarrow> (int \<times> string) list \<Rightarrow> artistMap option" where
  "add_associations ids m [] = Some m"
| "add_associations ids m ((folder, aid) # as) =
     (case ids aid of None \<Rightarrow> None
      | Some (name, i) \<Rightarrow> add_associations ids (set_artist name i (add_folder folder (am_artists m name ! i)) m) as)"

definition newArtistMapFromDB ::
  "bool \<Rightarrow> go_error + artist_row list \<Rightarrow> go_error + (int \<times> string) list \<Rightarrow> (go_error + artistMap) option" where
  "newArtistMapFromDB fullScan found associations =
     (case found of Inl e \<Rightarrow> Some (Inl (EWrap ''find all artists'' e))
      | Inr artists \<Rightarrow>
          (let (m, ids) = foldl add_artist (\<lparr> am_artists = (\<lambda>_. []), am_artistImages = Map.empty \<rparr>, Map.empty) artists
           in if fullScan then Some (Inr m)
              else case associations of
                     Inl e \<Rightarrow> Some (Inl (EWrap ''get all artist music folder associations'' e))
                   | Inr as \<Rightarrow> map_option Inr (add_associations ids m as)))"

section \<open>Resolving artists\<close>

fun find_artist :: "string option \<Rightarrow> artist list \<Rightarrow> nat \<Rightarrow> nat option" where
  "find_artist mbid [] i = None"
| "find_artist mbid (a # as) i =
     (if ar_mbid a \<noteq> None \<and> mbid \<noteq> None
      then (if the (ar_mbid a) = the mbid then Some i else find_artist mbid as (Suc i))
      else Some i)"

definition createArtist :: "'d artist_repo \<Rightarrow> string \<Rightarrow> artist \<Rightarrow> 'd \<Rightarrow> go_error option \<times> artist \<times> 'd" where
  "createArtist repo name a d =
     (case rp_Create repo name (ar_mbid a) d of
        (Inl e, d') \<Rightarrow> (Some (EWrap ''create'' e), a, d')
      | (Inr artID, d') \<Rightarrow> (None, a\<lparr> ar_id := artID \<rparr>, d'))"

text \<open>After a successful creation the function goes on to wrap the nil error, which is an error.\<close>

definition updateArtist :: "'d artist_repo \<Rightarrow> string \<Rightarrow> artist \<Rightarrow> 'd \<Rightarrow> go_error option \<times> artist \<times> 'd" where
  "updateArtist repo name a d =
     (case rp_Update repo (ar_id a) name (ar_mbid a) d of
        (None, d') \<Rightarrow> (None, a, d')
      | (Some e, d') \<Rightarrow>
          (if errors_Is e (EType ErrNotFound)
           then (case createArtist repo name a d' of
                   (Some e', a', d'') \<Rightarrow> (Some (EWrap ''update: create artist'' e'), a', d'')
                 | (None, a', d'') \<Rightarrow> (Some (EMsg ''update: %!w(<nil>)''), a', d''))
           else (Some (EWrap ''update'' e), a, d')))"

definition artists_findOrCreate ::
  "bool \<Rightarrow> 'd artist_repo \<Rightarrow> string \<Rightarrow> string option \<Rightarrow> int \<Rightarrow> artistMap \<Rightarrow> 'd
     \<Rightarrow> (go_error + string) \<times> artistMap \<times> 'd" where
  "artists_findOrCreate fullScan repo name mbid folder m d =
     (case find_artist mbid (am_artists m name) 0 of
        Some i \<Rightarrow>
          (let found = am_artists m name ! i
           in if ar_updated found then (Inr (ar_id found), set_artist name i (add_folder folder found) m, d)
              else
                let changed = EqPtrVals (=) (ar_mbid found) mbid;
                    a1 = (if changed then found\<lparr> ar_mbid := mbid \<rparr> else found)\<lparr> ar_updated := True \<rparr>
                in if changed \<or> fullScan
                   then (case updateArtist repo name a1 d of
                           (Some e, a2, d') \<Rightarrow> (Inl (EWrap ''update artist'' e), set_artist name i a2 m, d')
                         | (None, a2, d') \<Rightarrow> (Inr (ar_id a2), set_artist name i (add_folder folder a2) m, d'))
                   else (Inr (ar_id a1), set_artist name i (add_folder folder a1) m, d))
      | None \<Rightarrow>
          (let art = \<lparr> ar_id = [], ar_mbid = mbid, ar_musicFolderIDs = [folder], ar_updated = True \<rparr>
           in case createArtist repo name art d of
                (err, art', d') \<Rightarrow>
                  (case err of Some e \<Rightarrow> Inl (EWrap ''create artist'' e) | None \<Rightarrow> Inr (ar_id art'),
                   m\<lparr> am_artists := (am_artists m)(name := am_artists m name @ [art']) \<rparr>, d')))"

section \<open>Folder associations\<close>

text \<open>\<open>order\<close> is the order in which the names of the map are visited.\<close>

definition artist_associations :: "string list \<Rightarrow> artistMap \<Rightarrow> (int \<times> string) list" where
  "artist_associations order m =
     concat (map (\<lambda>name. concat (map (\<lambda>a. map (\<lambda>f. (f, ar_id a)) (ar_musicFolderIDs a)) (am_artists m name))) order)"

definition artists_updateMusicFolderAssociations ::
  "'d artist_repo \<Rightarrow> string list \<Rightarrow> artistMap \<Rightarrow> 'd \<Rightarrow> go_error option \<times> 'd" where
  "artists_updateMusicFolderAssociations repo order m d =
     (case rp_DeleteAllArtistAssociations repo d of
        (Some e, d') \<Rightarrow> (Some (EWrap ''delete all artist associations'' e), d')
      | (None, d') \<Rightarrow>
          (case rp_CreateArtistAssociations repo (artist_associations order m) d' of
             (Some e, d') \<Rightarrow> (Some (EWrap ''create artist associations'' e), d')
           | (None, d') \<Rightarrow>
               (case rp_DeleteArtistAssociationsWithoutSongs repo d' of
                  (Some e, d') \<Rightarrow> (Some (EWrap ''delete artist associations without songs'' e), d')
                | (None, d') \<Rightarrow> (None, d'))))"

section \<open>Resolution is stable\<close>

lemma find_artist_bound: "find_artist mbid as k = Some i \<Longrightarrow> k \<le> i \<and> i < k + length as"
  by (induction mbid as k rule: find_artist.induct) (auto split: if_splits)

lemma find_artist_cong: "map ar_mbid as = map ar_mbid bs \<Longrightarrow> find_artist mbid as k = find_artist mbid bs k"
proof (induction mbid as k arbitrary: bs rule: find_artist.induct)
  case (2 mbid a as i)
  then obtain b bs' where "bs = b # bs'" by (cases bs) auto
  with 2 show ?case by auto
qed simp

lemma find_artist_append: "find_artist mbid as k = Some i \<Longrightarrow> find_artist mbid (as @ bs) k = Some i"
  by (induction mbid as k rule: find_artist.induct) (auto split: if_splits)

lemma find_artist_new: "find_artist mbid as k = None \<Longrightarrow> ar_mbid a = mbid \<Longrightarrow> find_artist mbid (as @ [a]) k = Some (k + length as)"
  by (induction mbid as k rule: find_artist.induct) (auto split: if_splits)

lemma add_folder_simps [simp]:
  "ar_id (add_folder f a) = ar_id a" "ar_mbid (add_folder f a) = ar_mbid a" "ar_updated (add_folder f a) = ar_updated a"
  by (simp_all add: add_folder_def)

lemma set_artist_artists [simp]:
  "am_artists (set_artist name i a m) = (am_artists m)(name := (am_artists m name)[i := a])"
  by (simp add: set_artist_def)

lemma createArtist_fields:
  "createArtist repo name a d = (err, a', d') \<Longrightarrow> ar_mbid a' = ar_mbid a \<and> ar_updated a' = ar_updated a"
  by (auto simp: createArtist_def split: prod.splits sum.splits)

lemma updateArtist_fields:
  "updateArtist repo name a d = (err, a', d') \<Longrightarrow> ar_mbid a' = ar_mbid a \<and> ar_updated a' = ar_updated a"
  by (auto simp: updateArtist_def split: prod.splits option.splits if_splits dest: createArtist_fields)

text \<open>
  What a request does to the lists: other names stay; the entry it finds is updated in place with its
  identifier kept once it is marked, its MusicBrainz identifier unchanged; or an entry is appended.
\<close>

lemma findOrCreate_step:
  assumes "artists_findOrCreate fs repo name mbid folder m d = (res, m', d')"
  shows "(\<forall>n. n \<noteq> name \<longrightarrow> am_artists m' n = am_artists m n)
    \<and> (case find_artist mbid (am_artists m name) 0 of
         Some i \<Rightarrow> (\<exists>a. am_artists m' name = (am_artists m name)[i := a] \<and> ar_mbid a = ar_mbid (am_artists m name ! i)
                     \<and> ar_updated a \<and> (ar_updated (am_artists m name ! i) \<longrightarrow> ar_id a = ar_id (am_artists m name ! i) \<and> d' = d)
                     \<and> (\<forall>id'. res = Inr id' \<longrightarrow> ar_id a = id') \<and> (ar_updated (am_artists m name ! i) \<longrightarrow> res = Inr (ar_id a)))
       | None \<Rightarrow> (\<exists>a. am_artists m' name = am_artists m name @ [a] \<and> ar_mbid a = mbid \<and> ar_updated a
                     \<and> (\<forall>id'. res = Inr id' \<longrightarrow> ar_id a = id')))"
proof (cases "find_artist mbid (am_artists m name) 0")
  case None
  then show ?thesis using assms
    by (auto simp: artists_findOrCreate_def Let_def split: prod.splits option.splits dest!: createArtist_fields)
next
  case (Some i)
  then show ?thesis using assms
    by (auto simp: artists_findOrCreate_def Let_def EqPtrVals_eq split: prod.splits option.splits if_splits dest!: updateArtist_fields)
qed

type_synonym artist_request = "string \<times> string option \<times> int"

fun artist_requests :: "bool \<Rightarrow> 'd artist_repo \<Rightarrow> artist_request list \<Rightarrow> artistMap \<Rightarrow> 'd \<Rightarrow> artistMap \<times> 'd" where
  "artist_requests fs repo [] m d = (m, d)"
| "artist_requests fs repo ((name, mbid, folder) # rs) m d =
     (case artists_findOrCreate fs repo name mbid folder m d of (_, m', d') \<Rightarrow> artist_requests fs repo rs m' d')"

definition resolved :: "artistMap \<Rightarrow> string \<Rightarrow> string option \<Rightarrow> string \<Rightarrow> bool" where
  "resolved m name mbid aid \<longleftrightarrow> (\<exists>i. find_artist mbid (am_artists m name) 0 = Some i
     \<and> ar_updated (am_artists m name ! i) \<and> ar_id (am_artists m name ! i) = aid)"

lemma resolved_after:
  assumes "artists_findOrCreate fs repo name mbid folder m d = (Inr aid, m', d')"
  shows "resolved m' name mbid aid"
proof (cases "find_artist mbid (am_artists m name) 0")
  case None
  with findOrCreate_step [OF assms] obtain a where
    "am_artists m' name = am_artists m name @ [a]" "ar_mbid a = mbid" "ar_updated a" "ar_id a = aid" by auto
  then show ?thesis using find_artist_new [OF None] by (simp add: resolved_def)
next
  case (Some i)
  with findOrCreate_step [OF assms] obtain a where
    a: "am_artists m' name = (am_artists m name)[i := a]" "ar_mbid a = ar_mbid (am_artists m name ! i)" "ar_updated a" "ar_id a = aid" by auto
  have "map ar_mbid ((am_artists m name)[i := a]) = map ar_mbid (am_artists m name)"
    using a(2) find_artist_bound [OF Some] by (simp add: map_update list_update_same_conv)
  then have "find_artist mbid (am_artists m' name) 0 = Some i" unfolding a(1) using Some by (simp cong: find_artist_cong)
  then show ?thesis using a find_artist_bound [OF Some] by (simp add: resolved_def)
qed

lemma resolved_step:
  assumes "resolved m name mbid aid" "artists_findOrCreate fs repo n b folder m d = (res, m', d')"
  shows "resolved m' name mbid aid"
proof (cases "n = name")
  case False
  then show ?thesis using assms findOrCreate_step [OF assms(2)] by (simp add: resolved_def)
next
  case True
  from assms(1) obtain i where i: "find_artist mbid (am_artists m name) 0 = Some i"
    "ar_updated (am_artists m name ! i)" "ar_id (am_artists m name ! i) = aid" by (auto simp: resolved_def)
  have il: "i < length (am_artists m name)" using find_artist_bound [OF i(1)] by simp
  show ?thesis
  proof (cases "find_artist b (am_artists m name) 0")
    case None
    with findOrCreate_step [OF assms(2)] True obtain a where "am_artists m' name = am_artists m name @ [a]" by auto
    then show ?thesis using i il find_artist_append [OF i(1)] by (auto simp: resolved_def nth_append)
  next
    case (Some j)
    with findOrCreate_step [OF assms(2)] True obtain a where a: "am_artists m' name = (am_artists m name)[j := a]"
      "ar_mbid a = ar_mbid (am_artists m name ! j)" "ar_updated a"
      "ar_updated (am_artists m name ! j) \<longrightarrow> ar_id a = ar_id (am_artists m name ! j)" by auto
    have "map ar_mbid ((am_artists m name)[j := a]) = map ar_mbid (am_artists m name)"
      using a(2) find_artist_bound [OF Some] by (simp add: map_update list_update_same_conv)
    then have "find_artist mbid ((am_artists m name)[j := a]) 0 = Some i" using find_artist_cong i(1) by metis
    then show ?thesis using i a il by (cases "j = i") (auto simp: resolved_def)
  qed
qed

lemma resolved_requests: "resolved m name mbid aid \<Longrightarrow> resolved (fst (artist_requests fs repo rs m d)) name mbid aid"
proof (induction fs repo rs m d rule: artist_requests.induct)
  case (2 fs repo n b f rs m d)
  then show ?case by (cases "artists_findOrCreate fs repo n b f m d") (auto dest: resolved_step)
qed simp

lemma resolved_again:
  assumes "resolved m name mbid aid"
  shows "\<exists>m'. artists_findOrCreate fs repo name mbid folder m d = (Inr aid, m', d)"
  using assms by (auto simp: resolved_def artists_findOrCreate_def Let_def)

text \<open>
  C29: An artist is resolved to one identifier for the whole scan. Once a name with a MusicBrainz
  identifier (or without one) has been resolved, the same request gives the same artist again without
  touching the database, whatever other artists are resolved in between and whatever the database
  answers to them.
\<close>

theorem artist_resolution_stable:
  assumes "artists_findOrCreate fs repo name mbid folder m d = (Inr aid, m1, d1)"
    "artist_requests fs repo rs m1 d1 = (m2, d2)"
  shows "\<exists>m3. artists_findOrCreate fs repo name mbid folder' m2 d2 = (Inr aid, m3, d2)"
  using resolved_again [of m2] resolved_requests [OF resolved_after [OF assms(1)], of fs repo rs d1] assms(2) by simp


text \<open>A table of artists as a list of names, for examples: the identifier of a row is its position.\<close>

definition wit_artist_repo :: "string list artist_repo" where
  "wit_artist_repo = \<lparr> rp_Create = (\<lambda>n b d. (Inr (''ar_'' @ show_nat (length d)), d @ [n])),
     rp_Update = (\<lambda>i n b d. (Some (EType ErrNotFound), d)), rp_DeleteAllArtistAssociations = (\<lambda>d. (None, d)),
     rp_CreateArtistAssociations = (\<lambda>_ d. (None, d)), rp_DeleteArtistAssociationsWithoutSongs = (\<lambda>d. (None, d)) \<rparr>"

definition no_artists :: artistMap where
  "no_artists = \<lparr> am_artists = (\<lambda>_. []), am_artistImages = Map.empty \<rparr>"

theorem artist_resolution_stable_witness:
  "\<exists>m1 m2 d2 m3. artists_findOrCreate False wit_artist_repo ''A'' (Some ''x'') 1 no_artists [] = (Inr ''ar_0'', m1, [''A''])
    \<and> artist_requests False wit_artist_repo [(''B'', None, 1), (''A'', Some ''y'', 1)] m1 [''A''] = (m2, d2)
    \<and> artists_findOrCreate False wit_artist_repo ''A'' (Some ''x'') 2 m2 d2 = (Inr ''ar_0'', m3, d2)"
proof -
  let ?h = "artists_findOrCreate False wit_artist_repo ''A'' (Some ''x'') 1 no_artists []"
  have "fst ?h = Inr ''ar_0''" "snd (snd ?h) = [''A'']" by code_simp+
  then have h: "?h = (Inr ''ar_0'', fst (snd ?h), [''A''])" by (simp add: prod_eq_iff)
  obtain m2 d2 where r: "artist_requests False wit_artist_repo [(''B'', None, 1), (''A'', Some ''y'', 1)] (fst (snd ?h)) [''A''] = (m2, d2)"
    by fastforce
  from artist_resolution_stable [OF h r] h r show ?thesis by metis
qed

text \<open>
  Changes of a stored artist are decided the wrong way round. When a request finds an artist from
  the database that this scan has not touched yet, an identifier that differs from the stored one is
  neither kept in the map nor written, while an equal one is written again; and when the row to be
  written has vanished, the artist is created anew and the request still fails.
\<close>

lemma artist_update_inverted:
  assumes "find_artist mbid (am_artists m name) 0 = Some i" "am_artists m name ! i = a" "\<not> ar_updated a"
  shows "(ar_mbid a \<noteq> mbid \<longrightarrow> (\<exists>m'. artists_findOrCreate False repo name mbid folder m d = (Inr (ar_id a), m', d)
            \<and> ar_mbid (am_artists m' name ! i) = ar_mbid a))
    \<and> (ar_mbid a = mbid \<longrightarrow> (\<forall>d'. rp_Update repo (ar_id a) name mbid d = (None, d') \<longrightarrow>
            (\<exists>m'. artists_findOrCreate False repo name mbid folder m d = (Inr (ar_id a), m', d'))))
    \<and> (ar_mbid a = mbid \<longrightarrow> (\<forall>e d' newID d''. rp_Update repo (ar_id a) name mbid d = (Some e, d')
          \<and> errors_Is e (EType ErrNotFound) \<and> rp_Create repo name mbid d' = (Inr newID, d'') \<longrightarrow>
            (\<exists>m'. artists_findOrCreate False repo name mbid folder m d
                    = (Inl (EWrap ''update artist'' (EMsg ''update: %!w(<nil>)'')), m', d'')
                  \<and> ar_id (am_artists m' name ! i) = newID)))"
proof -
  have "i < length (am_artists m name)" using find_artist_bound [OF assms(1)] by simp
  with assms show ?thesis
    by (auto simp: artists_findOrCreate_def updateArtist_def createArtist_def EqPtrVals_eq Let_def)
qed

definition stored_artists :: artistMap where
  "stored_artists = no_artists\<lparr> am_artists := (\<lambda>n. if n = ''A''
     then [\<lparr> ar_id = ''ar_old'', ar_mbid = None, ar_musicFolderIDs = [], ar_updated = False \<rparr>] else []) \<rparr>"

lemma artist_update_inverted_example:
  "(\<exists>m'. artists_findOrCreate False wit_artist_repo ''A'' (Some ''x'') 1 stored_artists [] = (Inr ''ar_old'', m', [])
       \<and> ar_mbid (am_artists m' ''A'' ! 0) = None)
    \<and> (\<exists>m'. artists_findOrCreate False wit_artist_repo ''A'' None 1 stored_artists []
             = (Inl (EWrap ''update artist'' (EMsg ''update: %!w(<nil>)'')), m', [''A'']))"
proof -
  let ?a = "\<lparr> ar_id = ''ar_old'', ar_mbid = None, ar_musicFolderIDs = [], ar_updated = False \<rparr>"
  have 1: "find_artist b (am_artists stored_artists ''A'') 0 = Some 0" "am_artists stored_artists ''A'' ! 0 = ?a" "\<not> ar_updated ?a" for b
    by (simp_all add: stored_artists_def)
  have u: "rp_Update wit_artist_repo (ar_id ?a) ''A'' None [] = (Some (EType ErrNotFound), [])"
    "errors_Is (EType ErrNotFound) (EType ErrNotFound)" "rp_Create wit_artist_repo ''A'' None [] = (Inr ''ar_0'', [''A''])"
    by code_simp+
  have "\<exists>m'. artists_findOrCreate False wit_artist_repo ''A'' (Some ''x'') 1 stored_artists [] = (Inr ''ar_old'', m', [])
       \<and> ar_mbid (am_artists m' ''A'' ! 0) = None"
    using artist_update_inverted [OF 1(1-3), of "Some ''x''" wit_artist_repo 1 "[]"] by simp
  moreover have "\<exists>m'. artists_findOrCreate False wit_artist_repo ''A'' None 1 stored_artists []
             = (Inl (EWrap ''update artist'' (EMsg ''update: %!w(<nil>)'')), m', [''A''])"
    using artist_update_inverted [OF 1(1-3), of None wit_artist_repo 1 "[]"] u by (simp add: prod_eq_iff)
  ultimately show ?thesis by blast
qed

end
