(* ===== verification/AlbumMap.thy ===== *)
theory AlbumMap
  imports ArtistMap RepoTypes "HOL-Library.AList"
begin

text \<open>
  The albums a scan knows (\<open>scanner/album_map.go\<close>): the map built from the database, the decision
  whether the tags of a file belong to a known album, what is written to the database, disc titles and
  the connections of albums to artists. Floating point values are their 64 bits with the comparison of
  IEEE 754; pointers to albums are a name and an index.
\<close>

section \<open>Floating point comparison\<close>

type_synonym float64 = "64 word"

definition is_nan :: "float64 \<Rightarrow> bool" where
  "is_nan x \<longleftrightarrow> unat (drop_bit 52 x) mod 2048 = 2047 \<and> take_bit 52 x \<noteq> 0"

definition f64_eq :: "float64 \<Rightarrow> float64 \<Rightarrow> bool" where
  "f64_eq x y \<longleftrightarrow> \<not> is_nan x \<and> \<not> is_nan y \<and> (x = y \<or> take_bit 63 x = 0 \<and> take_bit 63 y = 0)"

section \<open>State\<close>

record album =
  al_id :: string
  al_mbid :: "string option"
  al_releaseMBID :: "string option"
  al_originalDate :: "Date option"
  al_releaseDate :: "Date option"
  al_recordLabels :: "string list"
  al_releaseTypes :: "string list"
  al_isCompilation :: "bool option"
  al_replayGain :: "float64 option"
  al_replayGainPeak :: "float64 option"
  al_artistIDs :: "(string \<times> nat) list"  \<comment> \<open>a map: distinct keys\<close>
  al_artistNames :: "string list"
  al_updated :: bool
  al_discTitles :: "int \<rightharpoonup> string"
  al_version :: "string option"
  al_musicFolderID :: int

type_synonym albumMap = "string \<Rightarrow> album list"

record findOrCreateAlbumParamsArtist =
  pa_id :: string
  pa_name :: string
  pa_musicFolderId :: int

record findOrCreateAlbumParams =
  fp_mbid :: "string option"
  fp_releaseMBID :: "string option"
  fp_originalDate :: "Date option"
  fp_releaseDate :: "Date option"
  fp_recordLabels :: "string list"
  fp_releaseTypes :: "string list"
  fp_isCompilation :: "bool option"
  fp_replayGain :: "float64 option"
  fp_replayGainPeak :: "float64 option"
  fp_artists :: "findOrCreateAlbumParamsArtist list"
  fp_cover :: "string option"
  fp_songPath :: string
  fp_version :: "string option"
  fp_musicFolderId :: int

text \<open>A row of the album table and of the table connecting albums and artists.\<close>

record Album =
  ab_ID :: string
  ab_Name :: string
  ab_ReleaseDate :: "Date option"
  ab_OriginalDate :: "Date option"
  ab_RecordLabels :: "string list"
  ab_MusicBrainzID :: "string option"
  ab_ReleaseMBID :: "string option"
  ab_ReleaseTypes :: "string list"
  ab_IsCompilation :: "bool option"
  ab_ReplayGain :: "float64 option"
  ab_ReplayGainPeak :: "float64 option"
  ab_DiscTitles :: "int \<rightharpoonup> string"
  ab_Version :: "string option"
  ab_MusicFolderID :: "int option"

record AlbumArtistConnection =
  ac_AlbumID :: string
  ac_ArtistID :: string
  ac_ArtistName :: string
  ac_Index :: nat

section \<open>Loading\<close>

text \<open>The identifiers of the artists of an album with their positions, and their names.\<close>

type_synonym album_artists = "(string \<times> nat) list \<times> string list"

definition connect :: "(string \<Rightarrow> album_artists) \<Rightarrow> AlbumArtistConnection \<Rightarrow> string \<Rightarrow> album_artists" where
  "connect cs c = (case cs (ac_AlbumID c) of (ids, names) \<Rightarrow>
     cs(ac_AlbumID c := (AList.update (ac_ArtistID c) (length ids) ids, names @ [ac_ArtistName c])))"

definition load_album :: "(string \<Rightarrow> album_artists) \<Rightarrow> Album \<Rightarrow> album" where
  "load_album cs a = (case cs (ab_ID a) of (ids, names) \<Rightarrow>
     \<lparr> al_id = ab_ID a, al_mbid = ab_MusicBrainzID a, al_releaseMBID = ab_ReleaseMBID a,
       al_originalDate = ab_OriginalDate a, al_releaseDate = ab_ReleaseDate a,
       al_recordLabels = ab_RecordLabels a, al_releaseTypes = ab_ReleaseTypes a,
       al_isCompilation = ab_IsCompilation a, al_replayGain = ab_ReplayGain a, al_replayGainPeak = ab_ReplayGainPeak a,
       al_artistIDs = ids, al_artistNames = names, al_updated = False,
       al_discTitles = ab_DiscTitles a, al_version = ab_Version a,
       al_musicFolderID = (case ab_MusicFolderID a of None \<Rightarrow> -1 | Some f \<Rightarrow> f) \<rparr>)"

definition newAlbumMapFromDB ::
  "go_error + Album list \<Rightarrow> go_error + AlbumArtistConnection list \<Rightarrow> go_error + albumMap" where
  "newAlbumMapFromDB found conns =
     (case found of Inl e \<Rightarrow> Inl (EWrap ''find all albums'' e)
      | Inr albums \<Rightarrow>
          (case conns of Inl e \<Rightarrow> Inl (EWrap ''find all album artist connections'' e)
           | Inr cl \<Rightarrow>
               (let cs = foldl connect (\<lambda>_. ([], [])) cl
                in Inr (foldl (\<lambda>m a. m(ab_Name a := m (ab_Name a) @ [load_album cs a])) (\<lambda>_. []) albums))))"

section \<open>Matching\<close>

definition artists_match :: "album \<Rightarrow> findOrCreateAlbumParams \<Rightarrow> bool" where
  "artists_match a p \<longleftrightarrow> length (al_artistIDs a) = length (fp_artists p)
     \<and> list_all (\<lambda>x. map_of (al_artistIDs a) (pa_id x) \<noteq> None) (fp_artists p)"

definition both :: "'a option \<Rightarrow> 'a option \<Rightarrow> bool" where
  "both x y \<longleftrightarrow> x \<noteq> None \<and> y \<noteq> None"

definition album_matches :: "album \<Rightarrow> findOrCreateAlbumParams \<Rightarrow> bool" where
  "album_matches a p =
     (if al_updated a \<and> al_musicFolderID a \<noteq> fp_musicFolderId p then False
      else if both (al_releaseMBID a) (fp_releaseMBID p) then al_releaseMBID a = fp_releaseMBID p
      else if both (al_mbid a) (fp_mbid p) then al_mbid a = fp_mbid p
      else if length (al_artistIDs a) > 0 \<and> length (fp_artists p) > 0 then artists_match a p
      else if both (al_version a) (fp_version p) then al_version a = fp_version p
      else if both (al_releaseDate a) (fp_releaseDate p) then al_releaseDate a = fp_releaseDate p
      else if both (al_originalDate a) (fp_originalDate p) then al_originalDate a = fp_originalDate p
      else True)"

fun find_album :: "findOrCreateAlbumParams \<Rightarrow> album list \<Rightarrow> nat \<Rightarrow> nat option" where
  "find_album p [] i = None"
| "find_album p (a # as) i = (if album_matches a p then Some i else find_album p as (Suc i))"

section \<open>Writing\<close>

record CreateAlbumParams =
  cp_Name :: string
  cp_ReleaseDate :: "Date option"
  cp_OriginalDate :: "Date option"
  cp_RecordLabels :: "string list"
  cp_MusicBrainzID :: "string option"
  cp_ReleaseMBID :: "string option"
  cp_ReleaseTypes :: "string list"
  cp_IsCompilation :: "bool option"
  cp_ReplayGain :: "float64 option"
  cp_ReplayGainPeak :: "float64 option"
  cp_ArtistNames :: "string list"
  cp_Version :: "string option"
  cp_MusicFolderID :: int

text \<open>An update sets the disc titles alone or all the other columns.\<close>

datatype album_update = UAlbum CreateAlbumParams | UDiscTitles "int \<rightharpoonup> string"

record 'd album_repo =
  br_Create :: "CreateAlbumParams \<Rightarrow> 'd \<Rightarrow> (go_error + string) \<times> 'd"
  br_Update :: "string \<Rightarrow> album_update \<Rightarrow> 'd \<Rightarrow> go_error option \<times> 'd"
  br_RemoveAllArtistConnections :: "'d \<Rightarrow> go_error option \<times> 'd"
  br_CreateArtistConnections :: "(string \<times> string \<times> nat) list \<Rightarrow> 'd \<Rightarrow> go_error option \<times> 'd"

definition album_columns :: "string \<Rightarrow> album \<Rightarrow> CreateAlbumParams" where
  "album_columns name a =
     \<lparr> cp_Name = name, cp_ReleaseDate = al_releaseDate a, cp_OriginalDate = al_originalDate a,
       cp_RecordLabels = al_recordLabels a, cp_MusicBrainzID = al_mbid a, cp_ReleaseMBID = al_releaseMBID a,
       cp_ReleaseTypes = al_releaseTypes a, cp_IsCompilation = al_isCompilation a, cp_ReplayGain = al_replayGain a,
       cp_ReplayGainPeak = al_replayGainPeak a, cp_ArtistNames = al_artistNames a, cp_Version = al_version a,
       cp_MusicFolderID = al_musicFolderID a \<rparr>"

definition createAlbum :: "'d album_repo \<Rightarrow> string \<Rightarrow> album \<Rightarrow> 'd \<Rightarrow> go_error option \<times> album \<times> 'd" where
  "createAlbum repo name a d =
     (case br_Create repo (album_columns name a) d of
        (Inl e, d') \<Rightarrow> (Some (EWrap ''create'' e), a, d')
      | (Inr albID, d') \<Rightarrow> (None, a\<lparr> al_id := albID \<rparr>, d'))"

text \<open>As for artists, a successful creation after a missing row still ends in an error.\<close>

definition updateAlbum :: "'d album_repo \<Rightarrow> string \<Rightarrow> album \<Rightarrow> 'd \<Rightarrow> go_error option \<times> album \<times> 'd" where
  "updateAlbum repo name a d =
     (case br_Update repo (al_id a) (UAlbum (album_columns name a)) d of
        (None, d') \<Rightarrow> (None, a, d')
      | (Some e, d') \<Rightarrow>
          (if errors_Is e (EType ErrNotFound)
           then (case createAlbum repo name a d' of
                   (Some e', a', d'') \<Rightarrow> (Some (EWrap ''update: create album'' e'), a', d'')
                 | (None, a', d'') \<Rightarrow> (Some (EMsg ''update: %!w(<nil>)''), a', d''))
           else (Some (EWrap ''update'' e), a, d')))"


section \<open>Resolving albums\<close>

definition index_artists :: "findOrCreateAlbumParamsArtist list \<Rightarrow> (string \<times> nat) list" where
  "index_artists artists = foldl (\<lambda>ids (i, x). AList.update (pa_id x) i ids) [] (enumerate 0 artists)"

definition set_artists :: "findOrCreateAlbumParams \<Rightarrow> album \<Rightarrow> album" where
  "set_artists p a = a\<lparr> al_artistIDs := index_artists (fp_artists p), al_artistNames := map pa_name (fp_artists p) \<rparr>"

definition artists_differ :: "album \<Rightarrow> findOrCreateAlbumParams \<Rightarrow> bool" where
  "artists_differ a p \<longleftrightarrow> length (al_artistIDs a) \<noteq> length (fp_artists p)
     \<or> list_ex (\<lambda>(i, x). map_of (al_artistIDs a) (pa_id x) \<noteq> Some i) (enumerate 0 (fp_artists p))"

definition synced :: "('a \<Rightarrow> 'a \<Rightarrow> bool) \<Rightarrow> 'a option \<Rightarrow> 'a option \<Rightarrow> 'a option" where
  "synced eq old new = (if EqPtrVals eq old new then old else new)"

text \<open>Taking over the tags of a file into an album not seen before in this scan.\<close>

definition sync_changed :: "album \<Rightarrow> findOrCreateAlbumParams \<Rightarrow> bool" where
  "sync_changed a p \<longleftrightarrow> al_musicFolderID a \<noteq> fp_musicFolderId p
     \<or> \<not> EqPtrVals (=) (al_mbid a) (fp_mbid p) \<or> \<not> EqPtrVals (=) (al_releaseMBID a) (fp_releaseMBID p)
     \<or> \<not> EqPtrVals (=) (al_originalDate a) (fp_originalDate p) \<or> \<not> EqPtrVals (=) (al_releaseDate a) (fp_releaseDate p)
     \<or> al_recordLabels a \<noteq> fp_recordLabels p \<or> al_releaseTypes a \<noteq> fp_releaseTypes p
     \<or> \<not> EqPtrVals (=) (al_isCompilation a) (fp_isCompilation p)
     \<or> \<not> EqPtrVals f64_eq (al_replayGain a) (fp_replayGain p)
     \<or> \<not> EqPtrVals f64_eq (al_replayGainPeak a) (fp_replayGainPeak p)
     \<or> \<not> EqPtrVals (=) (al_version a) (fp_version p) \<or> artists_differ a p"

definition sync_album :: "album \<Rightarrow> findOrCreateAlbumParams \<Rightarrow> album" where
  "sync_album a p =
     (let a1 = a\<lparr> al_musicFolderID := (if al_musicFolderID a \<noteq> fp_musicFolderId p then fp_musicFolderId p else al_musicFolderID a),
            al_mbid := synced (=) (al_mbid a) (fp_mbid p), al_releaseMBID := synced (=) (al_releaseMBID a) (fp_releaseMBID p),
            al_originalDate := synced (=) (al_originalDate a) (fp_originalDate p),
            al_releaseDate := synced (=) (al_releaseDate a) (fp_releaseDate p),
            al_recordLabels := (if al_recordLabels a \<noteq> fp_recordLabels p then fp_recordLabels p else al_recordLabels a),
            al_releaseTypes := (if al_releaseTypes a \<noteq> fp_releaseTypes p then fp_releaseTypes p else al_releaseTypes a),
            al_isCompilation := synced (=) (al_isCompilation a) (fp_isCompilation p),
            al_replayGain := synced f64_eq (al_replayGain a) (fp_replayGain p),
            al_replayGainPeak := synced f64_eq (al_replayGainPeak a) (fp_replayGainPeak p),
            al_version := synced (=) (al_version a) (fp_version p), al_updated := True \<rparr>
      in if artists_differ a p then set_artists p a1 else a1)"

definition new_album :: "findOrCreateAlbumParams \<Rightarrow> album" where
  "new_album p =
     \<lparr> al_id = [], al_mbid = fp_mbid p, al_releaseMBID = fp_releaseMBID p, al_originalDate = fp_originalDate p,
       al_releaseDate = fp_releaseDate p, al_recordLabels = fp_recordLabels p, al_releaseTypes = fp_releaseTypes p,
       al_isCompilation = fp_isCompilation p, al_replayGain = fp_replayGain p, al_replayGainPeak = fp_replayGainPeak p,
       al_artistIDs = index_artists (fp_artists p), al_artistNames = map pa_name (fp_artists p), al_updated = True,
       al_discTitles = Map.empty, al_version = fp_version p, al_musicFolderID = fp_musicFolderId p \<rparr>"

text \<open>The message for the workers that set album covers.\<close>

record albumCover =
  cv_id :: string
  cv_cover :: "string option"
  cv_songPath :: string

definition send_cover :: "bool \<Rightarrow> findOrCreateAlbumParams \<Rightarrow> album \<Rightarrow> albumCover list" where
  "send_cover closed p a = (if closed then [] else [\<lparr> cv_id = al_id a, cv_cover = fp_cover p, cv_songPath = fp_songPath p \<rparr>])"

definition set_album :: "string \<Rightarrow> nat \<Rightarrow> album \<Rightarrow> albumMap \<Rightarrow> albumMap" where
  "set_album name i a m = m(name := (m name)[i := a])"

text \<open>The result is an error or the index of the album under its name, and the covers sent.\<close>

definition albums_findOrCreate ::
  "bool \<Rightarrow> bool \<Rightarrow> 'd album_repo \<Rightarrow> string \<Rightarrow> findOrCreateAlbumParams \<Rightarrow> albumMap \<Rightarrow> 'd
     \<Rightarrow> (go_error + nat) \<times> albumMap \<times> 'd \<times> albumCover list" where
  "albums_findOrCreate fullScan coverClosed repo name p m d =
     (case find_album p (m name) 0 of
        Some i \<Rightarrow>
          (let found = m name ! i
           in if al_updated found then (Inr i, m, d, [])
              else let a1 = sync_album found p
                   in if sync_changed found p \<or> fullScan
                      then (case updateAlbum repo name a1 d of
                              (Some e, a2, d') \<Rightarrow> (Inl (EWrap ''update album'' e), set_album name i a2 m, d', [])
                            | (None, a2, d') \<Rightarrow> (Inr i, set_album name i a2 m, d', send_cover coverClosed p a2))
                      else (Inr i, set_album name i a1 m, d, send_cover coverClosed p a1))
      | None \<Rightarrow>
          (case createAlbum repo name (new_album p) d of
             (Some e, a, d') \<Rightarrow> (Inl (EWrap ''create album'' e), m(name := m name @ [a]), d', [])
           | (None, a, d') \<Rightarrow> (Inr (length (m name)), m(name := m name @ [a]), d', send_cover coverClosed p a)))"

section \<open>Disc titles and artist connections\<close>

definition updateDiscTitle ::
  "'d album_repo \<Rightarrow> string \<Rightarrow> nat \<Rightarrow> int \<Rightarrow> string option \<Rightarrow> albumMap \<Rightarrow> 'd \<Rightarrow> go_error option \<times> albumMap \<times> 'd" where
  "updateDiscTitle repo name i disc title m d =
     (let a = m name ! i; old = al_discTitles a disc
      in if old = None \<and> title = None \<or> title \<noteq> None \<and> the title = (case old of None \<Rightarrow> [] | Some t \<Rightarrow> t)
         then (None, m, d)
         else let a' = a\<lparr> al_discTitles := (al_discTitles a)(disc := title) \<rparr>
              in case br_Update repo (al_id a) (UDiscTitles (al_discTitles a')) d of
                   (err, d') \<Rightarrow> (map_option (EWrap ''update'') err, set_album name i a' m, d'))"

definition album_connections :: "string list \<Rightarrow> albumMap \<Rightarrow> (string \<times> string \<times> nat) list" where
  "album_connections order m =
     concat (map (\<lambda>name. concat (map (\<lambda>a. map (\<lambda>(x, i). (al_id a, x, i)) (al_artistIDs a)) (m name))) order)"

definition updateArtists :: "'d album_repo \<Rightarrow> string list \<Rightarrow> albumMap \<Rightarrow> 'd \<Rightarrow> go_error option \<times> 'd" where
  "updateArtists repo order m d =
     (case br_RemoveAllArtistConnections repo d of
        (Some e, d') \<Rightarrow> (Some (EWrap ''remove all artist connections'' e), d')
      | (None, d') \<Rightarrow>
          (case br_CreateArtistConnections repo (album_connections order m) d' of
             (Some e, d'') \<Rightarrow> (Some (EWrap ''create new artist connections'' e), d'')
           | (None, d'') \<Rightarrow> (None, d'')))"

section \<open>The matching rule\<close>

text \<open>
  The rule the loop implements: the criteria in order of their weight, each with whether both sides
  know it and whether they agree; the first one known to both sides decides, and albums about which
  nothing is known in common are taken for the same.
\<close>

definition match_criteria :: "album \<Rightarrow> findOrCreateAlbumParams \<Rightarrow> (bool \<times> bool) list" where
  "match_criteria a p =
     [(both (al_releaseMBID a) (fp_releaseMBID p), al_releaseMBID a = fp_releaseMBID p),
      (both (al_mbid a) (fp_mbid p), al_mbid a = fp_mbid p),
      (al_artistIDs a \<noteq> [] \<and> fp_artists p \<noteq> [], fst ` set (al_artistIDs a) = pa_id ` set (fp_artists p)),
      (both (al_version a) (fp_version p), al_version a = fp_version p),
      (both (al_releaseDate a) (fp_releaseDate p), al_releaseDate a = fp_releaseDate p),
      (both (al_originalDate a) (fp_originalDate p), al_originalDate a = fp_originalDate p)]"

definition same_album :: "album \<Rightarrow> findOrCreateAlbumParams \<Rightarrow> bool" where
  "same_album a p \<longleftrightarrow> (al_updated a \<longrightarrow> al_musicFolderID a = fp_musicFolderId p)
     \<and> (case find fst (match_criteria a p) of None \<Rightarrow> True | Some (_, agree) \<Rightarrow> agree)"

lemma artists_match_sets:
  assumes "distinct (map fst (al_artistIDs a))" "distinct (map pa_id (fp_artists p))"
  shows "artists_match a p \<longleftrightarrow> fst ` set (al_artistIDs a) = pa_id ` set (fp_artists p)"
proof -
  let ?A = "set (map fst (al_artistIDs a))" and ?P = "set (map pa_id (fp_artists p))"
  have c: "card ?A = length (al_artistIDs a)" "card ?P = length (fp_artists p)"
    using distinct_card [OF assms(1)] distinct_card [OF assms(2)] by simp_all
  have "artists_match a p \<longleftrightarrow> card ?A = card ?P \<and> ?P \<subseteq> ?A"
    unfolding c by (auto simp: artists_match_def list_all_iff map_of_eq_None_iff)
  also have "\<dots> \<longleftrightarrow> ?A = ?P" by (metis List.finite_set card_subset_eq order_refl)
  finally show ?thesis by simp
qed



definition wit_album :: "string \<Rightarrow> string option \<Rightarrow> (string \<times> nat) list \<Rightarrow> album" where
  "wit_album i b ids = (new_album \<lparr> fp_mbid = b, fp_releaseMBID = None, fp_originalDate = None, fp_releaseDate = None,
       fp_recordLabels = [], fp_releaseTypes = [], fp_isCompilation = None, fp_replayGain = None, fp_replayGainPeak = None,
       fp_artists = [], fp_cover = None, fp_songPath = [], fp_version = None, fp_musicFolderId = 1 \<rparr>)
     \<lparr> al_id := i, al_artistIDs := ids, al_updated := False \<rparr>"

definition wit_params :: "string option \<Rightarrow> string list \<Rightarrow> findOrCreateAlbumParams" where
  "wit_params b ids = \<lparr> fp_mbid = b, fp_releaseMBID = None, fp_originalDate = None, fp_releaseDate = None,
       fp_recordLabels = [''L''], fp_releaseTypes = [], fp_isCompilation = None, fp_replayGain = Some 0, fp_replayGainPeak = None,
       fp_artists = map (\<lambda>x. \<lparr> pa_id = x, pa_name = x, pa_musicFolderId = 1 \<rparr>) ids, fp_cover = None, fp_songPath = ''s'',
       fp_version = None, fp_musicFolderId = 1 \<rparr>"

definition wit_albums :: albumMap where
  "wit_albums = (\<lambda>n. if n = ''T'' then [wit_album ''al_1'' (Some ''x'') [(''a'', 0)], wit_album ''al_2'' None [(''b'', 0), (''a'', 1)]] else [])"


section \<open>The album of a file agrees with its tags and with the database\<close>

lemma update_new: "k \<notin> fst ` set al \<Longrightarrow> AList.update k v al = al @ [(k, v)]"
  by (induction al) auto

lemma keys_index: "map fst (map (\<lambda>(i, x). (f x, i)) (enumerate n xs)) = map f xs"
  by (induction xs arbitrary: n) auto

lemma list_all_enumerate: "list_all (\<lambda>(i, x). P i x) (enumerate n xs) \<longleftrightarrow> (\<forall>k<length xs. P (n + k) (xs ! k))"
proof (induction xs arbitrary: n)
  case (Cons x xs)
  then show ?case by (auto simp: less_Suc_eq_0_disj)
qed simp

lemma index_artists_eq:
  assumes "distinct (map pa_id xs)"
  shows "index_artists xs = map (\<lambda>(i, x). (pa_id x, i)) (enumerate 0 xs)"
  using assms
proof (induction xs rule: rev_induct)
  case (snoc x xs)
  have "fst ` set (map (\<lambda>(i, x). (pa_id x, i)) (enumerate 0 xs)) = pa_id ` set xs"
    using keys_index [of pa_id 0 xs] by (metis list.set_map)
  then show ?case using snoc by (simp add: index_artists_def enumerate_append_eq update_new)
qed (simp add: index_artists_def)

lemma index_artists_lookup:
  assumes "distinct (map pa_id xs)" "k < length xs"
  shows "map_of (index_artists xs) (pa_id (xs ! k)) = Some k"
proof -
  have "distinct (map fst (index_artists xs))" using assms(1) by (simp only: index_artists_eq [OF assms(1)] keys_index)
  moreover have "(pa_id (xs ! k), k) \<in> set (index_artists xs)"
    using assms(2) by (auto simp: index_artists_eq [OF assms(1)] in_set_enumerate_eq image_iff intro!: exI [of _ k] bexI [of _ "(k, xs ! k)"])
  ultimately show ?thesis by (rule map_of_is_SomeI)
qed

text \<open>What it means that an album shows the tags of a file.\<close>

definition shows_tags :: "album \<Rightarrow> findOrCreateAlbumParams \<Rightarrow> bool" where
  "shows_tags a p \<longleftrightarrow> al_updated a \<and> al_musicFolderID a = fp_musicFolderId p \<and> al_mbid a = fp_mbid p
     \<and> al_releaseMBID a = fp_releaseMBID p \<and> al_originalDate a = fp_originalDate p \<and> al_releaseDate a = fp_releaseDate p
     \<and> al_recordLabels a = fp_recordLabels p \<and> al_releaseTypes a = fp_releaseTypes p
     \<and> al_isCompilation a = fp_isCompilation p \<and> al_version a = fp_version p
     \<and> (al_replayGain a = fp_replayGain p \<or> EqPtrVals f64_eq (al_replayGain a) (fp_replayGain p))
     \<and> (al_replayGainPeak a = fp_replayGainPeak p \<or> EqPtrVals f64_eq (al_replayGainPeak a) (fp_replayGainPeak p))
     \<and> length (al_artistIDs a) = length (fp_artists p)
     \<and> list_all (\<lambda>(i, x). map_of (al_artistIDs a) (pa_id x) = Some i) (enumerate 0 (fp_artists p))"

lemma synced_eq [simp]: "synced (=) old new = new"
  by (simp add: synced_def EqPtrVals_eq)

lemma index_shown:
  assumes "distinct (map pa_id xs)"
  shows "length (index_artists xs) = length xs \<and> list_all (\<lambda>(i, x). map_of (index_artists xs) (pa_id x) = Some i) (enumerate 0 xs)"
  using index_artists_lookup [OF assms] by (simp add: index_artists_eq [OF assms] list_all_enumerate)

lemma synced_float: "synced f64_eq old new = new \<or> EqPtrVals f64_eq (synced f64_eq old new) new"
  by (simp add: synced_def)

lemma sync_shows:
  assumes "distinct (map pa_id (fp_artists p))"
  shows "shows_tags (sync_album a p) p"
proof (cases "artists_differ a p")
  case True
  then show ?thesis using index_shown [OF assms] synced_float
    by (simp add: sync_album_def set_artists_def shows_tags_def Let_def)
next
  case False
  then have "length (al_artistIDs a) = length (fp_artists p)"
    "list_all (\<lambda>(i, x). map_of (al_artistIDs a) (pa_id x) = Some i) (enumerate 0 (fp_artists p))"
    by (auto simp: artists_differ_def list_ex_iff list_all_iff)
  then show ?thesis using False synced_float by (simp add: sync_album_def shows_tags_def Let_def)
qed

lemma new_shows: "distinct (map pa_id (fp_artists p)) \<Longrightarrow> shows_tags (new_album p) p"
  using index_shown by (simp add: new_album_def shows_tags_def)

lemma shows_tags_id [simp]: "shows_tags (a\<lparr> al_id := i \<rparr>) p = shows_tags a p"
  by (simp add: shows_tags_def)

lemma shows_matches:
  assumes "shows_tags a p"
  shows "album_matches a p"
proof -
  have "\<forall>k<length (fp_artists p). map_of (al_artistIDs a) (pa_id (fp_artists p ! k)) = Some k"
    using assms by (simp add: shows_tags_def list_all_enumerate)
  then have "list_all (\<lambda>x. map_of (al_artistIDs a) (pa_id x) \<noteq> None) (fp_artists p)"
    by (simp add: list_all_length)
  then show ?thesis using assms by (simp add: shows_tags_def album_matches_def artists_match_def)
qed

lemma find_album_bound: "find_album p as k = Some i \<Longrightarrow> k \<le> i \<and> i < k + length as"
  by (induction p as k rule: find_album.induct) (auto split: if_splits)

lemma find_album_update: "find_album p as k = Some i \<Longrightarrow> album_matches a p \<Longrightarrow> find_album p (as[i - k := a]) k = Some i"
proof (induction p as k rule: find_album.induct)
  case (2 p b as k)
  show ?case
  proof (cases "album_matches b p")
    case False
    with "2.prems" have f: "find_album p as (Suc k) = Some i" by simp
    then have "Suc k \<le> i" by (blast dest: find_album_bound)
    then have "i - k = Suc (i - Suc k)" by simp
    with False "2.IH" [OF False f "2.prems"(2)] show ?thesis by simp
  qed (use 2 in simp)
qed simp

lemma find_album_new: "find_album p as k = None \<Longrightarrow> album_matches a p \<Longrightarrow> find_album p (as @ [a]) k = Some (k + length as)"
  by (induction p as k rule: find_album.induct) (auto split: if_splits)

lemma updateAlbum_ok:
  "updateAlbum repo name a d = (None, a', d') \<Longrightarrow> a' = a \<and> br_Update repo (al_id a) (UAlbum (album_columns name a)) d = (None, d')"
  by (auto simp: updateAlbum_def split: prod.splits option.splits if_splits)

lemma createAlbum_ok:
  "createAlbum repo name a d = (None, a', d') \<Longrightarrow> \<exists>i. a' = a\<lparr> al_id := i \<rparr> \<and> br_Create repo (album_columns name a) d = (Inr i, d')"
  by (auto simp: createAlbum_def split: prod.splits sum.splits)

lemma album_columns_id [simp]: "album_columns name (a\<lparr> al_id := i \<rparr>) = album_columns name a"
  by (simp add: album_columns_def)



definition wit_album_repo :: "nat album_repo" where
  "wit_album_repo = \<lparr> br_Create = (\<lambda>c n. (Inr ''al_new'', n + 1)), br_Update = (\<lambda>i u n. (None, n + 1)),
     br_RemoveAllArtistConnections = (\<lambda>n. (None, n)), br_CreateArtistConnections = (\<lambda>_ n. (None, n + 1)) \<rparr>"


section \<open>Writing and reading the artists of albums\<close>

lemma connect_filter:
  "foldl connect cs cl k = foldl (\<lambda>(ids, names) c. (AList.update (ac_ArtistID c) (length ids) ids, names @ [ac_ArtistName c]))
     (cs k) (filter (\<lambda>c. ac_AlbumID c = k) cl)"
  by (induction cl arbitrary: cs) (auto simp: connect_def split: prod.split)

lemma connect_ids:
  assumes "distinct (map ac_ArtistID rs)"
  shows "fst (foldl (\<lambda>(ids, names) c. (AList.update (ac_ArtistID c) (length ids) ids, names @ [ac_ArtistName c])) ([], []) rs)
    = map (\<lambda>(i, c). (ac_ArtistID c, i)) (enumerate 0 rs)"
  using assms
proof (induction rs rule: rev_induct)
  case (snoc c rs)
  have "fst ` set (map (\<lambda>(i, c). (ac_ArtistID c, i)) (enumerate 0 rs)) = ac_ArtistID ` set rs"
    using keys_index [of ac_ArtistID 0 rs] by (metis list.set_map)
  then have new: "ac_ArtistID c \<notin> fst ` set (map (\<lambda>(i, c). (ac_ArtistID c, i)) (enumerate 0 rs))"
    using snoc.prems by simp
  obtain ids names where f: "foldl (\<lambda>(ids, names) c. (AList.update (ac_ArtistID c) (length ids) ids, names @ [ac_ArtistName c])) ([], []) rs
      = (ids, names)" by fastforce
  then have "ids = map (\<lambda>(i, c). (ac_ArtistID c, i)) (enumerate 0 rs)" using snoc by simp
  then show ?case using f update_new [OF new] by (simp add: enumerate_append_eq)
qed simp

definition row :: "(string \<Rightarrow> string) \<Rightarrow> string \<times> string \<times> nat \<Rightarrow> AlbumArtistConnection" where
  "row names c = \<lparr> ac_AlbumID = fst c, ac_ArtistID = fst (snd c), ac_ArtistName = names (fst (snd c)), ac_Index = snd (snd c) \<rparr>"

text \<open>The positions of the artists of an album are those of a list.\<close>

definition well_indexed :: "album \<Rightarrow> bool" where
  "well_indexed a \<longleftrightarrow> distinct (map fst (al_artistIDs a)) \<and> set (map snd (al_artistIDs a)) = {0..<length (al_artistIDs a)}"

lemma rows_in_order:
  assumes "well_indexed a" "distinct rs" "sorted (map ac_Index rs)" "set rs = (\<lambda>(x, i). row names (al_id a, x, i)) ` set (al_artistIDs a)"
  shows "map (\<lambda>(i, c). (ac_ArtistID c, i)) (enumerate 0 rs) = map (\<lambda>c. (ac_ArtistID c, ac_Index c)) rs
    \<and> distinct (map ac_ArtistID rs)"
proof -
  let ?ids = "al_artistIDs a" and ?f = "\<lambda>(x, i). row names (al_id a, x, i)"
  have inj: "inj_on ?f (set ?ids)" by (auto simp: inj_on_def row_def)
  have "card (set ?ids) = length ?ids" using assms(1) by (simp add: well_indexed_def distinct_map distinct_card)
  then have len: "length rs = length ?ids" using distinct_card [OF assms(2)] card_image [OF inj] assms(4) by simp
  have "set (map ac_Index rs) = set (map snd ?ids)"
    unfolding set_map assms(4) image_image by (rule image_cong) (auto simp: row_def)
  then have si: "set (map ac_Index rs) = {0..<length rs}" using assms(1) len by (simp add: well_indexed_def)
  then have "distinct (map ac_Index rs)" by (intro card_distinct) simp
  then have "map ac_Index rs = [0..<length rs]"
    using si assms(3) by (intro sorted_distinct_set_unique) auto
  then have nth: "ac_Index (rs ! k) = k" if "k < length rs" for k using that by (metis add_0 length_map nth_map nth_upt)
  have "set (map ac_ArtistID rs) = set (map fst ?ids)"
    unfolding set_map assms(4) image_image by (rule image_cong) (auto simp: row_def)
  then have "card (set (map ac_ArtistID rs)) = length rs"
    using assms(1) len distinct_card [of "map fst ?ids"] by (simp add: well_indexed_def)
  then have "distinct (map ac_ArtistID rs)" by (intro card_distinct) simp
  moreover have "map (\<lambda>(i, c). (ac_ArtistID c, i)) (enumerate 0 rs) = map (\<lambda>c. (ac_ArtistID c, ac_Index c)) rs"
    by (rule nth_equalityI) (simp_all add: nth_enumerate_eq nth)
  ultimately show ?thesis by blast
qed

lemma in_album_connections:
  "c \<in> set (album_connections order m) \<longleftrightarrow> (\<exists>name a. name \<in> set order \<and> a \<in> set (m name)
     \<and> fst c = al_id a \<and> (fst (snd c), snd (snd c)) \<in> set (al_artistIDs a))"
  by (cases c) (force simp: album_connections_def)

text \<open>
  The artists of the albums survive from one scan to the next. When the connections a scan writes
  are read back in the order of their positions, every album has the same artists at the same
  positions, so an unchanged list of album artists is not taken for a change.
\<close>

lemma connections_roundtrip:
  assumes "name \<in> set order" "a \<in> set (m name)" "well_indexed a"
    "\<And>n b. n \<in> set order \<Longrightarrow> b \<in> set (m n) \<Longrightarrow> al_id b = al_id a \<Longrightarrow> b = a"
    "set cl = row names ` set (album_connections order m)" "distinct cl" "sorted (map ac_Index cl)"
    "ab_ID r = al_id a" "foldl connect (\<lambda>_. ([], [])) cl = cs"
  shows "set (al_artistIDs (load_album cs r)) = set (al_artistIDs a)
    \<and> map_of (al_artistIDs (load_album cs r)) = map_of (al_artistIDs a)
    \<and> artists_differ (load_album cs r) p = artists_differ a p"
proof -
  let ?rs = "filter (\<lambda>c. ac_AlbumID c = al_id a) cl"
  have set_rs: "set ?rs = (\<lambda>(x, i). row names (al_id a, x, i)) ` set (al_artistIDs a)"
  proof -
    have "set ?rs = row names ` {c \<in> set (album_connections order m). fst c = al_id a}"
      unfolding set_filter assms(5) by (auto simp: row_def intro: rev_image_eqI)
    also have "{c \<in> set (album_connections order m). fst c = al_id a} = (\<lambda>(x, i). (al_id a, x, i)) ` set (al_artistIDs a)"
    proof (intro equalityI subsetI)
      fix c assume "c \<in> {c \<in> set (album_connections order m). fst c = al_id a}"
      then obtain n b where "n \<in> set order" "b \<in> set (m n)" "al_id b = al_id a" "(fst (snd c), snd (snd c)) \<in> set (al_artistIDs b)"
        "fst c = al_id a" unfolding in_album_connections by auto
      then have "(fst (snd c), snd (snd c)) \<in> set (al_artistIDs a)" using assms(4) by blast
      with \<open>fst c = al_id a\<close> show "c \<in> (\<lambda>(x, i). (al_id a, x, i)) ` set (al_artistIDs a)"
        by (intro image_eqI [of _ _ "(fst (snd c), snd (snd c))"]) (simp_all add: prod_eq_iff)
    next
      fix c assume "c \<in> (\<lambda>(x, i). (al_id a, x, i)) ` set (al_artistIDs a)"
      with assms(1,2) show "c \<in> {c \<in> set (album_connections order m). fst c = al_id a}"
        unfolding in_album_connections by (auto intro!: exI [of _ name] exI [of _ a])
    qed
    finally show ?thesis by (simp add: image_image split_beta)
  qed
  have "distinct ?rs" "sorted (map ac_Index ?rs)" using assms(6,7) by (simp_all add: sorted_filter)
  note ord = rows_in_order [OF assms(3) this set_rs]
  have ids: "al_artistIDs (load_album cs r) = map (\<lambda>c. (ac_ArtistID c, ac_Index c)) ?rs"
  proof -
    have "al_artistIDs (load_album cs r) = fst (cs (al_id a))" using assms(8) by (simp add: load_album_def split: prod.split)
    also have "\<dots> = map (\<lambda>(i, c). (ac_ArtistID c, i)) (enumerate 0 ?rs)"
      using connect_ids [of ?rs] ord assms(9) connect_filter [of "\<lambda>_. ([], [])" cl "al_id a"] by simp
    finally show ?thesis using ord by simp
  qed
  have s: "set (al_artistIDs (load_album cs r)) = set (al_artistIDs a)"
    unfolding ids set_map set_rs image_image by (simp add: row_def split_beta)
  have d: "distinct (map fst (al_artistIDs (load_album cs r)))" using ord by (simp add: ids comp_def)
  have m: "map_of (al_artistIDs (load_album cs r)) = map_of (al_artistIDs a)"
    using map_of_inject_set [OF d, of "al_artistIDs a"] s assms(3) by (simp add: well_indexed_def)
  have "length (al_artistIDs (load_album cs r)) = length (al_artistIDs a)"
    using s d assms(3) by (metis distinct_card distinct_map well_indexed_def)
  with s m show ?thesis by (simp add: artists_differ_def)
qed


definition wit_connected :: albumMap where
  "wit_connected = (\<lambda>n. if n = ''T'' then [wit_album ''al_2'' None [(''b'', 1), (''a'', 0)]] else [])"

definition wit_row :: Album where
  "wit_row = \<lparr> ab_ID = ''al_2'', ab_Name = ''T'', ab_ReleaseDate = None, ab_OriginalDate = None, ab_RecordLabels = [],
     ab_MusicBrainzID = None, ab_ReleaseMBID = None, ab_ReleaseTypes = [], ab_IsCompilation = None, ab_ReplayGain = None,
     ab_ReplayGainPeak = None, ab_DiscTitles = Map.empty, ab_Version = None, ab_MusicFolderID = Some 1 \<rparr>"

definition wit_rows :: "AlbumArtistConnection list" where
  "wit_rows = [row id (''al_2'', ''a'', 0), row id (''al_2'', ''b'', 1)]"

lemma connections_roundtrip_example:
  "\<not> artists_differ (load_album (foldl connect (\<lambda>_. ([], [])) wit_rows) wit_row) (wit_params None [''a'', ''b''])
    \<and> album_connections [''T''] wit_connected = [(''al_2'', ''b'', 1), (''al_2'', ''a'', 0)]"
proof -
  let ?a = "wit_album ''al_2'' None [(''b'', 1), (''a'', 0)]"
  have conns: "album_connections [''T''] wit_connected = [(''al_2'', ''b'', 1), (''al_2'', ''a'', 0)]"
    by code_simp
  have a: "''T'' \<in> set [''T'']" "?a \<in> set (wit_connected ''T'')" by (simp_all add: wit_connected_def)
  have w: "well_indexed ?a" by (auto simp: well_indexed_def wit_album_def)
  have u: "b = ?a" if "n \<in> set [''T'']" "b \<in> set (wit_connected n)" "al_id b = al_id ?a" for n b
    using that by (simp add: wit_connected_def)
  have rows: "set wit_rows = row id ` set (album_connections [''T''] wit_connected)" "distinct wit_rows" "sorted (map ac_Index wit_rows)"
    "ab_ID wit_row = al_id ?a"
    unfolding conns by (auto simp: wit_rows_def row_def wit_row_def wit_album_def)
  have "\<not> artists_differ ?a (wit_params None [''a'', ''b''])" by code_simp
  with connections_roundtrip [OF a w u rows refl] conns show ?thesis by simp
qed

end
