(* ===== verification/SongQueue.thy ===== *)
theory SongQueue
  imports AlbumMap Ids Cache
begin

text \<open>
  Storing the scanned files (\<open>scanner/song_queue.go\<close>): a batch of files is turned into songs with
  their artists and albums, matched with the songs in the database by identifier tag, path or
  MusicBrainz identifiers, and updated or created; afterwards the identifier is written into files
  without one and their transcodes are dropped from the cache. Songs are shared by pointer between the
  lists of the code: here they live in one list and the others hold indices into it. The repositories
  and the generator of identifiers are arguments.
\<close>

section \<open>Data\<close>

record mediaFile =
  mf_id :: "string option"
  mf_path :: string
  mf_size :: int
  mf_contentType :: string
  mf_lastModified :: int
  mf_cover :: "string option"
  mf_bitrate :: int
  mf_channels :: int
  mf_lengthMS :: int
  mf_sampleRate :: int
  mf_title :: string
  mf_albumName :: "string option"
  mf_albumMBID :: "string option"
  mf_albumReleaseMBID :: "string option"
  mf_artistNames :: "string list"
  mf_artistMBIDs :: "string list"
  mf_albumArtistNames :: "string list"
  mf_albumArtistMBIDs :: "string list"
  mf_bpm :: "int option"
  mf_originalDate :: "Date option"
  mf_releaseDate :: "Date option"
  mf_track :: "int option"
  mf_disc :: "int option"
  mf_discTitle :: "string option"
  mf_genres :: "string list"
  mf_musicBrainzID :: "string option"
  mf_replayGain :: "float64 option"
  mf_replayGainPeak :: "float64 option"
  mf_albumReplayGain :: "float64 option"
  mf_albumReplayGainPeak :: "float64 option"
  mf_lyrics :: "string option"
  mf_recordLabels :: "string list"
  mf_releaseTypes :: "string list"
  mf_isCompilation :: bool
  mf_albumVersion :: "string option"
  mf_musicFolderID :: int

record song =
  sg_id :: "string option"
  sg_hasIDTag :: bool
  sg_path :: string
  sg_size :: int
  sg_contentType :: string
  sg_lastModified :: int
  sg_bitrate :: int
  sg_channels :: int
  sg_lengthMS :: int
  sg_sampleRate :: int
  sg_title :: string
  sg_albumID :: "string option"
  sg_albumName :: "string option"
  sg_artistNames :: "string list"
  sg_artistIDs :: "string list"
  sg_bpm :: "int option"
  sg_originalDate :: "Date option"
  sg_releaseDate :: "Date option"
  sg_track :: "int option"
  sg_disc :: "int option"
  sg_genres :: "string list"
  sg_musicBrainzID :: "string option"
  sg_albumMusicBrainzID :: "string option"
  sg_albumReleaseMusicBrainzID :: "string option"
  sg_replayGain :: "float64 option"
  sg_replayGainPeak :: "float64 option"
  sg_lyrics :: "string option"
  sg_musicFolderID :: int

text \<open>The columns that creating and updating a song set.\<close>

record song_columns =
  sc_ID :: string
  sc_Path :: string
  sc_AlbumID :: "string option"
  sc_Title :: string
  sc_Track :: "int option"
  sc_OriginalDate :: "Date option"
  sc_ReleaseDate :: "Date option"
  sc_Size :: int
  sc_ContentType :: string
  sc_Duration :: DurationMS
  sc_BitRate :: int
  sc_SamplingRate :: int
  sc_ChannelCount :: int
  sc_Disc :: "int option"
  sc_BPM :: "int option"
  sc_MusicBrainzID :: "string option"
  sc_ReplayGain :: "float64 option"
  sc_ReplayGainPeak :: "float64 option"
  sc_Lyrics :: "string option"
  sc_AlbumName :: "string option"
  sc_ArtistNames :: "string list"
  sc_MusicFolderID :: int

text \<open>A stored song as the search by path and MusicBrainz identifier returns it.\<close>

record song_match =
  sm_ID :: string
  sm_Path :: string
  sm_MusicBrainzID :: "string option"
  sm_AlbumReleaseMBID :: "string option"
  sm_AlbumMusicBrainzID :: "string option"

record 'd song_repo =
  sr_TryUpdateAll :: "song_columns list \<Rightarrow> 'd \<Rightarrow> (go_error + nat) \<times> 'd"
  sr_FindNonExistentIDs :: "string list \<Rightarrow> 'd \<Rightarrow> go_error + string list"
  sr_FindAllByPathOrMBID :: "string list \<Rightarrow> string list \<Rightarrow> 'd \<Rightarrow> go_error + song_match list"
  sr_CreateAll :: "song_columns list \<Rightarrow> 'd \<Rightarrow> go_error option \<times> 'd"
  sr_DeleteArtistConnections :: "string list \<Rightarrow> 'd \<Rightarrow> go_error option \<times> 'd"
  sr_CreateArtistConnections :: "(string \<times> string \<times> nat) list \<Rightarrow> 'd \<Rightarrow> go_error option \<times> 'd"
  sr_CreateGenres :: "string list \<Rightarrow> 'd \<Rightarrow> go_error option \<times> 'd"
  sr_DeleteGenreConnections :: "string list \<Rightarrow> 'd \<Rightarrow> go_error option \<times> 'd"
  sr_CreateGenreConnections :: "(string \<times> string) list \<Rightarrow> 'd \<Rightarrow> go_error option \<times> 'd"

record 'd tx =
  tx_Artist :: "'d artist_repo"
  tx_Album :: "'d album_repo"
  tx_Song :: "'d song_repo"

text \<open>The state of a scan these functions use; \<open>sn_generated\<close> counts the identifiers generated.\<close>

record 'd scanner =
  sn_fullScan :: bool
  sn_firstScan :: bool
  sn_lastScan :: int
  sn_setAlbumCoverClosed :: bool
  sn_artists :: artistMap
  sn_albums :: albumMap
  sn_covers :: "albumCover list"
  sn_generated :: nat
  sn_db :: 'd

section \<open>From a file to a song\<close>

definition song_of_media :: "mediaFile \<Rightarrow> song" where
  "song_of_media m =
     \<lparr> sg_id = mf_id m, sg_hasIDTag = (mf_id m \<noteq> None), sg_path = mf_path m, sg_size = mf_size m,
       sg_contentType = mf_contentType m, sg_lastModified = mf_lastModified m, sg_bitrate = mf_bitrate m,
       sg_channels = mf_channels m, sg_lengthMS = mf_lengthMS m, sg_sampleRate = mf_sampleRate m,
       sg_title = mf_title m, sg_albumID = None, sg_albumName = None, sg_artistNames = mf_artistNames m,
       sg_artistIDs = [], sg_bpm = mf_bpm m, sg_originalDate = mf_originalDate m, sg_releaseDate = mf_releaseDate m,
       sg_track = mf_track m, sg_disc = mf_disc m, sg_genres = mf_genres m, sg_musicBrainzID = mf_musicBrainzID m,
       sg_albumMusicBrainzID = mf_albumMBID m, sg_albumReleaseMusicBrainzID = mf_albumReleaseMBID m,
       sg_replayGain = mf_replayGain m, sg_replayGainPeak = mf_replayGainPeak m, sg_lyrics = mf_lyrics m,
       sg_musicFolderID = mf_musicFolderID m \<rparr>"

text \<open>The loop over artist names; names without an identifier at their position have none.\<close>

fun resolve_artists ::
  "'d tx \<Rightarrow> int \<Rightarrow> string list \<Rightarrow> string list \<Rightarrow> 'd scanner \<Rightarrow> (go_error + string list) \<times> 'd scanner" where
  "resolve_artists t folder [] mbids s = (Inr [], s)"
| "resolve_artists t folder (name # names) mbids s =
     (case artists_findOrCreate (sn_fullScan s) (tx_Artist t) name (case mbids of [] \<Rightarrow> None | b # _ \<Rightarrow> Some b)
             folder (sn_artists s) (sn_db s) of
        (res, m, d) \<Rightarrow>
          (let s1 = s\<lparr> sn_artists := m, sn_db := d \<rparr>
           in case res of Inl e \<Rightarrow> (Inl e, s1)
              | Inr aid \<Rightarrow> (case resolve_artists t folder names (tl mbids) s1 of
                              (Inl e, s2) \<Rightarrow> (Inl e, s2) | (Inr ids, s2) \<Rightarrow> (Inr (aid # ids), s2))))"

definition album_params :: "mediaFile \<Rightarrow> string list \<Rightarrow> findOrCreateAlbumParams" where
  "album_params m ids =
     \<lparr> fp_mbid = mf_albumMBID m, fp_releaseMBID = mf_albumReleaseMBID m, fp_originalDate = mf_originalDate m,
       fp_releaseDate = mf_releaseDate m, fp_recordLabels = mf_recordLabels m, fp_releaseTypes = mf_releaseTypes m,
       fp_isCompilation = Some (mf_isCompilation m), fp_replayGain = mf_albumReplayGain m,
       fp_replayGainPeak = mf_albumReplayGainPeak m,
       fp_artists = map (\<lambda>(i, a). \<lparr> pa_id = i, pa_name = a, pa_musicFolderId = mf_musicFolderID m \<rparr>) (zip ids (mf_albumArtistNames m)),
       fp_cover = mf_cover m, fp_songPath = mf_path m, fp_version = mf_albumVersion m, fp_musicFolderId = mf_musicFolderID m \<rparr>"

definition resolve_album :: "'d tx \<Rightarrow> mediaFile \<Rightarrow> string list \<Rightarrow> song \<Rightarrow> 'd scanner \<Rightarrow> (go_error + song) \<times> 'd scanner" where
  "resolve_album t m ids sg s =
     (case mf_albumName m of None \<Rightarrow> (Inr sg, s)
      | Some name \<Rightarrow>
          (case albums_findOrCreate (sn_fullScan s) (sn_setAlbumCoverClosed s) (tx_Album t) name (album_params m ids)
                  (sn_albums s) (sn_db s) of
             (Inl e, am, d, cs) \<Rightarrow>
               (Inl (EWrap ''find or create album'' e), s\<lparr> sn_albums := am, sn_db := d, sn_covers := sn_covers s @ cs \<rparr>)
           | (Inr i, am, d, cs) \<Rightarrow>
               (case (case mf_disc m of None \<Rightarrow> (None, am, d)
                      | Some disc \<Rightarrow> updateDiscTitle (tx_Album t) name i disc (mf_discTitle m) am d) of
                  (err, am', d') \<Rightarrow>
                    (let s' = s\<lparr> sn_albums := am', sn_db := d', sn_covers := sn_covers s @ cs \<rparr>
                     in case err of Some e \<Rightarrow> (Inl (EWrap ''update disc title'' e), s')
                        | None \<Rightarrow> (Inr (sg\<lparr> sg_albumName := Some name, sg_albumID := Some (al_id (am' name ! i)) \<rparr>), s')))))"

definition prepare_song :: "'d tx \<Rightarrow> mediaFile \<Rightarrow> 'd scanner \<Rightarrow> (go_error + song) \<times> 'd scanner" where
  "prepare_song t m s =
     (case resolve_artists t (mf_musicFolderID m) (mf_artistNames m) (mf_artistMBIDs m) s of
        (Inl e, s1) \<Rightarrow> (Inl (EMsg (''find or create artist: '' @ Error_Error e)), s1)
      | (Inr ids, s1) \<Rightarrow>
          (case resolve_artists t (mf_musicFolderID m) (mf_albumArtistNames m) (mf_albumArtistMBIDs m) s1 of
             (Inl e, s2) \<Rightarrow> (Inl (EMsg (''find or create album artist: '' @ Error_Error e)), s2)
           | (Inr aids, s2) \<Rightarrow> resolve_album t m aids ((song_of_media m)\<lparr> sg_artistIDs := ids \<rparr>) s2))"

fun prepare_songs :: "'d tx \<Rightarrow> mediaFile list \<Rightarrow> 'd scanner \<Rightarrow> (go_error + song list) \<times> 'd scanner" where
  "prepare_songs t [] s = (Inr [], s)"
| "prepare_songs t (m # ms) s =
     (case prepare_song t m s of (Inl e, s1) \<Rightarrow> (Inl e, s1)
      | (Inr sg, s1) \<Rightarrow>
          (case prepare_songs t ms s1 of (Inl e, s2) \<Rightarrow> (Inl e, s2) | (Inr sgs, s2) \<Rightarrow> (Inr (sg # sgs), s2)))"

section \<open>Updating and creating\<close>

text \<open>The columns of a song; it must have an identifier, the code dereferences the pointer.\<close>

definition columns_of :: "song \<Rightarrow> song_columns" where
  "columns_of sg =
     \<lparr> sc_ID = the (sg_id sg), sc_Path = sg_path sg, sc_AlbumID = sg_albumID sg, sc_Title = sg_title sg,
       sc_Track = sg_track sg, sc_OriginalDate = sg_originalDate sg, sc_ReleaseDate = sg_releaseDate sg,
       sc_Size = sg_size sg, sc_ContentType = sg_contentType sg, sc_Duration = NewDurationMS (word_of_int (sg_lengthMS sg)),
       sc_BitRate = sg_bitrate sg, sc_SamplingRate = sg_sampleRate sg, sc_ChannelCount = sg_channels sg,
       sc_Disc = sg_disc sg, sc_BPM = sg_bpm sg, sc_MusicBrainzID = sg_musicBrainzID sg,
       sc_ReplayGain = sg_replayGain sg, sc_ReplayGainPeak = sg_replayGainPeak sg, sc_Lyrics = sg_lyrics sg,
       sc_AlbumName = sg_albumName sg, sc_ArtistNames = sg_artistNames sg, sc_MusicFolderID = sg_musicFolderID sg \<rparr>"

definition updateSongs ::
  "'d song_repo \<Rightarrow> song list \<Rightarrow> nat list \<Rightarrow> 'd \<Rightarrow> (go_error + nat list) \<times> 'd" where
  "updateSongs repo ss idx d =
     (case sr_TryUpdateAll repo (map (\<lambda>i. columns_of (ss ! i)) idx) d of
        (Inl e, d') \<Rightarrow> (Inl (EWrap ''try update all'' e), d')
      | (Inr n, d') \<Rightarrow>
          (if n = length idx then (Inr [], d')
           else case sr_FindNonExistentIDs repo (map (\<lambda>i. the (sg_id (ss ! i))) idx) d' of
             Inl e \<Rightarrow> (Inl (EWrap ''find non existent ids'' e), d')
           | Inr failedIDs \<Rightarrow> (Inr (filter (\<lambda>i. the (sg_id (ss ! i)) \<in> set failedIDs) idx), d')))"

fun assign_ids :: "(nat \<Rightarrow> string) \<Rightarrow> nat list \<Rightarrow> nat \<Rightarrow> song list \<Rightarrow> song list \<times> nat" where
  "assign_ids gen [] n ss = (ss, n)"
| "assign_ids gen (i # is) n ss =
     assign_ids gen is (Suc n) (ss[i := (ss ! i)\<lparr> sg_id := Some (GenIDSong (gen n)), sg_hasIDTag := False \<rparr>])"

definition createSongsInDB ::
  "(nat \<Rightarrow> string) \<Rightarrow> 'd song_repo \<Rightarrow> nat list \<Rightarrow> song list \<Rightarrow> nat \<Rightarrow> 'd \<Rightarrow> go_error option \<times> song list \<times> nat \<times> 'd" where
  "createSongsInDB gen repo idx ss n d =
     (let (ss', n') = assign_ids gen idx n ss
      in case sr_CreateAll repo (map (\<lambda>i. columns_of (ss' ! i)) idx) d of
           (err, d') \<Rightarrow> (map_option (EWrap ''create all'') err, ss', n', d'))"

text \<open>The last match wins for a path; all matches of a recording are kept in order.\<close>

definition path_match :: "song_match list \<Rightarrow> string \<Rightarrow> string option" where
  "path_match ms p = map_option sm_ID (find (\<lambda>m. sm_Path m = p) (rev ms))"

definition mbid_matches :: "song_match list \<Rightarrow> string \<Rightarrow> song_match list" where
  "mbid_matches ms b = filter (\<lambda>m. sm_MusicBrainzID m = Some b) ms"

definition match_song :: "song_match list \<Rightarrow> song \<Rightarrow> string option" where
  "match_song ms sg =
     (case path_match ms (sg_path sg) of Some i \<Rightarrow> Some i
      | None \<Rightarrow>
          (case sg_musicBrainzID sg of None \<Rightarrow> None
           | Some b \<Rightarrow>
               (case (if sg_albumReleaseMusicBrainzID sg \<noteq> None
                      then find (\<lambda>m. EqPtrVals (=) (sm_AlbumReleaseMBID m) (sg_albumReleaseMusicBrainzID sg)) (mbid_matches ms b)
                      else None) of
                  Some m \<Rightarrow> Some (sm_ID m)
                | None \<Rightarrow> map_option sm_ID
                    (find (\<lambda>m. sm_AlbumReleaseMBID m = None \<and> EqPtrVals (=) (sm_AlbumMusicBrainzID m) (sg_albumMusicBrainzID sg))
                       (mbid_matches ms b)))))"

text \<open>The songs left to create, those to update, and the songs with the identifiers they matched.\<close>

fun match_songs :: "song_match list \<Rightarrow> nat list \<Rightarrow> song list \<Rightarrow> nat list \<times> nat list \<times> song list" where
  "match_songs ms [] ss = ([], [], ss)"
| "match_songs ms (i # is) ss =
     (case match_song ms (ss ! i) of
        Some sid \<Rightarrow> (case match_songs ms is (ss[i := (ss ! i)\<lparr> sg_id := Some sid \<rparr>]) of (c, u, ss') \<Rightarrow> (c, i # u, ss'))
      | None \<Rightarrow> (case match_songs ms is ss of (c, u, ss') \<Rightarrow> (i # c, u, ss')))"

definition createSongs ::
  "(nat \<Rightarrow> string) \<Rightarrow> bool \<Rightarrow> 'd song_repo \<Rightarrow> nat list \<Rightarrow> song list \<Rightarrow> nat \<Rightarrow> 'd \<Rightarrow> go_error option \<times> song list \<times> nat \<times> 'd" where
  "createSongs gen firstScan repo idx ss n d =
     (if firstScan
      then (case createSongsInDB gen repo idx ss n d of
              (err, rest) \<Rightarrow> (map_option (EWrap ''create songs in db'') err, rest))
      else let paths = map (\<lambda>i. sg_path (ss ! i)) idx;
               mbids = List.map_filter (\<lambda>i. sg_musicBrainzID (ss ! i)) idx
           in case sr_FindAllByPathOrMBID repo paths mbids d of
                Inl e \<Rightarrow> (Some (EWrap ''find all by path or mbid'' e), ss, n, d)
              | Inr matches \<Rightarrow>
                  (case match_songs matches idx ss of
                     (create, update, ss1) \<Rightarrow>
                       (case updateSongs repo ss1 update d of
                          (Inl e, d1) \<Rightarrow> (Some (EWrap ''update songs'' e), ss1, n, d1)
                        | (Inr failed, d1) \<Rightarrow>
                            (case createSongsInDB gen repo (create @ failed) ss1 n d1 of
                               (err, rest) \<Rightarrow> (map_option (EWrap ''create songs in db'') err, rest)))))"


section \<open>A batch\<close>

text \<open>
  The songs without and with an identifier are created and updated; those whose identifier is unknown
  are created as well. The result is the store of songs with the identifiers they got.
\<close>

definition to_create :: "song list \<Rightarrow> nat list" where
  "to_create ss = filter (\<lambda>i. sg_id (ss ! i) = None) [0..<length ss]"

definition to_update :: "song list \<Rightarrow> nat list" where
  "to_update ss = filter (\<lambda>i. sg_id (ss ! i) \<noteq> None) [0..<length ss]"

definition store_songs ::
  "(nat \<Rightarrow> string) \<Rightarrow> bool \<Rightarrow> 'd song_repo \<Rightarrow> song list \<Rightarrow> nat \<Rightarrow> 'd \<Rightarrow> go_error option \<times> song list \<times> nat \<times> 'd" where
  "store_songs gen firstScan repo ss n d =
     (case updateSongs repo ss (to_update ss) d of
        (Inl e, d1) \<Rightarrow> (Some (EWrap ''update songs'' e), ss, n, d1)
      | (Inr failed, d1) \<Rightarrow>
          (case createSongs gen firstScan repo (to_create ss @ failed) ss n d1 of
             (err, rest) \<Rightarrow> (map_option (EWrap ''create songs'') err, rest)))"

definition then_do :: "string \<Rightarrow> go_error option \<times> 'd \<Rightarrow> ('d \<Rightarrow> go_error option \<times> 'd) \<Rightarrow> go_error option \<times> 'd" where
  "then_do msg res k = (case res of (Some e, d) \<Rightarrow> (Some (EWrap msg e), d) | (None, d) \<Rightarrow> k d)"

definition add_genre :: "string \<Rightarrow> (string \<times> string list) list \<Rightarrow> string \<Rightarrow> (string \<times> string list) list" where
  "add_genre sid gs g = AList.update g ((case map_of gs g of None \<Rightarrow> [] | Some ids \<Rightarrow> ids) @ [sid]) gs"

definition genre_map :: "song list \<Rightarrow> (string \<times> string list) list" where
  "genre_map changed = foldl (\<lambda>gs sg. foldl (add_genre (the (sg_id sg))) gs (sg_genres sg)) [] changed"

definition song_artist_conns :: "song list \<Rightarrow> (string \<times> string \<times> nat) list" where
  "song_artist_conns changed =
     concat (map (\<lambda>sg. map (\<lambda>(i, a). (the (sg_id sg), a, i)) (enumerate 0 (sg_artistIDs sg))) changed)"

definition song_genre_conns :: "(string \<times> string list) list \<Rightarrow> (string \<times> string) list" where
  "song_genre_conns gs = concat (map (\<lambda>(g, ids). map (\<lambda>sid. (sid, g)) ids) gs)"

definition write_connections :: "'d song_repo \<Rightarrow> song list \<Rightarrow> 'd \<Rightarrow> go_error option \<times> 'd" where
  "write_connections repo changed d =
     (if changed = [] then (None, d)
      else let ids = map (\<lambda>sg. the (sg_id sg)) changed; gs = genre_map changed
           in then_do ''delete artist connections'' (sr_DeleteArtistConnections repo ids d) (\<lambda>d.
              then_do ''create artist connections'' (sr_CreateArtistConnections repo (song_artist_conns changed) d) (\<lambda>d.
              then_do ''create genres'' (sr_CreateGenres repo (map fst gs) d) (\<lambda>d.
              then_do ''delete genre connections'' (sr_DeleteGenreConnections repo ids d) (\<lambda>d.
              then_do ''create genre connections'' (sr_CreateGenreConnections repo (song_genre_conns gs) d) (\<lambda>d. (None, d)))))))"

text \<open>The result: the error, the songs sent to the workers that write tags, and the state.\<close>

definition createOrUpdateSongs ::
  "(nat \<Rightarrow> string) \<Rightarrow> 'd tx \<Rightarrow> mediaFile list \<Rightarrow> 'd scanner \<Rightarrow> go_error option \<times> song list \<times> 'd scanner" where
  "createOrUpdateSongs gen t media s =
     (case prepare_songs t media s of (Inl e, s1) \<Rightarrow> (Some e, [], s1)
      | (Inr ss, s1) \<Rightarrow>
          (case store_songs gen (sn_firstScan s) (tx_Song t) ss (sn_generated s1) (sn_db s1) of
             (err, ss', n, d) \<Rightarrow>
               (let s2 = s1\<lparr> sn_generated := n, sn_db := d \<rparr>
                in case err of Some e \<Rightarrow> (Some e, [], s2)
                   | None \<Rightarrow>
                       (let files = filter (\<lambda>sg. \<not> sg_hasIDTag sg) (map ((!) ss') (to_update ss @ to_create ss));
                            changed = filter (\<lambda>sg. sg_lastModified sg > sn_lastScan s) (map ((!) ss') (to_create ss @ to_update ss))
                        in case write_connections (tx_Song t) changed d of
                             (err', d') \<Rightarrow> (err', files, s2\<lparr> sn_db := d' \<rparr>)))))"

section \<open>Workers and the loop\<close>

text \<open>
  A worker writes the identifier into the file and drops the transcodes of a changed file from the
  cache; \<open>order\<close> lists the keys of the cache.
\<close>

fun clear_song_cache :: "io_env \<Rightarrow> string \<Rightarrow> string list \<Rightarrow> sys \<Rightarrow> cache_error option \<times> sys" where
  "clear_song_cache io sid [] c = (None, c)"
| "clear_song_cache io sid (key # keys) c =
     (if prefix sid key
      then (case DeleteObject io key c of (Some e, c') \<Rightarrow> (Some e, c') | (None, c') \<Rightarrow> clear_song_cache io sid keys c')
      else clear_song_cache io sid keys c)"

definition setCrossonicID :: "(string \<Rightarrow> string \<Rightarrow> string \<Rightarrow> bool) \<Rightarrow> string \<Rightarrow> string \<Rightarrow> string \<Rightarrow> go_error option" where
  "setCrossonicID WriteTag instanceID p sid =
     (if WriteTag p (''crossonic_id_'' @ instanceID) sid then None else Some (EMsg ''write failed''))"

definition update_song_file ::
  "(string \<Rightarrow> string \<Rightarrow> string \<Rightarrow> bool) \<Rightarrow> string \<Rightarrow> io_env \<Rightarrow> string list \<Rightarrow> int \<Rightarrow> song \<Rightarrow> sys \<Rightarrow> go_error option \<times> sys" where
  "update_song_file WriteTag instanceID io order lastScan sg c =
     (case setCrossonicID WriteTag instanceID (sg_path sg) (the (sg_id sg)) of
        Some e \<Rightarrow> (Some (EWrap ''write crossonic id to file'' e), c)
      | None \<Rightarrow>
          if sg_lastModified sg > lastScan
          then (case clear_song_cache io (the (sg_id sg)) (Keys order c) c of
                  (Some e, c') \<Rightarrow> (Some (EWrap (''clear cache for song '' @ the (sg_id sg)) (EMsg ''cache'')), c')
                | (None, c') \<Rightarrow> (None, c'))
          else (None, c))"

definition songQueueBatchSize :: nat where
  "songQueueBatchSize = 100"

text \<open>
  The loop over the queue. \<open>process\<close> stores a batch; \<open>err_seen k\<close> tells whether the error of a worker is
  visible when the loop has taken \<open>k\<close> songs, in which case it stops.
\<close>

fun runSaveSongsLoop ::
  "('m list \<Rightarrow> 's \<Rightarrow> go_error option \<times> 's) \<Rightarrow> (nat \<Rightarrow> bool) \<Rightarrow> nat \<Rightarrow> 'm list \<Rightarrow> 'm list \<Rightarrow> 's \<Rightarrow> go_error option \<times> 's" where
  "runSaveSongsLoop process err_seen k songs [] s =
     (if err_seen k then (None, s)
      else case process songs s of (err, s') \<Rightarrow> (map_option (EWrap ''create or update songs'') err, s'))"
| "runSaveSongsLoop process err_seen k songs (m # ms) s =
     (if err_seen k then (None, s)
      else if length (songs @ [m]) = songQueueBatchSize
           then (case process (songs @ [m]) s of
                   (Some e, s') \<Rightarrow> (Some (EWrap ''create or update songs'' e), s')
                 | (None, s') \<Rightarrow> runSaveSongsLoop process err_seen (Suc k) [] ms s')
           else runSaveSongsLoop process err_seen (Suc k) (songs @ [m]) ms s)"

text \<open>The reference: cut the queue into batches and store them one after the other.\<close>

function batches :: "nat \<Rightarrow> 'm list \<Rightarrow> 'm list list" where
  "batches n ms = (if n = 0 \<or> length ms < n then [ms] else take n ms # batches n (drop n ms))"
  by auto
termination by (relation "measure (\<lambda>(n, ms). length ms)") auto

declare batches.simps [simp del]

fun store_batches :: "('m list \<Rightarrow> 's \<Rightarrow> go_error option \<times> 's) \<Rightarrow> 'm list list \<Rightarrow> 's \<Rightarrow> go_error option \<times> 's" where
  "store_batches process [] s = (None, s)"
| "store_batches process (b # bs) s =
     (case process b s of
        (Some e, s') \<Rightarrow> (Some (EWrap ''create or update songs'' e), s')
      | (None, s') \<Rightarrow> store_batches process bs s')"

lemma concat_batches: "concat (batches n ms) = ms"
proof (induction n ms rule: batches.induct)
  case (1 n ms)
  then show ?case by (subst batches.simps) simp
qed

lemma batches_size: "0 < n \<Longrightarrow> b \<in> set (batches n ms) \<Longrightarrow> length b \<le> n"
proof (induction n ms rule: batches.induct)
  case (1 n ms)
  then show ?case by (subst (asm) (2) batches.simps) (auto split: if_splits)
qed

lemma save_loop_batches:
  assumes "\<And>k. \<not> err_seen k" "length songs < songQueueBatchSize"
  shows "runSaveSongsLoop process err_seen k songs ms s = store_batches process (batches songQueueBatchSize (songs @ ms)) s"
  using assms
proof (induction process err_seen k songs ms s rule: runSaveSongsLoop.induct)
  case (1 process err_seen k songs s)
  then show ?case by (subst batches.simps) (simp split: prod.split option.split)
next
  case (2 process err_seen k songs m ms s)
  show ?case
  proof (cases "length (songs @ [m]) = songQueueBatchSize")
    case True
    have "batches songQueueBatchSize (songs @ m # ms) = (songs @ [m]) # batches songQueueBatchSize ms"
      using True by (subst batches.simps) (auto simp: songQueueBatchSize_def)
    then show ?thesis using 2 True
      by (auto simp: songQueueBatchSize_def split: prod.split option.split)
  next
    case False
    then have "length (songs @ [m]) < songQueueBatchSize" using "2.prems"(2) by simp
    then show ?thesis using 2 False by simp
  qed
qed

text \<open>
  The loop that stores the scanned files stores every file once. Unless a worker fails, taking the
  files from the queue one by one, storing them whenever there are a hundred and storing the rest at the
  end is the same as cutting the queue into consecutive batches of at most a hundred files that together
  are the queue, and storing these until one of them fails.
\<close>

lemma save_loop_stores_all:
  assumes "\<And>k. \<not> err_seen k"
  shows "runSaveSongsLoop process err_seen 0 [] ms s = store_batches process (batches 100 ms) s
    \<and> concat (batches 100 ms) = ms \<and> list_all (\<lambda>b. length b \<le> 100) (batches 100 ms)"
  using save_loop_batches [of err_seen "[]" process 0 ms s] assms concat_batches [of 100 ms] batches_size [of 100 _ ms]
  by (simp add: songQueueBatchSize_def list_all_iff)

lemma save_loop_stores_all_example:
  "runSaveSongsLoop (\<lambda>b n. (None, length b # n)) (\<lambda>_. False) 0 [] [1::nat, 2, 3] [] = (None, [3])
    \<and> concat (batches 100 [1::nat, 2, 3]) = [1, 2, 3]"
proof -
  have n: "\<And>k::nat. \<not> (\<lambda>_. False) k" by simp
  have "batches 100 [1::nat, 2, 3] = [[1, 2, 3]]" by (subst batches.simps) simp
  with save_loop_stores_all [OF n, of "\<lambda>b n. (None, length b # n)" "[1::nat, 2, 3]" "[]"] show ?thesis by simp
qed


section \<open>Identifiers\<close>

text \<open>Songs that differ at most in their identifier and in whether the file carries it.\<close>

definition same_data :: "song \<Rightarrow> song \<Rightarrow> bool" where
  "same_data a b \<longleftrightarrow> b\<lparr> sg_id := sg_id a, sg_hasIDTag := sg_hasIDTag a \<rparr> = a"

lemma same_data_refl [simp]: "same_data a a"
  by (simp add: same_data_def)

lemma same_data_iff:
  "same_data a b \<longleftrightarrow> a\<lparr> sg_id := None, sg_hasIDTag := False \<rparr> = b\<lparr> sg_id := None, sg_hasIDTag := False \<rparr>"
  by (cases a; cases b) (auto simp: same_data_def)

lemma same_data_trans: "same_data a b \<Longrightarrow> same_data b c \<Longrightarrow> same_data a c"
  by (simp add: same_data_iff)

lemma same_data_update [simp]:
  "same_data a (a\<lparr> sg_id := i \<rparr>)" "same_data a (a\<lparr> sg_id := i, sg_hasIDTag := t \<rparr>)"
  by (simp_all add: same_data_iff)

lemma assign_ids_spec:
  assumes "assign_ids gen idx n ss = (ss', n')" "i < length ss"
  shows "length ss' = length ss" "same_data (ss ! i) (ss' ! i)"
    "i \<notin> set idx \<Longrightarrow> ss' ! i = ss ! i" "i \<in> set idx \<Longrightarrow> sg_id (ss' ! i) \<noteq> None \<and> \<not> sg_hasIDTag (ss' ! i)"
proof -
  have "length ss' = length ss \<and> same_data (ss ! i) (ss' ! i) \<and> (i \<notin> set idx \<longrightarrow> ss' ! i = ss ! i)
      \<and> (i \<in> set idx \<or> sg_id (ss ! i) \<noteq> None \<and> \<not> sg_hasIDTag (ss ! i) \<longrightarrow> sg_id (ss' ! i) \<noteq> None \<and> \<not> sg_hasIDTag (ss' ! i))"
    using assms
  proof (induction gen idx n ss rule: assign_ids.induct)
    case (2 gen j js n ss)
    let ?t = "ss[j := (ss ! j)\<lparr> sg_id := Some (GenIDSong (gen n)), sg_hasIDTag := False \<rparr>]"
    have "same_data (ss ! i) (?t ! i)" using "2.prems"(2) by (cases "i = j") simp_all
    note t = same_data_trans [OF this]
    show ?case using 2 t by (cases "i = j") auto
  qed simp
  then show "length ss' = length ss" "same_data (ss ! i) (ss' ! i)"
    "i \<notin> set idx \<Longrightarrow> ss' ! i = ss ! i" "i \<in> set idx \<Longrightarrow> sg_id (ss' ! i) \<noteq> None \<and> \<not> sg_hasIDTag (ss' ! i)" by auto
qed

lemma match_songs_spec:
  assumes "match_songs ms idx ss = (c, u, ss')"
  shows "set c \<union> set u = set idx" "length ss' = length ss"
    "i < length ss \<Longrightarrow> same_data (ss ! i) (ss' ! i)" "i < length ss \<Longrightarrow> i \<notin> set u \<Longrightarrow> ss' ! i = ss ! i"
    "i < length ss \<Longrightarrow> i \<in> set u \<Longrightarrow> sg_id (ss' ! i) \<noteq> None"
proof -
  have "set c \<union> set u = set idx \<and> length ss' = length ss
      \<and> (i < length ss \<longrightarrow> same_data (ss ! i) (ss' ! i) \<and> (i \<notin> set u \<longrightarrow> ss' ! i = ss ! i)
         \<and> (i \<in> set u \<or> sg_id (ss ! i) \<noteq> None \<longrightarrow> sg_id (ss' ! i) \<noteq> None))"
    using assms
  proof (induction ms idx ss arbitrary: c u ss' rule: match_songs.induct)
    case (2 ms j js ss)
    show ?case
    proof (cases "match_song ms (ss ! j)")
      case None
      obtain c1 u1 s1 where r: "match_songs ms js ss = (c1, u1, s1)" by (cases "match_songs ms js ss") auto
      have eq: "c = j # c1" "u = u1" "ss' = s1" using "2.prems" None r by simp_all
      note ih = "2.IH"(1) [OF None r]
      show ?thesis using ih unfolding eq by (elim conjE) (intro conjI, auto)
    next
      case (Some sid)
      let ?t = "ss[j := (ss ! j)\<lparr> sg_id := Some sid \<rparr>]"
      obtain c1 u1 s1 where r: "match_songs ms js ?t = (c1, u1, s1)" by (cases "match_songs ms js ?t") auto
      have t: "same_data (ss ! i) (?t ! i)" if "i < length ss" using that by (cases "i = j") simp_all
      have eq: "c = c1" "u = j # u1" "ss' = s1" using "2.prems" Some r by simp_all
      note ih = "2.IH"(2) [OF Some r]
      have sd: "same_data (ss ! i) (s1 ! i)" if l: "i < length ss"
      proof (rule same_data_trans [OF t [OF l]])
        show "same_data (?t ! i) (s1 ! i)" using ih l by simp
      qed
      show ?thesis
      proof (cases "i = j")
        case True
        then show ?thesis using ih sd unfolding eq by auto
      next
        case False
        then have "?t ! i = ss ! i" by simp
        then show ?thesis using ih sd False unfolding eq by auto
      qed
    qed
  qed simp
  then show "set c \<union> set u = set idx" "length ss' = length ss"
    "i < length ss \<Longrightarrow> same_data (ss ! i) (ss' ! i)" "i < length ss \<Longrightarrow> i \<notin> set u \<Longrightarrow> ss' ! i = ss ! i"
    "i < length ss \<Longrightarrow> i \<in> set u \<Longrightarrow> sg_id (ss' ! i) \<noteq> None" by auto
qed


lemma match_songs_tag:
  "match_songs ms idx ss = (c, u, ss') \<Longrightarrow> i < length ss \<Longrightarrow> sg_hasIDTag (ss' ! i) = sg_hasIDTag (ss ! i)"
proof (induction ms idx ss arbitrary: c u ss' rule: match_songs.induct)
  case (2 ms j js ss)
  then show ?case
    by (cases "match_song ms (ss ! j)"; cases "i = j") (auto split: prod.splits)
qed simp

lemma createSongsInDB_spec:
  assumes "createSongsInDB gen repo idx ss n d = (None, ss', n', d')" "i < length ss"
  shows "length ss' = length ss" "same_data (ss ! i) (ss' ! i)" "i \<notin> set idx \<Longrightarrow> ss' ! i = ss ! i"
    "i \<in> set idx \<Longrightarrow> sg_id (ss' ! i) \<noteq> None \<and> \<not> sg_hasIDTag (ss' ! i)"
proof -
  obtain m where "assign_ids gen idx n ss = (ss', m)"
    using assms(1) by (auto simp: createSongsInDB_def split: prod.splits)
  note spec = assign_ids_spec [OF this assms(2)]
  show "length ss' = length ss" "same_data (ss ! i) (ss' ! i)" by (rule spec(1), rule spec(2))
  show "i \<notin> set idx \<Longrightarrow> ss' ! i = ss ! i" "i \<in> set idx \<Longrightarrow> sg_id (ss' ! i) \<noteq> None \<and> \<not> sg_hasIDTag (ss' ! i)"
    by (erule spec(3), erule spec(4))
qed

lemma updateSongs_subset: "updateSongs repo ss idx d = (Inr failed, d') \<Longrightarrow> set failed \<subseteq> set idx"
  by (auto simp: updateSongs_def split: sum.splits prod.splits if_splits)

lemma createSongs_spec:
  assumes "createSongs gen first repo idx ss n d = (None, ss', n', d')" "i < length ss"
  shows "length ss' = length ss" "same_data (ss ! i) (ss' ! i)" "i \<notin> set idx \<Longrightarrow> ss' ! i = ss ! i"
    "i \<in> set idx \<Longrightarrow> sg_id (ss' ! i) \<noteq> None"
    "i \<in> set idx \<Longrightarrow> first \<or> \<not> sg_hasIDTag (ss ! i) \<Longrightarrow> \<not> sg_hasIDTag (ss' ! i)"
proof -
  have "length ss' = length ss \<and> same_data (ss ! i) (ss' ! i) \<and> (i \<notin> set idx \<longrightarrow> ss' ! i = ss ! i)
    \<and> (i \<in> set idx \<longrightarrow> sg_id (ss' ! i) \<noteq> None)
    \<and> (i \<in> set idx \<longrightarrow> first \<or> \<not> sg_hasIDTag (ss ! i) \<longrightarrow> \<not> sg_hasIDTag (ss' ! i))"
  proof (cases first)
    case True
    then have "createSongsInDB gen repo idx ss n d = (None, ss', n', d')"
      using assms(1) by (auto simp: createSongs_def split: prod.splits)
    from createSongsInDB_spec [OF this assms(2)] show ?thesis by blast
  next
    case False
    then obtain ms c u s1 failed d1 where m: "match_songs ms idx ss = (c, u, s1)" "updateSongs repo s1 u d = (Inr failed, d1)"
      "createSongsInDB gen repo (c @ failed) s1 n d1 = (None, ss', n', d')"
      using assms(1) by (auto simp: createSongs_def Let_def split: prod.splits sum.splits)
    note ms = match_songs_spec [OF m(1)] and fs = updateSongs_subset [OF m(2)]
    have l: "i < length s1" using ms(2) assms(2) by simp
    note cs = createSongsInDB_spec [OF m(3) l]
    have sd: "same_data (ss ! i) (ss' ! i)" by (rule same_data_trans [OF ms(3) [OF assms(2)] cs(2)])
    have tag: "sg_hasIDTag (s1 ! i) = sg_hasIDTag (ss ! i)" if "i \<notin> set u" using ms(4) [OF assms(2) that] by simp
    have keep: "sg_hasIDTag (s1 ! i) = sg_hasIDTag (ss ! i)" if "i \<in> set u" by (rule match_songs_tag [OF m(1) assms(2)])
    show ?thesis
    proof (cases "i \<in> set (c @ failed)")
      case True
      then show ?thesis using cs(1,4) ms(1,2) fs sd by auto
    next
      case F: False
      then have "ss' ! i = s1 ! i" by (rule cs(3))
      then show ?thesis using F cs(1) ms assms(2) sd tag keep \<open>\<not> first\<close> by (cases "i \<in> set u") auto
    qed
  qed
  then show "length ss' = length ss" "same_data (ss ! i) (ss' ! i)" "i \<notin> set idx \<Longrightarrow> ss' ! i = ss ! i"
    "i \<in> set idx \<Longrightarrow> sg_id (ss' ! i) \<noteq> None"
    "i \<in> set idx \<Longrightarrow> first \<or> \<not> sg_hasIDTag (ss ! i) \<Longrightarrow> \<not> sg_hasIDTag (ss' ! i)" by blast+
qed

text \<open>
  C28: Every stored file ends up with the identifier of its song. When storing a batch succeeds, every
  song has an identifier, so none of the pointers read afterwards is nil, and nothing else of it has
  changed; a file without an identifier tag is marked for writing it; and in a first scan a file that is
  not marked has exactly the identifier in its tag.
\<close>

theorem stored_songs_have_ids:
  assumes "store_songs gen first repo ss n d = (None, ss', n', d')" "i < length ss"
  shows "length ss' = length ss \<and> same_data (ss ! i) (ss' ! i) \<and> sg_id (ss' ! i) \<noteq> None
    \<and> (sg_id (ss ! i) = None \<and> \<not> sg_hasIDTag (ss ! i) \<longrightarrow> \<not> sg_hasIDTag (ss' ! i))
    \<and> (first \<and> sg_hasIDTag (ss' ! i) \<longrightarrow> sg_id (ss' ! i) = sg_id (ss ! i))"
proof -
  obtain failed d1 where u: "updateSongs repo ss (to_update ss) d = (Inr failed, d1)"
    "createSongs gen first repo (to_create ss @ failed) ss n d1 = (None, ss', n', d')"
    using assms(1) by (auto simp: store_songs_def split: prod.splits sum.splits)
  have c: "i \<in> set (to_create ss) \<longleftrightarrow> sg_id (ss ! i) = None" using assms(2) by (simp add: to_create_def)
  note cs = createSongs_spec [OF u(2) assms(2)]
  show ?thesis
  proof (cases "i \<in> set (to_create ss @ failed)")
    case True
    then show ?thesis using cs(1,2,4,5) by blast
  next
    case False
    then show ?thesis using cs(1) cs(3) [OF False] c by auto
  qed
qed


text \<open>A database with one song, for examples: the identifier and path of its row.\<close>

definition wit_song_repo :: "(string \<times> string) song_repo" where
  "wit_song_repo = \<lparr> sr_TryUpdateAll = (\<lambda>cs d. (Inr (length (filter (\<lambda>c. sc_ID c = fst d) cs)), d)),
     sr_FindNonExistentIDs = (\<lambda>ids d. Inr (filter (\<lambda>i. i \<noteq> fst d) ids)),
     sr_FindAllByPathOrMBID = (\<lambda>ps bs d. Inr (if snd d \<in> set ps then [\<lparr> sm_ID = fst d, sm_Path = snd d, sm_MusicBrainzID = None,
        sm_AlbumReleaseMBID = None, sm_AlbumMusicBrainzID = None \<rparr>] else [])),
     sr_CreateAll = (\<lambda>_ d. (None, d)), sr_DeleteArtistConnections = (\<lambda>_ d. (None, d)),
     sr_CreateArtistConnections = (\<lambda>_ d. (None, d)), sr_CreateGenres = (\<lambda>_ d. (None, d)),
     sr_DeleteGenreConnections = (\<lambda>_ d. (None, d)), sr_CreateGenreConnections = (\<lambda>_ d. (None, d)) \<rparr>"

definition wit_song :: "string option \<Rightarrow> string \<Rightarrow> song" where
  "wit_song i p =
     \<lparr> sg_id = i, sg_hasIDTag = (i \<noteq> None), sg_path = p, sg_size = 1, sg_contentType = ''audio/flac'', sg_lastModified = 5,
       sg_bitrate = 900, sg_channels = 2, sg_lengthMS = 1000, sg_sampleRate = 44100, sg_title = ''t'', sg_albumID = None,
       sg_albumName = None, sg_artistNames = [], sg_artistIDs = [], sg_bpm = None, sg_originalDate = None,
       sg_releaseDate = None, sg_track = None, sg_disc = None, sg_genres = [], sg_musicBrainzID = None,
       sg_albumMusicBrainzID = None, sg_albumReleaseMusicBrainzID = None, sg_replayGain = None, sg_replayGainPeak = None,
       sg_lyrics = None, sg_musicFolderID = 1 \<rparr>"

theorem stored_songs_have_ids_witness:
  "\<exists>ss' n' d'. store_songs (\<lambda>n. ''abc'') False wit_song_repo [wit_song None ''/p'', wit_song None ''/q''] 0 (''tr_old'', ''/p'')
      = (None, ss', n', d') \<and> map sg_id ss' = [Some ''tr_old'', Some ''tr_abc''] \<and> \<not> sg_hasIDTag (ss' ! 1) \<and> sg_id (ss' ! 1) \<noteq> None"
proof -
  let ?h = "store_songs (\<lambda>n. ''abc'') False wit_song_repo [wit_song None ''/p'', wit_song None ''/q''] 0 (''tr_old'', ''/p'')"
  have "fst ?h = None" "map sg_id (fst (snd ?h)) = [Some ''tr_old'', Some ''tr_abc'']" by code_simp+
  then obtain ss' n' d' where h: "?h = (None, ss', n', d')" "map sg_id ss' = [Some ''tr_old'', Some ''tr_abc'']"
    by (metis prod.collapse)
  have "1 < length [wit_song None ''/p'', wit_song None ''/q'']" "\<not> sg_hasIDTag ([wit_song None ''/p'', wit_song None ''/q''] ! 1)"
    "sg_id ([wit_song None ''/p'', wit_song None ''/q''] ! 1) = None"
    by (simp_all add: wit_song_def)
  with stored_songs_have_ids [OF h(1), of 1] have "\<not> sg_hasIDTag (ss' ! 1)" "sg_id (ss' ! 1) \<noteq> None" by auto
  with h show ?thesis by (intro exI conjI)
qed

text \<open>
  A stale identifier tag is never repaired: when a file carries an identifier the database does not
  know but is found there by its path, the song keeps the identifier of the database while the file
  keeps the old tag and is not marked for writing.
\<close>

lemma stale_tag_kept:
  "map (\<lambda>sg. (sg_id sg, sg_hasIDTag sg))
     (fst (snd (store_songs (\<lambda>n. ''abc'') False wit_song_repo [wit_song (Some ''tr_gone'') ''/p''] 0 (''tr_old'', ''/p''))))
   = [(Some ''tr_old'', True)]
   \<and> fst (store_songs (\<lambda>n. ''abc'') False wit_song_repo [wit_song (Some ''tr_gone'') ''/p''] 0 (''tr_old'', ''/p'')) = None"
  by (rule conjI) code_simp+

end
