(* ===== verification/LastFM.thy ===== *)
theory LastFM
  imports Lyrics RepoErrors
begin

text \<open>
  The client of last.fm (\<open>lastfm/lastfm.go\<close>): requests that are repeated while the service asks to
  wait, the look-up of artists and albums with its fall back from identifiers to names, and the clean-up
  of descriptions. The service is a function from the parameters of a request and the number of
  answers given so far to the next answer; a response body is what the JSON decoder makes of it. A
  request that is repeated forever does not return, so requests are partial.
\<close>

section \<open>Requests\<close>

definition lErrUnexpectedResponseCode :: go_error where "lErrUnexpectedResponseCode = EMsg ''unexpected response code''"
definition lErrUnexpectedResponseBody :: go_error where "lErrUnexpectedResponseBody = EMsg ''unexpected response body''"
definition lErrUnauthenticated :: go_error where "lErrUnauthenticated = EMsg ''unauthenticated''"
definition lErrNotFound :: go_error where "lErrNotFound = EMsg ''not found''"

record 'o lfm_answer =
  la_Failed :: "go_error option"                       \<comment> \<open>the error of sending the request\<close>
  la_Status :: int
  la_Header :: "string \<Rightarrow> string"                      \<comment> \<open>empty if there is none\<close>
  la_Decoded :: bool                                   \<comment> \<open>the body is a JSON object\<close>
  la_Error :: "int option option"                      \<comment> \<open>the error key; \<open>Some None\<close> if it is no number\<close>
  la_Object :: "string \<Rightarrow> (go_error + 'o) option"      \<comment> \<open>the object under a key, or why it cannot be read\<close>

type_synonym lfm_params = "(string \<times> string list) list"

text \<open>
  How long a rate limited answer asks to wait, in seconds. \<open>until\<close> reads a date of the HTTP format and
  gives the seconds to it, rounded up.
\<close>

definition retry_seconds :: "(string \<Rightarrow> int option) \<Rightarrow> (string \<Rightarrow> string) \<Rightarrow> int" where
  "retry_seconds until_date header =
     (let s0 = header ''X-RateLimit-Reset-In'';
          s1 = (if s0 = [] then (let r = header ''Retry-After'' in if r = [] then ''1'' else r) else s0)
      in case atoi s1 of Inr n \<Rightarrow> n
         | Inl _ \<Rightarrow> (case until_date s1 of None \<Rightarrow> 1 | Some n \<Rightarrow> n))"

datatype 'o lfm_step = LDone "go_error + 'o" | LRetry int

definition lastFM_step :: "(string \<Rightarrow> int option) \<Rightarrow> string \<Rightarrow> 'o lfm_answer \<Rightarrow> 'o lfm_step" where
  "lastFM_step until_date responseKey ans =
     (let fail = (\<lambda>e. LDone (Inl (EWrap ''last.fm request'' e)))
      in case la_Failed ans of Some e \<Rightarrow> LDone (Inl (EWrap ''last.fm do request'' e))
         | None \<Rightarrow>
             if la_Status ans = 429 then LRetry (retry_seconds until_date (la_Header ans))
             else if la_Status ans = 401 then fail lErrUnauthenticated
             else if la_Status ans \<noteq> 200
                  then (if la_Status ans = 404 then fail lErrNotFound else fail lErrUnexpectedResponseCode)
             else if \<not> la_Decoded ans then fail lErrUnexpectedResponseBody
             else case la_Error ans of
                    Some None \<Rightarrow> fail lErrUnexpectedResponseBody
                  | Some (Some code) \<Rightarrow>
                      if code = 29 then LRetry 1
                      else if code = 6 then fail lErrNotFound
                      else fail lErrUnexpectedResponseCode
                  | None \<Rightarrow>
                      (case la_Object ans responseKey of
                         None \<Rightarrow> fail lErrUnexpectedResponseBody
                       | Some (Inl e) \<Rightarrow> fail lErrUnexpectedResponseBody
                       | Some (Inr obj) \<Rightarrow> LDone (Inr obj)))"

text \<open>
  \<open>answers ps k\<close> is the answer to a request with the parameters \<open>ps\<close> after \<open>k\<close> answers, \<open>cancelled k\<close>
  tells that the context ends during the wait after it. The result comes with the number of answers.
\<close>

partial_function (option) lastFMRequest ::
  "(string \<Rightarrow> int option) \<Rightarrow> (lfm_params \<Rightarrow> nat \<Rightarrow> 'o lfm_answer) \<Rightarrow> (nat \<Rightarrow> bool) \<Rightarrow> string \<Rightarrow> lfm_params \<Rightarrow> nat
     \<Rightarrow> ((go_error + 'o) \<times> nat) option" where
  "lastFMRequest until_date answers cancelled responseKey ps k =
     (case lastFM_step until_date responseKey (answers ps k) of
        LDone res \<Rightarrow> Some (res, Suc k)
      | LRetry seconds \<Rightarrow>
          if cancelled k then Some (Inl (EWrap ''last.fm request'' (EMsg ''context canceled'')), Suc k)
          else lastFMRequest until_date answers cancelled responseKey ps (Suc k))"

section \<open>Artists and albums\<close>

record lfm_info =
  li_Name :: string
  li_MBID :: "string option"
  li_URL :: "string option"
  li_Summary :: "string option"
  li_Content :: "string option"

text \<open>
  One pass over the runes of a description with the rune before: newlines become spaces, a space after
  a space is dropped, and so are the opening and closing tags of links.
\<close>

fun skip_tag :: "string list \<Rightarrow> string list" where
  "skip_tag [] = []"
| "skip_tag (r # rs) = (if r = ''>'' then rs else skip_tag rs)"

lemma length_skip_tag: "length (skip_tag rs) \<le> length rs"
  by (induction rs) auto

function clean_runes :: "string option \<Rightarrow> string list \<Rightarrow> string" where
  "clean_runes prev [] = []"
| "clean_runes prev (r # rs) =
     (let c = (if r = [CHR 0x0A] then '' '' else r)
      in if c = '' '' \<and> prev = Some '' '' then clean_runes (Some c) rs
         else if c = ''<'' \<and> rs \<noteq> [] \<and> (hd rs = ''a'' \<or> hd rs = ''/'' \<and> tl rs \<noteq> [] \<and> hd (tl rs) = ''a'')
              then clean_runes (Some ''>'') (skip_tag rs)
         else c @ clean_runes (Some c) rs)"
  by pat_completeness auto
termination
  by (relation "measure (\<lambda>(_, rs). length rs)") (auto simp: le_imp_less_Suc length_skip_tag)

definition lastFM_notice :: string where
  "lastFM_notice = ''Read more on Last.fm. User-contributed text is available under the Creative Commons By-SA License; additional terms may apply.''"

definition cleanUpLastFmDescription :: "string \<Rightarrow> string" where
  "cleanUpLastFmDescription description =
     trim_space (trim_suffix (clean_runes None (runes description)) lastFM_notice)"

definition clean_info :: "lfm_info \<Rightarrow> lfm_info" where
  "clean_info i = i\<lparr> li_Content := map_option cleanUpLastFmDescription (li_Content i) \<rparr>"

definition autocorrect :: "lfm_params \<Rightarrow> lfm_params" where
  "autocorrect ps = ps @ [(''autocorrect'', [''1''])]"

definition GetArtistInfo ::
  "(string \<Rightarrow> int option) \<Rightarrow> (lfm_params \<Rightarrow> nat \<Rightarrow> lfm_info lfm_answer) \<Rightarrow> (nat \<Rightarrow> bool) \<Rightarrow> string \<Rightarrow> string option \<Rightarrow> nat
     \<Rightarrow> ((go_error + lfm_info) \<times> nat) option" where
  "GetArtistInfo until_date answers cancelled name mbid k =
     (let req = lastFMRequest until_date answers cancelled ''artist'';
          by_name = autocorrect [(''artist'', [name])];
          ps = (case mbid of Some b \<Rightarrow> autocorrect [(''mbid'', [b])] | None \<Rightarrow> by_name)
      in case req ps k of None \<Rightarrow> None
         | Some (res, k1) \<Rightarrow>
             (case (if mbid \<noteq> None \<and> (case res of Inl e \<Rightarrow> errors_Is e lErrNotFound | Inr _ \<Rightarrow> False) then req by_name k1 else Some (res, k1)) of
                None \<Rightarrow> None
              | Some (Inl e, k2) \<Rightarrow> Some (Inl (EWrap ''get artist info'' e), k2)
              | Some (Inr i, k2) \<Rightarrow> Some (Inr (clean_info i), k2)))"

text \<open>For albums the second attempt is also made when the first one was by name.\<close>

definition GetAlbumInfo ::
  "(string \<Rightarrow> int option) \<Rightarrow> (lfm_params \<Rightarrow> nat \<Rightarrow> lfm_info lfm_answer) \<Rightarrow> (nat \<Rightarrow> bool) \<Rightarrow> string \<Rightarrow> string \<Rightarrow> string option \<Rightarrow> nat
     \<Rightarrow> ((go_error + lfm_info) \<times> nat) option" where
  "GetAlbumInfo until_date answers cancelled name artistName mbid k =
     (let req = lastFMRequest until_date answers cancelled ''album'';
          by_name = autocorrect [(''artist'', [artistName]), (''album'', [name])];
          ps = (case mbid of Some b \<Rightarrow> autocorrect [(''mbid'', [b])] | None \<Rightarrow> by_name)
      in case req ps k of None \<Rightarrow> None
         | Some (res, k1) \<Rightarrow>
             (case (if (case res of Inl e \<Rightarrow> errors_Is e lErrNotFound | Inr _ \<Rightarrow> False) then req by_name k1 else Some (res, k1)) of
                None \<Rightarrow> None
              | Some (Inl e, k2) \<Rightarrow> Some (Inl (EWrap ''get album info'' e), k2)
              | Some (Inr i, k2) \<Rightarrow> Some (Inr (clean_info i), k2)))"


section \<open>Requests return when the service stops asking to wait\<close>

definition asks_to_wait :: "(string \<Rightarrow> int option) \<Rightarrow> string \<Rightarrow> 'o lfm_answer \<Rightarrow> bool" where
  "asks_to_wait until_date key ans \<longleftrightarrow> (case lastFM_step until_date key ans of LRetry _ \<Rightarrow> True | LDone _ \<Rightarrow> False)"

definition final_result :: "(string \<Rightarrow> int option) \<Rightarrow> string \<Rightarrow> 'o lfm_answer \<Rightarrow> go_error + 'o" where
  "final_result until_date key ans =
     (case lastFM_step until_date key ans of LDone res \<Rightarrow> res | LRetry _ \<Rightarrow> Inl (EWrap ''last.fm request'' (EMsg ''context canceled'')))"

lemma asks_to_wait_iff:
  "asks_to_wait until_date key ans \<longleftrightarrow> la_Failed ans = None \<and> (la_Status ans = 429
     \<or> la_Status ans = 200 \<and> la_Decoded ans \<and> la_Error ans = Some (Some 29))"
  by (auto simp: asks_to_wait_def lastFM_step_def Let_def split: option.splits sum.splits)

lemma lastFMRequest_waits:
  assumes "asks_to_wait until_date key (answers ps k)" "\<not> cancelled k"
  shows "lastFMRequest until_date answers cancelled key ps k = lastFMRequest until_date answers cancelled key ps (Suc k)"
  using assms by (subst lastFMRequest.simps) (simp add: asks_to_wait_def split: lfm_step.splits)

lemma lastFMRequest_ends:
  assumes "\<not> asks_to_wait until_date key (answers ps k) \<or> cancelled k"
  shows "lastFMRequest until_date answers cancelled key ps k = Some (final_result until_date key (answers ps k), Suc k)"
  using assms by (subst lastFMRequest.simps) (auto simp: asks_to_wait_def final_result_def split: lfm_step.splits)

lemma lastFMRequest_Some:
  assumes "lastFMRequest until_date answers cancelled key ps k = Some r"
  shows "\<exists>n\<ge>k. \<not> asks_to_wait until_date key (answers ps n) \<or> cancelled n"
  using assms
proof (induction rule: lastFMRequest.raw_induct [rotated, consumes 1, case_names step])
  case (step rec until_date answers cancelled key ps k r)
  show ?case
  proof (cases "asks_to_wait until_date key (answers ps k) \<and> \<not> cancelled k")
    case True
    with step(2) have "rec until_date answers cancelled key ps (Suc k) = Some r"
      by (simp add: asks_to_wait_def split: lfm_step.splits)
    from step(1) [OF this] have "\<exists>n\<ge>Suc k. \<not> asks_to_wait until_date key (answers ps n) \<or> cancelled n" .
    then obtain n where "Suc k \<le> n" "\<not> asks_to_wait until_date key (answers ps n) \<or> cancelled n" by (elim exE conjE)
    then show ?thesis by (intro exI [of _ n]) simp
  qed blast
qed

text \<open>
  A request to last.fm returns as soon as it can. It asks again after every answer that is rate
  limited, by its status or its error code, and returns the result of the first other answer, or an
  error when it is cancelled while waiting; it fails to return only if every answer is rate limited
  and nobody cancels it.
\<close>

lemma lastFM_request_returns:
  assumes "k \<le> n" "\<And>j. k \<le> j \<Longrightarrow> j < n \<Longrightarrow> asks_to_wait until_date key (answers ps j) \<and> \<not> cancelled j"
    "\<not> asks_to_wait until_date key (answers ps n) \<or> cancelled n"
    "\<And>j. asks_to_wait until_date key (forever ps j) \<and> \<not> cancelled' j"
  shows "lastFMRequest until_date answers cancelled key ps k = Some (final_result until_date key (answers ps n), Suc n)
    \<and> lastFMRequest until_date forever cancelled' key ps k' = None"
proof
  show "lastFMRequest until_date answers cancelled key ps k = Some (final_result until_date key (answers ps n), Suc n)"
    using assms(1,2)
  proof (induction "n - k" arbitrary: k)
    case 0
    then show ?case using lastFMRequest_ends [of until_date key answers ps n cancelled] assms(3) by simp
  next
    case (Suc m)
    then have "lastFMRequest until_date answers cancelled key ps (Suc k) = Some (final_result until_date key (answers ps n), Suc n)"
      by (intro Suc.hyps(1)) auto
    moreover have "asks_to_wait until_date key (answers ps k)" "\<not> cancelled k" using Suc.prems(2) [of k] Suc.hyps(2) by auto
    ultimately show ?case using lastFMRequest_waits [of until_date key answers ps k cancelled] by simp
  qed
  show "lastFMRequest until_date forever cancelled' key ps k' = None"
    using lastFMRequest_Some [of until_date forever cancelled' key ps k'] assms(4) by (cases "lastFMRequest until_date forever cancelled' key ps k'") auto
qed

definition wit_limited :: "nat lfm_answer" where
  "wit_limited = \<lparr> la_Failed = None, la_Status = 429, la_Header = (\<lambda>_. []), la_Decoded = False, la_Error = None, la_Object = (\<lambda>_. None) \<rparr>"

definition wit_answer :: "nat lfm_answer" where
  "wit_answer = \<lparr> la_Failed = None, la_Status = 200, la_Header = (\<lambda>_. []), la_Decoded = True, la_Error = None, la_Object = (\<lambda>_. Some (Inr 7)) \<rparr>"

lemma lastFM_request_returns_example:
  "lastFMRequest (\<lambda>_. None) (\<lambda>_ k. if k < 2 then wit_limited else wit_answer) (\<lambda>_. False) ''artist'' [] 0 = Some (Inr 7, 3)
    \<and> lastFMRequest (\<lambda>_. None) (\<lambda>_ _. wit_limited) (\<lambda>_. False) ''artist'' [] 0 = None"
proof -
  have w: "asks_to_wait (\<lambda>_. None) ''artist'' wit_limited" "\<not> asks_to_wait (\<lambda>_. None) ''artist'' wit_answer"
    "final_result (\<lambda>_. None) ''artist'' wit_answer = Inr 7"
    by (simp_all add: asks_to_wait_iff wit_limited_def wit_answer_def final_result_def lastFM_step_def)
  show ?thesis
    using lastFM_request_returns [where k = 0 and n = 2 and key = "''artist''" and ps = "[]" and until_date = "\<lambda>_. None"
        and answers = "\<lambda>_ k. if k < 2 then wit_limited else wit_answer" and cancelled = "\<lambda>_. False"
        and forever = "\<lambda>_ _. wit_limited" and cancelled' = "\<lambda>_. False" and k' = 0] w
    by simp
qed

end
