(* ===== verification/Config.thy ===== *)
theory Config
  imports RepoHelpers RepoErrors
begin

text \<open>
  The configuration (\<open>config/config.go\<close>, \<open>config/error.go\<close>), the music directories
  (\<open>config/music_dirs.go\<close>) and their transfer to the database (\<open>scanner/music_dirs.go\<close>). The environment is a
  list of assignments; opening the log file, the state of the file system and the contents of the
  music directory file are arguments.
\<close>

section \<open>Environment variables\<close>

type_synonym environment = "string \<rightharpoonup> string"

record config_error =
  ce_Key :: string
  ce_Message :: string

definition config_newError :: "string \<Rightarrow> string \<Rightarrow> config_error" where
  "config_newError key message = \<lparr> ce_Key = key, ce_Message = message \<rparr>"

definition config_Error :: "config_error \<Rightarrow> string" where
  "config_Error e = ''config: '' @ ce_Key e @ '': '' @ ce_Message e"

definition env_get :: "environment \<Rightarrow> string \<Rightarrow> string" where
  "env_get env key = (case env key of None \<Rightarrow> [] | Some v \<Rightarrow> v)"

text \<open>An entry without an equals sign ends the program: \<open>None\<close>.\<close>

fun read_environ :: "string list \<Rightarrow> environment \<Rightarrow> environment option" where
  "read_environ [] env = Some env"
| "read_environ (e # es) env =
     (case split_first (CHR ''='') e of None \<Rightarrow> None | Some (k, v) \<Rightarrow> read_environ es (env(k \<mapsto> v)))"

definition optionalString :: "environment \<Rightarrow> string \<Rightarrow> string \<Rightarrow> string" where
  "optionalString env key def = (let str = env_get env key in if str = [] then def else str)"

definition optionalStringList :: "environment \<Rightarrow> string \<Rightarrow> string list \<Rightarrow> string list" where
  "optionalStringList env key def =
     (case env key of None \<Rightarrow> def
      | Some str \<Rightarrow> if str = [] then [] else filter (\<lambda>p. p \<noteq> []) (map trim_space (split_on (CHR '','') str)))"

definition requiredString :: "environment \<Rightarrow> string \<Rightarrow> config_error + string" where
  "requiredString env key =
     (let str = env_get env key in if str = [] then Inl (config_newError key ''must not be empty'') else Inr str)"

definition requiredInt :: "environment \<Rightarrow> string \<Rightarrow> config_error + int" where
  "requiredInt env key =
     (let str = env_get env key
      in if str = [] then Inl (config_newError key ''must not be empty'')
         else case atoi str of Inl _ \<Rightarrow> Inl (config_newError key ''must be an integer'') | Inr i \<Rightarrow> Inr i)"

definition config_boolean :: "environment \<Rightarrow> string \<Rightarrow> bool \<Rightarrow> config_error + bool" where
  "config_boolean env key def =
     (let str = env_get env key
      in if str = [] then Inr def
         else case parse_bool str of None \<Rightarrow> Inl (config_newError key ''must be a boolean'') | Some b \<Rightarrow> Inr b)"

definition loadBaseURL :: "environment \<Rightarrow> config_error + string" where
  "loadBaseURL env =
     (case requiredString env ''BASE_URL'' of Inl e \<Rightarrow> Inl e | Inr str \<Rightarrow> Inr (trim_suffix str ''/''))"

definition loadEncryptionKey :: "environment \<Rightarrow> config_error + bytes" where
  "loadEncryptionKey env =
     (let key = ''ENCRYPTION_KEY''; str = env_get env key
      in if str = [] then Inl (config_newError key ''must not be empty'')
         else case b64_decode False str of
           None \<Rightarrow> Inl (config_newError key ''must be in base64 format'')
         | Some k \<Rightarrow> if length k \<noteq> 32 then Inl (config_newError key ''must be a base64 encoded byte array of length 32'')
                     else Inr k)"

text \<open>The levels of the log package are 0 (none) to 5 (trace), the default is 4 (info).\<close>

definition loadLogLevel :: "environment \<Rightarrow> config_error + int" where
  "loadLogLevel env =
     (let key = ''LOG_LEVEL''; str = env_get env key
      in if str = [] then Inr 4
         else case atoi str of
           Inl _ \<Rightarrow> Inl (config_newError key ''invalid log level: must be an integer'')
         | Inr level \<Rightarrow>
             if level < 0 \<or> level > 5
             then Inl (config_newError key ''invalid log level: valid values: 0 (none), 1 (fatal), 2 (error), 3 (warning), 4 (info), 5 (trace)'')
             else Inr level)"

text \<open>The log file: \<open>None\<close> is the standard error stream; \<open>open_log append name\<close> opens a file.\<close>

definition loadLogFile :: "(bool \<Rightarrow> string \<Rightarrow> string option) \<Rightarrow> environment \<Rightarrow> config_error + (bool \<times> string) option" where
  "loadLogFile open_log env =
     (let key = ''LOG_FILE''; file = env_get env key; appnd = (parse_bool (env_get env ''LOG_APPEND'') = Some True)
      in if file = [] then Inr None
         else case open_log appnd file of
           None \<Rightarrow> Inr (Some (appnd, file))
         | Some err \<Rightarrow> Inl (config_newError key ((if appnd then ''failed to open log file (append): '' else ''failed to open log file: '') @ err)))"

definition loadListenBrainzURL :: "environment \<Rightarrow> string" where
  "loadListenBrainzURL env = trim_suffix (optionalString env ''LISTENBRAINZ_URL'' ''https://api.listenbrainz.org'') ''/''"

definition loadCoverArtPriority :: "environment \<Rightarrow> string list" where
  "loadCoverArtPriority env =
     map to_lower (optionalStringList env ''COVER_ART_PRIORITY'' [''cover.*'', ''folder.*'', ''front.*'', ''embedded''])"

definition loadArtistImagePriority :: "environment \<Rightarrow> string list" where
  "loadArtistImagePriority env = map to_lower (optionalStringList env ''ARTIST_IMAGE_PRIORITY'' [''artist.*''])"

section \<open>Loading\<close>

record Config =
  cf_BaseURL :: string
  cf_DBUser :: string
  cf_DBPassword :: string
  cf_DBName :: string
  cf_DBHost :: string
  cf_DBPort :: int
  cf_DataDir :: string
  cf_CacheDir :: string
  cf_EncryptionKey :: bytes
  cf_ListenAddr :: string
  cf_AutoMigrate :: bool
  cf_LogLevel :: int
  cf_LogFile :: "(bool \<times> string) option"
  cf_ListenBrainzURL :: string
  cf_LastFMApiKey :: string
  cf_ScanHidden :: bool
  cf_FrontendDir :: string
  cf_CoverArtPriority :: "string list"
  cf_ArtistImagePriority :: "string list"
  cf_musicDir :: string
  cf_musicDirConfig :: string

text \<open>The value and the error of a result: a failing function also returns a value, its zero or default.\<close>

definition value_or :: "'a \<Rightarrow> 'e + 'a \<Rightarrow> 'a" where
  "value_or z r = (case r of Inl _ \<Rightarrow> z | Inr v \<Rightarrow> v)"

definition errs_of :: "config_error + 'a \<Rightarrow> string list" where
  "errs_of r = (case r of Inl e \<Rightarrow> [config_Error e] | Inr _ \<Rightarrow> [])"

definition load_music_dir :: "environment \<Rightarrow> (string \<times> string) \<times> string list" where
  "load_music_dir env =
     (let dir = optionalString env ''MUSIC_DIR'' []; conf = optionalString env ''MUSIC_DIR_CONFIG'' []
      in if dir \<noteq> [] \<and> conf \<noteq> [] then ((dir, conf), [''cannot provide both MUSIC_DIR and MUSIC_DIR_CONFIG''])
         else if dir = [] \<and> conf = []
              then (let def = optionalString env ''DEFAULT_MUSIC_DIR'' []
                    in ((def, conf), if def = [] then [''either MUSIC_DIR or MUSIC_DIR_CONFIG must be specified''] else []))
              else ((dir, conf), []))"

definition Load :: "(bool \<Rightarrow> string \<Rightarrow> string option) \<Rightarrow> string list \<Rightarrow> (Config \<times> string list) option" where
  "Load open_log environ =
     (case read_environ environ Map.empty of None \<Rightarrow> None
      | Some env \<Rightarrow>
          (let base = loadBaseURL env; user = requiredString env ''DB_USER''; name = requiredString env ''DB_NAME'';
               password = requiredString env ''DB_PASSWORD''; host = requiredString env ''DB_HOST'';
               port = requiredInt env ''DB_PORT''; data = requiredString env ''DATA_DIR'';
               cache = requiredString env ''CACHE_DIR''; key = loadEncryptionKey env;
               migrate = config_boolean env ''AUTO_MIGRATE'' True; level = loadLogLevel env; file = loadLogFile open_log env;
               hidden = config_boolean env ''SCAN_HIDDEN'' False;
               ((dir, conf), dir_errors) = load_music_dir env
           in Some
             (\<lparr> cf_BaseURL = value_or [] base, cf_DBUser = value_or [] user, cf_DBPassword = value_or [] password,
                cf_DBName = value_or [] name, cf_DBHost = value_or [] host, cf_DBPort = value_or 0 port,
                cf_DataDir = value_or [] data, cf_CacheDir = value_or [] cache, cf_EncryptionKey = value_or [] key,
                cf_ListenAddr = optionalString env ''LISTEN_ADDR'' ''0.0.0.0:8080'', cf_AutoMigrate = value_or False migrate,
                cf_LogLevel = value_or 4 level, cf_LogFile = value_or None file,
                cf_ListenBrainzURL = loadListenBrainzURL env, cf_LastFMApiKey = optionalString env ''LASTFM_API_KEY'' [],
                cf_ScanHidden = value_or False hidden, cf_FrontendDir = optionalString env ''FRONTEND_DIR'' [],
                cf_CoverArtPriority = loadCoverArtPriority env, cf_ArtistImagePriority = loadArtistImagePriority env,
                cf_musicDir = dir, cf_musicDirConfig = conf \<rparr>,
              errs_of base @ errs_of user @ errs_of name @ errs_of password @ errs_of host @ errs_of port @ errs_of data
                @ errs_of cache @ errs_of key @ errs_of migrate @ errs_of level @ errs_of file @ errs_of hidden @ dir_errors)))"

section \<open>Music directories\<close>

record MusicDir =
  md_ID :: int
  md_Name :: string
  md_Path :: string
  md_Users :: "string list option"  \<comment> \<open>\<open>None\<close>, the nil slice, stands for all users\<close>

text \<open>\<open>filepath.Clean\<close> of a path that starts with a slash.\<close>

fun clean_parts :: "string list \<Rightarrow> string list \<Rightarrow> string list" where
  "clean_parts acc [] = rev acc"
| "clean_parts acc (p # ps) =
     (if p = [] \<or> p = ''.'' then clean_parts acc ps
      else if p = ''..'' then clean_parts (tl acc) ps
      else clean_parts (p # acc) ps)"

definition clean_path :: "string \<Rightarrow> string" where
  "clean_path p = CHR ''/'' # join_with ''/'' (clean_parts [] (split_on (CHR ''/'') p))"

definition filepath_Abs :: "go_error + string \<Rightarrow> string \<Rightarrow> go_error + string" where
  "filepath_Abs cwd p =
     (if prefix ''/'' p then Inr (clean_path p)
      else case cwd of Inl e \<Rightarrow> Inl e | Inr wd \<Rightarrow> Inr (clean_path (wd @ ''/'' @ p)))"

text \<open>
  \<open>stat\<close> tells whether a path is a directory, or why it cannot be accessed; \<open>cwd\<close> is the working
  directory. The identifiers in the messages are those of the loop variable, a copy that still has
  the zero of the decoder.
\<close>

fun check_dirs ::
  "(string \<Rightarrow> go_error + bool) \<Rightarrow> go_error + string \<Rightarrow> int \<Rightarrow> MusicDir list \<Rightarrow> go_error + MusicDir list" where
  "check_dirs stat cwd i [] = Inr []"
| "check_dirs stat cwd i (d # ds) =
     (if md_Name d = [] then Inl (EMsg (''music dir '' @ show_int (md_ID d) @ '' does not have a name''))
      else if md_Path d = [] then Inl (EMsg (''music dir '' @ show_int (md_ID d) @ '' does not have a path''))
      else case stat (md_Path d) of
        Inl e \<Rightarrow> Inl (EWrap (''failed to open music dir '' @ show_int (md_ID d)) e)
      | Inr False \<Rightarrow> Inl (EMsg (''music dir '' @ show_int (md_ID d) @ '' does not point to a directory: '' @ md_Path d))
      | Inr True \<Rightarrow>
          (case filepath_Abs cwd (md_Path d) of
             Inl e \<Rightarrow> Inl (EWrap (''failed to make music dir path of '' @ show_int (md_ID d) @ '' absolute'') e)
           | Inr full \<Rightarrow>
               (case check_dirs stat cwd (i + 1) ds of Inl e \<Rightarrow> Inl e
                | Inr ds' \<Rightarrow> Inr (d\<lparr> md_ID := i, md_Path := clean_path (trim_space full) \<rparr> # ds'))))"

definition nested_error :: "MusicDir \<Rightarrow> MusicDir \<Rightarrow> go_error option" where
  "nested_error a b =
     (if md_ID a = md_ID b then None
      else if prefix (md_Path b) (md_Path a)
           then Some (EMsg (''music dir '' @ show_int (md_ID a)
                  @ (if md_Path a = md_Path b then '' has the same path as music dir '' else '' is a subdirectory of music dir '')
                  @ show_int (md_ID b)))
           else None)"

definition checkIfPathsSubdirOfEachOther :: "MusicDir list \<Rightarrow> go_error option" where
  "checkIfPathsSubdirOfEachOther dirs =
     (case List.map_filter (\<lambda>(a, b). nested_error a b) (List.product dirs dirs) of [] \<Rightarrow> None | e # _ \<Rightarrow> Some e)"

text \<open>
  \<open>file\<close> is opening a music directory file, then what the JSON decoder makes of it; the field
  \<open>ID\<close> is not decoded.
\<close>

definition GetMusicDirs ::
  "(string \<Rightarrow> go_error + bool) \<Rightarrow> go_error + string \<Rightarrow> (string \<Rightarrow> go_error + (go_error + MusicDir list)) \<Rightarrow> Config \<Rightarrow>
   go_error + MusicDir list" where
  "GetMusicDirs stat cwd file c =
     (if cf_musicDir c \<noteq> []
      then (case stat (cf_musicDir c) of
              Inl e \<Rightarrow> Inl (EWrap (''cannot access music dir: '' @ cf_musicDir c) e)
            | Inr False \<Rightarrow> Inl (EMsg (''music dir not a directory: '' @ cf_musicDir c))
            | Inr True \<Rightarrow> Inr [\<lparr> md_ID = 1, md_Name = ''Default'', md_Path = cf_musicDir c, md_Users = None \<rparr>])
      else case file (cf_musicDirConfig c) of
             Inl e \<Rightarrow> Inl (EWrap ''failed to open music dir config file'' e)
           | Inr (Inl e) \<Rightarrow> Inl (EWrap ''invalid music dir config file'' e)
           | Inr (Inr dirs) \<Rightarrow>
               (case check_dirs stat cwd 1 (map (\<lambda>d. d\<lparr> md_ID := 0 \<rparr>) dirs) of
                  Inl e \<Rightarrow> Inl e
                | Inr dirs' \<Rightarrow>
                    (case checkIfPathsSubdirOfEachOther dirs' of Some e \<Rightarrow> Inl e | None \<Rightarrow> Inr dirs')))"

definition dir_config_string :: "MusicDir \<Rightarrow> string" where
  "dir_config_string d = md_Path d @ concat (map (\<lambda>u. CHR '':'' # u) (case md_Users d of None \<Rightarrow> [] | Some us \<Rightarrow> us))"

definition GenerateMusicDirConfigString :: "MusicDir list \<Rightarrow> string" where
  "GenerateMusicDirConfigString dirs = join_with '';'' (map dir_config_string dirs)"


section \<open>Transfer to the database\<close>

record 'd folder_repo =
  fr_MusicDirConfig :: "'d \<Rightarrow> go_error + string"
  fr_SetMusicDirConfig :: "string \<Rightarrow> 'd \<Rightarrow> go_error option \<times> 'd"
  fr_DeleteAllUserAssociations :: "'d \<Rightarrow> go_error option \<times> 'd"
  fr_CreateOrUpdate :: "(int \<times> string \<times> string) list \<Rightarrow> 'd \<Rightarrow> go_error option \<times> 'd"
  fr_FindAllUsers :: "'d \<Rightarrow> go_error + string list"
  fr_CreateUserAssociations :: "int \<Rightarrow> string list \<Rightarrow> 'd \<Rightarrow> go_error option \<times> 'd"
  fr_DeleteMusicFoldersNotIn :: "int list \<Rightarrow> 'd \<Rightarrow> go_error option \<times> 'd"

fun associate_users :: "'d folder_repo \<Rightarrow> string list \<Rightarrow> MusicDir list \<Rightarrow> 'd \<Rightarrow> go_error option \<times> 'd" where
  "associate_users repo users [] d = (None, d)"
| "associate_users repo users (dir # dirs) d =
     (let wanted = (case md_Users dir of None \<Rightarrow> users | Some us \<Rightarrow> us)
      in case find (\<lambda>u. u \<notin> set users) (case md_Users dir of None \<Rightarrow> [] | Some us \<Rightarrow> us) of
           Some u \<Rightarrow> (Some (EMsg (''unknown user for music dir '' @ show_int (md_ID dir) @ '': '' @ u)), d)
         | None \<Rightarrow>
             (case fr_CreateUserAssociations repo (md_ID dir) wanted d of
                (Some e, d') \<Rightarrow> (Some (EWrap (''create user associations for music folder '' @ show_int (md_ID dir)) e), d')
              | (None, d') \<Rightarrow> associate_users repo users dirs d'))"

definition folders_step :: "string \<Rightarrow> go_error option \<times> 'd \<Rightarrow> ('d \<Rightarrow> (go_error + bool) \<times> 'd) \<Rightarrow> (go_error + bool) \<times> 'd" where
  "folders_step msg res k = (case res of (Some e, d) \<Rightarrow> (Inl (EWrap msg e), d) | (None, d) \<Rightarrow> k d)"

text \<open>\<open>dirs\<close> is the result of \<open>GetMusicDirs\<close>; the result tells whether the configuration has changed.\<close>

definition LoadMusicDirs ::
  "'d folder_repo \<Rightarrow> bool \<Rightarrow> go_error + MusicDir list \<Rightarrow> 'd \<Rightarrow> (go_error + bool) \<times> 'd" where
  "LoadMusicDirs repo fullScan dirs d =
     (case dirs of Inl e \<Rightarrow> (Inl (EWrap ''get music dir config'' e), d)
      | Inr musicDirs \<Rightarrow>
          (let last = fr_MusicDirConfig repo d; current = GenerateMusicDirConfigString musicDirs
           in case (case last of Inl e \<Rightarrow> if errors_Is e (EType ErrNotFound) then None else Some e | Inr _ \<Rightarrow> None) of
                Some e \<Rightarrow> (Inl (EWrap ''get system music dir config'' e), d)
              | None \<Rightarrow>
                  (let changed = (last \<noteq> Inr current)
                   in if \<not> changed \<and> \<not> fullScan then (Inr False, d)
                      else folders_step ''set system music dir config'' (fr_SetMusicDirConfig repo current d) (\<lambda>d.
                           folders_step ''delete user associations'' (fr_DeleteAllUserAssociations repo d) (\<lambda>d.
                           folders_step ''create or update music folders in db''
                             (fr_CreateOrUpdate repo (map (\<lambda>m. (md_ID m, md_Name m, md_Path m)) musicDirs) d) (\<lambda>d.
                           case fr_FindAllUsers repo d of Inl _ \<Rightarrow> (Inl (EMsg ''get all users''), d)
                           | Inr users \<Rightarrow>
                               (case associate_users repo users musicDirs d of
                                  (Some e, d) \<Rightarrow> (Inl e, d)
                                | (None, d) \<Rightarrow>
                                    folders_step ''delete music folders that no longer exist''
                                      (fr_DeleteMusicFoldersNotIn repo (map md_ID musicDirs) d) (\<lambda>d. (Inr changed, d)))))))))"


section \<open>The rules for music directories\<close>

definition path_components :: "string \<Rightarrow> string list" where
  "path_components p = clean_parts [] (split_on (CHR ''/'') p)"

definition proper_component :: "string \<Rightarrow> bool" where
  "proper_component p \<longleftrightarrow> p \<noteq> [] \<and> p \<noteq> ''.'' \<and> p \<noteq> ''..''"

lemma in_set_tlD: "x \<in> set (tl xs) \<Longrightarrow> x \<in> set xs"
  by (cases xs) auto

lemma clean_parts_set:
  "p \<in> set (clean_parts acc ps) \<Longrightarrow> p \<in> set acc \<or> p \<in> set ps \<and> proper_component p"
  by (induction acc ps rule: clean_parts.induct)
     (auto simp: proper_component_def split: if_splits dest: in_set_tlD)

lemma clean_parts_proper:
  "\<forall>p\<in>set ps. proper_component p \<Longrightarrow> clean_parts acc ps = rev acc @ ps"
  by (induction acc ps rule: clean_parts.induct) (auto simp: proper_component_def)

lemma path_components_parts:
  "p \<in> set (path_components s) \<Longrightarrow> proper_component p \<and> CHR ''/'' \<notin> set p"
  unfolding path_components_def by (auto dest: clean_parts_set split_on_parts)

lemma clean_path_components: "path_components (clean_path s) = path_components s"
proof -
  let ?cs = "path_components s"
  have p: "\<forall>p\<in>set ?cs. proper_component p" and n: "\<forall>p\<in>set ?cs. CHR ''/'' \<notin> set p"
    using path_components_parts by blast+
  have c: "clean_path s = CHR ''/'' # join_with ''/'' ?cs" by (simp add: clean_path_def path_components_def)
  show ?thesis
  proof (cases "?cs = []")
    case True
    then show ?thesis unfolding c by (simp add: path_components_def)
  next
    case False
    have "split_on (CHR ''/'') (clean_path s) = [] # ?cs" unfolding c by (simp add: split_join [OF False n])
    then show ?thesis using clean_parts_proper [OF p] by (simp add: path_components_def [of "clean_path s"])
  qed
qed

lemma join_with_prefix: "xs \<noteq> [] \<Longrightarrow> prefix (join_with sep xs) (join_with sep (xs @ ys))"
proof (induction sep xs rule: join_with.induct)
  case (2 sep x)
  show ?case by (cases ys) (auto simp: prefix_def)
qed auto

lemma components_string_prefix:
  assumes "prefix (path_components q) (path_components p)"
  shows "prefix (clean_path q) (clean_path p)"
proof (cases "path_components q = []")
  case True
  then show ?thesis by (simp add: clean_path_def path_components_def)
next
  case False
  from assms obtain zs where "path_components p = path_components q @ zs" by (auto simp: prefix_def)
  then show ?thesis using join_with_prefix [OF False, of "''/''" zs] by (simp add: clean_path_def path_components_def)
qed

lemma clean_path_idem: "clean_path (clean_path s) = clean_path s"
  using clean_path_components [of s] by (simp add: clean_path_def path_components_def)

lemma check_dirs_result:
  assumes "check_dirs stat cwd i ds = Inr ds'"
  shows "length ds' = length ds \<and>
     (\<forall>k < length ds. md_ID (ds' ! k) = i + int k \<and> md_Name (ds' ! k) = md_Name (ds ! k) \<and> md_Name (ds ! k) \<noteq> [] \<and>
        md_Users (ds' ! k) = md_Users (ds ! k) \<and> stat (md_Path (ds ! k)) = Inr True \<and>
        clean_path (md_Path (ds' ! k)) = md_Path (ds' ! k))"
  using assms
proof (induction ds arbitrary: i ds')
  case (Cons d ds)
  from Cons.prems obtain full es where
    d: "md_Name d \<noteq> []" "stat (md_Path d) = Inr True"
    and es: "check_dirs stat cwd (i + 1) ds = Inr es"
    and ds': "ds' = d\<lparr> md_ID := i, md_Path := clean_path (trim_space full) \<rparr> # es"
    by (auto split: if_splits sum.splits bool.splits)
  from Cons.IH [OF es] d show ?case
    unfolding ds' by (auto simp: nth_Cons' clean_path_idem)
qed simp

lemma no_nested_error:
  assumes "checkIfPathsSubdirOfEachOther ds = None" "a \<in> set ds" "b \<in> set ds"
  shows "nested_error a b = None"
proof -
  have "List.map_filter (\<lambda>(a, b). nested_error a b) (List.product ds ds) = []"
    using assms(1) by (auto simp: checkIfPathsSubdirOfEachOther_def split: list.splits)
  then have "filter (\<lambda>(a, b). nested_error a b \<noteq> None) (List.product ds ds) = []"
    by (simp add: map_filter_def comp_def case_prod_unfold)
  then show ?thesis using assms(2,3) by (auto simp: filter_empty_conv)
qed

text \<open>
  C34: The music directories of a configuration file are numbered from one, have names, exist, and none of
  them lies inside another or is the same directory: after resolution of dots and repeated slashes no
  path's components begin with those of another.
\<close>

theorem music_dirs_disjoint:
  assumes "GetMusicDirs stat cwd file c = Inr dirs" "cf_musicDir c = []"
    and "k < length dirs" "l < length dirs" "k \<noteq> l"
  shows "md_ID (dirs ! k) = int k + 1 \<and> md_Name (dirs ! k) \<noteq> [] \<and>
         \<not> prefix (path_components (md_Path (dirs ! l))) (path_components (md_Path (dirs ! k)))"
proof -
  from assms(1,2) obtain ds where
    ds: "check_dirs stat cwd 1 ds = Inr dirs" "checkIfPathsSubdirOfEachOther dirs = None"
    by (auto simp: GetMusicDirs_def split: sum.splits option.splits)
  note r = check_dirs_result [OF ds(1)]
  from r assms(3-5) have ids: "md_ID (dirs ! k) = int k + 1" "md_ID (dirs ! l) = int l + 1" "md_Name (dirs ! k) \<noteq> []"
    and clean: "clean_path (md_Path (dirs ! k)) = md_Path (dirs ! k)" "clean_path (md_Path (dirs ! l)) = md_Path (dirs ! l)"
    by auto
  from no_nested_error [OF ds(2)] assms(3,4) have "nested_error (dirs ! k) (dirs ! l) = None" by simp
  then have "\<not> prefix (md_Path (dirs ! l)) (md_Path (dirs ! k))"
    using ids assms(5) by (auto simp: nested_error_def split: if_splits)
  then show ?thesis using components_string_prefix clean ids by metis
qed


lemma music_dirs_disjoint_witness:
  "\<not> prefix (path_components ''/srv/music'') (path_components ''/srv/books'')"
proof -
  let ?file = "\<lambda>_. Inr (Inr [\<lparr> md_ID = 0, md_Name = ''a'', md_Path = ''/srv//books/'', md_Users = None \<rparr>,
                             \<lparr> md_ID = 0, md_Name = ''b'', md_Path = ''music'', md_Users = Some [] \<rparr>])"
  let ?dirs = "[\<lparr> md_ID = 1, md_Name = ''a'', md_Path = ''/srv/books'', md_Users = None \<rparr>,
                \<lparr> md_ID = 2, md_Name = ''b'', md_Path = ''/srv/music'', md_Users = Some [] \<rparr>]"
  let ?c = "fst (the (Load (\<lambda>_ _. None) [''MUSIC_DIR_CONFIG=dirs.json'']))"
  have c: "cf_musicDir ?c = []"
    by (simp add: Load_def load_music_dir_def optionalString_def env_get_def Let_def case_prod_unfold)
  have "check_dirs (\<lambda>_. Inr True) (Inr ''/srv'') 1 (map (\<lambda>d. d\<lparr> md_ID := 0 \<rparr>) (projr (projr (?file [])))) = Inr ?dirs"
    by (simp add: filepath_Abs_def clean_path_def trim_space_graph graph_def between_def code_of_def)
  moreover have "checkIfPathsSubdirOfEachOther ?dirs = None"
    by (simp add: checkIfPathsSubdirOfEachOther_def nested_error_def map_filter_def)
  ultimately have "GetMusicDirs (\<lambda>_. Inr True) (Inr ''/srv'') ?file ?c = Inr ?dirs"
    by (simp add: GetMusicDirs_def c)
  then show ?thesis
    using c music_dirs_disjoint [of "\<lambda>_. Inr True" "Inr ''/srv''" ?file ?c ?dirs 0 1] by simp
qed

section \<open>The rules for the environment\<close>

definition valid_environment :: "(bool \<Rightarrow> string \<Rightarrow> string option) \<Rightarrow> environment \<Rightarrow> bool" where
  "valid_environment open_log env \<longleftrightarrow>
     list_all (\<lambda>k. env_get env k \<noteq> [])
       [''BASE_URL'', ''DB_USER'', ''DB_NAME'', ''DB_PASSWORD'', ''DB_HOST'', ''DB_PORT'', ''DATA_DIR'', ''CACHE_DIR'',
        ''ENCRYPTION_KEY''] \<and>
     \<not> isl (atoi (env_get env ''DB_PORT'')) \<and>
     (case b64_decode False (env_get env ''ENCRYPTION_KEY'') of None \<Rightarrow> False | Some k \<Rightarrow> length k = 32) \<and>
     list_all (\<lambda>k. env_get env k = [] \<or> parse_bool (env_get env k) \<noteq> None) [''AUTO_MIGRATE'', ''SCAN_HIDDEN''] \<and>
     (env_get env ''LOG_LEVEL'' = [] \<or>
        (case atoi (env_get env ''LOG_LEVEL'') of Inl _ \<Rightarrow> False | Inr n \<Rightarrow> n \<in> {0..5})) \<and>
     (env_get env ''LOG_FILE'' = [] \<or>
        open_log (parse_bool (env_get env ''LOG_APPEND'') = Some True) (env_get env ''LOG_FILE'') = None) \<and>
     (if env_get env ''MUSIC_DIR'' \<noteq> [] then env_get env ''MUSIC_DIR_CONFIG'' = []
      else env_get env ''MUSIC_DIR_CONFIG'' \<noteq> [] \<or> env_get env ''DEFAULT_MUSIC_DIR'' \<noteq> [])"

lemma errs_of_Nil: "errs_of r = [] \<longleftrightarrow> \<not> isl r"
  by (cases r) (simp_all add: errs_of_def)

lemma requiredString_ok: "\<not> isl (requiredString env k) \<longleftrightarrow> env_get env k \<noteq> []"
  by (simp add: requiredString_def Let_def)

lemma loadBaseURL_ok: "\<not> isl (loadBaseURL env) \<longleftrightarrow> env_get env ''BASE_URL'' \<noteq> []"
  by (simp add: loadBaseURL_def requiredString_def Let_def)

lemma requiredInt_ok: "\<not> isl (requiredInt env k) \<longleftrightarrow> env_get env k \<noteq> [] \<and> \<not> isl (atoi (env_get env k))"
  by (simp add: requiredInt_def Let_def split: sum.splits)

lemma config_boolean_ok: "\<not> isl (config_boolean env k d) \<longleftrightarrow> env_get env k = [] \<or> parse_bool (env_get env k) \<noteq> None"
  by (auto simp: config_boolean_def Let_def split: option.splits)

lemma loadEncryptionKey_ok:
  "\<not> isl (loadEncryptionKey env) \<longleftrightarrow> env_get env ''ENCRYPTION_KEY'' \<noteq> [] \<and>
     (case b64_decode False (env_get env ''ENCRYPTION_KEY'') of None \<Rightarrow> False | Some k \<Rightarrow> length k = 32)"
  by (simp add: loadEncryptionKey_def Let_def split: option.splits)

lemma loadLogLevel_ok:
  "\<not> isl (loadLogLevel env) \<longleftrightarrow> env_get env ''LOG_LEVEL'' = [] \<or>
     (case atoi (env_get env ''LOG_LEVEL'') of Inl _ \<Rightarrow> False | Inr n \<Rightarrow> n \<in> {0..5})"
  by (simp add: loadLogLevel_def Let_def not_less conj_commute split: sum.splits)

lemma loadLogFile_ok:
  "\<not> isl (loadLogFile open_log env) \<longleftrightarrow> env_get env ''LOG_FILE'' = [] \<or>
     open_log (parse_bool (env_get env ''LOG_APPEND'') = Some True) (env_get env ''LOG_FILE'') = None"
  by (simp add: loadLogFile_def Let_def split: option.splits)

lemma load_music_dir_ok:
  "snd (load_music_dir env) = [] \<longleftrightarrow>
     (if env_get env ''MUSIC_DIR'' \<noteq> [] then env_get env ''MUSIC_DIR_CONFIG'' = []
      else env_get env ''MUSIC_DIR_CONFIG'' \<noteq> [] \<or> env_get env ''DEFAULT_MUSIC_DIR'' \<noteq> [])"
  by (simp add: load_music_dir_def optionalString_def Let_def)

lemma load_music_dir_one:
  "snd (load_music_dir env) = [] \<Longrightarrow>
     (fst (fst (load_music_dir env)) = []) \<noteq> (snd (fst (load_music_dir env)) = [])"
  by (auto simp: load_music_dir_def Let_def split: if_splits)

lemmas load_ok = requiredString_ok loadBaseURL_ok requiredInt_ok config_boolean_ok loadEncryptionKey_ok
  loadLogLevel_ok loadLogFile_ok load_music_dir_ok

lemma encryption_key_length: "\<not> isl (loadEncryptionKey env) \<Longrightarrow> length (value_or [] (loadEncryptionKey env)) = 32"
  by (auto simp: loadEncryptionKey_def Let_def value_or_def split: option.splits if_splits)

lemma log_level_range: "value_or 4 (loadLogLevel env) \<in> {0..5}"
  by (auto simp: loadLogLevel_def Let_def value_or_def split: sum.splits)

text \<open>
  Loading never stops at the first problem and reports none exactly when the environment is valid: the
  required variables are set, the numbers, switches and the encryption key can be read, the log file can be
  opened and exactly one source of music directories is given. A configuration without errors has a key of
  32 bytes for the password encryption, a known log level and exactly one of directory and directory file.
\<close>

lemma config_loads_iff_valid:
  assumes "read_environ environ Map.empty = Some env"
  shows "\<exists>c errs. Load open_log environ = Some (c, errs) \<and> (errs = [] \<longleftrightarrow> valid_environment open_log env) \<and>
     (errs = [] \<longrightarrow> length (cf_EncryptionKey c) = 32 \<and> (cf_musicDir c = []) \<noteq> (cf_musicDirConfig c = [])) \<and>
     cf_LogLevel c \<in> {0..5}"
proof -
  let ?r = "the (Load open_log environ)"
  have l: "Load open_log environ = Some ?r" by (simp add: Load_def assms Let_def case_prod_unfold)
  have "(snd ?r = []) = (\<not> isl (loadBaseURL env) \<and> \<not> isl (requiredString env ''DB_USER'') \<and>
     \<not> isl (requiredString env ''DB_NAME'') \<and> \<not> isl (requiredString env ''DB_PASSWORD'') \<and>
     \<not> isl (requiredString env ''DB_HOST'') \<and> \<not> isl (requiredInt env ''DB_PORT'') \<and>
     \<not> isl (requiredString env ''DATA_DIR'') \<and> \<not> isl (requiredString env ''CACHE_DIR'') \<and>
     \<not> isl (loadEncryptionKey env) \<and> \<not> isl (config_boolean env ''AUTO_MIGRATE'' True) \<and> \<not> isl (loadLogLevel env) \<and>
     \<not> isl (loadLogFile open_log env) \<and> \<not> isl (config_boolean env ''SCAN_HIDDEN'' False) \<and> snd (load_music_dir env) = [])"
    by (simp add: Load_def assms Let_def case_prod_unfold errs_of_Nil)
  also have "\<dots> = valid_environment open_log env"
    unfolding load_ok valid_environment_def list.pred_inject by (simp only: conj_ac simp_thms list.pred_inject)
  finally have e: "snd ?r = [] \<longleftrightarrow> valid_environment open_log env" .
  have k: "cf_EncryptionKey (fst ?r) = value_or [] (loadEncryptionKey env)"
    and lv: "cf_LogLevel (fst ?r) = value_or 4 (loadLogLevel env)"
    and d: "cf_musicDir (fst ?r) = fst (fst (load_music_dir env))" "cf_musicDirConfig (fst ?r) = snd (fst (load_music_dir env))"
    by (simp_all add: Load_def assms Let_def case_prod_unfold)
  have i: "snd ?r = [] \<Longrightarrow> \<not> isl (loadEncryptionKey env) \<and> snd (load_music_dir env) = []"
    by (simp add: Load_def assms Let_def case_prod_unfold errs_of_Nil)
  show ?thesis
    using l e i log_level_range [of env] encryption_key_length [of env] load_music_dir_one [of env]
    unfolding k [symmetric] lv [symmetric] d [symmetric]
    by (intro exI [of _ "fst ?r"] exI [of _ "snd ?r"]) simp
qed


lemma config_loads_iff_valid_example:
  "\<exists>c. Load (\<lambda>_ _. None)
     [''BASE_URL=https://x/'', ''DB_USER=u'', ''DB_NAME=n'', ''DB_PASSWORD=p=q'', ''DB_HOST=h'', ''DB_PORT=5432'', ''DATA_DIR=d'',
      ''CACHE_DIR=c'', ''ENCRYPTION_KEY=AAAAAAAAAAAAAAAAAAAAAAAAAAAAAAAAAAAAAAAAAAA'', ''LOG_LEVEL=5'', ''MUSIC_DIR=/music''] = Some (c, [])"
proof -
  let ?e = "[''BASE_URL=https://x/'', ''DB_USER=u'', ''DB_NAME=n'', ''DB_PASSWORD=p=q'', ''DB_HOST=h'', ''DB_PORT=5432'', ''DATA_DIR=d'',
      ''CACHE_DIR=c'', ''ENCRYPTION_KEY=AAAAAAAAAAAAAAAAAAAAAAAAAAAAAAAAAAAAAAAAAAA'', ''LOG_LEVEL=5'', ''MUSIC_DIR=/music'']"
  let ?env = "the (read_environ ?e Map.empty)"
  have r: "read_environ ?e Map.empty = Some ?env" by simp
  have "b64_decode False (replicate 43 CHR ''A'') = Some (replicate 32 (CHR 0x00))" by code_simp
  then have k: "b64_decode False ''AAAAAAAAAAAAAAAAAAAAAAAAAAAAAAAAAAAAAAAAAAA'' = Some (replicate 32 (CHR 0x00))"
    by (simp add: eval_nat_numeral)
  have "atoi ''5432'' = Inr 5432" "atoi ''5'' = Inr 5" by code_simp+
  with k have "valid_environment (\<lambda>_ _. None) ?env"
    by (simp add: valid_environment_def env_get_def)
  with config_loads_iff_valid [OF r, of "\<lambda>_ _. None"] show ?thesis by metis
qed

end
