(* ===== verification/TagReader.thy ===== *)
theory TagReader
  imports SongQueue Transcode Config
begin

text \<open>
  From a file to the description the scanner queues (the tag functions and \<open>processFile\<close> of
  \<open>scanner/scan.go\<close>, \<open>scanner/lyrics.go\<close>, the tag table of \<open>audiotags/audiotags.go\<close>). The tag library,
  the file system, the MIME table and the parsers of dates and floating-point numbers are the record
  \<open>scan_io\<close>; points in time are integers, the zero time is 0.
\<close>

section \<open>The tag table\<close>

type_synonym tag_map = "string \<rightharpoonup> string list"

text \<open>The loop of \<open>audiotags.Read\<close>: keys in upper case, values of the same key in order.\<close>

definition add_tag :: "tag_map \<Rightarrow> string \<times> string \<Rightarrow> tag_map" where
  "add_tag tags kv =
     (let key = to_upper (fst kv)
      in tags(key \<mapsto> (case tags key of None \<Rightarrow> [] | Some vs \<Rightarrow> vs) @ [snd kv]))"

definition read_tags :: "(string \<times> string) list \<Rightarrow> tag_map" where
  "read_tags kvs = foldl add_tag Map.empty kvs"

record audio_props =
  pr_LengthMs :: int
  pr_BitRate :: int
  pr_SampleRate :: int
  pr_Channels :: int

definition props_IsEmpty :: "audio_props option \<Rightarrow> bool" where
  "props_IsEmpty p = (case p of None \<Rightarrow> True
     | Some x \<Rightarrow> pr_BitRate x = 0 \<and> pr_LengthMs x = 0 \<and> pr_SampleRate x = 0 \<and> pr_Channels x = 0)"

definition ErrNoMetadata :: go_error where
  "ErrNoMetadata = EMsg ''no metadata''"

definition errNotAMediaFile :: go_error where
  "errNotAMediaFile = EMsg ''not a media file''"

section \<open>Files\<close>

record file_info =
  fi_isDir :: bool
  fi_size :: int
  fi_modTime :: int

text \<open>
  \<open>io_times\<close> is the modification time and, where the system has one, the change time; \<open>io_tags\<close> has
  the flag for looking for an embedded image and yields tags, properties and whether there is one.
\<close>

record scan_io =
  io_mime :: "string \<Rightarrow> string"
  io_info :: "string \<Rightarrow> go_error + file_info"
  io_times :: "string \<Rightarrow> go_error + int \<times> int option"
  io_content :: "string \<Rightarrow> go_error + string"
  io_tags :: "string \<Rightarrow> bool \<Rightarrow> go_error + (tag_map \<times> audio_props option \<times> bool)"
  io_parse_any :: "string \<Rightarrow> go_error + int \<times> int \<times> int"
  io_parse_float :: "string \<Rightarrow> float64 option"

section \<open>Reading tags\<close>

definition readSingleTag :: "tag_map \<Rightarrow> string \<Rightarrow> string option" where
  "readSingleTag tags key = (case tags key of None \<Rightarrow> None | Some vs \<Rightarrow> (case vs of [] \<Rightarrow> None | v # _ \<Rightarrow> Some v))"

definition readSingleTagOptional :: "tag_map \<Rightarrow> string \<Rightarrow> string option" where
  "readSingleTagOptional tags key = (case tags key of None \<Rightarrow> None | Some vs \<Rightarrow> (case vs of [] \<Rightarrow> None | v # _ \<Rightarrow> Some v))"

fun readSingleTagFirstOptional :: "tag_map \<Rightarrow> string list \<Rightarrow> string option" where
  "readSingleTagFirstOptional tags [] = None"
| "readSingleTagFirstOptional tags (k # ks) =
     (case tags k of Some (v # _) \<Rightarrow> Some v | _ \<Rightarrow> readSingleTagFirstOptional tags ks)"

definition readSingleIntTagOptional :: "tag_map \<Rightarrow> string \<Rightarrow> int option" where
  "readSingleIntTagOptional tags key =
     (case tags key of Some (v # _) \<Rightarrow> (case atoi v of Inl _ \<Rightarrow> None | Inr i \<Rightarrow> Some i) | _ \<Rightarrow> None)"

text \<open>The first key with a value decides, even when the value is no number.\<close>

fun readSingleIntTagFirstOptional :: "tag_map \<Rightarrow> char \<Rightarrow> string list \<Rightarrow> int option" where
  "readSingleIntTagFirstOptional tags sep [] = None"
| "readSingleIntTagFirstOptional tags sep (k # ks) =
     (case tags k of
        Some (v # _) \<Rightarrow> (case atoi (split_on sep v ! 0) of Inl _ \<Rightarrow> None | Inr i \<Rightarrow> Some i)
      | _ \<Rightarrow> readSingleIntTagFirstOptional tags sep ks)"

definition parseDate :: "(string \<Rightarrow> go_error + int \<times> int \<times> int) \<Rightarrow> string \<Rightarrow> go_error + Date" where
  "parseDate parse_any str0 =
     (let str = trim_space str0
      in case parse_any str of Inl e \<Rightarrow> Inl (EWrap ''parse any'' e)
         | Inr (year, month, day) \<Rightarrow>
             if str = pad_int 4 year then Inr (NewDate year None None)
             else if str = pad_int 4 year @ ''-'' @ pad_int 2 month then Inr (NewDate year (Some month) None)
             else Inr (NewDate year (Some month) (Some day)))"

text \<open>Here a value that is no date is passed over.\<close>

fun readDateTagFirstOptional ::
  "(string \<Rightarrow> go_error + int \<times> int \<times> int) \<Rightarrow> tag_map \<Rightarrow> string list \<Rightarrow> Date option" where
  "readDateTagFirstOptional parse_any tags [] = None"
| "readDateTagFirstOptional parse_any tags (k # ks) =
     (case tags k of
        Some (v # _) \<Rightarrow> (case parseDate parse_any v of
                            Inl _ \<Rightarrow> readDateTagFirstOptional parse_any tags ks | Inr d \<Rightarrow> Some d)
      | _ \<Rightarrow> readDateTagFirstOptional parse_any tags ks)"

fun remove_db :: "string \<Rightarrow> string" where
  "remove_db (c # c' # s) = (if c = CHR ''d'' \<and> c' = CHR ''b'' then remove_db s else c # remove_db (c' # s))"
| "remove_db s = s"

definition readReplayGainTag :: "(string \<Rightarrow> float64 option) \<Rightarrow> tag_map \<Rightarrow> string \<Rightarrow> float64 option" where
  "readReplayGainTag parse_float tags key =
     (case tags key of
        Some (v # _) \<Rightarrow> parse_float (trim_space (filter (\<lambda>c. c \<noteq> CHR ''+'') (remove_db (to_lower v))))
      | _ \<Rightarrow> None)"

definition readSingleBoolTag :: "tag_map \<Rightarrow> string \<Rightarrow> bool" where
  "readSingleBoolTag tags key = (case tags key of Some (v # _) \<Rightarrow> parse_bool v = Some True | _ \<Rightarrow> False)"

fun readStringTags :: "tag_map \<Rightarrow> string list \<Rightarrow> string list" where
  "readStringTags tags [] = []"
| "readStringTags tags (k # ks) = (case tags k of Some (v # vs) \<Rightarrow> v # vs | _ \<Rightarrow> readStringTags tags ks)"

section \<open>Lyrics beside the file\<close>

definition findLyricsSidecar :: "scan_io \<Rightarrow> int \<Rightarrow> string \<Rightarrow> string option \<times> bool" where
  "findLyricsSidecar io lastScan songPath =
     (let basePath = trim_suffix songPath (filepath_Ext songPath); lrc = basePath @ ''.lrc''; txt = basePath @ ''.txt''
      in case io_info io lrc of
           Inr i \<Rightarrow> (Some lrc, lastScan = 0 \<or> fi_modTime i > lastScan)
         | Inl _ \<Rightarrow> (case io_info io txt of
                        Inr i \<Rightarrow> (Some txt, lastScan = 0 \<or> fi_modTime i > lastScan)
                      | Inl _ \<Rightarrow> (None, False)))"

definition tag_lyrics :: "tag_map \<Rightarrow> string option" where
  "tag_lyrics tags =
     (case tags ''lyrics'' of Some l \<Rightarrow> Some (join_with [CHR 0x0A] l)
      | None \<Rightarrow> (case tags ''unsyncedlyrics'' of Some l \<Rightarrow> Some (join_with [CHR 0x0A] l) | None \<Rightarrow> None))"

definition scanLyrics :: "scan_io \<Rightarrow> string option \<Rightarrow> tag_map \<Rightarrow> string option" where
  "scanLyrics io sideCarPath tags =
     (case sideCarPath of
        None \<Rightarrow> tag_lyrics tags
      | Some p \<Rightarrow> (case io_content io p of Inr content \<Rightarrow> Some content | Inl _ \<Rightarrow> tag_lyrics tags))"


section \<open>Dates\<close>

text \<open>
  \<open>Month\<close> returns a pointer to a field of its own copy of the date, so two such pointers are only equal
  when both are nil.
\<close>

definition same_copy :: "int option \<Rightarrow> int option \<Rightarrow> bool" where
  "same_copy a b \<longleftrightarrow> a = None \<and> b = None"

definition complete_release :: "Date \<Rightarrow> Date \<Rightarrow> Date" where
  "complete_release orig rel =
     (if Date_Year orig = Date_Year rel \<and> Date_Month orig \<noteq> None \<and> Date_Month rel = None
      then NewDate (Date_Year rel) (Date_Month orig) (Date_Day orig)
      else if Date_Year orig = Date_Year rel \<and> same_copy (Date_Month orig) (Date_Month rel) \<and> Date_Day orig \<noteq> None
              \<and> Date_Day rel = None
      then NewDate (Date_Year rel) (Date_Month orig) (Date_Day orig)
      else rel)"

definition media_dates ::
  "(string \<Rightarrow> go_error + int \<times> int \<times> int) \<Rightarrow> tag_map \<Rightarrow> Date option \<times> Date option" where
  "media_dates parse_any tags =
     (let orig = readDateTagFirstOptional parse_any tags [''ORIGINALDATE'', ''ORIGINALYEAR'', ''DATE'', ''YEAR''];
          rel = readDateTagFirstOptional parse_any tags
                  [''RELEASEDATE'', ''RELEASEYEAR'', ''DATE'', ''YEAR'', ''ORIGINALDATE'', ''ORIGINALYEAR''];
          orig' = (if orig = None then rel else orig)
      in (orig', case (orig', rel) of (Some x, Some y) \<Rightarrow> Some (complete_release x y) | _ \<Rightarrow> rel))"

section \<open>Processing a file\<close>

definition filepath_Base :: "string \<Rightarrow> string" where
  "filepath_Base p =
     (if p = [] then ''.''
      else let s = rev (dropWhile (\<lambda>c. c = CHR ''/'') (rev p))
           in if s = [] then ''/'' else last (split_on (CHR ''/'') s))"

definition media_artists :: "tag_map \<Rightarrow> string list \<times> string list" where
  "media_artists tags =
     (let artists = readStringTags tags [''ARTISTS'', ''ARTIST''];
          albumArtists = readStringTags tags [''ALBUMARTISTS'', ''ALBUM_ARTISTS'', ''ALBUMARTIST'', ''ALBUM_ARTIST'']
      in (artists,
          if \<not> readSingleBoolTag tags ''COMPILATION'' \<and> albumArtists = [] \<and> artists \<noteq> [] then [artists ! 0]
          else albumArtists))"

definition media_file ::
  "scan_io \<Rightarrow> string \<Rightarrow> string \<Rightarrow> string \<Rightarrow> file_info \<Rightarrow> string option \<Rightarrow> string option \<Rightarrow> tag_map \<Rightarrow> audio_props \<Rightarrow> int \<Rightarrow> mediaFile" where
  "media_file io instanceID path contentType info cover lyricsPath tags props musicFolderId =
     (let idTag = readSingleTag tags (''CROSSONIC_ID_'' @ to_upper instanceID);
          (artists, albumArtists) = media_artists tags;
          (originalDate, releaseDate) = media_dates (io_parse_any io) tags
      in \<lparr> mf_id = (case idTag of Some i \<Rightarrow> if prefix ''tr_'' i then Some i else None | None \<Rightarrow> None),
           mf_path = path, mf_size = fi_size info, mf_contentType = contentType, mf_lastModified = fi_modTime info,
           mf_cover = cover, mf_bitrate = pr_BitRate props, mf_channels = pr_Channels props, mf_lengthMS = pr_LengthMs props,
           mf_sampleRate = pr_SampleRate props,
           mf_title = (case readSingleTag tags ''TITLE'' of Some t \<Rightarrow> t | None \<Rightarrow> trim_suffix (filepath_Base path) (filepath_Ext path)),
           mf_albumName = readSingleTagOptional tags ''ALBUM'',
           mf_albumMBID = readSingleTagOptional tags ''MUSICBRAINZ_RELEASEGROUPID'',
           mf_albumReleaseMBID = readSingleTagOptional tags ''MUSICBRAINZ_ALBUMID'',
           mf_artistNames = artists,
           mf_artistMBIDs = readStringTags tags [''MUSICBRAINZ_ARTISTIDS'', ''MUSICBRAINZ_ARTISTID''],
           mf_albumArtistNames = albumArtists,
           mf_albumArtistMBIDs = readStringTags tags [''MUSICBRAINZ_ALBUMARTISTIDS'', ''MUSICBRAINZ_ALBUMARTISTID''],
           mf_bpm = readSingleIntTagOptional tags ''BPM'',
           mf_originalDate = originalDate, mf_releaseDate = releaseDate,
           mf_track = readSingleIntTagFirstOptional tags (CHR ''/'') [''TRACKNUMBER''],
           mf_disc = readSingleIntTagFirstOptional tags (CHR ''/'') [''DISCNUMBER''],
           mf_discTitle = readSingleTagOptional tags ''DISCSUBTITLE'',
           mf_genres = readStringTags tags [''GENRES'', ''GENRE''],
           mf_musicBrainzID = readSingleTagOptional tags ''MUSICBRAINZ_TRACKID'',
           mf_replayGain = readReplayGainTag (io_parse_float io) tags ''REPLAYGAIN_TRACK_GAIN'',
           mf_replayGainPeak = readReplayGainTag (io_parse_float io) tags ''REPLAYGAIN_TRACK_PEAK'',
           mf_albumReplayGain = readReplayGainTag (io_parse_float io) tags ''REPLAYGAIN_ALBUM_GAIN'',
           mf_albumReplayGainPeak = readReplayGainTag (io_parse_float io) tags ''REPLAYGAIN_ALBUM_PEAK'',
           mf_lyrics = scanLyrics io lyricsPath tags,
           mf_recordLabels = readStringTags tags [''LABELS'', ''LABEL''],
           mf_releaseTypes = readStringTags tags [''RELEASETYPES'', ''RELEASETYPE'', ''RELEASE_TYPE''],
           mf_isCompilation = readSingleBoolTag tags ''COMPILATION'',
           mf_albumVersion = readSingleTagFirstOptional tags [''ALBUMVERSION'', ''VERSION''],
           mf_musicFolderID = musicFolderId \<rparr>)"

text \<open>
  The settings of a scan. The result is an error, nothing for a file that has not changed, or the
  description to queue; the number is what is added to the counter of files. The second test of the MIME
  type repeats the first and is left out. The change time is only asked for when the rest is unchanged.
\<close>

record scan_settings =
  st_fullScan :: bool
  st_lastScan :: int
  st_instanceID :: string
  st_scanHidden :: bool
  st_coverPriority :: "string list"

definition unchanged :: "scan_io \<Rightarrow> scan_settings \<Rightarrow> string \<Rightarrow> bool \<Rightarrow> file_info \<Rightarrow> bool \<Rightarrow> go_error + bool" where
  "unchanged io st path parentDirChanged info lyricsModified =
     (if \<not> st_fullScan st \<and> \<not> parentDirChanged \<and> fi_modTime info < st_lastScan st \<and> \<not> lyricsModified
      then (case io_times io path of
              Inl e \<Rightarrow> Inl (EWrap ''times stat'' e)
            | Inr (_, ctime) \<Rightarrow> Inr (case ctime of None \<Rightarrow> False | Some c \<Rightarrow> c < st_lastScan st))
      else Inr False)"

definition processFile ::
  "scan_io \<Rightarrow> scan_settings \<Rightarrow> string \<Rightarrow> string option \<Rightarrow> bool \<Rightarrow> bool \<Rightarrow> int \<Rightarrow> (go_error + mediaFile option) \<times> nat" where
  "processFile io st path cover prioritizeEmbeddedCover parentDirChanged musicFolderId =
     (let contentType = io_mime io (filepath_Ext path)
      in if \<not> prefix ''audio/'' contentType then (Inl errNotAMediaFile, 0)
         else case io_info io path of
           Inl e \<Rightarrow> (Inl (EWrap ''stat'' e), 0)
         | Inr info \<Rightarrow>
             if fi_isDir info then (Inl errNotAMediaFile, 0)
             else (let (lyricsPath, lyricsModified) = findLyricsSidecar io (st_lastScan st) path
                   in ((case unchanged io st path parentDirChanged info lyricsModified of
                         Inl e \<Rightarrow> Inl e
                       | Inr True \<Rightarrow> Inr None
                       | Inr False \<Rightarrow>
                           (case io_tags io path (prioritizeEmbeddedCover \<or> cover = None) of
                              Inl e \<Rightarrow> Inl (if errors_Is e ErrNoMetadata then errNotAMediaFile else EWrap ''read tags'' e)
                            | Inr (tags, props, hasImage) \<Rightarrow>
                                if props_IsEmpty props then Inl errNotAMediaFile
                                else Inr (Some (media_file io (st_instanceID st) path contentType info
                                       (if prioritizeEmbeddedCover \<and> cover \<noteq> None \<and> hasImage then None else cover)
                                       lyricsPath tags (the props) musicFolderId)))), 1)))"


section \<open>Facts about tags\<close>

lemma to_upper_idem: "to_upper (to_upper s) = to_upper s"
  by (auto simp: to_upper_def upper_char_def)

lemma add_tag_keys: "\<forall>k\<in>dom tags. to_upper k = k \<Longrightarrow> \<forall>k\<in>dom (add_tag tags kv). to_upper k = k"
  by (auto simp: add_tag_def Let_def to_upper_idem split: if_splits)

lemma read_tags_keys: "tags = foldl add_tag tags0 kvs \<Longrightarrow> \<forall>k\<in>dom tags0. to_upper k = k \<Longrightarrow> \<forall>k\<in>dom tags. to_upper k = k"
proof (induction kvs arbitrary: tags0)
  case (Cons kv kvs)
  from Cons.prems(1) have "tags = foldl add_tag (add_tag tags0 kv) kvs" by simp
  from Cons.IH [OF this add_tag_keys [OF Cons.prems(2)]] show ?case .
qed simp

text \<open>
  The keys of the table are in upper case, but lyrics are looked up in lower case: lyrics inside a file
  are never found.
\<close>

lemma embedded_lyrics_unread: "tag_lyrics (read_tags kvs) = None"
proof -
  have k: "\<forall>k\<in>dom (read_tags kvs). to_upper k = k"
    by (rule read_tags_keys [OF read_tags_def]) simp
  have "to_upper ''lyrics'' \<noteq> ''lyrics''" "to_upper ''unsyncedlyrics'' \<noteq> ''unsyncedlyrics''" by code_simp+
  with k have "''lyrics'' \<notin> dom (read_tags kvs)" "''unsyncedlyrics'' \<notin> dom (read_tags kvs)" by blast+
  then show ?thesis by (simp add: tag_lyrics_def domIff)
qed

text \<open>Values of one key are kept in the order of the file.\<close>

lemma foldl_add_tag:
  "foldl add_tag tags kvs (to_upper k) =
     (let vs = map snd (filter (\<lambda>kv. to_upper (fst kv) = to_upper k) kvs)
      in if vs = [] then tags (to_upper k)
         else Some ((case tags (to_upper k) of None \<Rightarrow> [] | Some us \<Rightarrow> us) @ vs))"
  by (induction kvs arbitrary: tags) (auto simp: add_tag_def Let_def split: option.splits)

lemma readDate_None_mono:
  "set ks \<subseteq> set ks' \<Longrightarrow> readDateTagFirstOptional pa tags ks' = None \<Longrightarrow> readDateTagFirstOptional pa tags ks = None"
proof -
  have none: "readDateTagFirstOptional pa tags ks = None \<longleftrightarrow>
     (\<forall>k\<in>set ks. \<forall>v vs. tags k = Some (v # vs) \<longrightarrow> isl (parseDate pa v))" for ks
    by (induction ks) (auto split: option.splits list.splits sum.splits)
  show "set ks \<subseteq> set ks' \<Longrightarrow> readDateTagFirstOptional pa tags ks' = None \<Longrightarrow> readDateTagFirstOptional pa tags ks = None"
    unfolding none by blast
qed

lemma media_dates_both:
  "fst (media_dates pa tags) = None \<longleftrightarrow> snd (media_dates pa tags) = None"
proof -
  have "readDateTagFirstOptional pa tags [''RELEASEDATE'', ''RELEASEYEAR'', ''DATE'', ''YEAR'', ''ORIGINALDATE'', ''ORIGINALYEAR''] = None
    \<Longrightarrow> readDateTagFirstOptional pa tags [''ORIGINALDATE'', ''ORIGINALYEAR'', ''DATE'', ''YEAR''] = None"
    by (erule readDate_None_mono [rotated]) simp
  then show ?thesis
    unfolding media_dates_def Let_def by (auto simp del: readDateTagFirstOptional.simps split: option.splits)
qed

lemma Date_fields [simp]:
  "Date_Year (NewDate y m d) = y" "Date_Month (NewDate y (Date_Month x) d) = Date_Month x" "Date_Month (NewDate y None d) = None"
  "Date_Day (NewDate y m (Date_Day x)) = Date_Day x"
  by (simp_all add: Date_Year_def Date_Month_def Date_Day_def NewDate_def split: option.splits)

lemma complete_release_year: "Date_Year (complete_release x y) = Date_Year y"
  by (simp add: complete_release_def)

lemma complete_release_month:
  "Date_Month (complete_release x y) =
     (if Date_Year x = Date_Year y \<and> Date_Month y = None then Date_Month x else Date_Month y)"
  by (auto simp: complete_release_def same_copy_def)

text \<open>A day is only ever taken over together with the month.\<close>

lemma complete_release_day: "Date_Month y \<noteq> None \<Longrightarrow> complete_release x y = y"
  by (auto simp: complete_release_def same_copy_def)

lemma parseDate_iso:
  assumes "date_wf d" "trim_space s = Date_String d"
    and "pa (Date_String d) = Inr (date_year d, if date_month d = 0 then 1 else date_month d, if date_day d = 0 then 1 else date_day d)"
  shows "parseDate pa s = Inr d"
proof -
  have y: "0 \<le> date_year d" and m: "0 \<le> date_month d" using assms(1) by (auto simp: date_wf_def)
  have nd: "CHR ''-'' \<notin> set (pad_int w (date_year d))" "CHR ''-'' \<notin> set (pad_int w (date_month d))" for w
    using y m by (auto simp: pad_int_no_dash)
  have "pad_int 4 (date_year d) @ CHR ''-'' # t \<noteq> pad_int 4 (date_year d)" for t by simp
  moreover have "pad_int 4 (date_year d) @ CHR ''-'' # pad_int 2 (date_month d) @ CHR ''-'' # t
      \<noteq> pad_int 4 (date_year d) @ CHR ''-'' # pad_int 2 (date_month d)" for t by simp
  ultimately show ?thesis
    using assms by (cases d) (auto simp: parseDate_def Let_def Date_String_def NewDate_def date_wf_def)
qed


section \<open>What is read and what it becomes\<close>

text \<open>The core of the property below, for use in the walk.\<close>

lemma processed_file:
  assumes "prefix ''audio/'' (io_mime io (filepath_Ext path))" "io_info io path = Inr info" "\<not> fi_isDir info"
    and "io_times io path = Inr (mtime, ctime)"
    and readable: "io_tags io path (embedded \<or> cover = None) = Inr (tags, props, img)" "\<not> props_IsEmpty props"
  shows "(if \<not> st_fullScan st \<and> \<not> changed \<and> fi_modTime info < st_lastScan st \<and> \<not> snd (findLyricsSidecar io (st_lastScan st) path)
             \<and> (\<exists>c < st_lastScan st. ctime = Some c)
          then processFile io st path cover embedded changed folder = (Inr None, 1)
          else \<exists>m. processFile io st path cover embedded changed folder = (Inr (Some m), 1)
                 \<and> mf_path m = path \<and> mf_size m = fi_size info \<and> mf_lastModified m = fi_modTime info)"
proof -
  have media: "mf_path (media_file io i p ct inf c l ts pr f) = p" "mf_size (media_file io i p ct inf c l ts pr f) = fi_size inf"
      "mf_lastModified (media_file io i p ct inf c l ts pr f) = fi_modTime inf" for i p ct inf c l ts pr f
    by (simp_all add: media_file_def Let_def split: prod.splits)
  have u: "unchanged io st path changed info modified = Inr (\<not> st_fullScan st \<and> \<not> changed \<and> fi_modTime info < st_lastScan st
      \<and> \<not> modified \<and> (\<exists>c < st_lastScan st. ctime = Some c))" for modified
    using assms(4) by (auto simp: unchanged_def split: option.splits)
  let ?c = "\<not> st_fullScan st \<and> \<not> changed \<and> fi_modTime info < st_lastScan st
      \<and> \<not> snd (findLyricsSidecar io (st_lastScan st) path) \<and> (\<exists>c < st_lastScan st. ctime = Some c)"
  show ?thesis
  proof (cases ?c)
    case True
    then have "unchanged io st path changed info (snd (findLyricsSidecar io (st_lastScan st) path)) = Inr True"
      unfolding u by blast
    with assms(1-3) have "processFile io st path cover embedded changed folder = (Inr None, 1)"
      by (simp add: processFile_def Let_def case_prod_unfold)
    with True show ?thesis by simp
  next
    case False
    then have "unchanged io st path changed info (snd (findLyricsSidecar io (st_lastScan st) path)) = Inr False"
      unfolding u by blast
    with assms(1-3) have "\<exists>m. processFile io st path cover embedded changed folder = (Inr (Some m), 1)
                 \<and> mf_path m = path \<and> mf_size m = fi_size info \<and> mf_lastModified m = fi_modTime info"
      by (simp add: processFile_def Let_def case_prod_unfold readable media)
    with False show ?thesis by (simp only: if_False)
  qed
qed


definition wit_props :: audio_props where
  "wit_props = \<lparr> pr_LengthMs = 1, pr_BitRate = 2, pr_SampleRate = 3, pr_Channels = 2 \<rparr>"

definition wit_scan_io :: scan_io where
  "wit_scan_io = \<lparr> io_mime = (\<lambda>e. if e = ''.mp3'' then ''audio/mpeg'' else []),
     io_info = (\<lambda>p. if p = ''/m/a.mp3'' then Inr \<lparr> fi_isDir = False, fi_size = 7, fi_modTime = 40 \<rparr> else Inl (EMsg ''stat'')),
     io_times = (\<lambda>_. Inr (40, Some 60)), io_content = (\<lambda>_. Inl (EMsg ''open'')),
     io_tags = (\<lambda>_ _. Inr (read_tags [(''artist'', ''A''), (''Artist'', ''B''), (''date'', ''2001-02'')],
        Some wit_props, True)),
     io_parse_any = (\<lambda>_. Inr (2001, 2, 1)), io_parse_float = (\<lambda>_. None) \<rparr>"

definition wit_settings :: scan_settings where
  "wit_settings = \<lparr> st_fullScan = False, st_lastScan = 50, st_instanceID = ''i'', st_scanHidden = False, st_coverPriority = [] \<rparr>"


text \<open>
  Whatever is queued is well formed: an identifier taken from a tag is that of a song, a file with
  artists has album artists unless it is marked as part of a compilation, both dates are known or none is,
  and a release date of the same year is at least as precise in its month as the original date.
\<close>

lemma queued_file_wf:
  assumes "processFile io st path cover embedded changed folder = (Inr (Some m), n)"
  shows "mf_path m = path \<and> prefix ''audio/'' (mf_contentType m) \<and> mf_musicFolderID m = folder \<and>
    (\<forall>i. mf_id m = Some i \<longrightarrow> prefix ''tr_'' i) \<and>
    (mf_isCompilation m \<or> mf_artistNames m = [] \<or> mf_albumArtistNames m \<noteq> []) \<and>
    (mf_originalDate m = None \<longleftrightarrow> mf_releaseDate m = None) \<and>
    (\<forall>x y. mf_originalDate m = Some x \<longrightarrow> mf_releaseDate m = Some y \<longrightarrow> Date_Year x = Date_Year y \<longrightarrow>
       Date_Month x \<noteq> None \<longrightarrow> Date_Month y \<noteq> None)"
proof -
  let ?ct = "io_mime io (filepath_Ext path)"
  from assms obtain info c l tags props where ct: "prefix ''audio/'' ?ct"
    and m: "m = media_file io (st_instanceID st) path ?ct info c l tags props folder"
    by (auto simp: processFile_def Let_def split: if_splits sum.splits bool.splits prod.splits)
  have d: "mf_originalDate m = fst (media_dates (io_parse_any io) tags)" "mf_releaseDate m = snd (media_dates (io_parse_any io) tags)"
    and a: "mf_artistNames m = fst (media_artists tags)" "mf_albumArtistNames m = snd (media_artists tags)"
      "mf_isCompilation m = readSingleBoolTag tags ''COMPILATION''"
    and r: "mf_path m = path" "mf_contentType m = ?ct" "mf_musicFolderID m = folder"
    and i: "mf_id m = (case readSingleTag tags (''CROSSONIC_ID_'' @ to_upper (st_instanceID st)) of
              Some i \<Rightarrow> if prefix ''tr_'' i then Some i else None | None \<Rightarrow> None)"
    by (simp_all add: m media_file_def Let_def case_prod_unfold)
  have "mf_isCompilation m \<or> mf_artistNames m = [] \<or> mf_albumArtistNames m \<noteq> []"
    by (auto simp: a media_artists_def Let_def)
  moreover have "Date_Month y \<noteq> None"
    if xy: "mf_originalDate m = Some x" "mf_releaseDate m = Some y" "Date_Year x = Date_Year y" "Date_Month x \<noteq> None" for x y
  proof -
    from xy(1,2) obtain z where "y = complete_release x z"
      unfolding d by (auto simp del: readDateTagFirstOptional.simps simp: media_dates_def Let_def split: option.splits if_splits)
    with xy(3,4) show ?thesis by (simp add: complete_release_month complete_release_year)
  qed
  ultimately show ?thesis
    using ct media_dates_both [of "io_parse_any io" tags] by (simp add: r d i split: option.splits)
qed

lemma queued_file_wf_example:
  "\<exists>m. fst (processFile wit_scan_io wit_settings ''/m/a.mp3'' None False True 1) = Inr (Some m)
     \<and> mf_artistNames m = [''A'', ''B''] \<and> mf_albumArtistNames m \<noteq> [] \<and> mf_path m = ''/m/a.mp3''"
proof -
  let ?r = "processFile wit_scan_io wit_settings ''/m/a.mp3'' None False True 1"
  let ?tags = "read_tags [(''artist'', ''A''), (''Artist'', ''B''), (''date'', ''2001-02'')]"
  have e: "filepath_Ext ''/m/a.mp3'' = ''.mp3''" by code_simp
  have a: "media_artists ?tags = ([''A'', ''B''], [''A''])" "\<not> readSingleBoolTag ?tags ''COMPILATION''" by code_simp+
  obtain m where r: "?r = (Inr (Some m), 1)" and m: "mf_artistNames m = [''A'', ''B'']" "\<not> mf_isCompilation m"
    using a by (simp add: processFile_def wit_scan_io_def wit_settings_def e unchanged_def props_IsEmpty_def wit_props_def
        media_file_def Let_def case_prod_unfold)
  show ?thesis
    using queued_file_wf [OF r] r m by auto
qed

end
