(* ===== verification/DirWalk.thy ===== *)
theory DirWalk
  imports TagReader
begin

text \<open>
  The walk over the music directories (\<open>walkDir\<close>, \<open>scanMediaDirs\<close> and \<open>scanMediaFilesInDir\<close> of
  \<open>scanner/scan.go\<close>). A directory tree is a datatype: reading a directory yields its entries or an error. The
  function called for each entry keeps a state; whether the scan has been cancelled or a worker has failed
  by the time of a call is an argument.
\<close>

section \<open>Paths\<close>

text \<open>\<open>filepath.Clean\<close> and \<open>filepath.Join\<close> of two non-empty elements.\<close>

fun clean_comps :: "bool \<Rightarrow> string list \<Rightarrow> string list \<Rightarrow> string list" where
  "clean_comps rooted acc [] = rev acc"
| "clean_comps rooted acc (p # ps) =
     (if p = [] \<or> p = ''.'' then clean_comps rooted acc ps
      else if p = ''..''
           then clean_comps rooted
                  (case acc of [] \<Rightarrow> if rooted then [] else [p] | a # as \<Rightarrow> if a = ''..'' then p # acc else as) ps
      else clean_comps rooted (p # acc) ps)"

definition filepath_Clean :: "string \<Rightarrow> string" where
  "filepath_Clean p =
     (let cs = clean_comps (prefix ''/'' p) [] (split_on (CHR ''/'') p)
      in if prefix ''/'' p then CHR ''/'' # join_with ''/'' cs else if cs = [] then ''.'' else join_with ''/'' cs)"

definition filepath_Join :: "string \<Rightarrow> string \<Rightarrow> string" where
  "filepath_Join dir name =
     (if dir = [] then (if name = [] then [] else filepath_Clean name)
      else if name = [] then filepath_Clean dir else filepath_Clean (dir @ ''/'' @ name))"

section \<open>The walk\<close>

datatype fs_node = Node (nd_name: string) (nd_isDir: bool) (nd_entries: "go_error + fs_node list")

datatype walk_error = SkipDir | SkipAll | WalkErr go_error

text \<open>Newer than the last scan, or without a change time that could tell.\<close>

definition newer :: "int \<Rightarrow> int \<times> int option \<Rightarrow> bool" where
  "newer lastScan t = (fst t > lastScan \<or> (case snd t of None \<Rightarrow> True | Some c \<Rightarrow> c > lastScan))"

definition skipped :: "bool \<Rightarrow> walk_error option \<Rightarrow> walk_error option" where
  "skipped isDir e = (if e = Some SkipDir \<and> isDir then None else e)"

type_synonym 's walk_fun = "string \<Rightarrow> fs_node \<Rightarrow> bool \<Rightarrow> go_error option \<Rightarrow> 's \<Rightarrow> walk_error option \<times> 's"

function (sequential) walkDir ::
    "(string \<Rightarrow> go_error + int \<times> int option) \<Rightarrow> int \<Rightarrow> 's walk_fun \<Rightarrow> string \<Rightarrow> fs_node \<Rightarrow> bool \<Rightarrow> 's \<Rightarrow> walk_error option \<times> 's"
  and walk_entries ::
    "(string \<Rightarrow> go_error + int \<times> int option) \<Rightarrow> int \<Rightarrow> 's walk_fun \<Rightarrow> string \<Rightarrow> fs_node list \<Rightarrow> bool \<Rightarrow> 's \<Rightarrow> walk_error option \<times> 's"
where
  "walkDir stat lastScan fn path (Node name isDir entries) parentChanged s =
     (case (if parentChanged then Inr True else map_sum id (newer lastScan) (stat path)) of
        Inl e \<Rightarrow> (Some (WalkErr e), s)
      | Inr changed \<Rightarrow>
          (case fn path (Node name isDir entries) changed None s of
             (Some e, s) \<Rightarrow> (skipped isDir (Some e), s)
           | (None, s) \<Rightarrow>
               if \<not> isDir then (None, s)
               else (case entries of
                       Inl e \<Rightarrow> (case fn path (Node name isDir entries) changed (Some e) s of (r, s) \<Rightarrow> (skipped isDir r, s))
                     | Inr ds \<Rightarrow> walk_entries stat lastScan fn path ds changed s)))"
| "walk_entries stat lastScan fn path [] changed s = (None, s)"
| "walk_entries stat lastScan fn path (d # ds) changed s =
     (case walkDir stat lastScan fn (filepath_Join path (nd_name d)) d changed s of
        (Some e, s) \<Rightarrow> (if e = SkipDir then None else Some e, s)
      | (None, s) \<Rightarrow> walk_entries stat lastScan fn path ds changed s)"
  by pat_completeness auto
termination
  by (relation "measure (case_sum (\<lambda>(_, _, _, _, n, _, _). size n) (\<lambda>(_, _, _, _, ds, _, _). size_list size ds))") auto


section \<open>Scanning the music directories\<close>

definition checkIfChangedByPath :: "(string \<Rightarrow> go_error + int \<times> int option) \<Rightarrow> int \<Rightarrow> string \<Rightarrow> bool" where
  "checkIfChangedByPath stat lastScan path = (case stat path of Inl _ \<Rightarrow> True | Inr t \<Rightarrow> newer lastScan t)"

definition checkIfChanged :: "(string \<Rightarrow> go_error + int \<times> int option) \<Rightarrow> int \<Rightarrow> string \<Rightarrow> int \<Rightarrow> bool" where
  "checkIfChanged stat lastScan path modTime = (modTime > lastScan \<or> checkIfChangedByPath stat lastScan path)"

record scan_dir =
  sd_changed :: bool
  sd_path :: string
  sd_musicFolderId :: int

text \<open>
  The function \<open>scanMediaDirs\<close> hands to the walk. The state is the number of its calls so far and the
  directories sent to the workers; \<open>stop n\<close> tells whether before call \<open>n\<close> the context is done and
  whether a worker has reported an error. No entry has an empty name.
\<close>

definition visit_dir ::
  "(string \<Rightarrow> go_error + int \<times> int option) \<Rightarrow> scan_settings \<Rightarrow> (nat \<Rightarrow> bool \<times> bool) \<Rightarrow> int \<Rightarrow> (nat \<times> scan_dir list) walk_fun" where
  "visit_dir stat st stop folder path d parentChanged err s =
     (case s of (n, sent) \<Rightarrow>
        (case err of
           Some e \<Rightarrow> (Some (WalkErr e), (Suc n, sent))
         | None \<Rightarrow>
             if fst (stop n) then (Some SkipAll, (Suc n, sent))
             else if \<not> nd_isDir d then (None, (Suc n, sent))
             else if snd (stop n) then (Some SkipAll, (Suc n, sent))
             else if \<not> st_scanHidden st \<and> prefix ''.'' (nd_name d) then (Some SkipDir, (Suc n, sent))
             else (None, (Suc n, sent @ [\<lparr> sd_changed = (parentChanged \<or> checkIfChangedByPath stat (st_lastScan st) path),
                                            sd_path = path, sd_musicFolderId = folder \<rparr>]))))"

text \<open>
  \<open>lstat\<close> yields the modification time of a music directory and its tree; \<open>workers\<close> is the error the
  workers have ended with.
\<close>

fun walk_music_dirs ::
  "(string \<Rightarrow> go_error + int \<times> fs_node) \<Rightarrow> (string \<Rightarrow> go_error + int \<times> int option) \<Rightarrow> scan_settings \<Rightarrow> (nat \<Rightarrow> bool \<times> bool)
   \<Rightarrow> MusicDir list \<Rightarrow> nat \<times> scan_dir list \<Rightarrow> go_error option \<times> (nat \<times> scan_dir list)" where
  "walk_music_dirs lstat stat st stop [] s = (None, s)"
| "walk_music_dirs lstat stat st stop (d # ds) s =
     (case lstat (md_Path d) of
        Inl e \<Rightarrow> (Some (EWrap ''stat media dir'' e), s)
      | Inr (modTime, node) \<Rightarrow>
          (case walkDir stat (st_lastScan st) (visit_dir stat st stop (md_ID d)) (md_Path d) node
                  (checkIfChanged stat (st_lastScan st) (md_Path d) modTime) s of
             (Some (WalkErr e), s) \<Rightarrow> (Some (EWrap ''walk media dir'' e), s)
           | (_, s) \<Rightarrow> walk_music_dirs lstat stat st stop ds s))"

definition scanMediaDirs ::
  "(string \<Rightarrow> go_error + int \<times> fs_node) \<Rightarrow> (string \<Rightarrow> go_error + int \<times> int option) \<Rightarrow> scan_settings \<Rightarrow> (nat \<Rightarrow> bool \<times> bool)
   \<Rightarrow> go_error option \<Rightarrow> MusicDir list \<Rightarrow> go_error option \<times> scan_dir list" where
  "scanMediaDirs lstat stat st stop workers dirs =
     (case walk_music_dirs lstat stat st stop dirs (0, []) of
        (Some e, (_, sent)) \<Rightarrow> (Some e, sent)
      | (None, (_, sent)) \<Rightarrow> (map_option (EWrap ''scan media files in dir'') workers, sent))"

section \<open>The files of a directory\<close>

record file_entry =
  fe_name :: string
  fe_isRegular :: bool

text \<open>
  The patterns of one image file: whether one matches, and whether the keyword for embedded covers was met
  before. A pattern that is malformed is passed over. \<open>mtch\<close> is \<open>filepath.Match\<close>.
\<close>

fun match_patterns :: "(string \<Rightarrow> string \<Rightarrow> go_error + bool) \<Rightarrow> string \<Rightarrow> string list \<Rightarrow> bool \<Rightarrow> bool \<times> bool" where
  "match_patterns mtch name [] embedded = (False, embedded)"
| "match_patterns mtch name (p # ps) embedded =
     (if p = ''embedded'' then match_patterns mtch name ps True
      else if mtch p name = Inr True then (True, embedded)
      else match_patterns mtch name ps embedded)"

definition scan_hidden :: "scan_settings \<Rightarrow> string \<Rightarrow> bool" where
  "scan_hidden st name \<longleftrightarrow> \<not> st_scanHidden st \<and> prefix ''.'' name"

fun find_cover ::
  "scan_io \<Rightarrow> (string \<Rightarrow> string \<Rightarrow> go_error + bool) \<Rightarrow> scan_settings \<Rightarrow> string \<Rightarrow> file_entry list \<Rightarrow> bool \<Rightarrow> string option \<times> bool" where
  "find_cover io mtch st dir [] embedded = (None, embedded)"
| "find_cover io mtch st dir (e # es) embedded =
     (if \<not> fe_isRegular e \<or> scan_hidden st (fe_name e) then find_cover io mtch st dir es embedded
      else if io_mime io (filepath_Ext (fe_name e)) \<in> {''image/jpeg'', ''image/png''}
           then (case match_patterns mtch (fe_name e) (st_coverPriority st) embedded of
                   (True, embedded) \<Rightarrow> (Some (filepath_Join dir (fe_name e)), embedded)
                 | (False, embedded) \<Rightarrow> find_cover io mtch st dir es embedded)
           else find_cover io mtch st dir es embedded)"

text \<open>
  The files in order; \<open>cancelled n\<close> tells whether the context is done before the \<open>n\<close>-th regular entry.
  The result is an error, with the files queued before it, and the number of files counted.
\<close>

fun process_files ::
  "scan_io \<Rightarrow> scan_settings \<Rightarrow> (nat \<Rightarrow> bool) \<Rightarrow> string \<Rightarrow> string option \<Rightarrow> bool \<Rightarrow> bool \<Rightarrow> int \<Rightarrow> file_entry list \<Rightarrow> nat
   \<Rightarrow> go_error option \<times> mediaFile list \<times> nat" where
  "process_files io st cancelled dir cover embedded changed folder [] n = (None, [], 0)"
| "process_files io st cancelled dir cover embedded changed folder (e # es) n =
     (if \<not> fe_isRegular e then process_files io st cancelled dir cover embedded changed folder es n
      else if cancelled n then (Some (EMsg ''context canceled''), [], 0)
      else case processFile io st (filepath_Join dir (fe_name e)) cover embedded changed folder of
        (res, k) \<Rightarrow>
          (case res of
             Inl err \<Rightarrow>
               if errors_Is err errNotAMediaFile
               then (case process_files io st cancelled dir cover embedded changed folder es (Suc n) of
                       (r, ms, k') \<Rightarrow> (r, ms, k + k'))
               else (Some (EWrap ''process file'' err), [], k)
           | Inr m \<Rightarrow> (case process_files io st cancelled dir cover embedded changed folder es (Suc n) of
                         (r, ms, k') \<Rightarrow> (r, (case m of None \<Rightarrow> [] | Some f \<Rightarrow> [f]) @ ms, k + k'))))"

definition scanMediaFilesInDir ::
  "scan_io \<Rightarrow> (string \<Rightarrow> string \<Rightarrow> go_error + bool) \<Rightarrow> scan_settings \<Rightarrow> (string \<Rightarrow> go_error + file_entry list) \<Rightarrow> (nat \<Rightarrow> bool)
   \<Rightarrow> scan_dir \<Rightarrow> go_error option \<times> mediaFile list \<times> nat" where
  "scanMediaFilesInDir io mtch st readdir cancelled d =
     (case readdir (sd_path d) of
        Inl e \<Rightarrow> (Some (EWrap ''read dir'' e), [], 0)
      | Inr es \<Rightarrow>
          (let (cover, embedded) = find_cover io mtch st (sd_path d) es False
           in process_files io st cancelled (sd_path d) cover embedded (sd_changed d) (sd_musicFolderId d) es 0))"

section \<open>The directories a scan visits\<close>

text \<open>The specification: the visible directories of a tree, each changed when it or one above it is.\<close>

function (sequential) visible_dirs ::
    "(string \<Rightarrow> go_error + int \<times> int option) \<Rightarrow> scan_settings \<Rightarrow> int \<Rightarrow> string \<Rightarrow> bool \<Rightarrow> fs_node \<Rightarrow> scan_dir list"
  and visible_below ::
    "(string \<Rightarrow> go_error + int \<times> int option) \<Rightarrow> scan_settings \<Rightarrow> int \<Rightarrow> string \<Rightarrow> bool \<Rightarrow> fs_node list \<Rightarrow> scan_dir list"
where
  "visible_dirs stat st folder path parent (Node name isDir entries) =
     (let changed = (parent \<or> checkIfChangedByPath stat (st_lastScan st) path)
      in if \<not> isDir \<or> scan_hidden st name then []
         else \<lparr> sd_changed = changed, sd_path = path, sd_musicFolderId = folder \<rparr>
              # (case entries of Inl _ \<Rightarrow> [] | Inr ds \<Rightarrow> visible_below stat st folder path changed ds))"
| "visible_below stat st folder path parent [] = []"
| "visible_below stat st folder path parent (d # ds) =
     visible_dirs stat st folder (filepath_Join path (nd_name d)) parent d @ visible_below stat st folder path parent ds"
  by pat_completeness auto
termination
  by (relation "measure (case_sum (\<lambda>(_, _, _, _, _, n). size n) (\<lambda>(_, _, _, _, _, ds). size_list size ds))") auto

text \<open>No visible directory below fails to be read or looked at.\<close>

function (sequential) readable ::
    "(string \<Rightarrow> go_error + int \<times> int option) \<Rightarrow> scan_settings \<Rightarrow> string \<Rightarrow> fs_node \<Rightarrow> bool"
  and readable_below :: "(string \<Rightarrow> go_error + int \<times> int option) \<Rightarrow> scan_settings \<Rightarrow> string \<Rightarrow> fs_node list \<Rightarrow> bool"
where
  "readable stat st path (Node name isDir entries) \<longleftrightarrow>
     \<not> isl (stat path) \<and>
     (isDir \<and> \<not> scan_hidden st name \<longrightarrow> (case entries of Inl _ \<Rightarrow> False | Inr ds \<Rightarrow> readable_below stat st path ds))"
| "readable_below stat st path [] \<longleftrightarrow> True"
| "readable_below stat st path (d # ds) \<longleftrightarrow>
     readable stat st (filepath_Join path (nd_name d)) d \<and> readable_below stat st path ds"
  by pat_completeness auto
termination
  by (relation "measure (case_sum (\<lambda>(_, _, _, n). size n) (\<lambda>(_, _, _, ds). size_list size ds))") auto


lemma visit_dir_go:
  "stop n = (False, False) \<Longrightarrow> visit_dir stat st stop folder path (Node name isDir entries) changed None (n, sent) =
     (if \<not> isDir then (None, (Suc n, sent))
      else if scan_hidden st name then (Some SkipDir, (Suc n, sent))
      else (None, (Suc n, sent @ [\<lparr> sd_changed = (changed \<or> checkIfChangedByPath stat (st_lastScan st) path),
                                      sd_path = path, sd_musicFolderId = folder \<rparr>])))"
  by (simp add: visit_dir_def scan_hidden_def)

lemma walk_visible:
  assumes "\<And>n. stop n = (False, False)"
  shows "readable stat st path node \<Longrightarrow>
      \<exists>n'. walkDir stat (st_lastScan st) (visit_dir stat st stop folder) path node parent (n, sent)
             = (None, n', sent @ visible_dirs stat st folder path parent node)"
    and "readable_below stat st path ds \<Longrightarrow>
      \<exists>n'. walk_entries stat (st_lastScan st) (visit_dir stat st stop folder) path ds parent (n, sent)
             = (None, n', sent @ visible_below stat st folder path parent ds)"
proof (induction stat st path node and stat st path ds arbitrary: parent n sent and parent n sent rule: readable_readable_below.induct)
  case (1 stat st path name isDir entries)
  from "1.prems" obtain t where t: "stat path = Inr t" by (cases "stat path") auto
  let ?ch = "parent \<or> newer (st_lastScan st) t"
  show ?case
  proof (cases "isDir \<and> \<not> scan_hidden st name")
    case False
    then show ?thesis
      by (auto simp: t visit_dir_go [OF assms] skipped_def Let_def)
  next
    case True
    with "1.prems" obtain ds where ds: "entries = Inr ds" "readable_below stat st path ds" by (cases entries) auto
    let ?d = "\<lparr> sd_changed = ?ch, sd_path = path, sd_musicFolderId = folder \<rparr>"
    from "1.IH" [of ds ?ch "Suc n" "sent @ [?d]"] True ds obtain n' where
      "walk_entries stat (st_lastScan st) (visit_dir stat st stop folder) path ds ?ch (Suc n, sent @ [?d])
         = (None, n', (sent @ [?d]) @ visible_below stat st folder path ?ch ds)" by auto
    with True ds show ?thesis
      by (cases parent) (simp_all add: t visit_dir_go [OF assms] checkIfChangedByPath_def Let_def)
  qed
next
  case (3 stat st path d ds)
  from "3.IH"(1) [of parent n sent] "3.prems" obtain n1 where
    1: "walkDir stat (st_lastScan st) (visit_dir stat st stop folder) (filepath_Join path (nd_name d)) d parent (n, sent)
          = (None, n1, sent @ visible_dirs stat st folder (filepath_Join path (nd_name d)) parent d)" by auto
  from "3.IH"(2) [of parent n1 "sent @ visible_dirs stat st folder (filepath_Join path (nd_name d)) parent d"] "3.prems"
  show ?case by (auto simp: 1)
qed simp

text \<open>A music directory that the scan leaves out: hidden by its own name.\<close>

definition music_dir_scan ::
  "(string \<Rightarrow> go_error + int \<times> fs_node) \<Rightarrow> (string \<Rightarrow> go_error + int \<times> int option) \<Rightarrow> scan_settings \<Rightarrow> MusicDir \<Rightarrow> scan_dir list" where
  "music_dir_scan lstat stat st d =
     (case lstat (md_Path d) of Inl _ \<Rightarrow> []
      | Inr (modTime, node) \<Rightarrow> visible_dirs stat st (md_ID d) (md_Path d) (checkIfChanged stat (st_lastScan st) (md_Path d) modTime) node)"

lemma walk_music_dirs_visible:
  assumes stop: "\<And>n. stop n = (False, False)"
    and ok: "\<forall>d\<in>set ds. \<exists>modTime node. lstat (md_Path d) = Inr (modTime, node) \<and> readable stat st (md_Path d) node"
  shows "\<exists>n'. walk_music_dirs lstat stat st stop ds (n, sent)
           = (None, n', sent @ concat (map (music_dir_scan lstat stat st) ds))"
  using ok
proof (induction ds arbitrary: n sent)
  case (Cons d ds)
  from Cons.prems obtain mt node where l: "lstat (md_Path d) = Inr (mt, node)" and r: "readable stat st (md_Path d) node" by auto
  let ?v = "visible_dirs stat st (md_ID d) (md_Path d) (checkIfChanged stat (st_lastScan st) (md_Path d) mt) node"
  obtain n1 where
    w: "walkDir stat (st_lastScan st) (visit_dir stat st stop (md_ID d)) (md_Path d) node
          (checkIfChanged stat (st_lastScan st) (md_Path d) mt) (n, sent) = (None, n1, sent @ ?v)"
    using walk_visible(1) [of stop, OF stop r] by blast
  from Cons.IH [of n1 "sent @ ?v"] Cons.prems show ?case by (auto simp: l w music_dir_scan_def)
qed simp

text \<open>
  C11: unless it is cancelled or fails, a scan sends exactly the visible directories below the music
  directories to its workers, in order, each once, with the identifier of its music directory, and marked
  as changed when it or a directory above it is newer than the last scan.
\<close>

theorem scan_visits_visible_dirs:
  assumes "\<And>n. stop n = (False, False)"
    and "\<forall>d\<in>set dirs. \<exists>modTime node. lstat (md_Path d) = Inr (modTime, node) \<and> readable stat st (md_Path d) node"
  shows "scanMediaDirs lstat stat st stop None dirs = (None, concat (map (music_dir_scan lstat stat st) dirs))"
  using walk_music_dirs_visible [of stop, OF assms, of 0 "[]"] by (auto simp: scanMediaDirs_def)


text \<open>The witness: a directory with a hidden and a changed subdirectory and a file in it.\<close>

definition wit_lstat :: "string \<Rightarrow> go_error + int \<times> fs_node" where
  "wit_lstat p = Inr (0, Node ''m'' True (Inr [Node ''.git'' True (Inl (EMsg ''permission'')),
      Node ''a.mp3'' False (Inr []), Node ''new'' True (Inr [Node ''cd1'' True (Inr [])])]))"

definition wit_stat :: "string \<Rightarrow> go_error + int \<times> int option" where
  "wit_stat p = Inr (if p = ''/m/new'' then 70 else 10, Some 10)"

lemma scan_visits_visible_dirs_witness:
  "scanMediaDirs wit_lstat wit_stat wit_settings (\<lambda>_. (False, False)) None
      [\<lparr> md_ID = 1, md_Name = ''m'', md_Path = ''/m'', md_Users = None \<rparr>]
   = (None, [\<lparr> sd_changed = False, sd_path = ''/m'', sd_musicFolderId = 1 \<rparr>,
             \<lparr> sd_changed = True, sd_path = ''/m/new'', sd_musicFolderId = 1 \<rparr>,
             \<lparr> sd_changed = True, sd_path = ''/m/new/cd1'', sd_musicFolderId = 1 \<rparr>])"
proof -
  let ?d = "\<lparr> md_ID = 1, md_Name = ''m'', md_Path = ''/m'', md_Users = None \<rparr>"
  have j: "filepath_Join ''/m'' ''.git'' = ''/m/.git''" "filepath_Join ''/m'' ''a.mp3'' = ''/m/a.mp3''"
    "filepath_Join ''/m'' ''new'' = ''/m/new''" "filepath_Join ''/m/new'' ''cd1'' = ''/m/new/cd1''" by code_simp+
  have r: "\<forall>d\<in>set [?d]. \<exists>modTime node. wit_lstat (md_Path d) = Inr (modTime, node) \<and> readable wit_stat wit_settings (md_Path d) node"
    by (simp add: wit_lstat_def wit_stat_def wit_settings_def scan_hidden_def)
  have "music_dir_scan wit_lstat wit_stat wit_settings ?d =
     [\<lparr> sd_changed = False, sd_path = ''/m'', sd_musicFolderId = 1 \<rparr>,
      \<lparr> sd_changed = True, sd_path = ''/m/new'', sd_musicFolderId = 1 \<rparr>,
      \<lparr> sd_changed = True, sd_path = ''/m/new/cd1'', sd_musicFolderId = 1 \<rparr>]"
    by (simp add: music_dir_scan_def wit_lstat_def wit_stat_def wit_settings_def scan_hidden_def Let_def j
        checkIfChanged_def checkIfChangedByPath_def newer_def)
  with scan_visits_visible_dirs [of "\<lambda>_. (False, False)", OF refl r] show ?thesis by simp
qed

section \<open>What becomes of a file\<close>

text \<open>
  Every regular entry of a visible directory is processed with the flags of the directory, whatever the
  other entries are, unless one of them fails or the scan is cancelled.
\<close>

lemma process_files_all:
  assumes "\<And>n. \<not> cancelled n"
    and "\<forall>e\<in>set es. fe_isRegular e \<longrightarrow>
       (case fst (processFile io st (filepath_Join dir (fe_name e)) cover embedded changed folder) of
          Inl err \<Rightarrow> errors_Is err errNotAMediaFile | Inr _ \<Rightarrow> True)"
  shows "process_files io st cancelled dir cover embedded changed folder es n =
     (None, concat (map (\<lambda>e. case fst (processFile io st (filepath_Join dir (fe_name e)) cover embedded changed folder) of
                              Inr (Some m) \<Rightarrow> [m] | _ \<Rightarrow> []) (filter fe_isRegular es)),
      sum_list (map (\<lambda>e. snd (processFile io st (filepath_Join dir (fe_name e)) cover embedded changed folder)) (filter fe_isRegular es)))"
  using assms(2)
proof (induction es arbitrary: n)
  case (Cons e es)
  obtain r k where p: "processFile io st (filepath_Join dir (fe_name e)) cover embedded changed folder = (r, k)" by fastforce
  from Cons show ?case
    by (cases r) (auto simp: assms(1) p split: option.splits)
qed simp





end
