(* ===== verification/ScanCovers.thy ===== *)
theory ScanCovers
  imports DirWalk CacheDisk
begin

text \<open>
  Cover files of albums and artists (\<open>scanner/cover.go\<close>, \<open>scanner/artist_images.go\<close>): a file per identifier
  in the cover directory, and the cache of scaled covers that must follow it. Files outside the cover
  directory, image decoding and encoding and the order of the keys of the cache are arguments; a file has its
  contents and its modification time.
\<close>

section \<open>Cover files\<close>

record stored_cover =
  co_content :: bytes
  co_modTime :: int

record cover_state =
  cs_files :: "string \<rightharpoonup> stored_cover"
  cs_cache :: sys

text \<open>
  \<open>ci_source\<close> is opening and copying a file: its contents up to the error that ended the copy, if any;
  \<open>ci_image\<close> is the embedded image in the form the encoder writes it, \<open>None\<close> when there is none, with the errors of
  reading and of encoding. \<open>ci_cover_stat\<close> are errors other than that the cover does not exist.
\<close>

record cover_io =
  ci_modTime :: "string \<Rightarrow> go_error + int"
  ci_cover_stat :: "string \<Rightarrow> go_error option"
  ci_source :: "string \<Rightarrow> go_error + bytes \<times> go_error option"
  ci_create :: "string \<Rightarrow> go_error option"
  ci_image :: "string \<Rightarrow> (bytes \<times> go_error option \<times> go_error option) option"
  ci_remove :: "string \<Rightarrow> go_error option"
  ci_mkdir :: "go_error option"
  ci_now :: int
  ci_cache_io :: io_env

definition idToCoverPath :: "string \<Rightarrow> string \<Rightarrow> string" where
  "idToCoverPath coverDir cid = filepath_Join coverDir cid"

fun invalidate_keys :: "io_env \<Rightarrow> string \<Rightarrow> string list \<Rightarrow> sys \<Rightarrow> sys" where
  "invalidate_keys io cid [] c = c"
| "invalidate_keys io cid (key # keys) c =
     invalidate_keys io cid keys (if prefix cid key then snd (DeleteObject io key c) else c)"

text \<open>An error of a deletion is only logged.\<close>

definition invalidateCoverCache :: "io_env \<Rightarrow> string list \<Rightarrow> string \<Rightarrow> sys \<Rightarrow> sys" where
  "invalidateCoverCache io order cid c = invalidate_keys io cid (Keys order c) c"

definition createCoverDir :: "cover_io \<Rightarrow> go_error option" where
  "createCoverDir io = map_option (EWrap ''mkdirall'') (ci_mkdir io)"

definition errNoEmbeddedCover :: go_error where
  "errNoEmbeddedCover = EMsg ''no embedded cover''"

text \<open>Whether an existing cover is up to date, as both ways of saving ask it.\<close>

definition up_to_date :: "cover_io \<Rightarrow> string \<Rightarrow> int \<Rightarrow> (string \<rightharpoonup> stored_cover) \<Rightarrow> go_error + bool" where
  "up_to_date io p modTime files =
     (case ci_cover_stat io p of
        Some e \<Rightarrow> Inl (EWrap ''stat existing cover'' e)
      | None \<Rightarrow> Inr (case files p of None \<Rightarrow> False | Some f \<Rightarrow> \<not> modTime > co_modTime f))"

definition put_file :: "cover_io \<Rightarrow> string \<Rightarrow> bytes \<Rightarrow> cover_state \<Rightarrow> cover_state" where
  "put_file io p bs s = s\<lparr> cs_files := (cs_files s)(p \<mapsto> \<lparr> co_content = bs, co_modTime = ci_now io \<rparr>) \<rparr>"

definition copy_to_cover ::
  "cover_io \<Rightarrow> string list \<Rightarrow> string \<Rightarrow> string \<Rightarrow> string \<Rightarrow> string \<Rightarrow> string \<Rightarrow> cover_state \<Rightarrow> go_error option \<times> cover_state" where
  "copy_to_cover io order createMsg copyMsg originalPath p cid s =
     (case ci_source io originalPath of
        Inl e \<Rightarrow> (Some (EWrap ''open original path'' e), s)
      | Inr (bs, copyErr) \<Rightarrow>
          (case ci_create io p of
             Some e \<Rightarrow> (Some (EWrap createMsg e), s)
           | None \<Rightarrow>
               (let s1 = put_file io p bs s
                in case copyErr of
                     Some e \<Rightarrow> (Some (EWrap copyMsg e), s1)
                   | None \<Rightarrow> (None, s1\<lparr> cs_cache := invalidateCoverCache (ci_cache_io io) order cid (cs_cache s1) \<rparr>))))"

definition saveCoverFromPath ::
  "cover_io \<Rightarrow> string list \<Rightarrow> bool \<Rightarrow> string \<Rightarrow> string \<Rightarrow> string \<Rightarrow> cover_state \<Rightarrow> go_error option \<times> cover_state" where
  "saveCoverFromPath io order fullScan coverDir originalPath cid s =
     (let p = idToCoverPath coverDir cid;
          copy = copy_to_cover io order ''create cover file'' ''copy original path to cover file'' originalPath p cid s
      in if fullScan then copy
         else case ci_modTime io originalPath of
           Inl e \<Rightarrow> (Some (EWrap ''stat original path'' e), s)
         | Inr t \<Rightarrow> (case up_to_date io p t (cs_files s) of
                        Inl e \<Rightarrow> (Some e, s) | Inr True \<Rightarrow> (None, s) | Inr False \<Rightarrow> copy))"

text \<open>The file is created before it is known whether there is an image.\<close>

definition embed_to_cover ::
  "cover_io \<Rightarrow> string list \<Rightarrow> string \<Rightarrow> string \<Rightarrow> string \<Rightarrow> cover_state \<Rightarrow> go_error option \<times> cover_state" where
  "embed_to_cover io order songPath p cid s =
     (case ci_create io p of
        Some e \<Rightarrow> (Some (EWrap ''create cover file'' e), s)
      | None \<Rightarrow>
          (case ci_image io songPath of
             None \<Rightarrow> (Some errNoEmbeddedCover, put_file io p [] s)
           | Some (bs, readErr, encodeErr) \<Rightarrow>
               (case readErr of
                  Some e \<Rightarrow> (Some (EWrap ''read embedded song cover'' e), put_file io p [] s)
                | None \<Rightarrow>
                    (let s1 = put_file io p bs s
                     in case encodeErr of
                          Some e \<Rightarrow> (Some (EWrap ''encode cover image into cover file'' e), s1)
                        | None \<Rightarrow> (None, s1\<lparr> cs_cache := invalidateCoverCache (ci_cache_io io) order cid (cs_cache s1) \<rparr>)))))"

definition saveCoverFromEmbeddedCover ::
  "cover_io \<Rightarrow> string list \<Rightarrow> bool \<Rightarrow> string \<Rightarrow> int \<Rightarrow> string \<Rightarrow> string \<Rightarrow> cover_state \<Rightarrow> go_error option \<times> cover_state" where
  "saveCoverFromEmbeddedCover io order fullScan coverDir lastModified songPath cid s =
     (let p = idToCoverPath coverDir cid; embed = embed_to_cover io order songPath p cid s
      in if fullScan then embed
         else case up_to_date io p lastModified (cs_files s) of
                Inl e \<Rightarrow> (Some e, s) | Inr True \<Rightarrow> (None, s) | Inr False \<Rightarrow> embed)"

text \<open>Removing a file that does not exist is no error.\<close>

definition removeCover ::
  "cover_io \<Rightarrow> string list \<Rightarrow> string \<Rightarrow> string \<Rightarrow> cover_state \<Rightarrow> go_error option \<times> cover_state" where
  "removeCover io order coverDir cid s =
     (let p = idToCoverPath coverDir cid;
          s1 = s\<lparr> cs_files := (cs_files s)(p := None),
                  cs_cache := invalidateCoverCache (ci_cache_io io) order cid (cs_cache s) \<rparr>
      in if cs_files s p = None then (None, s1)
         else case ci_remove io p of Some e \<Rightarrow> (Some (EWrap ''delete cover'' e), s) | None \<Rightarrow> (None, s1))"

section \<open>The worker loop\<close>

definition set_album_cover ::
  "cover_io \<Rightarrow> string list \<Rightarrow> bool \<Rightarrow> bool \<Rightarrow> string \<Rightarrow> albumCover \<Rightarrow> cover_state \<Rightarrow> go_error option \<times> cover_state" where
  "set_album_cover io order fullScan embeddedEnabled coverDir a s =
     (let remove = (\<lambda>s. case removeCover io order coverDir (cv_id a) s of
                          (err, s) \<Rightarrow> (map_option (EWrap ''remove cover'') err, s))
      in case cv_cover a of
           Some path \<Rightarrow> (case saveCoverFromPath io order fullScan coverDir path (cv_id a) s of
                            (err, s) \<Rightarrow> (map_option (EWrap ''save cover from path'') err, s))
         | None \<Rightarrow>
             if \<not> embeddedEnabled then remove s
             else (case ci_modTime io (cv_songPath a) of
                     Inl e \<Rightarrow> (Some (EWrap ''stat song file'' e), s)
                   | Inr t \<Rightarrow>
                       (case saveCoverFromEmbeddedCover io order fullScan coverDir t (cv_songPath a) (cv_id a) s of
                          (None, s) \<Rightarrow> (None, s)
                        | (Some e, s) \<Rightarrow> if errors_Is e errNoEmbeddedCover then remove s
                                         else (Some (EWrap ''save cover from path'' e), s))))"

text \<open>
  The albums in the order in which workers take them; \<open>done n\<close> tells whether the context is done at the
  \<open>n\<close>-th. The first error ends the loop.
\<close>

fun set_album_covers ::
  "cover_io \<Rightarrow> string list \<Rightarrow> bool \<Rightarrow> bool \<Rightarrow> string \<Rightarrow> (nat \<Rightarrow> bool) \<Rightarrow> nat \<Rightarrow> albumCover list \<Rightarrow> cover_state
   \<Rightarrow> go_error option \<times> cover_state" where
  "set_album_covers io order fullScan embeddedEnabled coverDir finished n [] s = (None, s)"
| "set_album_covers io order fullScan embeddedEnabled coverDir finished n (a # as) s =
     (if finished n then (None, s)
      else case set_album_cover io order fullScan embeddedEnabled coverDir a s of
             (Some e, s) \<Rightarrow> (Some e, s)
           | (None, s) \<Rightarrow> set_album_covers io order fullScan embeddedEnabled coverDir finished (Suc n) as s)"

definition runSetAlbumCoverLoop ::
  "cover_io \<Rightarrow> string list \<Rightarrow> scan_settings \<Rightarrow> string \<Rightarrow> (nat \<Rightarrow> bool) \<Rightarrow> albumCover list \<Rightarrow> cover_state
   \<Rightarrow> go_error option \<times> cover_state" where
  "runSetAlbumCoverLoop io order st coverDir finished albums s =
     (case createCoverDir io of
        Some e \<Rightarrow> (Some (EWrap ''create cover dir'' e), s)
      | None \<Rightarrow> set_album_covers io order (st_fullScan st) (''embedded'' \<in> set (st_coverPriority st)) coverDir finished 0 albums s)"


section \<open>Replaced covers and the cache of scaled covers\<close>

lemma delete_drops_key:
  assumes "no_faults io" "disk_ok c"
  shows "disk_ok (snd (DeleteObject io key c)) \<and> sy_objects (snd (DeleteObject io key c)) = (sy_objects c)(key := None)"
proof (cases "sy_objects c key")
  case None
  then show ?thesis using assms(2) by (auto simp: DeleteObject_def)
next
  case (Some r)
  then show ?thesis
    using disk_ok_delete [OF assms(2,1) DeleteObject_eq [OF assms(1,2) Some]] by (simp add: DeleteObject_eq [OF assms(1,2) Some])
qed

lemma invalidate_keys_objects:
  assumes "no_faults io"
  shows "disk_ok c \<Longrightarrow> disk_ok (invalidate_keys io cid keys c) \<and>
     sy_objects (invalidate_keys io cid keys c) = (\<lambda>k. if k \<in> set keys \<and> prefix cid k then None else sy_objects c k)"
proof (induction keys arbitrary: c)
  case (Cons key keys)
  let ?c = "if prefix cid key then snd (DeleteObject io key c) else c"
  from Cons.prems delete_drops_key [OF assms] have "disk_ok ?c" by simp
  from Cons.IH [OF this] Cons.prems show ?case
    using delete_drops_key [OF assms, of c key] by (auto simp: fun_eq_iff)
qed simp

definition covers_dropped :: "string \<Rightarrow> sys \<Rightarrow> sys \<Rightarrow> bool" where
  "covers_dropped cid c c' \<longleftrightarrow> disk_ok c' \<and> sy_objects c' = (\<lambda>k. if prefix cid k then None else sy_objects c k)"

lemma invalidate_drops:
  assumes "no_faults io" "disk_ok c" "dom (sy_objects c) \<subseteq> set order"
  shows "covers_dropped cid c (invalidateCoverCache io order cid c)"
proof -
  have "k \<in> set (Keys order c) \<longleftrightarrow> sy_objects c k \<noteq> None" for k
    using assms(3) by (auto simp: Keys_def)
  then show ?thesis
    using invalidate_keys_objects [OF assms(1,2), of cid "Keys order c"]
    by (auto simp: covers_dropped_def invalidateCoverCache_def fun_eq_iff)
qed

lemma put_file_simps [simp]:
  "cs_cache (put_file io p bs s) = cs_cache s"
  "cs_files (put_file io p bs s) = (cs_files s)(p \<mapsto> \<lparr> co_content = bs, co_modTime = ci_now io \<rparr>)"
  by (simp_all add: put_file_def)



text \<open>The witness: a newer cover replaces that of album \<open>k\<close>, of which a scaled copy is cached.\<close>

definition wit_cover_io :: cover_io where
  "wit_cover_io = \<lparr> ci_modTime = (\<lambda>_. Inr 9), ci_cover_stat = (\<lambda>_. None), ci_source = (\<lambda>_. Inr (''new'', None)),
     ci_create = (\<lambda>_. None), ci_image = (\<lambda>_. None), ci_remove = (\<lambda>_. None), ci_mkdir = None, ci_now = 10, ci_cache_io = io_ok \<rparr>"

definition wit_cover_state :: cover_state where
  "wit_cover_state = \<lparr> cs_files = (\<lambda>p. Some \<lparr> co_content = ''old'', co_modTime = 5 \<rparr>), cs_cache = wit_completed \<rparr>"


section \<open>Artist images\<close>

text \<open>
  The walk for artist images visits the files of a tree in the order of \<open>filepath.WalkDir\<close>, hidden ones
  included; \<open>mtch\<close> is \<open>filepath.Match\<close>, \<open>cancelled\<close> is asked before each entry. The images found are a map
  from the name of the directory, taken as that of the artist, to the file.
\<close>

definition filepath_Dir :: "string \<Rightarrow> string" where
  "filepath_Dir p = filepath_Clean (rev (dropWhile (\<lambda>c. c \<noteq> CHR ''/'') (rev p)))"

definition registerArtistImage :: "string \<Rightarrow> string \<Rightarrow> (string \<rightharpoonup> string) \<Rightarrow> (string \<rightharpoonup> string)" where
  "registerArtistImage path artistName images = images(artistName \<mapsto> path)"

text \<open>The patterns for one image; a file older than the last scan, or in no named directory, ends the search.\<close>

fun artist_image_patterns ::
  "scan_io \<Rightarrow> (string \<Rightarrow> string \<Rightarrow> go_error + bool) \<Rightarrow> scan_settings \<Rightarrow> string list \<Rightarrow> string \<Rightarrow> (string \<rightharpoonup> string)
   \<Rightarrow> go_error + (string \<rightharpoonup> string)" where
  "artist_image_patterns io mtch st [] path images = Inr images"
| "artist_image_patterns io mtch st (p # ps) path images =
     (case mtch p (filepath_Base path) of
        Inl e \<Rightarrow> Inl (EWrap (''invalid artist image priority pattern '' @ p) e)
      | Inr False \<Rightarrow> artist_image_patterns io mtch st ps path images
      | Inr True \<Rightarrow>
          (let dirName = filepath_Base (filepath_Dir path);
               found = (if dirName = ''.'' \<or> dirName = ''/'' then Inr images
                        else artist_image_patterns io mtch st ps path (registerArtistImage path dirName images))
           in if st_fullScan st then found
              else case io_info io path of
                     Inl e \<Rightarrow> Inl (EWrap ''stat'' e)
                   | Inr info \<Rightarrow> if fi_modTime info < st_lastScan st then Inr images else found))"

definition artist_image_file ::
  "scan_io \<Rightarrow> (string \<Rightarrow> string \<Rightarrow> go_error + bool) \<Rightarrow> scan_settings \<Rightarrow> string list \<Rightarrow> string \<Rightarrow> (string \<rightharpoonup> string)
   \<Rightarrow> go_error + (string \<rightharpoonup> string)" where
  "artist_image_file io mtch st patterns path images =
     (if io_mime io (filepath_Ext (filepath_Base path)) \<in> {''image/jpeg'', ''image/png''}
      then artist_image_patterns io mtch st patterns path images else Inr images)"

function (sequential) scan_artist_tree ::
    "(string \<Rightarrow> (string \<rightharpoonup> string) \<Rightarrow> go_error + (string \<rightharpoonup> string)) \<Rightarrow> string \<Rightarrow> fs_node \<Rightarrow> (string \<rightharpoonup> string) \<Rightarrow> go_error + (string \<rightharpoonup> string)"
  and scan_artist_entries ::
    "(string \<Rightarrow> (string \<rightharpoonup> string) \<Rightarrow> go_error + (string \<rightharpoonup> string)) \<Rightarrow> string \<Rightarrow> fs_node list \<Rightarrow> (string \<rightharpoonup> string) \<Rightarrow> go_error + (string \<rightharpoonup> string)"
where
  "scan_artist_tree file path (Node name isDir entries) images =
     (if \<not> isDir then file path images
      else case entries of Inl e \<Rightarrow> Inl e | Inr ds \<Rightarrow> scan_artist_entries file path ds images)"
| "scan_artist_entries file path [] images = Inr images"
| "scan_artist_entries file path (d # ds) images =
     (case scan_artist_tree file (filepath_Join path (nd_name d)) d images of
        Inl e \<Rightarrow> Inl e | Inr images \<Rightarrow> scan_artist_entries file path ds images)"
  by pat_completeness auto
termination
  by (relation "measure (case_sum (\<lambda>(_, _, n, _). size n) (\<lambda>(_, _, ds, _). size_list size ds))") auto

definition artist_scanDir ::
  "scan_io \<Rightarrow> (string \<Rightarrow> string \<Rightarrow> go_error + bool) \<Rightarrow> scan_settings \<Rightarrow> string list \<Rightarrow> string \<Rightarrow> fs_node \<Rightarrow> (string \<rightharpoonup> string)
   \<Rightarrow> go_error + (string \<rightharpoonup> string)" where
  "artist_scanDir io mtch st patterns mediaDir node images =
     map_sum (EWrap ''walk dir'') id (scan_artist_tree (artist_image_file io mtch st patterns) mediaDir node images)"

fun artist_scan_dirs ::
  "(string \<Rightarrow> go_error + fs_node) \<Rightarrow> scan_io \<Rightarrow> (string \<Rightarrow> string \<Rightarrow> go_error + bool) \<Rightarrow> scan_settings \<Rightarrow> string list
   \<Rightarrow> MusicDir list \<Rightarrow> (string \<rightharpoonup> string) \<Rightarrow> go_error + (string \<rightharpoonup> string)" where
  "artist_scan_dirs tree io mtch st patterns [] images = Inr images"
| "artist_scan_dirs tree io mtch st patterns (d # ds) images =
     (case (case tree (md_Path d) of Inl e \<Rightarrow> Inl (EWrap ''walk dir'' e)
            | Inr node \<Rightarrow> artist_scanDir io mtch st patterns (md_Path d) node images) of
        Inl e \<Rightarrow> Inl (EWrap ''scan dir'' e)
      | Inr images \<Rightarrow> artist_scan_dirs tree io mtch st patterns ds images)"

definition findArtistImages ::
  "(string \<Rightarrow> go_error + fs_node) \<Rightarrow> scan_io \<Rightarrow> (string \<Rightarrow> string \<Rightarrow> go_error + bool) \<Rightarrow> scan_settings \<Rightarrow> string list
   \<Rightarrow> MusicDir list \<Rightarrow> go_error + (string \<rightharpoonup> string)" where
  "findArtistImages tree io mtch st patterns dirs = artist_scan_dirs tree io mtch st patterns dirs Map.empty"

definition saveArtistImage ::
  "cover_io \<Rightarrow> string list \<Rightarrow> string \<Rightarrow> string \<Rightarrow> string \<Rightarrow> cover_state \<Rightarrow> go_error option \<times> cover_state" where
  "saveArtistImage io order coverDir path artistID s =
     copy_to_cover io order ''create artist image file'' ''copy original path to artist image file'' path
       (idToCoverPath coverDir artistID) artistID s"

text \<open>\<open>artists\<close> is what the repository finds for the names: identifiers and names.\<close>

fun save_artist_images ::
  "cover_io \<Rightarrow> string list \<Rightarrow> string \<Rightarrow> (nat \<Rightarrow> bool) \<Rightarrow> nat \<Rightarrow> (string \<rightharpoonup> string) \<Rightarrow> (string \<times> string) list \<Rightarrow> cover_state
   \<Rightarrow> go_error option \<times> cover_state" where
  "save_artist_images io order coverDir finished n found [] s = (None, s)"
| "save_artist_images io order coverDir finished n found ((artistID, name) # as) s =
     (if finished n then (None, s)
      else case saveArtistImage io order coverDir (case found name of None \<Rightarrow> [] | Some p \<Rightarrow> p) artistID s of
             (Some e, s) \<Rightarrow> (Some (EWrap ''save artist image'' e), s)
           | (None, s) \<Rightarrow> save_artist_images io order coverDir finished (Suc n) found as s)"

definition saveArtistImages ::
  "cover_io \<Rightarrow> string list \<Rightarrow> string \<Rightarrow> (nat \<Rightarrow> bool) \<Rightarrow> (string set \<Rightarrow> go_error + (string \<times> string) list) \<Rightarrow> (string \<rightharpoonup> string)
   \<Rightarrow> cover_state \<Rightarrow> go_error option \<times> cover_state" where
  "saveArtistImages io order coverDir finished FindByNames found s =
     (case FindByNames (dom found) of
        Inl e \<Rightarrow> (Some (EWrap ''find artists by names'' e), s)
      | Inr artists \<Rightarrow> save_artist_images io order coverDir finished 0 found artists s)"

end
