(* ===== verification/ScanClean.thy ===== *)
theory ScanClean
  imports RepoErrors "HOL-Library.Word"
begin

text \<open>
  The end of a scan (\<open>scanner/clean.go\<close>): songs whose files are gone, then genres, albums and artists that
  have lost their songs are deleted, after the annotations of albums and artists that came back under a new
  identifier have been moved. The repository is an argument; \<open>'d\<close> is the state of the database.
\<close>

record 'd clean_repo =
  cl_FindPaths :: "int \<Rightarrow> int \<Rightarrow> int \<Rightarrow> 'd \<Rightarrow> go_error + string list"  \<comment> \<open>time, offset, limit\<close>
  cl_DeleteByPaths :: "string list \<Rightarrow> 'd \<Rightarrow> go_error option \<times> 'd"
  cl_DeleteLastUpdatedBefore :: "int \<Rightarrow> 'd \<Rightarrow> go_error option \<times> 'd"
  cl_SongsWithoutFolder :: "'d \<Rightarrow> go_error option \<times> 'd"
  cl_AlbumsWithoutFolder :: "'d \<Rightarrow> go_error option \<times> 'd"
  cl_GenresIfNoSongs :: "'d \<Rightarrow> go_error option \<times> 'd"
  cl_AlbumsToMigrate :: "int \<Rightarrow> 'd \<Rightarrow> go_error + (string \<times> string) list"
  cl_MigrateAlbum :: "string \<Rightarrow> string \<Rightarrow> 'd \<Rightarrow> go_error option \<times> 'd"
  cl_AlbumsIfNoTracks :: "'d \<Rightarrow> go_error option \<times> 'd"
  cl_ArtistsToMigrate :: "int \<Rightarrow> 'd \<Rightarrow> go_error + (string \<times> string) list"
  cl_MigrateArtist :: "string \<Rightarrow> string \<Rightarrow> 'd \<Rightarrow> go_error option \<times> 'd"
  cl_ArtistsIfUnused :: "'d \<Rightarrow> go_error option \<times> 'd"

definition deleteOrphanedSongsByPathBatchSize :: int where
  "deleteOrphanedSongsByPathBatchSize = 300"

text \<open>
  The loop over batches of paths. \<open>missing p\<close> tells that the file does not exist; another error counts as
  found. The workers report the missing paths of a batch in an order of their own, \<open>order\<close>; the counter of
  found paths has 32 bits. The loop need not end, so its result is an option.
\<close>

partial_function (option) deleteOrphanedSongsByPath ::
  "'d clean_repo \<Rightarrow> (string \<Rightarrow> bool) \<Rightarrow> (string list \<Rightarrow> string list) \<Rightarrow> int \<Rightarrow> 32 word \<Rightarrow> 'd \<Rightarrow> (go_error option \<times> 'd) option" where
  "deleteOrphanedSongsByPath repo missing order scanStart foundCount d =
     (case cl_FindPaths repo scanStart (sint foundCount) deleteOrphanedSongsByPathBatchSize d of
        Inl e \<Rightarrow> Some (Some (EWrap ''find song paths'' e), d)
      | Inr paths \<Rightarrow>
          if paths = [] then Some (None, d)
          else let foundCount' = foundCount + word_of_nat (length (filter (\<lambda>p. \<not> missing p) paths));
                   removePaths = order (filter missing paths)
               in if removePaths = [] then deleteOrphanedSongsByPath repo missing order scanStart foundCount' d
                  else (case cl_DeleteByPaths repo removePaths d of
                          (Some e, d') \<Rightarrow> Some (Some (EWrap ''delete songs by paths'' e), d')
                        | (None, d') \<Rightarrow> deleteOrphanedSongsByPath repo missing order scanStart foundCount' d'))"

definition clean_step :: "string \<Rightarrow> go_error option \<times> 'd \<Rightarrow> ('d \<Rightarrow> go_error option \<times> 'd) \<Rightarrow> go_error option \<times> 'd" where
  "clean_step msg r k = (case r of (Some e, d) \<Rightarrow> (Some (EWrap msg e), d) | (None, d) \<Rightarrow> k d)"

definition deleteSongAndAlbumsWithoutMusicFolderID :: "'d clean_repo \<Rightarrow> 'd \<Rightarrow> go_error option \<times> 'd" where
  "deleteSongAndAlbumsWithoutMusicFolderID repo d =
     clean_step ''delete songs without music folder id'' (cl_SongsWithoutFolder repo d) (\<lambda>d.
     clean_step ''delete albums without music folder id'' (cl_AlbumsWithoutFolder repo d) (\<lambda>d. (None, d)))"

text \<open>A migration that fails is only logged.\<close>

fun migrate_all :: "(string \<Rightarrow> string \<Rightarrow> 'd \<Rightarrow> go_error option \<times> 'd) \<Rightarrow> (string \<times> string) list \<Rightarrow> 'd \<Rightarrow> 'd" where
  "migrate_all migrate [] d = d"
| "migrate_all migrate ((old, new) # ids) d = migrate_all migrate ids (snd (migrate old new d))"

definition cleanAlbums :: "'d clean_repo \<Rightarrow> int \<Rightarrow> 'd \<Rightarrow> go_error option \<times> 'd" where
  "cleanAlbums repo scanStart d =
     (case cl_AlbumsToMigrate repo scanStart d of
        Inl e \<Rightarrow> (Some (EWrap ''find albums to migrate'' e), d)
      | Inr ids \<Rightarrow> clean_step ''delete orphaned albums''
                     (cl_AlbumsIfNoTracks repo (migrate_all (cl_MigrateAlbum repo) ids d)) (\<lambda>d. (None, d)))"

definition cleanArtists :: "'d clean_repo \<Rightarrow> int \<Rightarrow> 'd \<Rightarrow> go_error option \<times> 'd" where
  "cleanArtists repo scanStart d =
     (case cl_ArtistsToMigrate repo scanStart d of
        Inl e \<Rightarrow> (Some (EWrap ''find artists to migrate'' e), d)
      | Inr ids \<Rightarrow> clean_step ''delete orphaned artists''
                     (cl_ArtistsIfUnused repo (migrate_all (cl_MigrateArtist repo) ids d)) (\<lambda>d. (None, d)))"

definition clean_rest :: "'d clean_repo \<Rightarrow> int \<Rightarrow> 'd \<Rightarrow> go_error option \<times> 'd" where
  "clean_rest repo scanStart d =
     clean_step ''delete orphaned genres'' (cl_GenresIfNoSongs repo d) (\<lambda>d.
     clean_step ''clean albums'' (cleanAlbums repo scanStart d) (\<lambda>d.
     clean_step ''clean artists'' (cleanArtists repo scanStart d) (\<lambda>d. (None, d))))"

definition deleteOrphaned ::
  "'d clean_repo \<Rightarrow> (string \<Rightarrow> bool) \<Rightarrow> (string list \<Rightarrow> string list) \<Rightarrow> bool \<Rightarrow> int \<Rightarrow> 'd \<Rightarrow> (go_error option \<times> 'd) option" where
  "deleteOrphaned repo missing order fullScan scanStart d =
     (case deleteSongAndAlbumsWithoutMusicFolderID repo d of
        (Some e, d) \<Rightarrow> Some (Some (EWrap ''delete orphaned songs/albums without music folder id'' e), d)
      | (None, d) \<Rightarrow>
          if fullScan
          then Some (clean_step ''delete orphaned songs (by last updated)'' (cl_DeleteLastUpdatedBefore repo scanStart d)
                       (clean_rest repo scanStart))
          else map_option (\<lambda>r. clean_step ''delete orphaned songs (by path)'' r (clean_rest repo scanStart))
                 (deleteOrphanedSongsByPath repo missing order scanStart 0 d))"

section \<open>The batches find exactly the missing files\<close>

text \<open>
  What the SQL of \<open>FindPaths\<close> and \<open>DeleteByPaths\<close> says: \<open>old d\<close> are the paths of the songs not updated since the
  scan started, in the order of their identifiers.
\<close>

definition path_queries :: "'d clean_repo \<Rightarrow> int \<Rightarrow> ('d \<Rightarrow> string list) \<Rightarrow> bool" where
  "path_queries repo scanStart old \<longleftrightarrow>
     (\<forall>off lim d. 0 \<le> off \<longrightarrow> 0 \<le> lim \<longrightarrow>
        cl_FindPaths repo scanStart off lim d = Inr (take (nat lim) (drop (nat off) (old d)))) \<and>
     (\<forall>ps d. fst (cl_DeleteByPaths repo ps d) = None \<and>
        old (snd (cl_DeleteByPaths repo ps d)) = filter (\<lambda>p. p \<notin> set ps) (old d))"

lemma sint_word_of_nat: "n < 2 ^ 31 \<Longrightarrow> sint (word_of_nat n :: 32 word) = int n"
  by (simp add: signed_of_nat signed_take_bit_int_eq_self)


text \<open>One batch: the paths before the offset all exist, so deleting the missing ones of the batch moves nothing.\<close>

lemma batch_step:
  assumes "\<forall>p\<in>set (take n xs). \<not> missing p" "n \<le> length xs"
    and b: "b = take k (drop n xs)" and g: "set gone = set (filter missing b)"
    and ys: "ys = filter (\<lambda>p. p \<notin> set gone) xs" and m: "m = n + length (filter (\<lambda>p. \<not> missing p) b)"
  shows "\<forall>p\<in>set (take m ys). \<not> missing p" "m \<le> length ys" "length ys - m \<le> length xs - n - length b"
    "filter (\<lambda>p. \<not> missing p) ys = filter (\<lambda>p. \<not> missing p) xs"
proof -
  let ?r = "drop k (drop n xs)"
  have xs: "xs = take n xs @ b @ ?r" unfolding b by (metis append_take_drop_id)
  have kept: "filter (\<lambda>p. p \<notin> set gone) (take n xs) = take n xs"
    using assms(1) g by (auto intro: filter_True)
  have b': "filter (\<lambda>p. p \<notin> set gone) b = filter (\<lambda>p. \<not> missing p) b"
    using g by (auto intro: filter_cong)
  have y: "ys = take n xs @ filter (\<lambda>p. \<not> missing p) b @ filter (\<lambda>p. p \<notin> set gone) ?r"
    unfolding ys by (subst xs) (simp only: filter_append kept b')
  have l: "length (take n xs) = n" using assms(2) by simp
  have t: "take m ys = take n xs @ filter (\<lambda>p. \<not> missing p) b" unfolding y m using l by simp
  show "\<forall>p\<in>set (take m ys). \<not> missing p" unfolding t using assms(1) by auto
  show "m \<le> length ys" unfolding y m using l by simp
  have "length ys - m = length (filter (\<lambda>p. p \<notin> set gone) ?r)" unfolding y m using l by simp
  also have "\<dots> \<le> length ?r" by (rule length_filter_le)
  also have "\<dots> = length xs - n - length b" unfolding b by simp
  finally show "length ys - m \<le> length xs - n - length b" .
  have "filter (\<lambda>p. \<not> missing p) ys = filter (\<lambda>p. \<not> missing p \<and> p \<notin> set gone) xs"
    unfolding ys by (simp add: conj_commute)
  also have "\<dots> = filter (\<lambda>p. \<not> missing p) xs" using g by (auto intro: filter_cong)
  finally show "filter (\<lambda>p. \<not> missing p) ys = filter (\<lambda>p. \<not> missing p) xs" .
qed

lemma orphan_loop:
  assumes q: "path_queries repo scanStart old" and order: "\<And>ps. set (order ps) = set ps"
  shows "\<lbrakk>\<forall>p\<in>set (take n (old d)). \<not> missing p; n \<le> length (old d); length (old d) < 2 ^ 31\<rbrakk> \<Longrightarrow>
     \<exists>d'. deleteOrphanedSongsByPath repo missing order scanStart (word_of_nat n) d = Some (None, d')
          \<and> old d' = filter (\<lambda>p. \<not> missing p) (old d)"
proof (induction "length (old d) - n" arbitrary: n d rule: less_induct)
  case less
  define b where "b = take 300 (drop n (old d))"
  let ?gone = "order (filter missing b)"
  let ?m = "n + length (filter (\<lambda>p. \<not> missing p) b)"
  have f: "cl_FindPaths repo scanStart (sint (word_of_nat n :: 32 word)) deleteOrphanedSongsByPathBatchSize d = Inr b"
    using q less.prems by (simp add: path_queries_def b_def deleteOrphanedSongsByPathBatchSize_def sint_word_of_nat)
  have w: "word_of_nat n + word_of_nat (length (filter (\<lambda>p. \<not> missing p) b)) = (word_of_nat ?m :: 32 word)" by simp
  show ?case
  proof (cases "b = []")
    case True
    then have "n = length (old d)" using less.prems(2) by (simp add: b_def)
    then have "old d = filter (\<lambda>p. \<not> missing p) (old d)" using less.prems(1) by (simp add: filter_id_conv)
    then show ?thesis by (subst deleteOrphanedSongsByPath.simps) (simp add: f True)
  next
    case False
    have g: "set ?gone = set (filter missing b)" by (simp add: order)
    define ys where "ys = filter (\<lambda>p. p \<notin> set ?gone) (old d)"
    define m where "m = ?m"
    note step = batch_step [OF less.prems(1,2) b_def g ys_def m_def]
    have "n < length (old d)" "0 < length b" using False unfolding b_def by auto
    then have dec: "length ys - m < length (old d) - n" using step(3) by linarith
    have small: "length ys < 2 ^ 31" using less.prems(3) le_less_trans [OF length_filter_le] unfolding ys_def by blast
    have again: "\<exists>d'. deleteOrphanedSongsByPath repo missing order scanStart (word_of_nat m) e = Some (None, d')
        \<and> old d' = filter (\<lambda>p. \<not> missing p) (old d)" if "old e = ys" for e
      using less.hyps [of e m] that step dec small by metis
    show ?thesis
    proof (cases "?gone = []")
      case True
      then have "old d = ys" by (simp add: ys_def)
      from again [OF this] show ?thesis
        by (subst deleteOrphanedSongsByPath.simps) (simp add: f False w m_def True Let_def del: of_nat_add)
    next
      case nonempty: False
      obtain d' where d': "cl_DeleteByPaths repo ?gone d = (None, d')" "old d' = ys"
        using q unfolding path_queries_def ys_def by (metis prod.collapse)
      from again [OF d'(2)] show ?thesis
        by (subst deleteOrphanedSongsByPath.simps) (simp add: f False w m_def nonempty Let_def d'(1) del: of_nat_add)
    qed
  qed
qed

text \<open>
  C12: a scan that is not a full one looks at the files of all songs it has not updated, in batches whose
  offset counts the files found, and ends; exactly the songs whose files do not exist are deleted, in
  whatever order the workers report them, as long as there are fewer than \<open>2 ^ 31\<close> songs.
\<close>

theorem orphans_deleted_exactly:
  assumes "path_queries repo scanStart old" "\<And>ps. set (order ps) = set ps" "length (old d) < 2 ^ 31"
  shows "\<exists>d'. deleteOrphanedSongsByPath repo missing order scanStart 0 d = Some (None, d')
          \<and> old d' = filter (\<lambda>p. \<not> missing p) (old d)"
  using orphan_loop [of repo scanStart old order 0 d missing, OF assms(1,2) _ _ assms(3)] by simp

definition wit_clean_repo :: "string list clean_repo" where
  "wit_clean_repo = \<lparr> cl_FindPaths = (\<lambda>_ off lim d. Inr (take (nat lim) (drop (nat off) d))),
     cl_DeleteByPaths = (\<lambda>ps d. (None, filter (\<lambda>p. p \<notin> set ps) d)), cl_DeleteLastUpdatedBefore = (\<lambda>_ d. (None, d)),
     cl_SongsWithoutFolder = (\<lambda>d. (None, d)), cl_AlbumsWithoutFolder = (\<lambda>d. (None, d)), cl_GenresIfNoSongs = (\<lambda>d. (None, d)),
     cl_AlbumsToMigrate = (\<lambda>_ _. Inr []), cl_MigrateAlbum = (\<lambda>_ _ d. (None, d)), cl_AlbumsIfNoTracks = (\<lambda>d. (None, d)),
     cl_ArtistsToMigrate = (\<lambda>_ _. Inr []), cl_MigrateArtist = (\<lambda>_ _ d. (None, d)), cl_ArtistsIfUnused = (\<lambda>d. (None, d)) \<rparr>"

lemma orphans_deleted_exactly_witness:
  "deleteOrphanedSongsByPath wit_clean_repo (\<lambda>p. p = ''b'') rev 7 0 [''a'', ''b'', ''c''] = Some (None, [''a'', ''c''])"
proof -
  have "path_queries wit_clean_repo 7 (\<lambda>d. d)" by (simp add: path_queries_def wit_clean_repo_def)
  from orphans_deleted_exactly [OF this, of rev "[''a'', ''b'', ''c'']" "\<lambda>p. p = ''b''"] show ?thesis by simp
qed

end
