(* ===== verification/ScanRun.thy ===== *)
theory ScanRun
  imports ScanCovers ScanClean
begin

text \<open>
  A whole scan (\<open>Scan\<close> in \<open>scanner/scan.go\<close>): one transaction around the music directories, the walk, the
  storing of songs and covers, the clean-up and the bookkeeping. The database is a value; a transaction works
  on a copy that a commit makes current. The goroutines of the walk are one step that yields their errors;
  a step is a function on the state of the scanner, undefined when it does not return.
\<close>

section \<open>State and surroundings\<close>

record 'd scan_db =
  db_NewTransaction :: "go_error option"
  db_LastScan :: "'d \<Rightarrow> go_error + int"
  db_SongCount :: "'d \<Rightarrow> go_error + int"
  db_NeedsFullScan :: "'d \<Rightarrow> go_error + bool"
  db_ResetNeedsFullScan :: "'d \<Rightarrow> go_error option \<times> 'd"
  db_DeleteInaccessible :: "'d \<Rightarrow> go_error option \<times> 'd"
  db_FixTrackNumbers :: "'d \<Rightarrow> go_error option \<times> 'd"
  db_MedianReplayGain :: "'d \<Rightarrow> go_error + float64"
  db_FixMetadata :: "'d \<Rightarrow> go_error option \<times> 'd"
  db_SetLastScan :: "int \<Rightarrow> 'd \<Rightarrow> go_error option \<times> 'd"
  db_Commit :: "go_error option"
  db_folders :: "'d folder_repo"
  db_clean :: "'d clean_repo"

record 'd scan_run =
  rn_locked :: bool
  rn_scanning :: bool
  rn_fullScan :: bool
  rn_firstScan :: bool
  rn_lastScan :: int
  rn_scanStart :: int
  rn_counter :: int
  rn_musicDirs :: "MusicDir list"
  rn_tx :: "'d option"
  rn_db :: 'd
  rn_gain :: float64

text \<open>
  What the walk and its goroutines come to: the errors of the walk, of the loop that stores songs and of that
  of the covers, the number of files and the transaction afterwards.
\<close>

record 'd walk_result =
  wr_walk :: "go_error option"
  wr_songs :: "go_error option"
  wr_covers :: "go_error option"
  wr_count :: int
  wr_tx :: 'd

record 'd scan_parts =
  sp_start :: int
  sp_end :: int
  sp_musicDirs :: "go_error + MusicDir list"
  sp_clearCovers :: "go_error option"
  sp_findImages :: "go_error + (string \<rightharpoonup> string)"
  sp_loadArtists :: "'d \<Rightarrow> go_error option"
  sp_loadAlbums :: "'d \<Rightarrow> go_error option"
  sp_walk :: "bool \<Rightarrow> bool \<Rightarrow> int \<Rightarrow> MusicDir list \<Rightarrow> 'd \<Rightarrow> 'd walk_result"
  sp_updateArtists :: "'d \<Rightarrow> go_error option \<times> 'd"
  sp_updateAssociations :: "'d \<Rightarrow> go_error option \<times> 'd"
  sp_missing :: "string \<Rightarrow> bool"
  sp_order :: "string list \<Rightarrow> string list"
  sp_cancelled :: bool
  sp_saveImages :: "(string \<rightharpoonup> string) \<Rightarrow> 'd \<Rightarrow> go_error option"

definition ErrAlreadyScanning :: go_error where
  "ErrAlreadyScanning = EMsg ''scan already in progress''"

definition context_Canceled :: go_error where
  "context_Canceled = EMsg ''context canceled''"

section \<open>Steps\<close>

type_synonym 'd scan_step = "'d scan_run \<Rightarrow> (go_error option \<times> 'd scan_run) option"

fun run_steps :: "'d scan_step list \<Rightarrow> 'd scan_step" where
  "run_steps [] s = Some (None, s)"
| "run_steps (f # fs) s =
     (case f s of None \<Rightarrow> None
      | Some (Some e, s) \<Rightarrow> Some (Some e, s)
      | Some (None, s) \<Rightarrow> run_steps fs s)"

definition fail_step :: "string \<Rightarrow> go_error \<Rightarrow> 'd scan_step" where
  "fail_step msg e s = Some (Some (EWrap msg e), s)"

text \<open>A repository call on the transaction.\<close>

definition in_tx :: "string \<Rightarrow> ('d \<Rightarrow> go_error option \<times> 'd) \<Rightarrow> 'd scan_step" where
  "in_tx msg f s = (case f (the (rn_tx s)) of (err, d) \<Rightarrow> Some (map_option (EWrap msg) err, s\<lparr> rn_tx := Some d \<rparr>))"

definition check :: "string \<Rightarrow> go_error option \<Rightarrow> 'd scan_step" where
  "check msg err s = Some (map_option (EWrap msg) err, s)"

text \<open>The steps that go on when they were cancelled.\<close>

definition unless_cancelled :: "'d scan_step \<Rightarrow> 'd scan_step" where
  "unless_cancelled f s =
     (case f s of Some (Some e, s') \<Rightarrow> Some (if errors_Is e context_Canceled then None else Some e, s') | r \<Rightarrow> r)"

definition begin_tx :: "'d scan_db \<Rightarrow> 'd scan_step" where
  "begin_tx db s =
     (case db_NewTransaction db of Some e \<Rightarrow> fail_step ''new transaction'' e s
      | None \<Rightarrow> Some (None, s\<lparr> rn_tx := Some (rn_db s) \<rparr>))"

definition read_last_scan :: "'d scan_db \<Rightarrow> 'd scan_step" where
  "read_last_scan db s =
     (case db_LastScan db (rn_db s) of
        Inl e \<Rightarrow>
          if errors_Is e (EType ErrNotFound)
          then Some (None, s\<lparr> rn_lastScan := 0, rn_fullScan := True, rn_firstScan := True \<rparr>)
          else fail_step ''get last scan'' e (s\<lparr> rn_lastScan := 0 \<rparr>)
      | Inr t \<Rightarrow>
          (case db_SongCount db (the (rn_tx s)) of
             Inl e \<Rightarrow> fail_step ''get song count'' e (s\<lparr> rn_lastScan := t \<rparr>)
           | Inr n \<Rightarrow> Some (None, s\<lparr> rn_lastScan := t, rn_firstScan := (n = 0) \<rparr>)))"

definition load_music_dirs :: "'d scan_db \<Rightarrow> 'd scan_parts \<Rightarrow> 'd scan_step" where
  "load_music_dirs db ph s =
     (case LoadMusicDirs (db_folders db) (rn_fullScan s) (sp_musicDirs ph) (the (rn_tx s)) of
        (Inl e, d) \<Rightarrow> fail_step ''load music dirs'' e (s\<lparr> rn_tx := Some d \<rparr>)
      | (Inr changed, d) \<Rightarrow>
          Some (None, s\<lparr> rn_tx := Some d, rn_fullScan := (rn_fullScan s \<or> changed),
                         rn_musicDirs := value_or [] (sp_musicDirs ph) \<rparr>))"

definition check_needs_full_scan :: "'d scan_db \<Rightarrow> 'd scan_step" where
  "check_needs_full_scan db s =
     (if rn_fullScan s then Some (None, s)
      else case db_NeedsFullScan db (the (rn_tx s)) of
             Inl e \<Rightarrow> fail_step ''check if full scan is needed'' e s
           | Inr b \<Rightarrow> Some (None, s\<lparr> rn_fullScan := b \<rparr>))"

definition forget_last_scan :: "'d scan_step" where
  "forget_last_scan s = Some (None, if rn_fullScan s \<or> rn_firstScan s then s\<lparr> rn_lastScan := 0 \<rparr> else s)"

definition clear_cover_cache :: "'d scan_parts \<Rightarrow> 'd scan_step" where
  "clear_cover_cache ph s = (if rn_fullScan s then check ''clear cover cache'' (sp_clearCovers ph) s else Some (None, s))"

definition walk_and_store :: "'d scan_parts \<Rightarrow> 'd scan_step" where
  "walk_and_store ph s =
     (let r = sp_walk ph (rn_fullScan s) (rn_firstScan s) (rn_lastScan s) (rn_musicDirs s) (the (rn_tx s));
          s1 = s\<lparr> rn_tx := Some (wr_tx r), rn_counter := wr_count r \<rparr>
      in case (case wr_walk r of None \<Rightarrow> None | Some e \<Rightarrow> if errors_Is e context_Canceled then None else Some e) of
           Some e \<Rightarrow> fail_step ''scan dir'' e s1
         | None \<Rightarrow>
             (case wr_songs r of
                Some e \<Rightarrow> fail_step ''run save songs loop'' e s1
              | None \<Rightarrow> check ''run set album covers loop'' (wr_covers r) s1))"

definition delete_orphaned :: "'d scan_db \<Rightarrow> 'd scan_parts \<Rightarrow> 'd scan_step" where
  "delete_orphaned db ph s =
     map_option (\<lambda>(err, d). (map_option (EWrap ''delete orphaned'') err, s\<lparr> rn_tx := Some d \<rparr>))
       (deleteOrphaned (db_clean db) (sp_missing ph) (sp_order ph) (rn_fullScan s) (rn_scanStart s) (the (rn_tx s)))"

definition stop_if_cancelled :: "'d scan_parts \<Rightarrow> 'd scan_step" where
  "stop_if_cancelled ph s = Some (if sp_cancelled ph then Some context_Canceled else None, s)"

definition set_fallback_gain :: "'d scan_db \<Rightarrow> 'd scan_step" where
  "set_fallback_gain db s =
     (case db_MedianReplayGain db (the (rn_tx s)) of
        Inl e \<Rightarrow> fail_step ''get median replay gain'' e s
      | Inr g \<Rightarrow> Some (None, if f64_eq g 0 then s else s\<lparr> rn_gain := g \<rparr>))"

definition save_images :: "'d scan_parts \<Rightarrow> 'd scan_step" where
  "save_images ph s =
     (case sp_findImages ph of
        Inl e \<Rightarrow> fail_step ''find artist images'' e s
      | Inr found \<Rightarrow> check ''save artist images'' (sp_saveImages ph found (the (rn_tx s))) s)"

definition commit_tx :: "'d scan_db \<Rightarrow> 'd scan_step" where
  "commit_tx db s =
     (case db_Commit db of Some e \<Rightarrow> fail_step ''commit tx'' e s
      | None \<Rightarrow> Some (None, s\<lparr> rn_db := the (rn_tx s) \<rparr>))"

section \<open>The scan\<close>

definition mode_steps :: "'d scan_db \<Rightarrow> 'd scan_parts \<Rightarrow> 'd scan_step list" where
  "mode_steps db ph =
     [begin_tx db, read_last_scan db, load_music_dirs db ph, check_needs_full_scan db,
      in_tx ''reset needs full scan'' (db_ResetNeedsFullScan db), forget_last_scan]"

definition work_steps :: "'d scan_db \<Rightarrow> 'd scan_parts \<Rightarrow> 'd scan_step list" where
  "work_steps db ph =
     [clear_cover_cache ph,
      (\<lambda>s. check ''new artist map from db'' (sp_loadArtists ph (the (rn_tx s))) s),
      (\<lambda>s. check ''new album map from db'' (sp_loadAlbums ph (the (rn_tx s))) s),
      walk_and_store ph,
      unless_cancelled (in_tx ''update album artists'' (sp_updateArtists ph)),
      unless_cancelled (in_tx ''update artist music folder associations'' (sp_updateAssociations ph)),
      delete_orphaned db ph,
      stop_if_cancelled ph,
      in_tx ''delete songs from playlists that the playlist owner does not have access to'' (db_DeleteInaccessible db),
      in_tx ''fix playlist track numbers'' (db_FixTrackNumbers db),
      set_fallback_gain db,
      in_tx ''fix scrobble metadata'' (db_FixMetadata db),
      in_tx ''update last scan'' (db_SetLastScan db (sp_end ph)),
      save_images ph]"

text \<open>The deferred calls: rolling back what was not committed, restoring the counter after an error, unlocking.\<close>

definition finish_scan :: "int \<Rightarrow> go_error option \<times> 'd scan_run \<Rightarrow> go_error option \<times> 'd scan_run" where
  "finish_scan previousCount r =
     (case r of (err, s) \<Rightarrow>
        (err, s\<lparr> rn_tx := None, rn_counter := (if err = None then rn_counter s else previousCount),
                 rn_scanning := False, rn_locked := False \<rparr>))"

definition Scan :: "'d scan_db \<Rightarrow> 'd scan_parts \<Rightarrow> bool \<Rightarrow> 'd scan_step" where
  "Scan db ph fullScan s =
     (if rn_locked s then Some (Some ErrAlreadyScanning, s)
      else map_option (finish_scan (rn_counter s))
             (run_steps (mode_steps db ph @ work_steps db ph @ [commit_tx db])
                (s\<lparr> rn_locked := True, rn_scanning := True, rn_fullScan := fullScan, rn_scanStart := sp_start ph, rn_counter := 0 \<rparr>)))"


section \<open>All or nothing\<close>

lemma run_steps_append:
  "run_steps (fs @ gs) s = (case run_steps fs s of Some (None, t) \<Rightarrow> run_steps gs t | r \<Rightarrow> r)"
  by (induction fs arbitrary: s) (auto split: option.splits prod.splits)

text \<open>Steps that leave the committed database alone.\<close>

definition keeps_db :: "'d scan_step \<Rightarrow> bool" where
  "keeps_db f \<longleftrightarrow> (\<forall>s err t. f s = Some (err, t) \<longrightarrow> rn_db t = rn_db s)"

lemma run_steps_keeps:
  "\<forall>f\<in>set fs. keeps_db f \<Longrightarrow> run_steps fs s = Some (err, t) \<Longrightarrow> rn_db t = rn_db s"
  by (induction fs arbitrary: s) (auto simp: keeps_db_def split: option.splits prod.splits)

lemmas step_defs = begin_tx_def read_last_scan_def load_music_dirs_def check_needs_full_scan_def in_tx_def forget_last_scan_def
  clear_cover_cache_def check_def fail_step_def walk_and_store_def unless_cancelled_def delete_orphaned_def stop_if_cancelled_def
  set_fallback_gain_def save_images_def

lemma keeps_dbI: "(\<And>s err t. f s = Some (err, t) \<Longrightarrow> rn_db t = rn_db s) \<Longrightarrow> keeps_db f"
  by (simp add: keeps_db_def)

lemma keeps_in_tx: "keeps_db (in_tx msg f)"
  by (rule keeps_dbI) (auto simp: in_tx_def split: prod.splits)

lemma keeps_unless_cancelled: "keeps_db f \<Longrightarrow> keeps_db (unless_cancelled f)"
  by (auto simp: keeps_db_def unless_cancelled_def split: option.splits prod.splits)

lemma keeps_steps:
  "keeps_db (begin_tx db)" "keeps_db (read_last_scan db)" "keeps_db (load_music_dirs db ph)" "keeps_db (check_needs_full_scan db)"
  "keeps_db forget_last_scan" "keeps_db (clear_cover_cache ph)" "keeps_db (walk_and_store ph)" "keeps_db (delete_orphaned db ph)"
  "keeps_db (stop_if_cancelled ph)" "keeps_db (set_fallback_gain db)" "keeps_db (save_images ph)"
  "keeps_db (\<lambda>s. check msg (g (the (rn_tx s))) s)"
  by (rule keeps_dbI; auto simp: step_defs Let_def split: option.splits sum.splits prod.splits if_splits)+

lemma steps_keep_db: "f \<in> set (mode_steps db ph @ work_steps db ph) \<Longrightarrow> keeps_db f"
  by (auto simp: mode_steps_def work_steps_def intro: keeps_steps keeps_in_tx keeps_unless_cancelled)

lemma work_ends_with_last_scan:
  assumes "run_steps (work_steps db ph) s = Some (None, t)"
  shows "\<exists>d. db_SetLastScan db (sp_end ph) d = (None, the (rn_tx t))"
proof -
  obtain fs where fs: "work_steps db ph = fs @ [in_tx ''update last scan'' (db_SetLastScan db (sp_end ph)), save_images ph]"
    by (simp add: work_steps_def)
  from assms show ?thesis
    unfolding fs run_steps_append
    by (auto simp: in_tx_def save_images_def check_def fail_step_def split: option.splits prod.splits sum.splits)
qed

text \<open>
  C10: while a scan runs another one is refused and changes nothing. A scan that ends leaves the scanner
  unlocked, with no open transaction. If it failed the database and the count of files are as before; if it
  did not, the database is the state in which the time of the scan was recorded.
\<close>

theorem scan_all_or_nothing:
  assumes "Scan db ph fullScan s = Some (err, s')"
  shows "if rn_locked s then err = Some ErrAlreadyScanning \<and> s' = s
         else \<not> rn_locked s' \<and> \<not> rn_scanning s' \<and> rn_tx s' = None \<and>
           (if err = None then \<exists>d. db_SetLastScan db (sp_end ph) d = (None, rn_db s')
            else rn_db s' = rn_db s \<and> rn_counter s' = rn_counter s)"
proof (cases "rn_locked s")
  case True
  with assms show ?thesis by (simp add: Scan_def)
next
  case False
  let ?s = "s\<lparr> rn_locked := True, rn_scanning := True, rn_fullScan := fullScan, rn_scanStart := sp_start ph, rn_counter := 0 \<rparr>"
  let ?steps = "mode_steps db ph @ work_steps db ph"
  from assms False obtain t where t: "run_steps (?steps @ [commit_tx db]) ?s = Some (err, t)"
    and s': "(err, s') = finish_scan (rn_counter s) (err, t)"
    by (auto simp: Scan_def finish_scan_def split: prod.splits)
  have fin: "\<not> rn_locked s'" "\<not> rn_scanning s'" "rn_tx s' = None" "rn_db s' = rn_db t"
    "err \<noteq> None \<Longrightarrow> rn_counter s' = rn_counter s"
    using s' by (auto simp: finish_scan_def)
  obtain e u where u: "run_steps ?steps ?s = Some (e, u)"
    using t by (cases "run_steps ?steps ?s") (auto simp: run_steps_append simp del: append_assoc)
  have keep: "rn_db u = rn_db s" using run_steps_keeps [OF _ u] steps_keep_db by fastforce
  show ?thesis
  proof (cases "e = None \<and> err = None")
    case True
    then have c: "commit_tx db u = Some (None, t)" using t u
      by (auto simp: run_steps_append simp del: append_assoc split: option.splits prod.splits)
    then have "rn_db t = the (rn_tx u)" by (auto simp: commit_tx_def fail_step_def split: option.splits)
    moreover obtain v where "run_steps (work_steps db ph) v = Some (None, u)"
      using u True by (auto simp: run_steps_append split: option.splits)
    ultimately show ?thesis using work_ends_with_last_scan fin False True by fastforce
  next
    case failed: False
    have "err \<noteq> None \<and> rn_db t = rn_db u"
      using t u failed by (auto simp: run_steps_append commit_tx_def fail_step_def simp del: append_assoc split: option.splits)
    then show ?thesis using fin keep False by auto
  qed
qed


section \<open>A scan returns\<close>

definition returns :: "'d scan_step \<Rightarrow> bool" where
  "returns f \<longleftrightarrow> (\<forall>s. f s \<noteq> None)"

lemma run_steps_returns: "\<forall>f\<in>set fs. returns f \<Longrightarrow> run_steps fs s \<noteq> None"
  by (induction fs arbitrary: s) (auto simp: returns_def split: option.splits)

lemma returns_in_tx: "returns (in_tx msg f)"
  by (auto simp: returns_def in_tx_def split: prod.splits)

lemma returns_unless_cancelled: "returns f \<Longrightarrow> returns (unless_cancelled f)"
  by (auto simp: returns_def unless_cancelled_def split: option.splits prod.splits)

lemma returns_steps:
  "returns (begin_tx db)" "returns (read_last_scan db)" "returns (load_music_dirs db ph)" "returns (check_needs_full_scan db)"
  "returns forget_last_scan" "returns (clear_cover_cache ph)" "returns (walk_and_store ph)"
  "returns (stop_if_cancelled ph)" "returns (set_fallback_gain db)" "returns (save_images ph)" "returns (commit_tx db)"
  "returns (\<lambda>s. check msg (g (the (rn_tx s))) s)"
  by (auto simp: returns_def step_defs commit_tx_def Let_def split: option.splits sum.splits prod.splits)

lemma returns_delete_orphaned:
  assumes "\<And>t. path_queries (db_clean db) t old" "\<And>ps. set (sp_order ph ps) = set ps" "\<And>d. length (old d) < 2 ^ 31"
  shows "returns (delete_orphaned db ph)"
proof -
  have "deleteOrphaned (db_clean db) (sp_missing ph) (sp_order ph) full t d \<noteq> None" for full t d
  proof (cases "deleteSongAndAlbumsWithoutMusicFolderID (db_clean db) d")
    case (Pair err d1)
    have "\<exists>d'. deleteOrphanedSongsByPath (db_clean db) (sp_missing ph) (sp_order ph) t 0 d1 = Some (None, d')"
      using orphan_loop [OF assms(1,2), of 0 d1 "sp_missing ph"] assms(3) [of d1] by auto
    with Pair show ?thesis by (auto simp: deleteOrphaned_def split: option.splits)
  qed
  then show ?thesis by (auto simp: returns_def delete_orphaned_def)
qed

text \<open>
  With a database that answers the queries for paths as they are written, and fewer than \<open>2 ^ 31\<close> songs,
  a scan always returns, with or without an error: the only loop that could go on, over the songs
  without files, ends.
\<close>

lemma scan_returns:
  assumes "\<And>t. path_queries (db_clean db) t old" "\<And>ps. set (sp_order ph ps) = set ps" "\<And>d. length (old d) < 2 ^ 31"
  shows "\<exists>err s'. Scan db ph fullScan s = Some (err, s')"
proof -
  have "\<forall>f\<in>set (mode_steps db ph @ work_steps db ph @ [commit_tx db]). returns f"
    using returns_delete_orphaned [of db old ph, OF assms]
    by (auto simp: mode_steps_def work_steps_def intro: returns_steps returns_in_tx returns_unless_cancelled)
  from run_steps_returns [OF this] show ?thesis
    by (auto simp: Scan_def finish_scan_def)
qed

text \<open>
  The witness: a database of song paths (at most one, so that it is small) with the time of the last scan
  and the configuration of its music directory.
\<close>

definition wit_folders :: "(string list \<times> int) folder_repo" where
  "wit_folders = \<lparr> fr_MusicDirConfig = (\<lambda>_. Inr ''/m''), fr_SetMusicDirConfig = (\<lambda>_ d. (None, d)),
     fr_DeleteAllUserAssociations = (\<lambda>d. (None, d)), fr_CreateOrUpdate = (\<lambda>_ d. (None, d)), fr_FindAllUsers = (\<lambda>_. Inr []),
     fr_CreateUserAssociations = (\<lambda>_ _ d. (None, d)), fr_DeleteMusicFoldersNotIn = (\<lambda>_ d. (None, d)) \<rparr>"

definition wit_clean :: "(string list \<times> int) clean_repo" where
  "wit_clean = \<lparr> cl_FindPaths = (\<lambda>_ off lim d. Inr (take (nat lim) (drop (nat off) (take 1 (fst d))))),
     cl_DeleteByPaths = (\<lambda>ps (d, t). (None, (filter (\<lambda>p. p \<notin> set ps) (take 1 d), t))), cl_DeleteLastUpdatedBefore = (\<lambda>_ d. (None, d)),
     cl_SongsWithoutFolder = (\<lambda>d. (None, d)), cl_AlbumsWithoutFolder = (\<lambda>d. (None, d)), cl_GenresIfNoSongs = (\<lambda>d. (None, d)),
     cl_AlbumsToMigrate = (\<lambda>_ _. Inr []), cl_MigrateAlbum = (\<lambda>_ _ d. (None, d)), cl_AlbumsIfNoTracks = (\<lambda>d. (None, d)),
     cl_ArtistsToMigrate = (\<lambda>_ _. Inr []), cl_MigrateArtist = (\<lambda>_ _ d. (None, d)), cl_ArtistsIfUnused = (\<lambda>d. (None, d)) \<rparr>"

definition wit_db :: "(string list \<times> int) scan_db" where
  "wit_db = \<lparr> db_NewTransaction = None, db_LastScan = (\<lambda>d. Inr (snd d)), db_SongCount = (\<lambda>d. Inr (int (length (fst d)))),
     db_NeedsFullScan = (\<lambda>_. Inr False), db_ResetNeedsFullScan = (\<lambda>d. (None, d)), db_DeleteInaccessible = (\<lambda>d. (None, d)),
     db_FixTrackNumbers = (\<lambda>d. (None, d)), db_MedianReplayGain = (\<lambda>_. Inr 0), db_FixMetadata = (\<lambda>d. (None, d)),
     db_SetLastScan = (\<lambda>t (d, _). (None, (d, t))), db_Commit = None, db_folders = wit_folders, db_clean = wit_clean \<rparr>"

definition wit_parts :: "go_error option \<Rightarrow> (string list \<times> int) scan_parts" where
  "wit_parts saveErr = \<lparr> sp_start = 90, sp_end = 95, sp_musicDirs = Inr [\<lparr> md_ID = 1, md_Name = ''m'', md_Path = ''/m'', md_Users = None \<rparr>],
     sp_clearCovers = None, sp_findImages = Inr Map.empty, sp_loadArtists = (\<lambda>_. None), sp_loadAlbums = (\<lambda>_. None),
     sp_walk = (\<lambda>_ _ _ _ d. \<lparr> wr_walk = None, wr_songs = saveErr, wr_covers = None, wr_count = 4, wr_tx = d \<rparr>),
     sp_updateArtists = (\<lambda>d. (None, d)), sp_updateAssociations = (\<lambda>d. (None, d)), sp_missing = (\<lambda>p. p = ''/m/gone''),
     sp_order = (\<lambda>ps. ps), sp_cancelled = False, sp_saveImages = (\<lambda>_ _. None) \<rparr>"

definition wit_run :: "(string list \<times> int) scan_run" where
  "wit_run = \<lparr> rn_locked = False, rn_scanning = False, rn_fullScan = False, rn_firstScan = False, rn_lastScan = 0, rn_scanStart = 0,
     rn_counter = 3, rn_musicDirs = [], rn_tx = None, rn_db = ([''/m/gone''], 50), rn_gain = 0 \<rparr>"

lemma wit_path_queries: "path_queries (db_clean wit_db) t (\<lambda>d. take 1 (fst d))"
proof -
  have "take (Suc 0) (filter P (take (Suc 0) ps)) = filter P (take (Suc 0) ps)" for P and ps :: "string list"
    by (rule take_all, rule order_trans [OF length_filter_le]) simp
  then show ?thesis by (auto simp: path_queries_def wit_db_def wit_clean_def split: prod.splits)
qed

lemma scan_returns_example:
  "\<exists>err s'. Scan wit_db (wit_parts None) False wit_run = Some (err, s')"
proof (rule scan_returns)
  show "path_queries (db_clean wit_db) t (\<lambda>d. take 1 (fst d))" for t by (rule wit_path_queries)
  show "set (sp_order (wit_parts None) ps) = set ps" for ps by (simp add: wit_parts_def)
  show "length (take 1 (fst d)) < 2 ^ 31" for d :: "string list \<times> int" by (rule le_less_trans [of _ 1]) simp_all
qed

text \<open>A scan whose loop over the songs fails, and one that succeeds.\<close>

lemmas wit_scan_defs = Scan_def wit_run_def wit_parts_def wit_db_def mode_steps_def work_steps_def begin_tx_def read_last_scan_def
  load_music_dirs_def LoadMusicDirs_def wit_folders_def GenerateMusicDirConfigString_def dir_config_string_def
  check_needs_full_scan_def in_tx_def forget_last_scan_def clear_cover_cache_def check_def fail_step_def walk_and_store_def

lemma scan_all_or_nothing_witness:
  "\<exists>s'. Scan wit_db (wit_parts (Some (EMsg ''x''))) False wit_run = Some (Some (EWrap ''run save songs loop'' (EMsg ''x'')), s')
     \<and> rn_db s' = ([''/m/gone''], 50) \<and> rn_counter s' = 3 \<and> \<not> rn_locked s'"
proof -
  obtain s' where s': "Scan wit_db (wit_parts (Some (EMsg ''x''))) False wit_run
      = Some (Some (EWrap ''run save songs loop'' (EMsg ''x'')), s')"
    by (simp add: wit_scan_defs finish_scan_def)
  from scan_all_or_nothing [OF s'] s' show ?thesis by (simp add: wit_run_def)
qed

end
