(* ===== verification/Requests.thy ===== *)
theory Requests
  imports Query
begin

text \<open>
  What every request handler owes its client: exactly one write, a response or an error. A handler yields its
  writer with what the response carries, and its state. The rules follow the shape of the handlers: a parameter
  is read and ends the request if that fails, a repository is asked and an error is answered, a response is written.
\<close>

type_synonym ('res, 's) reply = "(writer \<times> 'res) \<times> 's"

definition one_write :: "writer \<Rightarrow> writer \<Rightarrow> bool" where
  "one_write w w' \<longleftrightarrow> (\<exists>e. (is_error_write e \<or> (\<exists>f. e = WOk f)) \<and> w' = w @ [e])"

definition once_answered :: "writer \<Rightarrow> ('res, 's) reply \<Rightarrow> bool" where
  "once_answered w out \<longleftrightarrow> one_write w (fst (fst out))"

definition ok_write :: "url_values \<Rightarrow> writer \<Rightarrow> writer" where
  "ok_write q w = w @ [WOk (Q_Format q)]"

named_theorems answer_intros "how a handler answers"

lemma one_write_error [answer_intros]: "one_write w (EncodeError fm m c w)"
  by (simp add: EncodeError_def one_write_def)

lemma one_write_respond [answer_intros]:
  "one_write w (respondErr fm err w)" "one_write w (respondInternalErr fm err w)"
  "one_write w (respondGenericErr fm m w)" "one_write w (respondNotFoundErr fm m w)"
  by (simp_all add: respond_defs one_write_def)

lemma one_write_parameter [answer_intros]:
  "one_write w (invalidParameter q name w)" "one_write w (missingParameter q name w)"
  by (simp_all add: invalidParameter_def missingParameter_def answer_intros)

lemma one_write_ok [answer_intros]: "one_write w (ok_write q w)"
  by (simp add: ok_write_def one_write_def)

lemma one_write_if [answer_intros]:
  "(b \<Longrightarrow> one_write w x) \<Longrightarrow> (\<not> b \<Longrightarrow> one_write w y) \<Longrightarrow> one_write w (if b then x else y)"
  by simp

lemma answered_write [answer_intros]: "one_write w w' \<Longrightarrow> once_answered w ((w', r), s)"
  by (simp add: once_answered_def)

lemma answered_if [answer_intros]:
  "(b \<Longrightarrow> once_answered w x) \<Longrightarrow> (\<not> b \<Longrightarrow> once_answered w y) \<Longrightarrow> once_answered w (if b then x else y)"
  by simp

lemma answered_let [answer_intros]: "once_answered w (f x) \<Longrightarrow> once_answered w (let y = x in f y)"
  by simp

text \<open>A parameter that is refused has been answered.\<close>

lemma answered_accessor [answer_intros]:
  assumes "accessor_ok acc" "\<And>a. once_answered w (k a w)"
  shows "once_answered w (case acc w of (None, w') \<Rightarrow> ((w', r), s) | (Some a, w') \<Rightarrow> k a w')"
proof (cases "acc w")
  case (Pair x w')
  show ?thesis
  proof (cases x)
    case None
    with accessor_okD(2) [OF assms(1)] Pair show ?thesis by (fastforce simp: once_answered_def one_write_def)
  next
    case (Some a)
    with Pair have "acc w = (Some a, w')" by simp
    from accessor_okD(1) [OF assms(1) this] have "w' = w" .
    with Pair Some assms(2) show ?thesis by simp
  qed
qed

text \<open>An answer of a repository, with or without its state.\<close>

lemma answered_sum [answer_intros]:
  "(\<And>e. once_answered w (f e)) \<Longrightarrow> (\<And>a. once_answered w (g a)) \<Longrightarrow> once_answered w (case x of Inl e \<Rightarrow> f e | Inr a \<Rightarrow> g a)"
  by (cases x) auto

lemma answered_option [answer_intros]:
  "once_answered w f \<Longrightarrow> (\<And>a. once_answered w (g a)) \<Longrightarrow> once_answered w (case x of None \<Rightarrow> f | Some a \<Rightarrow> g a)"
  by (cases x) auto

lemma answered_pair [answer_intros]: "(\<And>a b. once_answered w (f a b)) \<Longrightarrow> once_answered w (case x of (a, b) \<Rightarrow> f a b)"
  by (cases x) auto

definition answers_once :: "(writer \<Rightarrow> 's \<Rightarrow> ('res, 's) reply) \<Rightarrow> bool" where
  "answers_once h \<longleftrightarrow> (\<forall>w s. once_answered w (h w s))"

lemma answers_onceI: "(\<And>w s. once_answered w (h w s)) \<Longrightarrow> answers_once h"
  by (simp add: answers_once_def)

end
