(* ===== verification/PgDB.thy ===== *)
theory PgDB
  imports RepoHelpers RepoErrors "HOL-Library.Multiset"
begin

text \<open>
  What the PostgreSQL repositories share (\<open>repos/postgres/db.go\<close>, \<open>helpers.go\<close>, \<open>errors.go\<close>): the
  classification of errors, statements and their results, batches, and transactions. The state is a pair: the
  contents of the database, which a rollback restores, and everything else, which it does not. A statement
  is what the driver does with it, a function on the state.
\<close>

datatype 'a outcome = Done 'a | Panic

section \<open>Errors\<close>

definition sqlErrNoRows :: go_error where "sqlErrNoRows = EMsg ''sql: no rows in result set''"

text \<open>\<open>constraint\<close> is the name of the constraint in an error of the driver, if it is one.\<close>

definition sqlErrToErrType :: "(go_error \<Rightarrow> string option) \<Rightarrow> go_error \<Rightarrow> ErrorType" where
  "sqlErrToErrType constraint err =
     (case find is_EType (err_chain err) of
        Some e \<Rightarrow> the (kind_of e)
      | None \<Rightarrow>
          if errors_Is err sqlErrNoRows then ErrNotFound
          else (case List.map_filter constraint (err_chain err) of
                  name # _ \<Rightarrow> if sublist ''_pkey'' name \<or> sublist ''_key'' name then ErrExists else ErrGeneral
                | [] \<Rightarrow> ErrGeneral))"

definition wrapErr :: "(go_error \<Rightarrow> string option) \<Rightarrow> string \<Rightarrow> go_error option \<Rightarrow> go_error option" where
  "wrapErr constraint message err =
     (case err of None \<Rightarrow> None | Some e \<Rightarrow> Some (NewError message (sqlErrToErrType constraint e) (Some e)))"

text \<open>The number of affected rows is absent if the driver does not tell it.\<close>

definition wrapResErr :: "(go_error \<Rightarrow> string option) \<Rightarrow> string \<Rightarrow> go_error + int option \<Rightarrow> go_error option" where
  "wrapResErr constraint message res =
     (case res of
        Inr rows \<Rightarrow> if rows = Some 0 then Some (NewError message ErrNotFound (Some (EMsg ''no rows affected''))) else None
      | Inl e \<Rightarrow> Some (NewError message (sqlErrToErrType constraint e) (Some e)))"

section \<open>Statements\<close>

type_synonym ('s, 'a) stmt = "'s \<Rightarrow> (go_error + 'a) \<times> 's"

text \<open>A statement on a database whose next failures are listed: one entry is used up by each statement.\<close>

type_synonym faults = "go_error option list"

definition faulty :: "('d \<Rightarrow> (go_error + 'a) \<times> 'd) \<Rightarrow> ('d \<times> faults, 'a) stmt" where
  "faulty run s =
     (case snd s of
        Some e # fs \<Rightarrow> (Inl e, fst s, fs)
      | _ \<Rightarrow> (case run (fst s) of (res, d) \<Rightarrow> (res, d, tl (snd s))))"

definition executeQuery :: "(go_error \<Rightarrow> string option) \<Rightarrow> ('s, int option) stmt \<Rightarrow> 's \<Rightarrow> go_error option \<times> 's" where
  "executeQuery constraint run s =
     (case run s of
        (Inl e, s) \<Rightarrow> (wrapErr constraint ''execute exec query'' (Some e), s)
      | (Inr _, s) \<Rightarrow> (None, s))"

definition executeQueryCountAffectedRows :: "(go_error \<Rightarrow> string option) \<Rightarrow> ('s, int option) stmt \<Rightarrow> ('s, int) stmt" where
  "executeQueryCountAffectedRows constraint run s =
     (case run s of
        (Inl e, s) \<Rightarrow> (Inl (NewError ''execute exec query'' (sqlErrToErrType constraint e) (Some e)), s)
      | (Inr rows, s) \<Rightarrow> (Inr (case rows of None \<Rightarrow> 0 | Some n \<Rightarrow> n), s))"

definition executeQueryExpectAffectedRows :: "(go_error \<Rightarrow> string option) \<Rightarrow> ('s, int option) stmt \<Rightarrow> 's \<Rightarrow> go_error option \<times> 's" where
  "executeQueryExpectAffectedRows constraint run s =
     (case run s of (res, s) \<Rightarrow> (wrapResErr constraint ''execute exec query (expect affected rows)'' res, s))"

definition selectQuery :: "(go_error \<Rightarrow> string option) \<Rightarrow> ('s, 'a list) stmt \<Rightarrow> ('s, 'a list) stmt" where
  "selectQuery constraint run s =
     (case run s of
        (Inl e, s) \<Rightarrow> (Inl (NewError ''execute select query'' (sqlErrToErrType constraint e) (Some e)), s)
      | (Inr rows, s) \<Rightarrow> (Inr rows, s))"

definition getQuery_row :: "(go_error \<Rightarrow> string option) \<Rightarrow> ('s, 'a list) stmt \<Rightarrow> ('s, 'a) stmt" where
  "getQuery_row constraint run s =
     (case selectQuery constraint run s of
        (Inl e, s) \<Rightarrow> (Inl e, s)
      | (Inr rows, s) \<Rightarrow>
          (if length rows = 0 then (Inl (NewError ''expected one but found none'' ErrNotFound None), s)
           else if length rows > 1 then (Inl (NewError ''expected one but found multiple'' ErrTooMany None), s)
           else (Inr (hd rows), s)))"

lemma faulty_Inr: "faulty run s = (Inr a, s') \<Longrightarrow> run (fst s) = (Inr a, fst s')"
  by (auto simp: faulty_def split: list.splits option.splits prod.splits)

lemma faulty_state: "faulty run s = (Inr a, s') \<Longrightarrow> fst s' = snd (run (fst s))"
  by (simp add: faulty_Inr)

lemma executeQuery_None: "executeQuery c run s = (None, s') \<Longrightarrow> \<exists>a. run s = (Inr a, s')"
  by (auto simp: executeQuery_def wrapErr_def split: prod.splits sum.splits)

lemma getQuery_row_Inr: "getQuery_row c run s = (Inr a, s') \<Longrightarrow> run s = (Inr [a], s')"
  by (auto simp: getQuery_row_def selectQuery_def length_Suc_conv split: prod.splits sum.splits if_splits)
    (metis One_nat_def Suc_lessI length_0_conv length_Suc_conv length_greater_0_conv list.sel(1))

section \<open>Batches\<close>

definition execBatchSize :: nat where "execBatchSize = 512"
definition selectBatchSize :: nat where "selectBatchSize = 4096"

function exec_batch_loop :: "('a list \<Rightarrow> 's \<Rightarrow> go_error option \<times> 's) \<Rightarrow> 'a list \<Rightarrow> nat \<Rightarrow> 's \<Rightarrow> go_error option \<times> 's" where
  "exec_batch_loop fn xs i s =
     (if \<not> i < length xs then (None, s)
      else case fn (take (min (i + execBatchSize) (length xs) - i) (drop i xs)) s of
             (Some e, s) \<Rightarrow> (Some e, s)
           | (None, s) \<Rightarrow> exec_batch_loop fn xs (i + execBatchSize) s)"
  by pat_completeness auto
termination by (relation "measure (\<lambda>(_, xs, i, _). length xs - i)") (auto simp: execBatchSize_def)

definition execBatch :: "('a list \<Rightarrow> 's \<Rightarrow> go_error option \<times> 's) \<Rightarrow> 'a list \<Rightarrow> 's \<Rightarrow> go_error option \<times> 's" where
  "execBatch fn xs s = (if length xs = 0 then (None, s) else exec_batch_loop fn xs 0 s)"

function select_batch_loop :: "('a list \<Rightarrow> ('s, 'b list) stmt) \<Rightarrow> 'a list \<Rightarrow> nat \<Rightarrow> 'b list \<Rightarrow> ('s, 'b list) stmt" where
  "select_batch_loop fn xs i result s =
     (if \<not> i < length xs then (Inr result, s)
      else case fn (take (min (i + selectBatchSize) (length xs) - i) (drop i xs)) s of
             (Inl e, s) \<Rightarrow> (Inl e, s)
           | (Inr rows, s) \<Rightarrow> select_batch_loop fn xs (i + selectBatchSize) (result @ rows) s)"
  by pat_completeness auto
termination by (relation "measure (\<lambda>(_, xs, i, _). length xs - i)") (auto simp: selectBatchSize_def)

definition selectBatch :: "('a list \<Rightarrow> ('s, 'b list) stmt) \<Rightarrow> 'a list \<Rightarrow> ('s, 'b list) stmt" where
  "selectBatch fn xs s = (if length xs = 0 then (Inr [], s) else select_batch_loop fn xs 0 [] s)"

function select_batch2_loop ::
  "('a list \<Rightarrow> 'b list \<Rightarrow> ('s, 'c list) stmt) \<Rightarrow> 'a list \<Rightarrow> 'b list \<Rightarrow> nat \<Rightarrow> 'c list \<Rightarrow> ('s, 'c list) stmt" where
  "select_batch2_loop fn xs ys i result s =
     (if \<not> i < max (length xs) (length ys) then (Inr result, s)
      else let d1 = (if i < length xs then take (min (i + selectBatchSize) (length xs) - i) (drop i xs) else []);
               d2 = (if i < length ys then take (min (i + selectBatchSize) (length ys) - i) (drop i ys) else [])
           in case fn d1 d2 s of
                (Inl e, s) \<Rightarrow> (Inl e, s)
              | (Inr rows, s) \<Rightarrow> select_batch2_loop fn xs ys (i + selectBatchSize) (result @ rows) s)"
  by pat_completeness auto
termination by (relation "measure (\<lambda>(_, xs, ys, i, _). max (length xs) (length ys) - i)") (auto simp: selectBatchSize_def)

definition selectBatch2 :: "('a list \<Rightarrow> 'b list \<Rightarrow> ('s, 'c list) stmt) \<Rightarrow> 'a list \<Rightarrow> 'b list \<Rightarrow> ('s, 'c list) stmt" where
  "selectBatch2 fn xs ys s =
     (if length xs = 0 \<and> length ys = 0 then (Inr [], s) else select_batch2_loop fn xs ys 0 [] s)"

declare exec_batch_loop.simps [simp del] select_batch_loop.simps [simp del] select_batch2_loop.simps [simp del]

section \<open>Parts of queries\<close>

text \<open>The assignments of an update: those that have a value, in the order of iteration over the map, and the time.\<close>

definition genUpdateList :: "(string \<times> 'v Optional) list \<Rightarrow> bool \<Rightarrow> (string \<times> 'v option) list \<times> bool" where
  "genUpdateList values updatedField =
     (let sets = map (\<lambda>(name, v). (name, Some (opt_value v))) (filter (\<lambda>(_, v). opt_hasValue v) values)
      in (sets @ (if updatedField then [(''updated'', None)] else []), sets = [] \<and> \<not> updatedField))"

section \<open>Transactions\<close>

text \<open>
  What the database answers to the beginning of a transaction and makes of its commit; the handle of a transaction
  cannot begin another.
\<close>

record 'd sql_conn =
  sc_Constraint :: "go_error \<Rightarrow> string option"
  sc_Begin :: "'d \<Rightarrow> go_error option"
  sc_Commit :: "'d \<Rightarrow> go_error + 'd"

type_synonym ('d, 'r) tx_fn = "'d \<times> 'r \<Rightarrow> go_error option outcome \<times> 'd \<times> 'r"

text \<open>The deferred rollback also runs when the function panics.\<close>

definition Transaction :: "'d sql_conn \<Rightarrow> bool \<Rightarrow> ('d, 'r) tx_fn \<Rightarrow> ('d, 'r) tx_fn" where
  "Transaction conn in_tx fn s =
     (if in_tx then (Done (Some (NewError ''create transaction'' ErrNestedTransaction None)), s)
      else case sc_Begin conn (fst s) of
             Some e \<Rightarrow> (Done (wrapErr (sc_Constraint conn) ''begin transaction'' (Some e)), s)
           | None \<Rightarrow>
               (case fn s of
                  (Panic, _, r) \<Rightarrow> (Panic, fst s, r)
                | (Done (Some e), _, r) \<Rightarrow> (Done (Some e), fst s, r)
                | (Done None, d, r) \<Rightarrow>
                    (case sc_Commit conn d of
                       Inl e \<Rightarrow> (Done (wrapErr (sc_Constraint conn) ''commit transaction'' (Some e)), fst s, r)
                     | Inr d \<Rightarrow> (Done None, d, r))))"

text \<open>The transactions of the repositories: within one they only run their function.\<close>

definition newTransactionFn :: "'d sql_conn \<Rightarrow> bool \<Rightarrow> ('d \<times> 'r \<Rightarrow> go_error option \<times> 'd \<times> 'r) \<Rightarrow> 'd \<times> 'r \<Rightarrow> go_error option \<times> 'd \<times> 'r" where
  "newTransactionFn conn in_tx fn s =
     (let wrap = wrapErr (sc_Constraint conn) []
      in if in_tx then fn s
         else case sc_Begin conn (fst s) of
                Some e \<Rightarrow> (wrap (Some (EWrap ''begin transaction'' e)), s)
              | None \<Rightarrow>
                  (case fn s of
                     (Some e, _, r) \<Rightarrow> (wrap (Some e), fst s, r)
                   | (None, d, r) \<Rightarrow>
                       (case sc_Commit conn d of
                          Inl e \<Rightarrow> (wrap (Some (EWrap ''commit transaction'' e)), fst s, r)
                        | Inr d \<Rightarrow> (None, d, r))))"

section \<open>Batches\<close>

text \<open>The lists that a longer one is cut into.\<close>

function pieces :: "nat \<Rightarrow> 'a list \<Rightarrow> 'a list list" where
  "pieces n xs = (if xs = [] \<or> n = 0 then [] else take n xs # pieces n (drop n xs))"
  by pat_completeness auto
termination by (relation "measure (\<lambda>(_, xs). length xs)") auto

declare pieces.simps [simp del]

lemma concat_pieces: "0 < n \<Longrightarrow> concat (pieces n xs) = xs"
  by (induction n xs rule: pieces.induct) (subst pieces.simps, auto)

lemma pieces_length: "b \<in> set (pieces n xs) \<Longrightarrow> b \<noteq> [] \<and> length b \<le> n"
  by (induction n xs rule: pieces.induct) (subst (asm) pieces.simps, auto split: if_splits)

text \<open>Sending one list after the other until one fails.\<close>

fun send_all :: "('a \<Rightarrow> 'r \<Rightarrow> go_error option \<times> 'r) \<Rightarrow> 'a list \<Rightarrow> 'r \<Rightarrow> go_error option \<times> 'r" where
  "send_all send [] r = (None, r)"
| "send_all send (x # xs) r = (case send x r of (Some e, r) \<Rightarrow> (Some e, r) | (None, r) \<Rightarrow> send_all send xs r)"

lemma take_min_drop: "i < length xs \<Longrightarrow> take (min (i + n) (length xs) - i) (drop i xs) = take n (drop i xs)"
  by (cases "i + n \<le> length xs") (auto simp: min_def)

lemma pieces_step: "i < length xs \<Longrightarrow> 0 < n \<Longrightarrow> pieces n (drop i xs) = take n (drop i xs) # pieces n (drop (i + n) xs)"
  by (subst pieces.simps) (simp add: add.commute)

lemma exec_batch_loop_pieces: "exec_batch_loop fn xs i s = send_all fn (pieces execBatchSize (drop i xs)) s"
proof (induction "length xs - i" arbitrary: i s rule: less_induct)
  case less
  show ?case
  proof (cases "i < length xs")
    case False
    then show ?thesis by (subst exec_batch_loop.simps) (simp add: pieces.simps)
  next
    case True
    then have "pieces execBatchSize (drop i xs) = take execBatchSize (drop i xs) # pieces execBatchSize (drop (i + execBatchSize) xs)"
      by (intro pieces_step) (simp_all add: execBatchSize_def)
    then show ?thesis
      using True less [of "i + execBatchSize"]
      by (subst exec_batch_loop.simps) (simp add: take_min_drop execBatchSize_def split: prod.split option.split)
  qed
qed

lemma execBatch_all_pieces: "execBatch fn xs s = send_all fn (pieces execBatchSize xs) s"
  by (simp add: execBatch_def exec_batch_loop_pieces pieces.simps)

text \<open>
  A query whose rows for a list are those of its elements, one after the other, does not notice the batches.
\<close>

lemma select_batch_loop_rows:
  assumes "\<And>xs s. fn xs s = (Inr (concat (map q xs)), s)"
  shows "select_batch_loop fn xs i rows s = (Inr (rows @ concat (map q (drop i xs))), s)"
proof (induction "length xs - i" arbitrary: i rows rule: less_induct)
  case less
  show ?case
  proof (cases "i < length xs")
    case False
    then show ?thesis by (subst select_batch_loop.simps) simp
  next
    case True
    have "concat (map q (drop i xs)) = concat (map q (take selectBatchSize (drop i xs))) @ concat (map q (drop (i + selectBatchSize) xs))"
      by (metis add.commute append_take_drop_id concat_append drop_drop map_append)
    then show ?thesis
      using True less [of "i + selectBatchSize"]
      by (subst select_batch_loop.simps) (simp add: assms take_min_drop selectBatchSize_def)
  qed
qed

lemma selectBatch_rows:
  assumes "\<And>xs s. fn xs s = (Inr (concat (map q xs)), s)"
  shows "selectBatch fn xs s = (Inr (concat (map q xs)), s)"
  using select_batch_loop_rows [of fn q xs 0 "[]" s, OF assms] by (simp add: selectBatch_def)

text \<open>With two lists the rows of both arrive, those of one batch of each list after the other.\<close>

lemma select_batch2_loop_rows:
  assumes "\<And>xs ys s. fn xs ys s = (Inr (concat (map p xs) @ concat (map q ys)), s)"
  shows "\<exists>out. select_batch2_loop fn xs ys i rows s = (Inr (rows @ out), s) \<and>
    mset out = mset (concat (map p (drop i xs))) + mset (concat (map q (drop i ys)))"
proof (induction "max (length xs) (length ys) - i" arbitrary: i rows rule: less_induct)
  case less
  show ?case
  proof (cases "i < max (length xs) (length ys)")
    case False
    then show ?thesis by (subst select_batch2_loop.simps) simp
  next
    case True
    have part: "(if i < length zs then take (min (i + selectBatchSize) (length zs) - i) (drop i zs) else []) = take selectBatchSize (drop i zs)"
      for zs :: "'z list" by (cases "i < length zs") (simp_all add: take_min_drop)
    have cut: "mset (concat (map f (drop i zs))) =
        mset (concat (map f (take selectBatchSize (drop i zs)))) + mset (concat (map f (drop (i + selectBatchSize) zs)))"
      for zs :: "'z list" and f :: "'z \<Rightarrow> 'd list"
      by (metis add.commute append_take_drop_id concat_append drop_drop map_append mset_append)
    define chunk where "chunk = concat (map p (take selectBatchSize (drop i xs))) @ concat (map q (take selectBatchSize (drop i ys)))"
    have lt: "max (length xs) (length ys) - (i + selectBatchSize) < max (length xs) (length ys) - i"
      using True unfolding selectBatchSize_def by linarith
    obtain out where out: "select_batch2_loop fn xs ys (i + selectBatchSize) (rows @ chunk) s = (Inr ((rows @ chunk) @ out), s)"
        "mset out = mset (concat (map p (drop (i + selectBatchSize) xs))) + mset (concat (map q (drop (i + selectBatchSize) ys)))"
      using less.hyps [OF lt, of "rows @ chunk"] by blast
    have "select_batch2_loop fn xs ys i rows s = (Inr (rows @ chunk @ out), s)"
      using True out(1) by (subst select_batch2_loop.simps) (simp only: part assms Let_def chunk_def simp_thms if_True if_False prod.case sum.case append_assoc)
    moreover have "mset (chunk @ out) = mset (concat (map p (drop i xs))) + mset (concat (map q (drop i ys)))"
      unfolding cut [of p xs] cut [of q ys] by (simp add: chunk_def out(2))
    ultimately show ?thesis by blast
  qed
qed

text \<open>
  Statements over long lists run on consecutive pieces of at most 512 elements that together are the list, until one
  fails; what they leave of an empty list is nothing.\<close>

lemma execBatch_pieces:
  "execBatch fn xs s = send_all fn (pieces execBatchSize xs) s \<and> concat (pieces execBatchSize xs) = xs
    \<and> (\<forall>b. b \<in> set (pieces execBatchSize xs) \<longrightarrow> b \<noteq> [] \<and> length b \<le> 512)"
  using execBatch_all_pieces pieces_length concat_pieces [of execBatchSize xs] by (fastforce simp: execBatchSize_def)

section \<open>All or nothing\<close>

lemma Transaction_error:
  "Transaction conn in_tx fn (d, r) = (res, d', r') \<Longrightarrow> res \<noteq> Done None \<Longrightarrow> d' = d"
  by (auto simp: Transaction_def split: if_splits option.splits prod.splits outcome.splits sum.splits)

lemma Transaction_success:
  "Transaction conn in_tx fn (d, r) = (Done None, d', r') \<Longrightarrow>
     \<exists>d1. fn (d, r) = (Done None, d1, r') \<and> sc_Commit conn d1 = Inr d' \<and> \<not> in_tx \<and> sc_Begin conn d = None"
  by (auto simp: Transaction_def wrapErr_def split: if_splits option.splits prod.splits outcome.splits sum.splits)

lemma newTransactionFn_error:
  "newTransactionFn conn False fn (d, r) = (Some e, d', r') \<Longrightarrow> d' = d"
  by (auto simp: newTransactionFn_def Let_def wrapErr_def split: option.splits prod.splits sum.splits)

lemma newTransactionFn_success:
  "newTransactionFn conn in_tx fn (d, r) = (None, d', r') \<Longrightarrow>
     \<exists>d1. fn (d, r) = (None, d1, r') \<and> (if in_tx then d' = d1 else sc_Commit conn d1 = Inr d')"
  by (auto simp: newTransactionFn_def Let_def wrapErr_def split: if_splits option.splits prod.splits sum.splits)

text \<open>A database whose commits make the changes of a transaction visible and add none.\<close>

definition keeps_on_commit :: "'d sql_conn \<Rightarrow> bool" where
  "keeps_on_commit conn \<longleftrightarrow> (\<forall>d d'. sc_Commit conn d = Inr d' \<longrightarrow> d' = d)"

lemma newTransactionFn_keeps:
  assumes "keeps_on_commit conn" "p (fst s)" "p (fst (snd (fn s)))"
  shows "p (fst (snd (newTransactionFn conn in_tx fn s)))"
proof -
  obtain e d r where fn: "fn s = (e, d, r)" by (cases "fn s") auto
  have "sc_Commit conn d = Inr d' \<Longrightarrow> d' = d" for d' using assms(1) by (simp add: keeps_on_commit_def)
  then show ?thesis using assms(2,3) fn
    by (auto simp: newTransactionFn_def Let_def split: option.split sum.split)
qed

end
