(* ===== verification/ListenBrainz.thy ===== *)
theory ListenBrainz
  imports RepoTypes PgDB
begin

text \<open>
  The client of ListenBrainz (\<open>listenbrainz/listenbrainz.go\<close>): requests, the submission of listens and of
  those the database still holds back. The service is a record of its endpoints over a state \<open>'r\<close>, the
  database one of queries over a state \<open>'d\<close>; JSON, HTTP and decryption are arguments. Slicing out of
  bounds is a value, \<open>Panic\<close>.
\<close>

section \<open>Requests\<close>

definition lbErrUnexpectedResponseCode :: go_error where "lbErrUnexpectedResponseCode = EMsg ''unexpected response code''"
definition lbErrUnexpectedResponseBody :: go_error where "lbErrUnexpectedResponseBody = EMsg ''unexpected response body''"
definition lbErrUnauthenticated :: go_error where "lbErrUnauthenticated = EMsg ''unauthenticated''"
definition lbErrDisabled :: go_error where "lbErrDisabled = EMsg ''feature disabled''"

text \<open>An answer: the error of sending, the status, the rate limit header (empty if there is none) and the decoded body.\<close>

record 'o lb_answer =
  lba_Failed :: "go_error option"
  lba_Status :: int
  lba_ResetIn :: string
  lba_Body :: "'o option"

definition lb_wait_seconds :: "string \<Rightarrow> int" where
  "lb_wait_seconds header =
     (case atoi (if header = [] then ''1'' else header) of Inl _ \<Rightarrow> 1 | Inr seconds \<Rightarrow> seconds)"

text \<open>
  \<open>answers k\<close> is the answer to the \<open>k\<close>-th attempt, \<open>cancelled k seconds\<close> tells that the context ends
  during the wait after it. A request that is always told to wait does not return.
\<close>

partial_function (option) listenBrainzRequest ::
  "(nat \<Rightarrow> 'o lb_answer) \<Rightarrow> (nat \<Rightarrow> int \<Rightarrow> bool) \<Rightarrow> nat \<Rightarrow> ((go_error + 'o) \<times> nat) option" where
  "listenBrainzRequest answers cancelled k =
     (let ans = answers k; fail = (\<lambda>e. Some (Inl (EWrap ''listenbrainz request'' e), Suc k))
      in case lba_Failed ans of
           Some e \<Rightarrow> fail e
         | None \<Rightarrow>
             if lba_Status ans = 429
             then (if cancelled k (lb_wait_seconds (lba_ResetIn ans)) then fail (EMsg ''context canceled'')
                   else listenBrainzRequest answers cancelled (Suc k))
             else if lba_Status ans = 401 then fail lbErrUnauthenticated
             else if lba_Status ans \<noteq> 200 \<and> lba_Status ans \<noteq> 201 then fail lbErrUnexpectedResponseCode
             else (case lba_Body ans of None \<Rightarrow> fail lbErrUnexpectedResponseBody | Some obj \<Rightarrow> Some (Inr obj, Suc k)))"

section \<open>Listens\<close>

record Listen =
  li_ListenedAt :: int  \<comment> \<open>nanoseconds since the epoch\<close>
  li_SongName :: string
  li_AlbumName :: "string option"
  li_ArtistName :: "string option"
  li_SongMBID :: "string option"
  li_AlbumMBID :: "string option"
  li_ReleaseMBID :: "string option"
  li_ArtistMBIDs :: "string list"
  li_TrackNumber :: "int option"
  li_Duration :: DurationMS

record Connection =
  con_User :: string
  con_LBUsername :: string
  con_Token :: string
  con_Scrobble :: bool
  con_SyncFeedback :: bool

record additionalInfo =
  ai_MediaPlayer :: string
  ai_SubmissionClient :: string
  ai_SubmissionClientVersion :: string
  ai_ArtistMBIDs :: "string list"
  ai_ReleaseGroupMBID :: "string option"
  ai_ReleaseMBID :: "string option"
  ai_RecordingMBID :: "string option"
  ai_TrackNumber :: "int option"
  ai_DurationMS :: "int64 option"

record trackMetadata =
  tm_ArtistName :: "string option"
  tm_ReleaseName :: "string option"
  tm_TrackName :: string
  tm_AdditionalInfo :: additionalInfo

record payload =
  pl_ListenedAt :: int  \<comment> \<open>seconds, left out when 0\<close>
  pl_TrackMetadata :: trackMetadata

record lb_body =
  bd_ListenType :: string
  bd_Payload :: "payload list"

definition track_metadata :: "string \<Rightarrow> Listen \<Rightarrow> trackMetadata" where
  "track_metadata mediaPlayer l =
     \<lparr> tm_ArtistName = li_ArtistName l, tm_ReleaseName = li_AlbumName l, tm_TrackName = li_SongName l,
       tm_AdditionalInfo = \<lparr> ai_MediaPlayer = mediaPlayer, ai_SubmissionClient = ''crossonic-server'',
         ai_SubmissionClientVersion = ''dev'', ai_ArtistMBIDs = li_ArtistMBIDs l, ai_ReleaseGroupMBID = li_AlbumMBID l,
         ai_ReleaseMBID = li_ReleaseMBID l, ai_RecordingMBID = li_SongMBID l, ai_TrackNumber = li_TrackNumber l,
         ai_DurationMS = Some (DurationMS_Millis (li_Duration l)) \<rparr> \<rparr>"

definition listen_payload :: "string \<Rightarrow> Listen \<Rightarrow> payload" where
  "listen_payload mediaPlayer l =
     \<lparr> pl_ListenedAt = li_ListenedAt l div 1000000000, pl_TrackMetadata = track_metadata mediaPlayer l \<rparr>"

text \<open>The endpoints of the service; each is one request, repeated while it is rate limited.\<close>

record lb_token_info =
  ti_Valid :: bool
  ti_Message :: string
  ti_UserName :: string

record lb_recording =
  rc_RecordingName :: string
  rc_ArtistName :: string
  rc_ReleaseName :: "string option"

record lb_match =
  mt_Index :: int
  mt_RecordingMBID :: "string option"

record loveFeedback =
  lf_RecordingMBID :: string
  lf_ReleaseMBID :: "string option"

record 'r lb_service =
  lb_submit :: "string \<Rightarrow> lb_body \<Rightarrow> 'r \<Rightarrow> go_error option \<times> 'r"
  lb_validate :: "string \<Rightarrow> 'r \<Rightarrow> (go_error + lb_token_info) \<times> 'r"
  lb_lookup :: "string \<Rightarrow> lb_recording list \<Rightarrow> 'r \<Rightarrow> (go_error + lb_match list) \<times> 'r"
  lb_feedback :: "string \<Rightarrow> string \<times> int \<Rightarrow> 'r \<Rightarrow> go_error option \<times> 'r"
  lb_loved :: "string \<Rightarrow> string \<Rightarrow> int \<Rightarrow> int \<Rightarrow> 'r \<Rightarrow> (go_error + loveFeedback list \<times> int) \<times> 'r"

text \<open>The three kinds of submission wrap an error in the same message.\<close>

definition submit :: "'r lb_service \<Rightarrow> Connection \<Rightarrow> string \<Rightarrow> payload list \<Rightarrow> 'r \<Rightarrow> go_error option \<times> 'r" where
  "submit lb con listenType ps r =
     (case lb_submit lb (con_Token con) \<lparr> bd_ListenType = listenType, bd_Payload = ps \<rparr> r of
        (err, r) \<Rightarrow> (map_option (EWrap ''submit playing now'') err, r))"

definition SubmitPlayingNow :: "'r lb_service \<Rightarrow> Connection \<Rightarrow> Listen \<Rightarrow> string \<Rightarrow> 'r \<Rightarrow> go_error option \<times> 'r" where
  "SubmitPlayingNow lb con listen mediaPlayer r =
     (if \<not> con_Scrobble con then (Some lbErrDisabled, r)
      else submit lb con ''playing_now'' [\<lparr> pl_ListenedAt = 0, pl_TrackMetadata = track_metadata mediaPlayer listen \<rparr>] r)"

definition SubmitSingle :: "'r lb_service \<Rightarrow> Connection \<Rightarrow> Listen \<Rightarrow> string \<Rightarrow> 'r \<Rightarrow> go_error option \<times> 'r" where
  "SubmitSingle lb con listen mediaPlayer r =
     (if \<not> con_Scrobble con then (Some lbErrDisabled, r)
      else submit lb con ''single'' [listen_payload mediaPlayer listen] r)"

text \<open>The loop over the batches: the slice must not end behind the capacity, which is the length.\<close>

function import_loop ::
  "(payload list \<Rightarrow> 'r \<Rightarrow> go_error option \<times> 'r) \<Rightarrow> payload list \<Rightarrow> nat \<Rightarrow> 'r \<Rightarrow> go_error option outcome \<times> 'r" where
  "import_loop send ps i r =
     (if \<not> i < length ps then (Done None, r)
      else let nxt = i + min 1000 (length ps)
           in if length ps < nxt then (Panic, r)
              else case send (take (nxt - i) (drop i ps)) r of
                     (Some e, r) \<Rightarrow> (Done (Some e), r)
                   | (None, r) \<Rightarrow> import_loop send ps nxt r)"
  by pat_completeness auto
termination by (relation "measure (\<lambda>(_, ps, i, _). length ps - i)") auto

declare import_loop.simps [simp del]

definition SubmitImport ::
  "'r lb_service \<Rightarrow> Connection \<Rightarrow> Listen list \<Rightarrow> string \<Rightarrow> 'r \<Rightarrow> go_error option outcome \<times> 'r" where
  "SubmitImport lb con listens mediaPlayer r =
     (if \<not> con_Scrobble con then (Done (Some lbErrDisabled), r)
      else import_loop (submit lb con ''import'') (map (listen_payload mediaPlayer) listens) 0 r)"

definition CheckToken :: "'r lb_service \<Rightarrow> string \<Rightarrow> 'r \<Rightarrow> (go_error + string) \<times> 'r" where
  "CheckToken lb token r =
     (case lb_validate lb token r of
        (Inl e, r) \<Rightarrow> (Inl (EMsg (''check listenbrainz token: '' @ Error_Error e)), r)
      | (Inr res, r) \<Rightarrow>
          (if \<not> ti_Valid res then Inl (EWrap ''check listenbrainz token'' lbErrUnauthenticated) else Inr (ti_UserName res), r))"

section \<open>Connections\<close>

record lb_user =
  lu_Name :: string
  lu_ListenBrainzUsername :: "string option"
  lu_EncryptedListenBrainzToken :: "bytes option"
  lu_ListenBrainzScrobble :: bool
  lu_ListenBrainzSyncFeedback :: bool

text \<open>\<open>decrypt\<close> is \<open>DecryptPassword\<close> with the cipher; the key is that of the configuration.\<close>

definition GetListenbrainzConnection ::
  "(bytes \<Rightarrow> bytes \<Rightarrow> bytes \<Rightarrow> bytes option) \<Rightarrow> bytes \<Rightarrow> (string \<Rightarrow> 'd \<Rightarrow> go_error + lb_user) \<Rightarrow> string \<Rightarrow> 'd \<Rightarrow> go_error + Connection" where
  "GetListenbrainzConnection open' key FindByName user d =
     (case FindByName user d of
        Inl e \<Rightarrow> Inl (EWrap ''get listenbrainz token'' e)
      | Inr u \<Rightarrow>
          (case (lu_EncryptedListenBrainzToken u, lu_ListenBrainzUsername u) of
             (Some encrypted, Some name) \<Rightarrow>
               (case DecryptPassword open' encrypted key of
                  Inl e \<Rightarrow> Inl (EWrap ''get listenbrainz token'' (pw_go_error e))
                | Inr token \<Rightarrow> Inr \<lparr> con_User = user, con_LBUsername = name, con_Token = token,
                                     con_Scrobble = lu_ListenBrainzScrobble u, con_SyncFeedback = lu_ListenBrainzSyncFeedback u \<rparr>)
           | _ \<Rightarrow> Inl lbErrUnauthenticated))"


section \<open>Listens the database holds back\<close>

record lb_song =
  ls_ID :: string
  ls_Title :: string
  ls_MusicBrainzID :: "string option"
  ls_AlbumID :: "string option"
  ls_AlbumName :: "string option"
  ls_AlbumMusicBrainzID :: "string option"
  ls_AlbumReleaseMBID :: "string option"
  ls_Track :: "int option"
  ls_Duration :: DurationMS
  ls_Artists :: "(string \<times> string option) list"  \<comment> \<open>name and MusicBrainz identifier\<close>
  ls_Starred :: bool

record lb_scrobble =
  sb_User :: string
  sb_SongID :: string
  sb_Time :: int

record 'd lb_repo =
  lr_FindUnsubmitted :: "'d \<Rightarrow> go_error + lb_scrobble list"
  lr_FindByIDs :: "string list \<Rightarrow> 'd \<Rightarrow> go_error + lb_song list"
  lr_FindByName :: "string \<Rightarrow> 'd \<Rightarrow> go_error + lb_user"
  lr_FindAllUsers :: "'d \<Rightarrow> go_error + lb_user list"
  lr_SetLBSubmittedByUsers :: "string list \<Rightarrow> 'd \<Rightarrow> go_error option \<times> 'd"
  lr_SetUploadedForMatchingStarred :: "string \<Rightarrow> string list \<Rightarrow> 'd \<Rightarrow> go_error option \<times> 'd"
  lr_FindNotUploaded :: "string \<Rightarrow> string list \<Rightarrow> 'd \<Rightarrow> go_error + lb_song list"
  lr_FindLocalOutdated :: "string \<Rightarrow> string list \<Rightarrow> 'd \<Rightarrow> go_error + lb_song list"
  lr_SetLBFeedbackUploaded :: "string \<Rightarrow> (string \<times> string option \<times> bool) list \<Rightarrow> bool \<Rightarrow> 'd \<Rightarrow> go_error option \<times> 'd"
  lr_UnStarMultiple :: "string \<Rightarrow> string list \<Rightarrow> 'd \<Rightarrow> (go_error + int) \<times> 'd"
  lr_StarMultiple :: "string \<Rightarrow> string list \<Rightarrow> 'd \<Rightarrow> (go_error + int) \<times> 'd"

text \<open>What does not change: the cipher and the key.\<close>

record lb_env =
  le_open :: "bytes \<Rightarrow> bytes \<Rightarrow> bytes \<Rightarrow> bytes option"
  le_key :: bytes

definition first_artist :: "lb_song \<Rightarrow> string option" where
  "first_artist s = (case ls_Artists s of [] \<Rightarrow> None | (name, _) # _ \<Rightarrow> Some name)"

definition artist_mbids :: "lb_song \<Rightarrow> string list" where
  "artist_mbids s = List.map_filter snd (ls_Artists s)"

text \<open>The map of songs keeps the last of several with one identifier.\<close>

definition song_map :: "lb_song list \<Rightarrow> (string \<rightharpoonup> lb_song)" where
  "song_map songs = foldl (\<lambda>m s. m(ls_ID s \<mapsto> s)) Map.empty songs"

definition scrobble_listen :: "lb_scrobble \<Rightarrow> lb_song \<Rightarrow> Listen" where
  "scrobble_listen s song =
     \<lparr> li_ListenedAt = sb_Time s, li_SongName = ls_Title song, li_AlbumName = ls_AlbumName song,
       li_ArtistName = first_artist song, li_SongMBID = ls_MusicBrainzID song, li_AlbumMBID = ls_AlbumMusicBrainzID song,
       li_ReleaseMBID = ls_AlbumReleaseMBID song, li_ArtistMBIDs = artist_mbids song, li_TrackNumber = ls_Track song,
       li_Duration = NewDurationMS (DurationMS_Millis (ls_Duration song)) \<rparr>"

text \<open>Every user of a scrobble has an entry, with the listens whose songs were found.\<close>

definition add_listen :: "(string \<rightharpoonup> lb_song) \<Rightarrow> (string \<rightharpoonup> Listen list) \<Rightarrow> lb_scrobble \<Rightarrow> (string \<rightharpoonup> Listen list)" where
  "add_listen songs m s =
     (let ls = (case m (sb_User s) of None \<Rightarrow> [] | Some ls \<Rightarrow> ls)
      in m(sb_User s \<mapsto> (case songs (sb_SongID s) of None \<Rightarrow> ls | Some song \<Rightarrow> ls @ [scrobble_listen s song])))"

definition listens_per_user :: "(string \<rightharpoonup> lb_song) \<Rightarrow> lb_scrobble list \<Rightarrow> (string \<rightharpoonup> Listen list)" where
  "listens_per_user songs scrobbles = foldl (add_listen songs) Map.empty scrobbles"

text \<open>The loop over the map, in the order \<open>users\<close>; it yields the names of the users who were served.\<close>

fun submit_users ::
  "'r lb_service \<Rightarrow> lb_env \<Rightarrow> 'd lb_repo \<Rightarrow> (string \<rightharpoonup> Listen list) \<Rightarrow> string list \<Rightarrow> 'd \<Rightarrow> 'r
   \<Rightarrow> (go_error + string list) outcome \<times> 'r" where
  "submit_users lb env repo listens [] d r = (Done (Inr []), r)"
| "submit_users lb env repo listens (user # users) d r =
     (case GetListenbrainzConnection (le_open env) (le_key env) (lr_FindByName repo) user d of
        Inl e \<Rightarrow> (Done (Inl (EWrap (''submit missing listenbrainz scrobbles: get listenbrainz connection for user '' @ user) e)), r)
      | Inr con \<Rightarrow>
          if \<not> con_Scrobble con then submit_users lb env repo listens users d r
          else (case SubmitImport lb con (the (listens user)) [] r of
                  (Panic, r) \<Rightarrow> (Panic, r)
                | (Done (Some e), r) \<Rightarrow> (Done (Inl (EWrap ''submit missing listenbrainz scrobbles: submit'' e)), r)
                | (Done None, r) \<Rightarrow>
                    (case submit_users lb env repo listens users d r of
                       (Done (Inr us), r) \<Rightarrow> (Done (Inr (user # us)), r)
                     | res \<Rightarrow> res)))"

text \<open>
  \<open>busy\<close> tells that another call is running; \<open>order\<close> is the order of iteration over the map of users. In
  the end the users who were served are marked.
\<close>

definition SubmitMissingListens ::
  "'r lb_service \<Rightarrow> lb_env \<Rightarrow> 'd lb_repo \<Rightarrow> bool \<Rightarrow> ((string \<rightharpoonup> Listen list) \<Rightarrow> string list) \<Rightarrow> 'd \<Rightarrow> 'r
   \<Rightarrow> go_error option outcome \<times> 'd \<times> 'r" where
  "SubmitMissingListens lb env repo busy order d r =
     (if busy then (Done None, d, r)
      else case lr_FindUnsubmitted repo d of
             Inl e \<Rightarrow> (Done (Some (EWrap ''submit missing listenbrainz scrobbles: find unsubmitted scrobbles'' e)), d, r)
           | Inr scrobbles \<Rightarrow>
               if scrobbles = [] then (Done None, d, r)
               else (case lr_FindByIDs repo (map sb_SongID scrobbles) d of
                       Inl e \<Rightarrow> (Done (Some (EWrap ''submit missing listenbrainz scrobbles: find songs'' e)), d, r)
                     | Inr songs \<Rightarrow>
                         (let listens = listens_per_user (song_map songs) scrobbles
                          in case submit_users lb env repo listens (order listens) d r of
                               (Panic, r) \<Rightarrow> (Panic, d, r)
                             | (Done (Inl e), r) \<Rightarrow> (Done (Some e), d, r)
                             | (Done (Inr users), r) \<Rightarrow>
                                 (case lr_SetLBSubmittedByUsers repo users d of
                                    (Some e, d) \<Rightarrow> (Done (Some (EWrap ''submit missing listenbrainz scrobbles: set submitted status in db'' e)), d, r)
                                  | (None, d) \<Rightarrow> (Done None, d, r)))))"

section \<open>Batches of an import\<close>

lemma import_loop_pieces:
  assumes "length ps \<le> 1000 \<or> 1000 dvd length ps"
  shows "i \<le> length ps \<Longrightarrow> 1000 dvd i \<or> i = length ps \<Longrightarrow>
    import_loop send ps i r = map_prod Done id (send_all send (pieces (min 1000 (length ps)) (drop i ps)) r)"
proof (induction "length ps - i" arbitrary: i r rule: less_induct)
  case less
  show ?case
  proof (cases "i < length ps")
    case False
    then show ?thesis by (subst import_loop.simps) (simp add: pieces.simps)
  next
    case True
    let ?m = "min 1000 (length ps)"
    have m: "0 < ?m" using True by (cases ps) simp_all
    from True less.prems have "1000 dvd i" by simp
    have le: "i + ?m \<le> length ps"
    proof (cases "length ps \<le> 1000")
      case small: True
      with \<open>1000 dvd i\<close> True have "i = 0" by (auto dest: dvd_imp_le)
      with small show ?thesis by simp
    next
      case False
      with assms obtain a b where "length ps = 1000 * a" "i = 1000 * b" using \<open>1000 dvd i\<close> by (auto elim!: dvdE)
      with True False show ?thesis by simp
    qed
    have d: "1000 dvd i + ?m \<or> i + ?m = length ps"
      using \<open>1000 dvd i\<close> True by (cases "length ps \<le> 1000") (auto dest: dvd_imp_le)
    have "ps \<noteq> []" using True by (cases ps) simp_all
    have b: "pieces ?m (drop i ps) = take ?m (drop i ps) # pieces ?m (drop (i + ?m) ps)"
      using True m by (subst pieces.simps) (simp add: add.commute)
    have IH: "import_loop send ps (i + ?m) r' = map_prod Done id (send_all send (pieces ?m (drop (i + ?m) ps)) r')" for r'
      using less.hyps [of "i + ?m" r'] le d m True by linarith
    show ?thesis
      unfolding b by (subst import_loop.simps) (use True le IH \<open>ps \<noteq> []\<close> in \<open>auto simp: Let_def split: prod.splits option.splits\<close>)
  qed
qed

lemma pieces_one: "length xs \<le> n \<Longrightarrow> pieces (min n (length xs)) xs = pieces n xs"
  by (cases xs; subst pieces.simps; subst (2) pieces.simps) (auto simp: pieces.simps [of _ "[]"])

text \<open>The other lengths: the batches that are full, then the slice of the last one is out of bounds.\<close>

lemma import_loop_panic:
  assumes "1000 < length ps" "\<not> 1000 dvd length ps"
  shows "b \<le> length ps div 1000 \<Longrightarrow>
    import_loop send ps (1000 * b) r =
      (case send_all send (pieces 1000 (drop (1000 * b) (take (1000 * (length ps div 1000)) ps))) r of
         (Some e, r) \<Rightarrow> (Done (Some e), r) | (None, r) \<Rightarrow> (Panic, r))"
proof (induction "length ps div 1000 - b" arbitrary: b r)
  case 0
  then have b: "b = length ps div 1000" by simp
  have "1000 * b < length ps" unfolding b using assms(2) by (metis dvd_triv_left le_neq_implies_less times_div_less_eq_dividend)
  moreover have "length ps < 1000 * b + 1000" unfolding b by simp
  ultimately show ?case using assms(1) by (subst import_loop.simps) (simp add: b pieces.simps)
next
  case (Suc k)
  let ?q = "length ps div 1000" and ?tk = "\<lambda>b. drop (1000 * b) (take (1000 * (length ps div 1000)) ps)"
  from Suc.hyps(2) have b: "b < ?q" by simp
  have "1000 * ?q \<le> length ps" by simp
  with b have le: "1000 * b + 1000 \<le> length ps" by linarith
  from b have "?tk b \<noteq> []" by simp
  moreover have "take 1000 (?tk b) = take 1000 (drop (1000 * b) ps)"
    using b by (simp add: drop_take)
  moreover have "drop 1000 (?tk b) = ?tk (Suc b)" by (simp add: add.commute)
  ultimately have bs: "pieces 1000 (?tk b) = take 1000 (drop (1000 * b) ps) # pieces 1000 (?tk (Suc b))"
    by (subst pieces.simps) simp
  have IH: "import_loop send ps (1000 * b + 1000) r' =
      (case send_all send (pieces 1000 (?tk (Suc b))) r' of (Some e, r) \<Rightarrow> (Done (Some e), r) | (None, r) \<Rightarrow> (Panic, r))" for r'
    using Suc.hyps(1) [of "Suc b" r'] Suc.hyps(2) b by (simp add: add.commute)
  show ?case
    unfolding bs by (subst import_loop.simps) (use le assms(1) IH in \<open>simp add: Let_def split: prod.split option.split\<close>)
qed

lemma SubmitImport_pieces:
  assumes "con_Scrobble con"
  shows "SubmitImport lb con listens player r =
    (let ps = map (listen_payload player) listens
     in if length ps \<le> 1000 \<or> 1000 dvd length ps
        then map_prod Done id (send_all (submit lb con ''import'') (pieces 1000 ps) r)
        else (case send_all (submit lb con ''import'') (pieces 1000 (take (1000 * (length ps div 1000)) ps)) r of
                (Some e, r) \<Rightarrow> (Done (Some e), r) | (None, r) \<Rightarrow> (Panic, r)))"
proof -
  define ps where "ps = map (listen_payload player) listens"
  from assms have *: "SubmitImport lb con listens player r = import_loop (submit lb con ''import'') ps 0 r"
    by (simp add: SubmitImport_def ps_def)
  show ?thesis
  proof (cases "length ps \<le> 1000 \<or> 1000 dvd length ps")
    case True
    then have "pieces (min 1000 (length ps)) ps = pieces 1000 ps"
      by (cases "length ps \<le> 1000") (simp_all only: pieces_one, simp add: min_absorb1)
    with import_loop_pieces [of ps 0 "submit lb con ''import''" r] True show ?thesis
      unfolding * Let_def ps_def [symmetric] by simp
  next
    case False
    with import_loop_panic [of ps 0 "submit lb con ''import''" r] show ?thesis
      unfolding * Let_def ps_def [symmetric] by simp
  qed
qed

text \<open>
  C36: an import of at most 1000 listens, or of a multiple of 1000, sends all of them in order, in batches of
  at most 1000, until one is refused; any other import sends its full batches and then slices out of bounds.\<close>

theorem import_in_batches:
  assumes "con_Scrobble con"
  shows "SubmitImport lb con listens player r =
    (let ps = map (listen_payload player) listens
     in if length ps \<le> 1000 \<or> 1000 dvd length ps
        then map_prod Done id (send_all (submit lb con ''import'') (pieces 1000 ps) r)
        else (case send_all (submit lb con ''import'') (pieces 1000 (take (1000 * (length ps div 1000)) ps)) r of
                (Some e, r) \<Rightarrow> (Done (Some e), r) | (None, r) \<Rightarrow> (Panic, r)))"
  using SubmitImport_pieces [OF assms] .

section \<open>Who is marked\<close>

definition lb_connection :: "lb_env \<Rightarrow> 'd lb_repo \<Rightarrow> 'd \<Rightarrow> string \<Rightarrow> go_error + Connection" where
  "lb_connection env repo d user = GetListenbrainzConnection (le_open env) (le_key env) (lr_FindByName repo) user d"

text \<open>Importing the listens of one user after the other, as a computation that ends when one import does not succeed.\<close>

fun import_each ::
  "'r lb_service \<Rightarrow> (string \<rightharpoonup> Listen list) \<Rightarrow> (string \<times> Connection) list \<Rightarrow> 'r \<Rightarrow> 'r option" where
  "import_each lb listens [] r = Some r"
| "import_each lb listens ((user, con) # cons) r =
     (case SubmitImport lb con (the (listens user)) [] r of
        (Done None, r) \<Rightarrow> import_each lb listens cons r
      | _ \<Rightarrow> None)"

definition scrobbling :: "lb_env \<Rightarrow> 'd lb_repo \<Rightarrow> 'd \<Rightarrow> string list \<Rightarrow> (string \<times> Connection) list" where
  "scrobbling env repo d users =
     filter (\<lambda>(_, con). con_Scrobble con) (List.map_filter (\<lambda>u. case lb_connection env repo d u of Inl _ \<Rightarrow> None | Inr con \<Rightarrow> Some (u, con)) users)"

lemma submit_users_served:
  "fst (submit_users lb env repo listens users d r) = Done (Inr us) \<longleftrightarrow>
     (\<forall>u \<in> set users. \<exists>con. lb_connection env repo d u = Inr con) \<and>
     us = map fst (scrobbling env repo d users) \<and> import_each lb listens (scrobbling env repo d users) r \<noteq> None"
proof (induction users arbitrary: r us)
  case Nil
  then show ?case by (auto simp: scrobbling_def List.map_filter_def)
next
  case (Cons u users)
  show ?case
  proof (cases "lb_connection env repo d u")
    case (Inl e)
    then show ?thesis by (auto simp: lb_connection_def)
  next
    case (Inr con)
    have sc: "scrobbling env repo d (u # users) = (if con_Scrobble con then [(u, con)] else []) @ scrobbling env repo d users"
      using Inr by (simp add: scrobbling_def List.map_filter_def)
    show ?thesis
    proof (cases "con_Scrobble con")
      case False
      with Inr Cons.IH show ?thesis by (simp add: sc) (simp add: lb_connection_def)
    next
      case True
      obtain o' r' where s: "SubmitImport lb con (the (listens u)) [] r = (o', r')" by fastforce
      have "fst (submit_users lb env repo listens (u # users) d r) = Done (Inr us) \<longleftrightarrow>
          o' = Done None \<and> (\<exists>us'. us = u # us' \<and> fst (submit_users lb env repo listens users d r') = Done (Inr us'))"
        using Inr True s unfolding lb_connection_def by (auto split: outcome.splits option.splits sum.splits prod.splits)
      moreover have "import_each lb listens (scrobbling env repo d (u # users)) r \<noteq> None \<longleftrightarrow>
          o' = Done None \<and> import_each lb listens (scrobbling env repo d users) r' \<noteq> None"
        using True s by (auto simp: sc split: outcome.splits option.splits)
      ultimately show ?thesis
        unfolding Cons.IH using Inr True by (auto simp: sc)
    qed
  qed
qed

lemma submit_users_state:
  "submit_users lb env repo listens users d r = (Done (Inr us), r') \<Longrightarrow> import_each lb listens (scrobbling env repo d users) r = Some r'"
proof (induction users arbitrary: r us)
  case Nil
  then show ?case by (simp add: scrobbling_def List.map_filter_def)
next
  case (Cons u users)
  then obtain con where con: "lb_connection env repo d u = Inr con"
    by (auto simp: lb_connection_def split: sum.splits)
  have sc: "scrobbling env repo d (u # users) = (if con_Scrobble con then [(u, con)] else []) @ scrobbling env repo d users"
    using con by (simp add: scrobbling_def List.map_filter_def)
  from Cons show ?case
    using con unfolding sc lb_connection_def by (auto split: if_splits outcome.splits option.splits sum.splits prod.splits)
qed

text \<open>
  A run over the held back listens changes the database only by marking users, and only when every user
  of the run has a connection and the import of every one of them who scrobbles was accepted; then it marks exactly these.\<close>

lemma marked_when_all_served:
  assumes "SubmitMissingListens lb env repo busy order d r = (res, d', r')" "d' \<noteq> d"
  shows "\<exists>scrobbles songs users cons. lr_FindUnsubmitted repo d = Inr scrobbles \<and> scrobbles \<noteq> []
    \<and> lr_FindByIDs repo (map sb_SongID scrobbles) d = Inr songs
    \<and> users = order (listens_per_user (song_map songs) scrobbles)
    \<and> cons = scrobbling env repo d users \<and> (\<forall>u \<in> set users. \<exists>con. lb_connection env repo d u = Inr con)
    \<and> import_each lb (listens_per_user (song_map songs) scrobbles) cons r = Some r'
    \<and> d' = snd (lr_SetLBSubmittedByUsers repo (map fst cons) d)"
proof -
  from assms obtain scrobbles songs where f: "lr_FindUnsubmitted repo d = Inr scrobbles" "scrobbles \<noteq> []"
      "lr_FindByIDs repo (map sb_SongID scrobbles) d = Inr songs" and "\<not> busy"
    unfolding SubmitMissingListens_def by (auto split: if_splits sum.splits)
  define ls where "ls = listens_per_user (song_map songs) scrobbles"
  from assms f \<open>\<not> busy\<close> obtain us where su: "submit_users lb env repo ls (order ls) d r = (Done (Inr us), r')"
      and d': "d' = snd (lr_SetLBSubmittedByUsers repo us d)"
    unfolding SubmitMissingListens_def ls_def [symmetric]
    by (auto simp: Let_def ls_def [symmetric] split: prod.splits outcome.splits sum.splits option.splits)
  from su have "fst (submit_users lb env repo ls (order ls) d r) = Done (Inr us)" by simp
  with f d' submit_users_state [OF su] show ?thesis
    unfolding submit_users_served ls_def by blast
qed

section \<open>Two users\<close>

text \<open>A service that keeps the size of every submission, and a database of two scrobbles of one song; the user b has no connection.\<close>

definition wit_lb :: "nat list lb_service" where
  "wit_lb = \<lparr> lb_submit = (\<lambda>_ b r. (None, r @ [length (bd_Payload b)])),
     lb_validate = (\<lambda>_ r. (Inl (EMsg []), r)), lb_lookup = (\<lambda>_ _ r. (Inr [], r)),
     lb_feedback = (\<lambda>_ _ r. (None, r)), lb_loved = (\<lambda>_ _ _ _ r. (Inr ([], 0), r)) \<rparr>"

definition wit_lb_user :: "string \<Rightarrow> lb_user" where
  "wit_lb_user u = \<lparr> lu_Name = u, lu_ListenBrainzUsername = (if u = ''b'' then None else Some u),
     lu_EncryptedListenBrainzToken = Some (replicate 12 (CHR ''0'')), lu_ListenBrainzScrobble = True, lu_ListenBrainzSyncFeedback = True \<rparr>"

definition wit_lb_song :: lb_song where
  "wit_lb_song = \<lparr> ls_ID = ''s'', ls_Title = ''t'', ls_MusicBrainzID = None, ls_AlbumID = None, ls_AlbumName = None, ls_AlbumMusicBrainzID = None,
     ls_AlbumReleaseMBID = None, ls_Track = None, ls_Duration = 0, ls_Artists = [], ls_Starred = False \<rparr>"

definition wit_lb_repo :: "string list \<Rightarrow> (string list) lb_repo" where
  "wit_lb_repo users = \<lparr> lr_FindUnsubmitted = (\<lambda>_. Inr (map (\<lambda>u. \<lparr> sb_User = u, sb_SongID = ''s'', sb_Time = 7 \<rparr>) users)),
     lr_FindByIDs = (\<lambda>_ _. Inr [wit_lb_song]), lr_FindByName = (\<lambda>u _. Inr (wit_lb_user u)),
     lr_FindAllUsers = (\<lambda>_. Inr (map wit_lb_user users)), lr_SetLBSubmittedByUsers = (\<lambda>us d. (None, d @ us)),
     lr_SetUploadedForMatchingStarred = (\<lambda>_ _ d. (None, d)), lr_FindNotUploaded = (\<lambda>_ _ _. Inr []),
     lr_FindLocalOutdated = (\<lambda>_ _ _. Inr []), lr_SetLBFeedbackUploaded = (\<lambda>_ _ _ d. (None, d)),
     lr_UnStarMultiple = (\<lambda>_ _ d. (Inr 0, d)), lr_StarMultiple = (\<lambda>_ _ d. (Inr 0, d)) \<rparr>"

definition wit_lb_env :: lb_env where
  "wit_lb_env = \<lparr> le_open = (\<lambda>_ _ _. Some ''token''), le_key = replicate 32 (CHR ''0'') \<rparr>"

lemma wit_lb_run:
  "SubmitMissingListens wit_lb wit_lb_env (wit_lb_repo [''a'']) False (\<lambda>_. [''a'']) [] [] = (Done None, [''a''], [1])"
  by (simp add: SubmitMissingListens_def wit_lb_repo_def GetListenbrainzConnection_def wit_lb_env_def wit_lb_user_def
      DecryptPassword_def aes_key_ok_def gcm_nonce_size_def SubmitImport_def import_loop.simps wit_lb_def submit_def Let_def
      listens_per_user_def add_listen_def song_map_def wit_lb_song_def)

lemma marked_when_all_served_example:
  "\<exists>cons :: (string \<times> Connection) list. map fst cons = [''a''] \<and> [''a''] = snd (lr_SetLBSubmittedByUsers (wit_lb_repo [''a'']) (map fst cons) [])"
proof -
  have "[''a''] \<noteq> ([] :: string list)" by simp
  from marked_when_all_served [OF wit_lb_run this] obtain cons :: "(string \<times> Connection) list"
    where c: "[''a''] = snd (lr_SetLBSubmittedByUsers (wit_lb_repo [''a'']) (map fst cons) [])" by (elim exE conjE)
  then have "map fst cons = [''a'']" unfolding wit_lb_repo_def by simp
  with c show ?thesis by (intro exI [of _ cons] conjI)
qed

text \<open>What one user lacks, no one is marked for: the listen of a was sent and will be sent again.\<close>

lemma served_but_not_marked:
  "SubmitMissingListens wit_lb wit_lb_env (wit_lb_repo [''a'', ''b'']) False (\<lambda>_. [''a'', ''b'']) [] [] =
     (Done (Some (EWrap ''submit missing listenbrainz scrobbles: get listenbrainz connection for user b'' lbErrUnauthenticated)), [], [1])"
  by (simp add: SubmitMissingListens_def wit_lb_repo_def GetListenbrainzConnection_def wit_lb_env_def wit_lb_user_def
      DecryptPassword_def aes_key_ok_def gcm_nonce_size_def SubmitImport_def import_loop.simps wit_lb_def submit_def Let_def
      listens_per_user_def add_listen_def song_map_def wit_lb_song_def)

text \<open>Fifteen hundred listens: one batch arrives, then the slice of the second is out of bounds.\<close>

definition wit_listen :: Listen where
  "wit_listen = \<lparr> li_ListenedAt = 0, li_SongName = ''s'', li_AlbumName = None, li_ArtistName = None, li_SongMBID = None,
     li_AlbumMBID = None, li_ReleaseMBID = None, li_ArtistMBIDs = [], li_TrackNumber = None, li_Duration = 0 \<rparr>"

lemma import_in_batches_witness:
  "SubmitImport wit_lb \<lparr> con_User = [], con_LBUsername = [], con_Token = [], con_Scrobble = True, con_SyncFeedback = False \<rparr>
     (replicate 1500 wit_listen) [] [] = (Panic, [1000])"
proof -
  have "pieces 1000 (replicate 1000 (listen_payload [] wit_listen)) = [replicate 1000 (listen_payload [] wit_listen)]"
    by (subst pieces.simps, subst pieces.simps) simp
  then show ?thesis
    by (subst import_in_batches) (simp_all add: Let_def wit_lb_def submit_def)
qed

end
