(* ===== verification/LbFeedback.thy ===== *)
theory LbFeedback
  imports ListenBrainz "HOL-Library.List_Lexorder" "HOL-Library.Char_ord"
begin

text \<open>
  The synchronisation of stars with ListenBrainz (\<open>UpdateSongFeedback\<close> and \<open>SyncSongFeedback\<close> in
  \<open>listenbrainz/listenbrainz.go\<close>): identifiers of recordings are looked up in batches, feedback is posted, loved
  recordings are collected page by page and stars are taken over in a transaction. Go compares strings bytewise,
  which is the lexicographic order on lists of characters.
\<close>

section \<open>Looking up recordings\<close>

definition FeedbackScoreLove :: int where "FeedbackScoreLove = 1"
definition FeedbackScoreNone :: int where "FeedbackScoreNone = 0"
definition maxLookupsPerPost :: nat where "maxLookupsPerPost = 50"

record Feedback =
  fb_SongID :: string
  fb_SongName :: string
  fb_SongMBID :: "string option"
  fb_AlbumName :: "string option"
  fb_ArtistName :: "string option"
  fb_Score :: int

text \<open>The indices of the songs without identifier that can be looked up.\<close>

definition missing_indices :: "Feedback list \<Rightarrow> nat list" where
  "missing_indices fb = filter (\<lambda>i. fb_SongMBID (fb ! i) = None \<and> fb_ArtistName (fb ! i) \<noteq> None) [0..<length fb]"

definition lb_recording_of :: "Feedback \<Rightarrow> lb_recording" where
  "lb_recording_of f = \<lparr> rc_RecordingName = fb_SongName f, rc_ArtistName = the (fb_ArtistName f), rc_ReleaseName = fb_AlbumName f \<rparr>"

text \<open>The matches of the batch that begins at \<open>i\<close>; their indices come from the service.\<close>

fun apply_matches :: "nat list \<Rightarrow> nat \<Rightarrow> lb_match list \<Rightarrow> Feedback list \<Rightarrow> Feedback list outcome" where
  "apply_matches idx i [] fb = Done fb"
| "apply_matches idx i (m # ms) fb =
     (case mt_RecordingMBID m of
        None \<Rightarrow> apply_matches idx i ms fb
      | Some mbid \<Rightarrow>
          (let k = int i + mt_Index m
           in if k < 0 \<or> int (length idx) \<le> k then Panic
              else let j = idx ! nat k in apply_matches idx i ms (fb[j := (fb ! j)\<lparr>fb_SongMBID := Some mbid\<rparr>])))"

function lookup_loop ::
  "'r lb_service \<Rightarrow> Connection \<Rightarrow> nat list \<Rightarrow> nat \<Rightarrow> Feedback list \<Rightarrow> 'r \<Rightarrow> (go_error + Feedback list) outcome \<times> 'r" where
  "lookup_loop lb con idx i fb r =
     (if \<not> i < length idx then (Done (Inr fb), r)
      else let batch = take maxLookupsPerPost (drop i idx)
           in case lb_lookup lb (con_Token con) (map (\<lambda>j. lb_recording_of (fb ! j)) batch) r of
                (Inl e, r) \<Rightarrow> (Done (Inl (EWrap ''update song favorites'' e)), r)
              | (Inr res, r) \<Rightarrow>
                  (case apply_matches idx i res fb of
                     Panic \<Rightarrow> (Panic, r)
                   | Done fb \<Rightarrow> lookup_loop lb con idx (i + maxLookupsPerPost) fb r))"
  by pat_completeness auto
termination by (relation "measure (\<lambda>(_, _, idx, i, _). length idx - i)") (auto simp: maxLookupsPerPost_def)

declare lookup_loop.simps [simp del]

section \<open>Posting feedback\<close>

type_synonym lb_key = "string \<times> int"
type_synonym lb_mark = "string \<times> string option \<times> bool"  \<comment> \<open>song, remote identifier, uploaded\<close>

definition uploaded_mark :: "Feedback \<Rightarrow> lb_mark" where
  "uploaded_mark f = (fb_SongID f, fb_SongMBID f, True)"

text \<open>The results of earlier posts are kept by identifier and score.\<close>

fun post_loop ::
  "'r lb_service \<Rightarrow> Connection \<Rightarrow> (lb_key \<rightharpoonup> go_error option) \<Rightarrow> lb_mark list \<Rightarrow> Feedback list \<Rightarrow> 'r \<Rightarrow> lb_mark list \<times> 'r" where
  "post_loop lb con results success [] r = (success, r)"
| "post_loop lb con results success (f # fs) r =
     (case fb_SongMBID f of
        None \<Rightarrow> post_loop lb con results success fs r
      | Some mbid \<Rightarrow>
          (let key = (mbid, fb_Score f);
               (err, results, r) = (case results key of
                   Some err \<Rightarrow> (err, results, r)
                 | None \<Rightarrow> (case lb_feedback lb (con_Token con) key r of (err, r) \<Rightarrow> (err, results(key \<mapsto> err), r)))
           in case err of
                Some _ \<Rightarrow> post_loop lb con results success fs r
              | None \<Rightarrow> post_loop lb con results (success @ [uploaded_mark f]) fs r))"

definition UpdateSongFeedback ::
  "'r lb_service \<Rightarrow> 'd lb_repo \<Rightarrow> Connection \<Rightarrow> Feedback list \<Rightarrow> 'd \<Rightarrow> 'r \<Rightarrow> (go_error + nat) outcome \<times> 'd \<times> 'r" where
  "UpdateSongFeedback lb repo con feedback d r =
     (case lookup_loop lb con (missing_indices feedback) 0 feedback r of
        (Panic, r) \<Rightarrow> (Panic, d, r)
      | (Done (Inl e), r) \<Rightarrow> (Done (Inl e), d, r)
      | (Done (Inr feedback), r) \<Rightarrow>
          (case post_loop lb con Map.empty [] feedback r of (success, r) \<Rightarrow>
             (case lr_SetLBFeedbackUploaded repo (con_User con) success True d of
                (Some e, d) \<Rightarrow> (Done (Inl (EWrap ''listenbrainz: update song feedback: update lb_feedback_status'' e)), d, r)
              | (None, d) \<Rightarrow> (Done (Inr (length success)), d, r))))"

section \<open>Collecting loved recordings\<close>

definition lb_keep :: "(string \<rightharpoonup> loveFeedback) \<Rightarrow> loveFeedback \<Rightarrow> (string \<rightharpoonup> loveFeedback)" where
  "lb_keep m f = (if lf_RecordingMBID f \<noteq> [] then m(lf_RecordingMBID f \<mapsto> f) else m)"

text \<open>
  The loop over the pages ends when the total the service last told is reached; a service that tells \<open>-1\<close>
  keeps it running.
\<close>

partial_function (option) collect_pages ::
  "'r lb_service \<Rightarrow> string \<Rightarrow> string \<Rightarrow> int \<Rightarrow> int \<Rightarrow> (string \<rightharpoonup> loveFeedback) \<Rightarrow> 'r
   \<Rightarrow> ((go_error + (string \<rightharpoonup> loveFeedback)) \<times> 'r) option" where
  "collect_pages lb user token page totalCount feedback r =
     (if \<not> (totalCount = -1 \<or> page * 1000 < totalCount) then Some (Inr feedback, r)
      else case lb_loved lb user token 1000 (page * 1000) r of
             (Inl e, r) \<Rightarrow> Some (Inl (EWrap ''collect listenbrainz love feedback'' e), r)
           | (Inr (fs, tc), r) \<Rightarrow> collect_pages lb user token (page + 1) tc (foldl lb_keep feedback fs) r)"

definition collectListenbrainzLoveFeedback ::
  "'r lb_service \<Rightarrow> string \<Rightarrow> string \<Rightarrow> 'r \<Rightarrow> ((go_error + (string \<rightharpoonup> loveFeedback)) \<times> 'r) option" where
  "collectListenbrainzLoveFeedback lb user token r = collect_pages lb user token 0 (-1) Map.empty r"

section \<open>Taking over stars\<close>

definition song_feedback :: "(lb_song \<Rightarrow> bool) \<Rightarrow> lb_song \<Rightarrow> Feedback" where
  "song_feedback loved s =
     \<lparr> fb_SongID = ls_ID s, fb_SongName = ls_Title s, fb_SongMBID = ls_MusicBrainzID s, fb_AlbumName = ls_AlbumName s,
       fb_ArtistName = first_artist s, fb_Score = (if loved s then FeedbackScoreLove else FeedbackScoreNone) \<rparr>"

definition on_loved_release :: "string set \<Rightarrow> lb_song \<Rightarrow> bool" where
  "on_loved_release releases s = (case ls_AlbumReleaseMBID s of None \<Rightarrow> False | Some rel \<Rightarrow> rel \<in> releases)"

text \<open>One song that differs from the remote feedback: unstarred, starred, or a candidate for its recording.\<close>

definition star_step ::
  "string set \<Rightarrow> string list \<times> string list \<times> (string \<rightharpoonup> lb_song) \<Rightarrow> lb_song \<Rightarrow> string list \<times> string list \<times> (string \<rightharpoonup> lb_song)" where
  "star_step releases st s =
     (case st of (unstar, star, m) \<Rightarrow>
        if ls_Starred s then (unstar @ [ls_ID s], star, m)
        else case ls_MusicBrainzID s of
               None \<Rightarrow> (unstar, star @ [ls_ID s], m)
             | Some mbid \<Rightarrow>
                 if on_loved_release releases s then (unstar, star, m(mbid \<mapsto> s))
                 else (case m mbid of
                         None \<Rightarrow> (unstar, star, m(mbid \<mapsto> s))
                       | Some existing \<Rightarrow>
                           if on_loved_release releases existing then (unstar, star, m)
                           else if ls_ID s < ls_ID existing then (unstar, star, m(mbid \<mapsto> s))
                           else (unstar, star, m)))"

definition choose_stars :: "string set \<Rightarrow> lb_song list \<Rightarrow> string list \<times> string list \<times> (string \<rightharpoonup> lb_song)" where
  "choose_stars releases songs = foldl (star_step releases) ([], [], Map.empty) songs"

text \<open>The transaction: its writes count only if all three succeed.\<close>

definition take_over ::
  "'d lb_repo \<Rightarrow> string \<Rightarrow> string list \<Rightarrow> string list \<Rightarrow> lb_song list \<Rightarrow> 'd \<Rightarrow> go_error option \<times> 'd" where
  "take_over repo user unstar star songs d =
     (case lr_UnStarMultiple repo user unstar d of
        (Inl e, _) \<Rightarrow> (Some (EWrap ''unstar starred songs not in list of love feedback'' e), d)
      | (Inr _, d1) \<Rightarrow>
          (case lr_StarMultiple repo user star d1 of
             (Inl e, _) \<Rightarrow> (Some (EWrap ''star non-starred songs in list of love feedback'' e), d)
           | (Inr _, d2) \<Rightarrow>
               (case lr_SetLBFeedbackUploaded repo user (map (\<lambda>s. (ls_ID s, None, True)) songs) False d2 of
                  (Some e, _) \<Rightarrow> (Some (EWrap ''update lb_feedback_status'' e), d)
                | (None, d3) \<Rightarrow> (None, d3))))"

text \<open>
  One user; errors are logged and end the work on this user. \<open>lorder\<close> and \<open>sorder\<close> are the orders of iteration
  over the loved recordings and over the candidates.
\<close>

definition sync_user ::
  "'r lb_service \<Rightarrow> lb_env \<Rightarrow> 'd lb_repo \<Rightarrow> ((string \<rightharpoonup> loveFeedback) \<Rightarrow> string list) \<Rightarrow> ((string \<rightharpoonup> lb_song) \<Rightarrow> string list)
   \<Rightarrow> lb_user \<Rightarrow> 'd \<Rightarrow> 'r \<Rightarrow> (unit outcome \<times> 'd \<times> 'r) option" where
  "sync_user lb env repo lorder sorder u d r =
     (if lu_ListenBrainzUsername u = None \<or> \<not> lu_ListenBrainzSyncFeedback u then Some (Done (), d, r)
      else case DecryptPassword (le_open env) (case lu_EncryptedListenBrainzToken u of None \<Rightarrow> [] | Some t \<Rightarrow> t) (le_key env) of
             Inl _ \<Rightarrow> Some (Done (), d, r)
           | Inr token \<Rightarrow>
               (case collectListenbrainzLoveFeedback lb (the (lu_ListenBrainzUsername u)) token r of
                  None \<Rightarrow> None
                | Some (Inl _, r) \<Rightarrow> Some (Done (), d, r)
                | Some (Inr loved, r) \<Rightarrow>
                    (let mbids = map (\<lambda>k. lf_RecordingMBID (the (loved k))) (lorder loved);
                         releases = set (List.map_filter (\<lambda>k. lf_ReleaseMBID (the (loved k))) (lorder loved))
                     in case lr_SetUploadedForMatchingStarred repo (lu_Name u) mbids d of
                          (Some _, d) \<Rightarrow> Some (Done (), d, r)
                        | (None, d) \<Rightarrow>
                            (case lr_FindNotUploaded repo (lu_Name u) mbids d of
                               Inl _ \<Rightarrow> Some (Done (), d, r)
                             | Inr local \<Rightarrow>
                                 (case lr_FindLocalOutdated repo (lu_Name u) mbids d of
                                    Inl _ \<Rightarrow> Some (Done (), d, r)
                                  | Inr songs \<Rightarrow>
                                      (case choose_stars releases songs of (unstar, star, m) \<Rightarrow>
                                         let star = star @ map (\<lambda>k. ls_ID (the (m k))) (sorder m);
                                             con = \<lparr> con_User = lu_Name u, con_LBUsername = the (lu_ListenBrainzUsername u),
                                                     con_Token = token, con_Scrobble = False, con_SyncFeedback = False \<rparr>
                                         in case UpdateSongFeedback lb repo con (map (song_feedback ls_Starred) local) d r of
                                              (Panic, d, r) \<Rightarrow> Some (Panic, d, r)
                                            | (Done (Inl _), d, r) \<Rightarrow> Some (Done (), d, r)
                                            | (Done (Inr _), d, r) \<Rightarrow>
                                                Some (Done (), snd (take_over repo (lu_Name u) unstar star songs d), r)))))))"

fun sync_users ::
  "(lb_user \<Rightarrow> 'd \<Rightarrow> 'r \<Rightarrow> (unit outcome \<times> 'd \<times> 'r) option) \<Rightarrow> lb_user list \<Rightarrow> 'd \<Rightarrow> 'r \<Rightarrow> (go_error option outcome \<times> 'd \<times> 'r) option" where
  "sync_users sync [] d r = Some (Done None, d, r)"
| "sync_users sync (u # us) d r =
     (case sync u d r of
        None \<Rightarrow> None
      | Some (Panic, d, r) \<Rightarrow> Some (Panic, d, r)
      | Some (Done _, d, r) \<Rightarrow> sync_users sync us d r)"

definition SyncSongFeedback ::
  "'r lb_service \<Rightarrow> lb_env \<Rightarrow> 'd lb_repo \<Rightarrow> bool \<Rightarrow> ((string \<rightharpoonup> loveFeedback) \<Rightarrow> string list) \<Rightarrow> ((string \<rightharpoonup> lb_song) \<Rightarrow> string list)
   \<Rightarrow> 'd \<Rightarrow> 'r \<Rightarrow> (go_error option outcome \<times> 'd \<times> 'r) option" where
  "SyncSongFeedback lb env repo busy lorder sorder d r =
     (if busy then Some (Done None, d, r)
      else case lr_FindAllUsers repo d of
             Inl e \<Rightarrow> Some (Done (Some (EWrap ''sync song feedback'' e)), d, r)
           | Inr users \<Rightarrow> sync_users (sync_user lb env repo lorder sorder) users d r)"

section \<open>Lookups only fill gaps\<close>

definition fills :: "Feedback \<Rightarrow> Feedback \<Rightarrow> bool" where
  "fills f g \<longleftrightarrow> g = f \<or> fb_SongMBID f = None \<and> fb_ArtistName f \<noteq> None \<and> (\<exists>mbid. g = f\<lparr>fb_SongMBID := Some mbid\<rparr>)"

definition gaps :: "nat list \<Rightarrow> Feedback list \<Rightarrow> bool" where
  "gaps idx fb \<longleftrightarrow> (\<forall>j \<in> set idx. j < length fb \<and> fb_SongMBID (fb ! j) = None \<and> fb_ArtistName (fb ! j) \<noteq> None)"

lemma gaps_missing: "gaps (missing_indices fb) fb"
  by (auto simp: gaps_def missing_indices_def)

lemma fills_update: "fills f g \<Longrightarrow> fb_SongMBID f = None \<Longrightarrow> fb_ArtistName f \<noteq> None \<Longrightarrow> fills f (g\<lparr>fb_SongMBID := Some mbid\<rparr>)"
  by (auto simp: fills_def)

lemma apply_matches_fills:
  "gaps idx fb0 \<Longrightarrow> list_all2 fills fb0 fb \<Longrightarrow> apply_matches idx i ms fb = Done fb' \<Longrightarrow> list_all2 fills fb0 fb'"
proof (induction idx i ms fb arbitrary: fb' rule: apply_matches.induct)
  case (1 idx i fb)
  then show ?case by simp
next
  case (2 idx i m ms fb)
  show ?case
  proof (cases "mt_RecordingMBID m")
    case None
    with 2 show ?thesis by simp
  next
    case (Some mbid)
    let ?k = "int i + mt_Index m"
    from 2(5) Some have k: "0 \<le> ?k" "?k < int (length idx)" by (auto simp: Let_def split: if_splits)
    define j where "j = idx ! nat ?k"
    from k have "j \<in> set idx" unfolding j_def by (intro nth_mem) simp
    with 2(3) have j: "j < length fb0" "fb_SongMBID (fb0 ! j) = None" "fb_ArtistName (fb0 ! j) \<noteq> None"
      unfolding gaps_def by auto
    have "fills (fb0 ! j) (fb ! j)" using 2(4) j(1) by (rule list_all2_nthD)
    then have "list_all2 fills fb0 (fb[j := (fb ! j)\<lparr>fb_SongMBID := Some mbid\<rparr>])"
      using 2(4) j fills_update by (metis list_update_id list_all2_update_cong)
    with 2(2) [OF Some refl _ refl] 2(3,5) Some k show ?thesis by (simp add: Let_def j_def)
  qed
qed

lemma lookup_loop_fills:
  assumes "gaps idx fb0"
  shows "list_all2 fills fb0 fb \<Longrightarrow> lookup_loop lb con idx i fb r = (Done (Inr fb'), r') \<Longrightarrow> list_all2 fills fb0 fb'"
proof (induction "length idx - i" arbitrary: i fb r rule: less_induct)
  case less
  show ?case
  proof (cases "i < length idx")
    case False
    with less.prems show ?thesis by (subst (asm) lookup_loop.simps) simp
  next
    case True
    with less.prems(2) obtain res fb1 r1 where "apply_matches idx i res fb = Done fb1"
        "lookup_loop lb con idx (i + maxLookupsPerPost) fb1 r1 = (Done (Inr fb'), r')"
      by (subst (asm) lookup_loop.simps) (auto simp: Let_def split: prod.splits sum.splits outcome.splits)
    with less.hyps [of "i + maxLookupsPerPost" fb1 r1] True apply_matches_fills [OF assms less.prems(1)]
    show ?thesis by (simp add: maxLookupsPerPost_def)
  qed
qed

text \<open>A service that answers with indices of its batch never makes the lookups panic.\<close>

lemma apply_matches_done:
  "\<forall>m \<in> set ms. 0 \<le> int i + mt_Index m \<and> int i + mt_Index m < int (length idx) \<Longrightarrow> \<exists>fb'. apply_matches idx i ms fb = Done fb'"
  by (induction idx i ms fb rule: apply_matches.induct) (auto simp: Let_def split: option.split)

lemma lookup_loop_no_panic:
  assumes "\<And>token recs r ms r'. lb_lookup lb token recs r = (Inr ms, r') \<Longrightarrow> \<forall>m \<in> set ms. 0 \<le> mt_Index m \<and> mt_Index m < int (length recs)"
  shows "fst (lookup_loop lb con idx i fb r) \<noteq> Panic"
proof (induction "length idx - i" arbitrary: i fb r rule: less_induct)
  case less
  show ?case
  proof (cases "i < length idx")
    case False
    then show ?thesis by (subst lookup_loop.simps) simp
  next
    case True
    define batch where "batch = take maxLookupsPerPost (drop i idx)"
    have len: "length batch \<le> length idx - i" by (simp add: batch_def)
    obtain a r1 where l: "lb_lookup lb (con_Token con) (map (\<lambda>j. lb_recording_of (fb ! j)) batch) r = (a, r1)" by fastforce
    have IH: "fst (lookup_loop lb con idx (i + maxLookupsPerPost) fb1 r1) \<noteq> Panic" for fb1
      using less True by (simp add: maxLookupsPerPost_def)
    show ?thesis
    proof (cases a)
      case (Inl e)
      with l True show ?thesis by (subst lookup_loop.simps) (simp add: batch_def Let_def)
    next
      case (Inr ms)
      from assms [OF l [unfolded Inr]] len True obtain fb1 where "apply_matches idx i ms fb = Done fb1"
        using apply_matches_done [of ms i idx fb] by fastforce
      with l Inr True IH [of fb1] show ?thesis by (subst lookup_loop.simps) (simp add: batch_def Let_def)
    qed
  qed
qed

section \<open>Each feedback once\<close>

text \<open>The distinct elements of a list, in the order of their first occurrences.\<close>

fun firsts :: "'a list \<Rightarrow> 'a list" where
  "firsts [] = []"
| "firsts (x # xs) = x # filter (\<lambda>y. y \<noteq> x) (firsts xs)"

lemma set_firsts [simp]: "set (firsts xs) = set xs"
  by (induction xs) auto

lemma distinct_firsts [simp]: "distinct (firsts xs)"
  by (induction xs) auto

definition fb_key :: "Feedback \<Rightarrow> lb_key option" where
  "fb_key f = (case fb_SongMBID f of None \<Rightarrow> None | Some mbid \<Rightarrow> Some (mbid, fb_Score f))"

text \<open>Posting every key of a list once, whatever happens to the others.\<close>

fun post_keys :: "'r lb_service \<Rightarrow> Connection \<Rightarrow> lb_key list \<Rightarrow> (lb_key \<rightharpoonup> go_error option) \<Rightarrow> 'r \<Rightarrow> (lb_key \<rightharpoonup> go_error option) \<times> 'r" where
  "post_keys lb con [] m r = (m, r)"
| "post_keys lb con (k # ks) m r = (case lb_feedback lb (con_Token con) k r of (err, r) \<Rightarrow> post_keys lb con ks (m(k \<mapsto> err)) r)"

definition posted_marks :: "(lb_key \<rightharpoonup> go_error option) \<Rightarrow> Feedback list \<Rightarrow> lb_mark list" where
  "posted_marks m fb = map uploaded_mark (filter (\<lambda>f. case fb_key f of None \<Rightarrow> False | Some k \<Rightarrow> m k = Some None) fb)"

lemma post_keys_keeps: "k \<notin> set ks \<Longrightarrow> fst (post_keys lb con ks m r) k = m k"
  by (induction ks arbitrary: m r) (auto split: prod.splits)

lemma filter_dom_upd: "filter (\<lambda>k. k \<notin> dom (m(x \<mapsto> v))) xs = filter (\<lambda>k. k \<notin> dom m) (filter (\<lambda>y. y \<noteq> x) xs)"
  by (induction xs) auto

lemma post_loop_keys:
  "post_loop lb con m succ fb r =
     (case post_keys lb con (filter (\<lambda>k. k \<notin> dom m) (firsts (List.map_filter fb_key fb))) m r of
        (m', r') \<Rightarrow> (succ @ posted_marks m' fb, r'))"
proof (induction fb arbitrary: m succ r)
  case Nil
  then show ?case by (simp add: posted_marks_def List.map_filter_def)
next
  case (Cons f fs)
  let ?ks = "\<lambda>m. filter (\<lambda>k. k \<notin> dom m) (firsts (List.map_filter fb_key fs))"
  show ?case
  proof (cases "fb_SongMBID f")
    case None
    then show ?thesis by (simp add: Cons.IH fb_key_def List.map_filter_def posted_marks_def)
  next
    case (Some mbid)
    define k where "k = (mbid, fb_Score f)"
    have key: "fb_key f = Some k" using Some by (simp add: fb_key_def k_def)
    have ks: "List.map_filter fb_key (f # fs) = k # List.map_filter fb_key fs" by (simp add: List.map_filter_def key)
    show ?thesis
    proof (cases "m k")
      case known: (Some err)
      have "filter (\<lambda>k. k \<notin> dom m) (firsts (List.map_filter fb_key (f # fs))) = ?ks m"
        using known unfolding ks by (auto simp: domIff intro: filter_cong)
      moreover have "fst (post_keys lb con (?ks m) m r) k = m k"
        by (rule post_keys_keeps) (simp add: known domIff)
      ultimately show ?thesis
        using Some known
        by (cases err; cases "post_keys lb con (?ks m) m r") (simp_all add: Cons.IH posted_marks_def key k_def [symmetric])
    next
      case new: None
      obtain err r1 where p: "lb_feedback lb (con_Token con) k r = (err, r1)" by fastforce
      have "filter (\<lambda>k. k \<notin> dom m) (firsts (List.map_filter fb_key (f # fs))) = k # ?ks (m(k \<mapsto> err))"
        using new unfolding ks by (simp add: filter_dom_upd domIff)
      moreover have "fst (post_keys lb con (?ks (m(k \<mapsto> err))) (m(k \<mapsto> err)) r1) k = Some err"
        by (subst post_keys_keeps) simp_all
      ultimately show ?thesis
        using Some new p
        by (cases err; cases "post_keys lb con (?ks (m(k \<mapsto> err))) (m(k \<mapsto> err)) r1")
          (simp_all add: Cons.IH posted_marks_def key k_def [symmetric] del: fun_upd_apply)
    qed
  qed
qed

text \<open>
  C19: an update of feedback that succeeds posts each pair of recording and score once, in the order in which it
  first occurs among the songs with an identifier of their own or a looked up one, and marks exactly the songs whose post was accepted.\<close>

theorem feedback_posted_once:
  assumes "UpdateSongFeedback lb repo con fb d r = (Done (Inr n), d', r')"
  shows "\<exists>fb' keys r1 results. list_all2 fills fb fb' \<and> keys = firsts (List.map_filter fb_key fb') \<and> distinct keys
    \<and> post_keys lb con keys Map.empty r1 = (results, r')
    \<and> lr_SetLBFeedbackUploaded repo (con_User con) (posted_marks results fb') True d = (None, d')
    \<and> n = length (posted_marks results fb')"
proof -
  from assms obtain fb' r1 where l: "lookup_loop lb con (missing_indices fb) 0 fb r = (Done (Inr fb'), r1)"
    by (auto simp: UpdateSongFeedback_def split: prod.splits outcome.splits sum.splits)
  obtain results r2 where p: "post_keys lb con (firsts (List.map_filter fb_key fb')) Map.empty r1 = (results, r2)" by fastforce
  have "list_all2 fills fb fb" by (rule list_all2_refl) (simp add: fills_def)
  then have "list_all2 fills fb fb'" using lookup_loop_fills [OF gaps_missing _ l] by blast
  moreover from assms l p have "lr_SetLBFeedbackUploaded repo (con_User con) (posted_marks results fb') True d = (None, d')"
      and "n = length (posted_marks results fb')" "r2 = r'"
    by (auto simp: UpdateSongFeedback_def post_loop_keys split: prod.splits option.splits)
  ultimately show ?thesis using p by auto
qed

section \<open>All loved recordings\<close>

definition serves_loved :: "'r lb_service \<Rightarrow> string \<Rightarrow> string \<Rightarrow> loveFeedback list \<Rightarrow> bool" where
  "serves_loved lb user token loved \<longleftrightarrow>
     (\<forall>off r. lb_loved lb user token 1000 (int off) r = (Inr (take 1000 (drop off loved), int (length loved)), r))"

lemma collect_pages_all:
  assumes "serves_loved lb user token loved"
  shows "collect_pages lb user token (int p) (int (length loved)) (foldl lb_keep m (take (1000 * p) loved)) r =
    Some (Inr (foldl lb_keep m loved), r)"
proof (induction "length loved - 1000 * p" arbitrary: p rule: less_induct)
  case less
  show ?case
  proof (cases "1000 * p < length loved")
    case False
    then show ?thesis by (subst collect_pages.simps) simp
  next
    case True
    then have lt: "int p * 1000 < int (length loved)" by linarith
    have l: "lb_loved lb user token 1000 (int p * 1000) r = (Inr (take 1000 (drop (1000 * p) loved), int (length loved)), r)"
      using assms unfolding serves_loved_def by (metis mult.commute of_nat_mult of_nat_numeral)
    have "take (1000 * p) loved @ take 1000 (drop (1000 * p) loved) = take (1000 * Suc p) loved"
      by (simp add: take_add [symmetric] add.commute)
    then have f: "foldl lb_keep (foldl lb_keep m (take (1000 * p) loved)) (take 1000 (drop (1000 * p) loved)) = foldl lb_keep m (take (1000 * Suc p) loved)"
      by (metis foldl_append)
    have IH: "collect_pages lb user token (int p + 1) (int (length loved)) (foldl lb_keep m (take (1000 * Suc p) loved)) r =
        Some (Inr (foldl lb_keep m loved), r)"
      using less.hyps [of "Suc p"] True by (simp add: add.commute)
    show ?thesis by (subst collect_pages.simps) (simp only: lt l f IH prod.case sum.case simp_thms if_False)
  qed
qed

lemma foldl_lb_keep:
  "foldl lb_keep m fs k = (case find (\<lambda>f. lf_RecordingMBID f = k) (rev fs) of Some f \<Rightarrow> (if k = [] then m k else Some f) | None \<Rightarrow> m k)"
  by (induction fs rule: rev_induct) (auto simp: lb_keep_def split: option.splits)

lemma loved_collected_map:
  assumes "serves_loved lb user token loved"
  shows "collectListenbrainzLoveFeedback lb user token r = Some (Inr (foldl lb_keep Map.empty loved), r)"
proof -
  have l: "lb_loved lb user token 1000 0 r = (Inr (take 1000 loved, int (length loved)), r)"
    using assms [unfolded serves_loved_def, rule_format, of 0] by simp
  have "collect_pages lb user token 1 (int (length loved)) (foldl lb_keep Map.empty (take 1000 loved)) r =
      Some (Inr (foldl lb_keep Map.empty loved), r)"
    using collect_pages_all [OF assms, of 1] by simp
  then show ?thesis
    unfolding collectListenbrainzLoveFeedback_def by (subst collect_pages.simps) (simp add: l)
qed

text \<open>Collecting the loved recordings of a user ends when the service tells the number there are, and yields
  the last entry of each recording that has an identifier.\<close>

lemma loved_collected:
  assumes "serves_loved lb user token loved"
  shows "collectListenbrainzLoveFeedback lb user token r =
    Some (Inr (\<lambda>k. if k = [] then None else find (\<lambda>f. lf_RecordingMBID f = k) (rev loved)), r)"
proof -
  have "foldl lb_keep Map.empty loved = (\<lambda>k. if k = [] then None else find (\<lambda>f. lf_RecordingMBID f = k) (rev loved))"
    by (rule ext) (auto simp: foldl_lb_keep split: option.splits)
  with loved_collected_map [OF assms] show ?thesis by simp
qed

section \<open>One representative per recording\<close>

definition candidates :: "lb_song list \<Rightarrow> string \<Rightarrow> lb_song list" where
  "candidates songs mbid = filter (\<lambda>s. \<not> ls_Starred s \<and> ls_MusicBrainzID s = Some mbid) songs"

text \<open>The first song with the smallest identifier.\<close>

fun lowest_id :: "lb_song list \<Rightarrow> lb_song option" where
  "lowest_id [] = None"
| "lowest_id (s # ss) = Some (foldl (\<lambda>a b. if ls_ID b < ls_ID a then b else a) s ss)"

definition preferred :: "string set \<Rightarrow> lb_song list \<Rightarrow> lb_song option" where
  "preferred releases cs =
     (let ls = filter (on_loved_release releases) cs in if ls \<noteq> [] then Some (last ls) else lowest_id cs)"

definition representative :: "string set \<Rightarrow> lb_song list \<Rightarrow> string \<Rightarrow> lb_song option" where
  "representative releases songs mbid = preferred releases (candidates songs mbid)"

lemma lowest_id_snoc:
  "lowest_id (ss @ [s]) = (case lowest_id ss of None \<Rightarrow> Some s | Some a \<Rightarrow> if ls_ID s < ls_ID a then Some s else Some a)"
  by (cases ss) auto

lemma lowest_id_mem: "lowest_id ss = Some s \<Longrightarrow> s \<in> set ss"
  by (induction ss arbitrary: s rule: rev_induct) (auto simp: lowest_id_snoc split: option.splits if_splits)

lemma lowest_id_None: "lowest_id ss = None \<longleftrightarrow> ss = []"
  by (cases ss) auto

lemma lowest_id_least: "lowest_id ss = Some s \<Longrightarrow> x \<in> set ss \<Longrightarrow> ls_ID s \<le> ls_ID x"
  by (induction ss arbitrary: s rule: rev_induct) (auto simp: lowest_id_snoc lowest_id_None split: option.splits if_splits)

lemma preferred_snoc:
  "preferred releases (cs @ [s]) =
     (if on_loved_release releases s then Some s
      else case preferred releases cs of
             None \<Rightarrow> Some s
           | Some e \<Rightarrow> if on_loved_release releases e then Some e else if ls_ID s < ls_ID e then Some s else Some e)"
proof (cases "filter (on_loved_release releases) cs")
  case Nil
  then have "preferred releases cs = lowest_id cs" by (simp add: preferred_def)
  moreover have "\<not> on_loved_release releases e" if "lowest_id cs = Some e" for e
    using lowest_id_mem [OF that] Nil by (auto simp: filter_empty_conv)
  ultimately show ?thesis
    using Nil by (auto simp: preferred_def lowest_id_snoc split: option.splits)
next
  case (Cons a as)
  then have "last (filter (on_loved_release releases) cs) \<in> set (filter (on_loved_release releases) cs)"
    by (intro last_in_set) simp
  then have "on_loved_release releases (last (filter (on_loved_release releases) cs))"
    by (simp only: set_filter mem_Collect_eq)
  then show ?thesis using Cons by (simp add: preferred_def)
qed

text \<open>
  Of the songs whose star differs from the remote one, the starred are unstarred, those without identifier are
  starred, and for every recording one song is starred: the last on a loved release, else the one with the lowest identifier.
\<close>

lemma star_representatives:
  "choose_stars releases songs =
     (map ls_ID (filter ls_Starred songs),
      map ls_ID (filter (\<lambda>s. \<not> ls_Starred s \<and> ls_MusicBrainzID s = None) songs),
      representative releases songs)"
proof (induction songs rule: rev_induct)
  case Nil
  then show ?case by (auto simp: choose_stars_def representative_def preferred_def candidates_def)
next
  case (snoc s ss)
  have step: "choose_stars releases (ss @ [s]) = star_step releases (choose_stars releases ss) s"
    by (simp add: choose_stars_def)
  show ?case
  proof (cases "ls_Starred s \<or> ls_MusicBrainzID s = None")
    case True
    then have "representative releases (ss @ [s]) = representative releases ss"
      by (auto simp: representative_def preferred_def candidates_def)
    with True show ?thesis by (auto simp: step snoc.IH star_step_def)
  next
    case False
    then obtain mbid where s: "\<not> ls_Starred s" "ls_MusicBrainzID s = Some mbid" by auto
    have cs: "candidates (ss @ [s]) k = (if k = mbid then candidates ss k @ [s] else candidates ss k)" for k
      using s by (simp add: candidates_def)
    have rep: "representative releases (ss @ [s]) =
      (if on_loved_release releases s then (representative releases ss)(mbid \<mapsto> s)
       else case representative releases ss mbid of
              None \<Rightarrow> (representative releases ss)(mbid \<mapsto> s)
            | Some existing \<Rightarrow>
                if on_loved_release releases existing then representative releases ss
                else if ls_ID s < ls_ID existing then (representative releases ss)(mbid \<mapsto> s)
                else representative releases ss)"
      by (rule ext) (auto simp: representative_def cs preferred_snoc split: option.split)
    from s show ?thesis
      by (auto simp: step snoc.IH star_step_def rep split: option.splits)
  qed
qed

section \<open>A synchronisation returns\<close>

definition lookups_in_batch :: "'r lb_service \<Rightarrow> bool" where
  "lookups_in_batch lb \<longleftrightarrow>
     (\<forall>token recs r ms r'. lb_lookup lb token recs r = (Inr ms, r') \<longrightarrow> (\<forall>m \<in> set ms. 0 \<le> mt_Index m \<and> mt_Index m < int (length recs)))"

lemma UpdateSongFeedback_no_panic:
  assumes "lookups_in_batch lb"
  shows "fst (UpdateSongFeedback lb repo con fb d r) \<noteq> Panic"
proof -
  have "fst (lookup_loop lb con (missing_indices fb) 0 fb r) \<noteq> Panic"
    by (rule lookup_loop_no_panic) (use assms in \<open>unfold lookups_in_batch_def, blast\<close>)
  then show ?thesis
    unfolding UpdateSongFeedback_def by (auto split: prod.split outcome.split sum.split option.split)
qed

lemma sync_user_returns:
  assumes "lookups_in_batch lb" and served: "\<And>token. \<exists>loved. serves_loved lb (the (lu_ListenBrainzUsername u)) token loved"
  shows "\<exists>d' r'. sync_user lb env repo lorder sorder u d r = Some (Done (), d', r')"
proof -
  have c: "\<exists>m. collectListenbrainzLoveFeedback lb (the (lu_ListenBrainzUsername u)) token r = Some (Inr m, r)" for token
    using served [of token] loved_collected_map by metis
  have up: "UpdateSongFeedback lb repo con fb d r \<noteq> (Panic, x)" for con fb d r x
    using UpdateSongFeedback_no_panic [OF assms(1), of repo con fb d r] by auto
  show ?thesis
  proof (cases "DecryptPassword (le_open env) (case lu_EncryptedListenBrainzToken u of None \<Rightarrow> [] | Some t \<Rightarrow> t) (le_key env)")
    case (Inl e)
    then show ?thesis by (simp add: sync_user_def)
  next
    case (Inr token)
    from c [of token] obtain m where "collectListenbrainzLoveFeedback lb (the (lu_ListenBrainzUsername u)) token r = Some (Inr m, r)" ..
    with Inr up show ?thesis
      by (auto simp: sync_user_def Let_def split: prod.split option.split sum.split outcome.split)
  qed
qed

text \<open>
  If the service tells the number of loved recordings of every user and answers lookups with indices of the
  batch, a synchronisation returns without panic; its only error is that of reading the users.\<close>

lemma sync_returns:
  assumes "lookups_in_batch lb" "\<And>user token. \<exists>loved. serves_loved lb user token loved"
  shows "\<exists>err d' r'. SyncSongFeedback lb env repo busy lorder sorder d r = Some (Done err, d', r') \<and>
    (err = None \<or> \<not> busy \<and> (\<exists>e. lr_FindAllUsers repo d = Inl e))"
proof -
  have "\<exists>d' r'. sync_users (sync_user lb env repo lorder sorder) us d r = Some (Done None, d', r')" for us d r
  proof (induction us arbitrary: d r)
    case (Cons u us)
    from sync_user_returns [OF assms(1) assms(2), of env repo lorder sorder u d r] obtain d1 r1
      where "sync_user lb env repo lorder sorder u d r = Some (Done (), d1, r1)" by blast
    with Cons.IH [of d1 r1] show ?case by simp
  qed simp
  then show ?thesis by (auto simp: SyncSongFeedback_def split: sum.split)
qed

section \<open>Three songs of one recording\<close>

definition wit_loved :: "loveFeedback list" where
  "wit_loved = [\<lparr> lf_RecordingMBID = ''m'', lf_ReleaseMBID = Some ''r'' \<rparr>, \<lparr> lf_RecordingMBID = [], lf_ReleaseMBID = None \<rparr>]"

text \<open>The service keeps the posts; every first recording that is looked up is m.\<close>

definition wit_lf :: "(lb_key list) lb_service" where
  "wit_lf = \<lparr> lb_submit = (\<lambda>_ _ r. (None, r)), lb_validate = (\<lambda>_ r. (Inl (EMsg []), r)),
     lb_lookup = (\<lambda>_ recs r. (Inr (if recs = [] then [] else [\<lparr> mt_Index = 0, mt_RecordingMBID = Some ''m'' \<rparr>]), r)),
     lb_feedback = (\<lambda>_ k r. (None, r @ [k])),
     lb_loved = (\<lambda>_ _ n off r. (Inr (take (nat n) (drop (nat off) wit_loved), int (length wit_loved)), r)) \<rparr>"

definition wit_fb :: "string \<Rightarrow> string option \<Rightarrow> Feedback" where
  "wit_fb i mbid = \<lparr> fb_SongID = i, fb_SongName = i, fb_SongMBID = mbid, fb_AlbumName = None, fb_ArtistName = Some ''a'', fb_Score = 1 \<rparr>"

definition wit_lf_con :: Connection where
  "wit_lf_con = \<lparr> con_User = ''u'', con_LBUsername = ''u'', con_Token = ''t'', con_Scrobble = False, con_SyncFeedback = False \<rparr>"

lemma wit_lf_serves: "serves_loved wit_lf user token wit_loved"
  by (simp add: serves_loved_def wit_lf_def)

lemma wit_lf_lookups: "lookups_in_batch wit_lf"
  by (simp add: lookups_in_batch_def wit_lf_def)

lemma wit_missing: "missing_indices [wit_fb ''1'' (Some ''m''), wit_fb ''2'' None, wit_fb ''3'' (Some ''m'')] = [1]"
  by (simp add: missing_indices_def wit_fb_def upt_rec)

lemma wit_lf_update:
  "UpdateSongFeedback wit_lf (wit_lb_repo []) wit_lf_con [wit_fb ''1'' (Some ''m''), wit_fb ''2'' None, wit_fb ''3'' (Some ''m'')] d [] =
     (Done (Inr 3), d, [(''m'', 1)])"
  unfolding UpdateSongFeedback_def wit_missing
  by (simp add: lookup_loop.simps maxLookupsPerPost_def wit_lf_def wit_fb_def wit_lb_repo_def lb_recording_of_def Let_def)

lemma feedback_posted_once_witness:
  "\<exists>fb' keys. list_all2 fills [wit_fb ''1'' (Some ''m''), wit_fb ''2'' None, wit_fb ''3'' (Some ''m'')] fb' \<and>
     keys = firsts (List.map_filter fb_key fb') \<and> distinct keys"
  using feedback_posted_once [OF wit_lf_update] by blast

lemma loved_collected_example:
  "collectListenbrainzLoveFeedback wit_lf ''u'' ''t'' [] =
     Some (Inr (\<lambda>k. if k = [] then None else find (\<lambda>f. lf_RecordingMBID f = k) (rev wit_loved)), [])"
  by (rule loved_collected [OF wit_lf_serves])

lemma sync_returns_example:
  "\<exists>d' r'. SyncSongFeedback wit_lf wit_lb_env (wit_lb_repo [''a'']) False (\<lambda>_. []) (\<lambda>_. []) [] [] = Some (Done None, d', r')"
proof -
  have "\<exists>loved. serves_loved wit_lf user token loved" for user token
    using wit_lf_serves by blast
  from sync_returns [OF wit_lf_lookups this, of wit_lb_env "wit_lb_repo [''a'']" False "\<lambda>_. []" "\<lambda>_. []" "[]" "[]"]
  show ?thesis by (auto simp: wit_lb_repo_def)
qed

end
