(* ===== verification/Annotation.thy ===== *)
theory Annotation
  imports Requests LbFeedback
begin

text \<open>
  Scrobbles, ratings and stars (\<open>handlers/subsonic_mediaannotation.go\<close>). The repositories are queries over a
  database \<open>'d\<close>, the ListenBrainz service works on a state \<open>'r\<close> that no rollback restores. A handler whose
  import slices out of bounds panics: the flag of its reply tells so, and nothing has been written then.
\<close>

section \<open>Repositories\<close>

record CreateScrobbleParams =
  cp_User :: string
  cp_SongID :: string
  cp_AlbumID :: "string option"
  cp_Time :: int
  cp_SongDuration :: DurationMS
  cp_Duration :: NullDurationMS
  cp_SubmittedToListenBrainz :: bool
  cp_NowPlaying :: bool

record 'd an_repo =
  an_lb :: "'d lb_repo"
  an_conn :: "'d sql_conn"
  an_FindPossibleConflicts :: "string \<Rightarrow> string list \<Rightarrow> int list \<Rightarrow> 'd \<Rightarrow> go_error + (string \<times> int) list"
  an_DeleteNowPlaying :: "string \<Rightarrow> 'd \<Rightarrow> go_error option \<times> 'd"
  an_FindSong :: "string \<Rightarrow> string \<Rightarrow> 'd \<Rightarrow> go_error + lb_song"
  an_CreateMultiple :: "CreateScrobbleParams list \<Rightarrow> 'd \<Rightarrow> go_error option \<times> 'd"
  an_SetRating :: "id_type \<Rightarrow> string \<Rightarrow> string \<Rightarrow> int \<Rightarrow> 'd \<Rightarrow> go_error option \<times> 'd"
  an_RemoveRating :: "id_type \<Rightarrow> string \<Rightarrow> string \<Rightarrow> 'd \<Rightarrow> go_error option \<times> 'd"
  an_Star :: "id_type \<Rightarrow> string \<Rightarrow> string \<Rightarrow> 'd \<Rightarrow> go_error option \<times> 'd"
  an_UnStar :: "id_type \<Rightarrow> string \<Rightarrow> string \<Rightarrow> 'd \<Rightarrow> go_error option \<times> 'd"

record ('d, 'r) an_env =
  ae_repo :: "'d an_repo"
  ae_lb :: "'r lb_service"
  ae_secret :: lb_env

type_synonym ('d, 'r) an_reply = "(bool, 'd \<times> 'r) reply"

definition an_con :: "('d, 'r) an_env \<Rightarrow> string \<Rightarrow> 'd \<Rightarrow> go_error + Connection" where
  "an_con env user d = GetListenbrainzConnection (le_open (ae_secret env)) (le_key (ae_secret env)) (lr_FindByName (an_lb (ae_repo env))) user d"

section \<open>The parameters of a scrobble\<close>

text \<open>A time that is not given is that of the request, a duration that is not positive is unknown.\<close>

definition scrobble_times :: "(nat \<Rightarrow> int) \<Rightarrow> nat \<Rightarrow> int list \<Rightarrow> int list" where
  "scrobble_times now n timeInts = map (\<lambda>i. if i < length timeInts then timeInts ! i * 1000000 else now i) [0..<n]"

definition scrobble_durations :: "nat \<Rightarrow> int list \<Rightarrow> int option list" where
  "scrobble_durations n ds = map (\<lambda>i. if i < length ds then (if ds ! i > 0 then Some (ds ! i) else None) else None) [0..<n]"

text \<open>The scrobbles of a request: song, time, duration.\<close>

type_synonym scrobble_entry = "string \<times> int \<times> int option"

definition scrobble_entries :: "string list \<Rightarrow> int list \<Rightarrow> int option list \<Rightarrow> scrobble_entry list" where
  "scrobble_entries ids ts ds = zip ids (zip ts ds)"

definition drop_conflicts :: "(string \<times> int) list \<Rightarrow> scrobble_entry list \<Rightarrow> scrobble_entry list" where
  "drop_conflicts conflicts es = filter (\<lambda>(i, t, _). \<not> list_ex (\<lambda>(ci, ct). ci = i \<and> t = ct) conflicts) es"

text \<open>
  More than four minutes or more than half of the song. The comparison of floating point numbers is exact below
  \<open>2\<^sup>5\<^sup>3\<close> milliseconds.
\<close>

definition should_submit :: "bool \<Rightarrow> bool \<Rightarrow> int option \<Rightarrow> lb_song \<Rightarrow> bool" where
  "should_submit submitToLB submission d song \<longleftrightarrow>
     submitToLB \<and> (\<not> submission \<or> (case d of None \<Rightarrow> True
        | Some ms \<Rightarrow> ms > 4 * 60 * 1000 \<or> 2 * ms > sint (DurationMS_Millis (ls_Duration song))))"

definition scrobble_params :: "string \<Rightarrow> bool \<Rightarrow> bool \<Rightarrow> scrobble_entry \<Rightarrow> lb_song \<Rightarrow> CreateScrobbleParams" where
  "scrobble_params user submitToLB submission e song =
     (case e of (_, t, d) \<Rightarrow>
        \<lparr> cp_User = user, cp_SongID = ls_ID song, cp_AlbumID = ls_AlbumID song, cp_Time = t, cp_SongDuration = ls_Duration song,
          cp_Duration = (case d of None \<Rightarrow> \<lparr> nd_Duration = 0, nd_Valid = False \<rparr>
                         | Some ms \<Rightarrow> \<lparr> nd_Duration = NewDurationMS (word_of_int ms), nd_Valid = True \<rparr>),
          cp_SubmittedToListenBrainz = should_submit submitToLB submission d song, cp_NowPlaying = \<not> submission \<rparr>)"

definition listen_of :: "int \<Rightarrow> lb_song \<Rightarrow> Listen" where
  "listen_of t song =
     \<lparr> li_ListenedAt = t, li_SongName = ls_Title song, li_AlbumName = ls_AlbumName song, li_ArtistName = first_artist song,
       li_SongMBID = ls_MusicBrainzID song, li_AlbumMBID = ls_AlbumMusicBrainzID song, li_ReleaseMBID = ls_AlbumReleaseMBID song,
       li_ArtistMBIDs = artist_mbids song, li_TrackNumber = ls_Track song, li_Duration = ls_Duration song \<rparr>"

section \<open>Scrobbling\<close>

fun scrobble_items :: "'d an_repo \<Rightarrow> string \<Rightarrow> scrobble_entry list \<Rightarrow> 'd \<Rightarrow> go_error + (scrobble_entry \<times> lb_song) list" where
  "scrobble_items repo user [] d = Inr []"
| "scrobble_items repo user (e # es) d =
     (case an_FindSong repo (fst e) user d of
        Inl err \<Rightarrow> Inl (EWrap ''get song'' err)
      | Inr song \<Rightarrow> (case scrobble_items repo user es d of Inl err \<Rightarrow> Inl err | Inr items \<Rightarrow> Inr ((e, song) # items)))"

definition scrobble_listens :: "bool \<Rightarrow> bool \<Rightarrow> (scrobble_entry \<times> lb_song) list \<Rightarrow> Listen list" where
  "scrobble_listens submitToLB submission items =
     map (\<lambda>((_, t, _), song). listen_of t song) (filter (\<lambda>((_, _, d), song). should_submit submitToLB submission d song) items)"

text \<open>
  Sending them: whether the service accepted. The connection is read outside the transaction, in the database \<open>d0\<close>
  before it.
\<close>

definition send_listens ::
  "('d, 'r) an_env \<Rightarrow> string \<Rightarrow> string \<Rightarrow> bool \<Rightarrow> Listen list \<Rightarrow> 'd \<Rightarrow> 'r \<Rightarrow> bool outcome \<times> 'r" where
  "send_listens env user client submission listens d0 r =
     (if \<not> length listens > 0 then (Done False, r)
      else case an_con env user d0 of
             Inl _ \<Rightarrow> (Done False, r)
           | Inr con \<Rightarrow>
               if \<not> submission
               then (case SubmitPlayingNow (ae_lb env) con (hd listens) client r of (err, r) \<Rightarrow> (Done (err = None), r))
               else if length listens = 1
               then (case SubmitSingle (ae_lb env) con (hd listens) client r of (err, r) \<Rightarrow> (Done (err = None), r))
               else (case SubmitImport (ae_lb env) con listens client r of
                       (Panic, r) \<Rightarrow> (Panic, r) | (Done err, r) \<Rightarrow> (Done (err = None), r)))"

text \<open>The entries that are left of a request: without those already scrobbled at the same time.\<close>

definition new_entries :: "'d an_repo \<Rightarrow> string \<Rightarrow> bool \<Rightarrow> scrobble_entry list \<Rightarrow> 'd \<Rightarrow> go_error + scrobble_entry list" where
  "new_entries repo user submission es d =
     (if submission
      then (case an_FindPossibleConflicts repo user (map fst es) (map (fst \<circ> snd) es) d of
              Inl e \<Rightarrow> Inl (EWrap ''find possible conflicts'' e)
            | Inr conflicts \<Rightarrow> Inr (if length conflicts > 0 then drop_conflicts conflicts es else es))
      else Inr es)"

definition clear_now_playing :: "'d an_repo \<Rightarrow> string \<Rightarrow> bool \<Rightarrow> 'd \<Rightarrow> go_error option \<times> 'd" where
  "clear_now_playing repo user submission d =
     (if \<not> submission
      then (case an_DeleteNowPlaying repo user d of (err, d) \<Rightarrow> (map_option (EWrap ''delete old now playing'') err, d))
      else (None, d))"

definition accept_params :: "bool \<Rightarrow> CreateScrobbleParams list \<Rightarrow> CreateScrobbleParams list" where
  "accept_params ok ps = map (\<lambda>p. p\<lparr>cp_SubmittedToListenBrainz := cp_SubmittedToListenBrainz p \<and> ok\<rparr>) ps"

definition scrobble_tx ::
  "('d, 'r) an_env \<Rightarrow> string \<Rightarrow> string \<Rightarrow> bool \<Rightarrow> bool \<Rightarrow> scrobble_entry list \<Rightarrow> 'd \<Rightarrow> ('d, 'r) tx_fn" where
  "scrobble_tx env user client submitToLB submission es d0 s =
     (case s of (d, r) \<Rightarrow>
        case new_entries (ae_repo env) user submission es d of
          Inl e \<Rightarrow> (Done (Some e), d, r)
        | Inr es \<Rightarrow>
            (case clear_now_playing (ae_repo env) user submission d of
               (Some e, d) \<Rightarrow> (Done (Some e), d, r)
             | (None, d) \<Rightarrow>
                 (case scrobble_items (ae_repo env) user es d of
                    Inl e \<Rightarrow> (Done (Some e), d, r)
                  | Inr items \<Rightarrow>
                      (let params = map (\<lambda>(e, song). scrobble_params user submitToLB submission e song) items
                       in case send_listens env user client submission (scrobble_listens submitToLB submission items) d0 r of
                            (Panic, r) \<Rightarrow> (Panic, d, r)
                          | (Done ok, r) \<Rightarrow>
                              (case an_CreateMultiple (ae_repo env) (accept_params ok params) d of
                                 (Some e, d) \<Rightarrow> (Done (Some (EWrap ''create scrobbles'' e)), d, r)
                               | (None, d) \<Rightarrow> (Done None, d, r))))))"

definition submits_to_lb :: "lb_user \<Rightarrow> bool" where
  "submits_to_lb u \<longleftrightarrow> lu_ListenBrainzUsername u \<noteq> None \<and> lu_ListenBrainzScrobble u"

text \<open>The request once its parameters are read.\<close>

definition scrobble_request ::
  "('d, 'r) an_env \<Rightarrow> url_values \<Rightarrow> bool \<Rightarrow> scrobble_entry list \<Rightarrow> writer \<Rightarrow> 'd \<times> 'r \<Rightarrow> ('d, 'r) an_reply" where
  "scrobble_request env q submission es w s =
     (case lr_FindByName (an_lb (ae_repo env)) (Q_User q) (fst s) of
        Inl e \<Rightarrow> ((respondInternalErr (Q_Format q) (EWrap ''scrobble: find user'' e) w, False), s)
      | Inr user \<Rightarrow>
          (case Transaction (an_conn (ae_repo env)) False
                  (scrobble_tx env (Q_User q) (Q_Client q) (submits_to_lb user) submission es (fst s)) s of
             (Panic, s) \<Rightarrow> ((w, True), s)
           | (Done (Some e), s) \<Rightarrow> ((respondErr (Q_Format q) (EWrap ''scrobble'' e) w, False), s)
           | (Done None, s) \<Rightarrow> ((ok_write q w, False), s)))"

definition handleScrobble :: "('d, 'r) an_env \<Rightarrow> (nat \<Rightarrow> int) \<Rightarrow> url_values \<Rightarrow> writer \<Rightarrow> 'd \<times> 'r \<Rightarrow> ('d, 'r) an_reply" where
  "handleScrobble env now q w s =
     (case IDsTypeReq q ''id'' [IDTypeSong] w of
        (None, w) \<Rightarrow> ((w, False), s)
      | (Some ids, w) \<Rightarrow>
     (case Q_Int64s q ''time'' w of
        (None, w) \<Rightarrow> ((w, False), s)
      | (Some timeInts, w) \<Rightarrow>
     (case Q_Ints q ''duration_ms'' w of
        (None, w) \<Rightarrow> ((w, False), s)
      | (Some durationInts, w) \<Rightarrow>
     (case BoolDef q ''submission'' True w of
        (None, w) \<Rightarrow> ((w, False), s)
      | (Some submission, w) \<Rightarrow>
          if \<not> submission \<and> length ids \<noteq> 1
          then ((respondGenericErr (Q_Format q) ''now playing scrobble requests must contain exactly one id parameter'' w, False), s)
          else scrobble_request env q submission
                 (scrobble_entries ids (scrobble_times now (length ids) timeInts) (scrobble_durations (length ids) durationInts)) w s))))"

section \<open>Ratings\<close>

definition handleSetRating :: "('d, 'r) an_env \<Rightarrow> url_values \<Rightarrow> writer \<Rightarrow> 'd \<times> 'r \<Rightarrow> ('d, 'r) an_reply" where
  "handleSetRating env q w s =
     (case IDTypeReq q ''id'' [IDTypeSong, IDTypeAlbum, IDTypeArtist] w of
        (None, w) \<Rightarrow> ((w, False), s)
      | (Some i, w) \<Rightarrow>
     (case IntRangeReq q ''rating'' 0 5 w of
        (None, w) \<Rightarrow> ((w, False), s)
      | (Some rating, w) \<Rightarrow>
          (case GetIDType i of
             None \<Rightarrow> ((respondNotFoundErr (Q_Format q) ''unknown id type'' w, False), s)
           | Some t \<Rightarrow>
               (case (if t \<in> {IDTypeSong, IDTypeAlbum, IDTypeArtist}
                      then if rating = 0 then an_RemoveRating (ae_repo env) t (Q_User q) i (fst s)
                           else an_SetRating (ae_repo env) t (Q_User q) i rating (fst s)
                      else (None, fst s)) of
                  (Some e, d) \<Rightarrow> ((respondErr (Q_Format q) (EWrap ''set rating'' e) w, False), d, snd s)
                | (None, d) \<Rightarrow> ((ok_write q w, False), d, snd s)))))"

section \<open>Stars\<close>

fun star_all :: "'d an_repo \<Rightarrow> bool \<Rightarrow> string \<Rightarrow> string list \<Rightarrow> 'd \<Rightarrow> (go_error + string list) \<times> 'd" where
  "star_all repo star user [] d = (Inr [], d)"
| "star_all repo star user (i # is) d =
     (case GetIDType i of
        None \<Rightarrow> (Inl (EWrap ''unknown id type'' (EType ErrNotFound)), d)
      | Some t \<Rightarrow>
          (case (if t \<in> {IDTypeSong, IDTypeAlbum, IDTypeArtist}
                 then (if star then an_Star else an_UnStar) repo t user i d else (None, d)) of
             (Some e, d) \<Rightarrow> (Inl (EWrap ''star'' e), d)
           | (None, d) \<Rightarrow>
               (case star_all repo star user is d of
                  (Inl e, d) \<Rightarrow> (Inl e, d)
                | (Inr songs, d) \<Rightarrow> (Inr (if t = IDTypeSong then i # songs else songs), d))))"

definition star_tx :: "('d, 'r) an_env \<Rightarrow> bool \<Rightarrow> string \<Rightarrow> string list \<Rightarrow> ('d, 'r) tx_fn" where
  "star_tx env star user ids s =
     (case s of (d, r) \<Rightarrow>
        case star_all (ae_repo env) star user ids d of
          (Inl e, d) \<Rightarrow> (Done (Some e), d, r)
        | (Inr songIDs, d) \<Rightarrow>
            (case lr_SetLBFeedbackUploaded (an_lb (ae_repo env)) user (map (\<lambda>i. (i, None, False)) songIDs) False d of
               (Some e, d) \<Rightarrow> (Done (Some (EWrap ''set lb_feedback_status to uploaded = false'' e)), d, r)
             | (None, d) \<Rightarrow> (Done None, d, r)))"

definition song_ids :: "string list \<Rightarrow> string list" where
  "song_ids ids = filter (\<lambda>i. GetIDType i = Some IDTypeSong) ids"

text \<open>After the transaction the feedback is uploaded at once; what fails then is only logged.\<close>

definition upload_stars :: "('d, 'r) an_env \<Rightarrow> bool \<Rightarrow> string \<Rightarrow> lb_song list \<Rightarrow> 'd \<times> 'r \<Rightarrow> bool \<times> 'd \<times> 'r" where
  "upload_stars env star user songs s =
     (case an_con env user (fst s) of
        Inl _ \<Rightarrow> (False, s)
      | Inr con \<Rightarrow>
          (case UpdateSongFeedback (ae_lb env) (an_lb (ae_repo env)) con (map (song_feedback (\<lambda>_. star)) songs) (fst s) (snd s) of
             (Panic, s) \<Rightarrow> (True, s) | (Done _, s) \<Rightarrow> (False, s)))"

definition star_request :: "('d, 'r) an_env \<Rightarrow> bool \<Rightarrow> url_values \<Rightarrow> string list \<Rightarrow> writer \<Rightarrow> 'd \<times> 'r \<Rightarrow> ('d, 'r) an_reply" where
  "star_request env star q allIDs w s =
     (case Transaction (an_conn (ae_repo env)) False (star_tx env star (Q_User q) allIDs) s of
        (Panic, s) \<Rightarrow> ((w, True), s)
      | (Done (Some e), s) \<Rightarrow>
          ((if errors_Is e (EType ErrNotFound) then respondNotFoundErr (Q_Format q) [] w
            else respondInternalErr (Q_Format q) (EWrap ''(un)star'' e) w, False), s)
      | (Done None, s) \<Rightarrow>
          (case lr_FindByName (an_lb (ae_repo env)) (Q_User q) (fst s) of
             Inl e \<Rightarrow> ((respondInternalErr (Q_Format q) (EWrap ''(un)star: find user'' e) w, False), s)
           | Inr user \<Rightarrow>
               if lu_ListenBrainzUsername user \<noteq> None \<and> lu_ListenBrainzSyncFeedback user \<and> length (song_ids allIDs) > 0
               then (case lr_FindByIDs (an_lb (ae_repo env)) (song_ids allIDs) (fst s) of
                       Inl e \<Rightarrow> ((respondInternalErr (Q_Format q) (EWrap ''handle (un)star'' e) w, False), s)
                     | Inr songs \<Rightarrow>
                         (case upload_stars env star (Q_User q) songs s of
                            (panicked, s) \<Rightarrow> ((if panicked then w else ok_write q w, panicked), s)))
               else ((ok_write q w, False), s)))"

definition handleStarUnstar :: "('d, 'r) an_env \<Rightarrow> bool \<Rightarrow> url_values \<Rightarrow> writer \<Rightarrow> 'd \<times> 'r \<Rightarrow> ('d, 'r) an_reply" where
  "handleStarUnstar env star q w s =
     (case IDsType q ''id'' [IDTypeSong, IDTypeAlbum, IDTypeArtist] w of
        (None, w) \<Rightarrow> ((w, False), s)
      | (Some ids, w) \<Rightarrow>
     (case IDsType q ''albumId'' [IDTypeAlbum] w of
        (None, w) \<Rightarrow> ((w, False), s)
      | (Some albumIDs, w) \<Rightarrow>
     (case IDsType q ''artistId'' [IDTypeArtist] w of
        (None, w) \<Rightarrow> ((w, False), s)
      | (Some artistIDs, w) \<Rightarrow>
          (let allIDs = ids @ albumIDs @ artistIDs
           in if length allIDs = 0 then ((ok_write q w, False), s) else star_request env star q allIDs w s))))"

section \<open>Answers\<close>

text \<open>A handler answers exactly once, or it panics and has answered nothing.\<close>

definition served :: "writer \<Rightarrow> (bool, 's) reply \<Rightarrow> bool" where
  "served w out \<longleftrightarrow> (if snd (fst out) then fst (fst out) = w else once_answered w out)"

named_theorems served_intros "how a handler that may panic answers"

lemma served_write [served_intros]: "one_write w w' \<Longrightarrow> served w ((w', False), s)"
  by (simp add: served_def once_answered_def)

lemma served_panic [served_intros]: "served w ((w, True), s)"
  by (simp add: served_def)

lemma served_accessor [served_intros]:
  assumes "accessor_ok acc" "\<And>a. served w (k a w)"
  shows "served w (case acc w of (None, w') \<Rightarrow> ((w', False), s) | (Some a, w') \<Rightarrow> k a w')"
proof (cases "acc w")
  case (Pair x w')
  show ?thesis
  proof (cases x)
    case None
    with accessor_okD(2) [OF assms(1)] Pair show ?thesis by (fastforce simp: served_def once_answered_def one_write_def)
  next
    case (Some a)
    with Pair have "acc w = (Some a, w')" by simp
    from accessor_okD(1) [OF assms(1) this] have "w' = w" .
    with Pair Some assms(2) show ?thesis by simp
  qed
qed

lemma served_cases [served_intros]:
  "(b \<Longrightarrow> served w x) \<Longrightarrow> (\<not> b \<Longrightarrow> served w y) \<Longrightarrow> served w (if b then x else y)"
  "served w (f y0) \<Longrightarrow> served w (let y = y0 in f y)"
  "(\<And>e. served w (g e)) \<Longrightarrow> (\<And>a. served w (h a)) \<Longrightarrow> served w (case v of Inl e \<Rightarrow> g e | Inr a \<Rightarrow> h a)"
  "served w n \<Longrightarrow> (\<And>a. served w (k a)) \<Longrightarrow> served w (case u of None \<Rightarrow> n | Some a \<Rightarrow> k a)"
  "(\<And>a b. served w (p a b)) \<Longrightarrow> served w (case z of (a, b) \<Rightarrow> p a b)"
  "(\<And>a. served w (d a)) \<Longrightarrow> served w q \<Longrightarrow> served w (case t of Done a \<Rightarrow> d a | Panic \<Rightarrow> q)"
  by (simp_all split: sum.split option.split prod.split outcome.split)

lemma served_upload: "served w ((if panicked then w else ok_write q w, panicked), s)"
  by (simp add: served_intros answer_intros)

text \<open>
  A scrobble, a rating and a star are answered exactly once, unless the handler panics before it has answered.\<close>

lemma annotations_served:
  "served w (handleScrobble env now q w s) \<and> served w (handleSetRating env q w s) \<and> served w (handleStarUnstar env star q w s)"
  unfolding handleScrobble_def scrobble_request_def handleSetRating_def handleStarUnstar_def star_request_def
  by (intro conjI served_intros served_upload accessor_intros answer_intros; simp)

section \<open>All or nothing\<close>

lemma handleScrobble_cases:
  assumes "handleScrobble env now q w s = out"
  shows "((\<exists>e. is_error_write e \<and> fst (fst out) = w @ [e]) \<and> snd out = s) \<or> (\<exists>submission es. scrobble_request env q submission es w s = out)"
proof -
  note ok = accessor_okD(1) [OF IDsTypeReq_ok] accessor_okD(1) [OF Int64s_ok] accessor_okD(1) [OF Ints_ok] accessor_okD(1) [OF BoolDef_ok]
  note err = accessor_okD(2) [OF IDsTypeReq_ok] accessor_okD(2) [OF Int64s_ok] accessor_okD(2) [OF Ints_ok] accessor_okD(2) [OF BoolDef_ok]
  show ?thesis
    using assms unfolding handleScrobble_def
    by (auto split: prod.splits option.splits if_splits dest!: ok err simp: respond_defs)
qed

lemma Transaction_Panic_or_error:
  "Transaction conn b fn s = (res, s') \<Longrightarrow> res \<noteq> Done None \<Longrightarrow> fst s' = fst s"
  using Transaction_error [of conn b fn "fst s" "snd s" res "fst s'" "snd s'"] by simp

text \<open>
  A scrobble that is not confirmed leaves the database as it was, whatever went wrong.\<close>

lemma failed_scrobble_unrecorded:
  assumes "handleScrobble env now q w (d, r) = ((w', panicked), d', r')" "w' \<noteq> ok_write q w"
  shows "d' = d"
  using handleScrobble_cases [OF assms(1)]
proof
  assume "\<exists>submission es. scrobble_request env q submission es w (d, r) = ((w', panicked), d', r')"
  then obtain submission es where "scrobble_request env q submission es w (d, r) = ((w', panicked), d', r')" by blast
  with assms(2) show ?thesis
    by (auto simp: scrobble_request_def split: sum.splits prod.splits outcome.splits option.splits dest: Transaction_Panic_or_error)
qed simp

section \<open>What is marked as submitted was accepted\<close>

definition lb_accepted :: "'r lb_service \<Rightarrow> Connection \<Rightarrow> string \<Rightarrow> bool \<Rightarrow> Listen list \<Rightarrow> 'r \<Rightarrow> 'r \<Rightarrow> bool" where
  "lb_accepted lb con client submission listens r r' \<longleftrightarrow>
     (if \<not> submission
      then submit lb con ''playing_now'' [\<lparr> pl_ListenedAt = 0, pl_TrackMetadata = track_metadata client (hd listens) \<rparr>] r = (None, r')
      else if length listens = 1 then submit lb con ''single'' (map (listen_payload client) listens) r = (None, r')
      else send_all (submit lb con ''import'') (pieces 1000 (map (listen_payload client) listens)) r = (None, r'))"

lemma lb_disabled [simp]: "lbErrDisabled = EMsg ''feature disabled''"
  by (simp add: lbErrDisabled_def)

lemma send_listens_accepted:
  assumes "send_listens env user client submission listens d0 r = (Done True, r')"
  shows "\<exists>con. an_con env user d0 = Inr con \<and> lb_accepted (ae_lb env) con client submission listens r r'"
proof -
  from assms have ne: "listens \<noteq> []" by (auto simp: send_listens_def)
  with assms obtain con where con: "an_con env user d0 = Inr con" by (auto simp: send_listens_def split: sum.splits)
  consider "\<not> submission" | "submission" "length listens = 1" | "submission" "length listens \<noteq> 1" by blast
  then have "lb_accepted (ae_lb env) con client submission listens r r'"
  proof cases
    case 1
    with assms ne con show ?thesis
      by (auto simp: send_listens_def lb_accepted_def SubmitPlayingNow_def split: if_splits prod.splits)
  next
    case 2
    then obtain l where "listens = [l]" by (cases listens) auto
    with 2 assms con show ?thesis
      by (auto simp: send_listens_def lb_accepted_def SubmitSingle_def split: if_splits prod.splits)
  next
    case 3
    with assms ne con have i: "SubmitImport (ae_lb env) con listens client r = (Done None, r')"
      by (auto simp: send_listens_def split: prod.splits outcome.splits)
    then have "con_Scrobble con" by (auto simp: SubmitImport_def split: if_splits)
    from SubmitImport_pieces [OF this, of "ae_lb env" listens client r] i 3 show ?thesis
      by (auto simp: lb_accepted_def Let_def map_prod_def split: if_splits prod.splits option.splits)
  qed
  with con show ?thesis by blast
qed

lemma error_not_ok: "is_error_write e \<Longrightarrow> w @ [e] \<noteq> ok_write q w"
  by (auto simp: ok_write_def)

lemma respond_not_ok [simp]: "respondErr fm e w \<noteq> ok_write q w" "respondInternalErr fm e w \<noteq> ok_write q w"
  "respondNotFoundErr fm m w \<noteq> ok_write q w" "w \<noteq> ok_write q w"
  by (auto simp: respond_defs ok_write_def)

lemma scrobble_items_fst: "scrobble_items repo user es d = Inr items \<Longrightarrow> map fst items = es"
  by (induction es arbitrary: items) (auto split: sum.splits)


section \<open>Stars are taken together\<close>

lemma star_all_songs: "star_all repo star user ids d = (Inr songs, d') \<Longrightarrow> songs = song_ids ids"
  by (induction ids arbitrary: d songs) (auto simp: song_ids_def split: option.splits prod.splits sum.splits if_splits)


section \<open>A scrobble of one song\<close>

text \<open>The database is the list of what was written to it; \<open>create\<close> is the answer to the insertion of scrobbles.\<close>

definition wit_song_tr :: string where "wit_song_tr = ''tr_bbbbbbbbbbbb''"

definition wit_an_repo :: "go_error option \<Rightarrow> (string list) an_repo" where
  "wit_an_repo create = \<lparr> an_lb = wit_lb_repo [],
     an_conn = \<lparr> sc_Constraint = (\<lambda>_. None), sc_Begin = (\<lambda>_. None), sc_Commit = Inr \<rparr>,
     an_FindPossibleConflicts = (\<lambda>_ _ _ _. Inr []), an_DeleteNowPlaying = (\<lambda>_ d. (None, d)),
     an_FindSong = (\<lambda>i _ _. Inr (wit_lb_song\<lparr>ls_ID := i\<rparr>)),
     an_CreateMultiple = (\<lambda>ps d. (create, d @ map cp_SongID ps)),
     an_SetRating = (\<lambda>_ _ i _ d. (None, d @ [i])), an_RemoveRating = (\<lambda>_ _ i d. (None, d)),
     an_Star = (\<lambda>_ _ i d. (None, d @ [i])), an_UnStar = (\<lambda>_ _ i d. (None, d)) \<rparr>"

definition wit_an_env :: "go_error option \<Rightarrow> (string list, nat list) an_env" where
  "wit_an_env create = \<lparr> ae_repo = wit_an_repo create, ae_lb = wit_lb, ae_secret = wit_lb_env \<rparr>"

definition wit_an_query :: url_values where
  "wit_an_query = [''id'' \<mapsto> [wit_song_tr], ''u'' \<mapsto> [''a'']]"

lemma wit_an_params:
  "IDsTypeReq wit_an_query ''id'' [IDTypeSong] w = (Some [wit_song_tr], w)" "Q_Int64s wit_an_query ''time'' w = (Some [], w)"
  "Q_Ints wit_an_query ''duration_ms'' w = (Some [], w)" "BoolDef wit_an_query ''submission'' True w = (Some True, w)"
  "Q_User wit_an_query = ''a''"
  by (simp_all add: IDsTypeReq_def Q_Str_def values_Get_def values_get_all_def wit_an_query_def wit_song_tr_def
      IDRegex_match_def id_types_def id_tail_def IDAlphabet_def Q_Ints_def Q_Int64s_def Q_Strs_def IDsType_def Q_IDs_def BoolDef_def
      id_type_allowed_def GetIDType_def Let_def Q_User_def)

text \<open>The listen reaches the service; the answer and the database depend on the insertion.\<close>

lemma wit_scrobble:
  "handleScrobble (wit_an_env create) (\<lambda>_. 0) wit_an_query w ([], []) =
     (case create of
        None \<Rightarrow> ((ok_write wit_an_query w, False), [wit_song_tr], [1])
      | Some e \<Rightarrow> ((respondErr (Q_Format wit_an_query) (EWrap ''scrobble'' (EWrap ''create scrobbles'' e)) w, False), [], [1]))"
proof -
  have es: "scrobble_entries [wit_song_tr] (scrobble_times (\<lambda>_. 0) (Suc 0) []) (scrobble_durations (Suc 0) []) = [(wit_song_tr, 0, None)]"
    by (simp add: scrobble_entries_def scrobble_times_def scrobble_durations_def)
  have con: "an_con (wit_an_env create) ''a'' [] = Inr \<lparr> con_User = ''a'', con_LBUsername = ''a'', con_Token = ''token'', con_Scrobble = True, con_SyncFeedback = True \<rparr>"
    by (simp add: an_con_def wit_an_env_def wit_an_repo_def wit_lb_env_def wit_lb_repo_def wit_lb_user_def GetListenbrainzConnection_def
        DecryptPassword_def aes_key_ok_def gcm_nonce_size_def)
  have repo: "ae_repo (wit_an_env create) = wit_an_repo create" "ae_lb (wit_an_env create) = wit_lb" by (simp_all add: wit_an_env_def)
  have user: "lr_FindByName (an_lb (wit_an_repo create)) ''a'' [] = Inr (wit_lb_user ''a'')" by (simp add: wit_an_repo_def wit_lb_repo_def)
  have sub: "submits_to_lb (wit_lb_user ''a'')" by (simp add: submits_to_lb_def wit_lb_user_def)
  have new: "new_entries (wit_an_repo create) ''a'' True [(wit_song_tr, 0, None)] [] = Inr [(wit_song_tr, 0, None)]"
    by (simp add: new_entries_def wit_an_repo_def)
  have items: "scrobble_items (wit_an_repo create) ''a'' [(wit_song_tr, 0, None)] [] = Inr [((wit_song_tr, 0, None), wit_lb_song\<lparr>ls_ID := wit_song_tr\<rparr>)]"
    by (simp add: wit_an_repo_def)
  have send: "send_listens (wit_an_env create) ''a'' (Q_Client wit_an_query) True (scrobble_listens True True [((wit_song_tr, 0, None), wit_lb_song\<lparr>ls_ID := wit_song_tr\<rparr>)]) [] [] = (Done True, [1])"
    by (simp add: send_listens_def scrobble_listens_def should_submit_def con repo SubmitSingle_def submit_def wit_lb_def)
  have create: "an_CreateMultiple (wit_an_repo create) (accept_params True
      [scrobble_params ''a'' True True (wit_song_tr, 0, None) (wit_lb_song\<lparr>ls_ID := wit_song_tr\<rparr>)]) [] = (create, [wit_song_tr])"
    by (simp add: wit_an_repo_def accept_params_def scrobble_params_def)
  have tx: "scrobble_tx (wit_an_env create) ''a'' (Q_Client wit_an_query) True True [(wit_song_tr, 0, None)] [] ([], []) =
      (case create of None \<Rightarrow> (Done None, [wit_song_tr], [1]) | Some e \<Rightarrow> (Done (Some (EWrap ''create scrobbles'' e)), [wit_song_tr], [1]))"
    by (simp add: scrobble_tx_def repo new clear_now_playing_def items send Let_def create split: option.split del: scrobble_items.simps)
  have conn: "an_conn (wit_an_repo create) = \<lparr> sc_Constraint = (\<lambda>_. None), sc_Begin = (\<lambda>_. None), sc_Commit = Inr \<rparr>" by (simp add: wit_an_repo_def)
  have request: "scrobble_request (wit_an_env create) wit_an_query True [(wit_song_tr, 0, None)] w ([], []) =
     (case create of
        None \<Rightarrow> ((ok_write wit_an_query w, False), [wit_song_tr], [1])
      | Some e \<Rightarrow> ((respondErr (Q_Format wit_an_query) (EWrap ''scrobble'' (EWrap ''create scrobbles'' e)) w, False), [], [1]))"
    unfolding scrobble_request_def wit_an_params Transaction_def fst_conv repo user sum.case conn
    using tx by (cases create) (simp_all add: sub)
  then show ?thesis
    unfolding handleScrobble_def wit_an_params by (simp add: es)
qed

lemma failed_scrobble_unrecorded_example:
  "snd (handleScrobble (wit_an_env (Some (EMsg ''disk full''))) (\<lambda>_. 0) wit_an_query [] ([], [])) = ([], [1])"
proof -
  have "handleScrobble (wit_an_env (Some (EMsg ''disk full''))) (\<lambda>_. 0) wit_an_query [] ([], []) =
      ((respondErr (Q_Format wit_an_query) (EWrap ''scrobble'' (EWrap ''create scrobbles'' (EMsg ''disk full''))) [], False), [], [1])"
    by (simp add: wit_scrobble)
  from failed_scrobble_unrecorded [OF this] this show ?thesis by simp
qed


lemma wit_star:
  "star_request (wit_an_env None) True wit_an_query [wit_song_tr] w ([], []) = ((ok_write wit_an_query w, False), [wit_song_tr], [])"
proof -
  let ?env = "wit_an_env None"
  have t: "GetIDType wit_song_tr = Some IDTypeSong" by (simp add: wit_song_tr_def GetIDType_def id_types_def)
  then have "star_tx ?env True ''a'' [wit_song_tr] ([], []) = (Done None, [wit_song_tr], [])"
    by (simp add: star_tx_def wit_an_env_def wit_an_repo_def wit_lb_repo_def)
  then have tx: "Transaction (an_conn (ae_repo ?env)) False (star_tx ?env True ''a'' [wit_song_tr]) ([], []) = (Done None, [wit_song_tr], [])"
    by (simp add: Transaction_def) (simp add: wit_an_env_def wit_an_repo_def)
  obtain con where con: "an_con ?env ''a'' d = Inr con" for d
    by (simp add: an_con_def wit_an_env_def wit_an_repo_def wit_lb_env_def wit_lb_repo_def wit_lb_user_def GetListenbrainzConnection_def
        DecryptPassword_def aes_key_ok_def gcm_nonce_size_def)
  have repo: "an_lb (ae_repo ?env) = wit_lb_repo []" by (simp add: wit_an_env_def wit_an_repo_def)
  have "missing_indices (map (song_feedback (\<lambda>_. True)) [wit_lb_song]) = []"
    by (simp add: missing_indices_def song_feedback_def first_artist_def wit_lb_song_def)
  then have "UpdateSongFeedback (ae_lb ?env) (wit_lb_repo []) con (map (song_feedback (\<lambda>_. True)) [wit_lb_song]) [wit_song_tr] [] =
      (Done (Inr 0), [wit_song_tr], [])"
    by (simp add: UpdateSongFeedback_def lookup_loop.simps song_feedback_def wit_lb_song_def wit_lb_repo_def)
  then have up: "upload_stars ?env True ''a'' [wit_lb_song] ([wit_song_tr], []) = (False, [wit_song_tr], [])"
    by (simp add: upload_stars_def con repo)
  have user: "lr_FindByName (wit_lb_repo []) ''a'' d = Inr (wit_lb_user ''a'')" and songs: "lr_FindByIDs (wit_lb_repo []) ids d = Inr [wit_lb_song]" for d ids
    by (simp_all add: wit_lb_repo_def)
  show ?thesis
    by (simp add: star_request_def wit_an_params tx repo user songs up)
qed


end
