(* ===== verification/Playlists.thy ===== *)
theory Playlists
  imports PgDB
begin

text \<open>
  The repository of playlists (\<open>repos/postgres/playlist.go\<close>). The tables \<open>playlists\<close> and \<open>playlist_song\<close> are
  lists of rows; each SQL statement is the function on them that its text says, with the primary key of
  \<open>playlist_song\<close>, which is deferrable. Faults of the database come from a list: the \<open>n\<close>-th element is the fault
  of the \<open>n\<close>-th statement.
\<close>

section \<open>Tables and statements\<close>

record playlist_row =
  pr_ID :: string
  pr_Name :: string
  pr_Created :: int
  pr_Updated :: int
  pr_Owner :: string
  pr_Public :: bool
  pr_Comment :: "string option"

record track_row =
  tr_Playlist :: string
  tr_Song :: string
  tr_Track :: int

record pdb =
  pd_Playlists :: "playlist_row list"
  pd_Tracks :: "track_row list"
  pd_Deferred :: bool

type_synonym pstate = "pdb \<times> faults"

definition track_key :: "track_row \<Rightarrow> string \<times> int" where
  "track_key t = (tr_Playlist t, tr_Track t)"

definition unique_tracks :: "track_row list \<Rightarrow> bool" where
  "unique_tracks ts = distinct (map track_key ts)"

definition pkey_violation :: go_error where
  "pkey_violation = EMsg ''duplicate key value violates unique constraint playlist_song_pkey''"

text \<open>A statement that replaces the rows of \<open>playlist_song\<close>; the key is checked unless its check is deferred.\<close>

definition put_tracks :: "track_row list \<Rightarrow> int \<Rightarrow> pdb \<Rightarrow> (go_error + int option) \<times> pdb" where
  "put_tracks ts n d =
     (if \<not> pd_Deferred d \<and> \<not> unique_tracks ts then (Inl pkey_violation, d)
      else (Inr (Some n), d\<lparr>pd_Tracks := ts\<rparr>))"

definition sql_insert_tracks :: "track_row list \<Rightarrow> pdb \<Rightarrow> (go_error + int option) \<times> pdb" where
  "sql_insert_tracks rows d = put_tracks (pd_Tracks d @ rows) (int (length rows)) d"

definition sql_delete_tracks :: "(track_row \<Rightarrow> bool) \<Rightarrow> pdb \<Rightarrow> (go_error + int option) \<times> pdb" where
  "sql_delete_tracks cond d =
     (Inr (Some (int (length (filter cond (pd_Tracks d))))), d\<lparr>pd_Tracks := filter (\<lambda>t. \<not> cond t) (pd_Tracks d)\<rparr>)"

definition sql_update_tracks :: "(track_row \<Rightarrow> bool) \<Rightarrow> (int \<Rightarrow> int) \<Rightarrow> pdb \<Rightarrow> (go_error + int option) \<times> pdb" where
  "sql_update_tracks cond f d =
     put_tracks (map (\<lambda>t. if cond t then t\<lparr>tr_Track := f (tr_Track t)\<rparr> else t) (pd_Tracks d))
       (int (length (filter cond (pd_Tracks d)))) d"

definition sql_set_deferred :: "pdb \<Rightarrow> (go_error + int option) \<times> pdb" where
  "sql_set_deferred d = (Inr None, d\<lparr>pd_Deferred := True\<rparr>)"

definition tracks_of :: "string \<Rightarrow> pdb \<Rightarrow> track_row list" where
  "tracks_of i d = filter (\<lambda>t. tr_Playlist t = i) (pd_Tracks d)"

text \<open>\<open>COALESCE(MAX(track), -1)\<close>.\<close>

definition sql_max_track :: "string \<Rightarrow> pdb \<Rightarrow> (go_error + int list) \<times> pdb" where
  "sql_max_track i d = (Inr [if tracks_of i d = [] then -1 else Max (set (map tr_Track (tracks_of i d)))], d)"

text \<open>A commit checks what was deferred; the next transaction begins with the check in place.\<close>

definition playlist_conn :: "(go_error \<Rightarrow> string option) \<Rightarrow> (pdb \<Rightarrow> go_error option) \<Rightarrow> (pdb \<Rightarrow> go_error option) \<Rightarrow> pdb sql_conn" where
  "playlist_conn constraint begin_fault commit_fault =
     \<lparr> sc_Constraint = constraint, sc_Begin = begin_fault,
       sc_Commit = (\<lambda>d. case commit_fault d of
         Some e \<Rightarrow> Inl e
       | None \<Rightarrow> if unique_tracks (pd_Tracks d) then Inr (d\<lparr>pd_Deferred := False\<rparr>) else Inl pkey_violation) \<rparr>"

section \<open>Playlists\<close>

record UpdatePlaylistParams =
  up_Name :: "string Optional"
  up_Public :: "bool Optional"
  up_Comment :: "string option Optional"

definition set_playlist :: "UpdatePlaylistParams \<Rightarrow> int \<Rightarrow> playlist_row \<Rightarrow> playlist_row" where
  "set_playlist params now p =
     p\<lparr> pr_Name := (if opt_hasValue (up_Name params) then opt_value (up_Name params) else pr_Name p),
        pr_Public := (if opt_hasValue (up_Public params) then opt_value (up_Public params) else pr_Public p),
        pr_Comment := (if opt_hasValue (up_Comment params) then opt_value (up_Comment params) else pr_Comment p),
        pr_Updated := now \<rparr>"

type_synonym constr = "go_error \<Rightarrow> string option"

definition PL_Create :: "constr \<Rightarrow> string \<Rightarrow> int \<Rightarrow> string \<Rightarrow> string \<Rightarrow> bool \<Rightarrow> string option \<Rightarrow> (pstate, playlist_row) stmt" where
  "PL_Create c new_id now name owner public comment =
     (let row = \<lparr> pr_ID = new_id, pr_Name = name, pr_Created = now, pr_Updated = now, pr_Owner = owner,
                  pr_Public = public, pr_Comment = comment \<rparr>
      in getQuery_row c (faulty (\<lambda>d.
           if new_id \<in> pr_ID ` set (pd_Playlists d)
           then (Inl (EMsg ''duplicate key value violates unique constraint playlists_pkey''), d)
           else (Inr [row], d\<lparr>pd_Playlists := pd_Playlists d @ [row]\<rparr>))))"

definition PL_Update :: "constr \<Rightarrow> int \<Rightarrow> string \<Rightarrow> string \<Rightarrow> UpdatePlaylistParams \<Rightarrow> pstate \<Rightarrow> go_error option \<times> pstate" where
  "PL_Update c now user i params =
     (let hit = (\<lambda>p. pr_ID p = i \<and> pr_Owner p = user)
      in executeQueryExpectAffectedRows c (faulty (\<lambda>d.
           (Inr (Some (int (length (filter hit (pd_Playlists d))))),
            d\<lparr>pd_Playlists := map (\<lambda>p. if hit p then set_playlist params now p else p) (pd_Playlists d)\<rparr>))))"

text \<open>The row and the number of its tracks.\<close>

definition PL_FindByID :: "constr \<Rightarrow> string \<Rightarrow> string \<Rightarrow> bool \<Rightarrow> (pstate, playlist_row \<times> int) stmt" where
  "PL_FindByID c user i allowPublicByDifferentOwner =
     getQuery_row c (faulty (\<lambda>d.
       (Inr (map (\<lambda>p. (p, int (length (tracks_of (pr_ID p) d))))
          (filter (\<lambda>p. pr_ID p = i \<and> (pr_Owner p = user \<or> allowPublicByDifferentOwner \<and> pr_Public p)) (pd_Playlists d))), d)))"

definition PL_Delete :: "constr \<Rightarrow> string \<Rightarrow> string \<Rightarrow> pstate \<Rightarrow> go_error option \<times> pstate" where
  "PL_Delete c user i =
     (let hit = (\<lambda>p. pr_ID p = i \<and> pr_Owner p = user)
      in executeQueryExpectAffectedRows c (faulty (\<lambda>d.
           (Inr (Some (int (length (filter hit (pd_Playlists d))))),
            d\<lparr>pd_Playlists := filter (\<lambda>p. \<not> hit p) (pd_Playlists d),
              pd_Tracks := filter (\<lambda>t. \<not> (\<exists>p \<in> set (pd_Playlists d). hit p \<and> pr_ID p = tr_Playlist t)) (pd_Tracks d)\<rparr>))))"

section \<open>Tracks\<close>

definition PL_GetTracks :: "constr \<Rightarrow> string \<Rightarrow> (pstate, string list) stmt" where
  "PL_GetTracks c i = selectQuery c (faulty (\<lambda>d. (Inr (map tr_Song (sort_key tr_Track (tracks_of i d))), d)))"

definition getMaxTrackNr :: "constr \<Rightarrow> string \<Rightarrow> (pstate, int) stmt" where
  "getMaxTrackNr c i = getQuery_row c (faulty (sql_max_track i))"

definition new_tracks :: "string \<Rightarrow> int \<Rightarrow> string list \<Rightarrow> track_row list" where
  "new_tracks i maxTrackNr songIDs =
     map (\<lambda>(k, sID). \<lparr> tr_Playlist = i, tr_Song = sID, tr_Track = maxTrackNr + int k + 1 \<rparr>) (enumerate 0 songIDs)"

text \<open>The highest number goes from batch to batch.\<close>

definition insert_batch :: "constr \<Rightarrow> string \<Rightarrow> string list \<Rightarrow> int \<times> pstate \<Rightarrow> go_error option \<times> int \<times> pstate" where
  "insert_batch c i songIDs ms =
     (case executeQuery c (faulty (sql_insert_tracks (new_tracks i (fst ms) songIDs))) (snd ms) of
        (err, s) \<Rightarrow> (err, fst ms + int (length songIDs), s))"

definition add_body :: "constr \<Rightarrow> string \<Rightarrow> string list \<Rightarrow> pstate \<Rightarrow> go_error option \<times> pstate" where
  "add_body c i songIDs s =
     (case getMaxTrackNr c i s of
        (Inl e, s) \<Rightarrow> (Some (EWrap ''get max track number'' e), s)
      | (Inr maxTrackNr, s) \<Rightarrow>
          (case execBatch (insert_batch c i) songIDs (maxTrackNr, s) of
             (Some e, _, s) \<Rightarrow> (Some (EWrap ''insert playlist_songs'' e), s)
           | (None, _, s) \<Rightarrow> (None, s)))"

definition PL_AddTracks :: "pdb sql_conn \<Rightarrow> bool \<Rightarrow> string \<Rightarrow> string list \<Rightarrow> pstate \<Rightarrow> go_error option \<times> pstate" where
  "PL_AddTracks conn in_tx i songIDs s =
     (if length songIDs = 0 then (None, s)
      else newTransactionFn conn in_tx (add_body (sc_Constraint conn) i songIDs) s)"

text \<open>The \<open>CASE\<close> over the sorted removed numbers.\<close>

definition track_case :: "int list \<Rightarrow> int \<Rightarrow> int" where
  "track_case nrs t =
     (if length nrs = 1 then t - 1
      else case find (\<lambda>k. t < nrs ! (k + 1)) [0..<length nrs - 1] of
             Some k \<Rightarrow> t - (int k + 1)
           | None \<Rightarrow> t - int (length nrs))"

definition remove_body :: "constr \<Rightarrow> string \<Rightarrow> int list \<Rightarrow> pstate \<Rightarrow> go_error option \<times> pstate" where
  "remove_body c i trackNumbers s =
     (case executeQueryCountAffectedRows c (faulty (sql_delete_tracks (\<lambda>t. tr_Playlist t = i \<and> tr_Track t \<in> set trackNumbers))) s of
        (Inl e, s) \<Rightarrow> (Some (EWrap ''delete playlist_songs'' e), s)
      | (Inr n, s) \<Rightarrow>
          if n \<noteq> int (length trackNumbers) then (Some (EWrap ''delete playlist_songs'' (EType ErrNotFound)), s)
          else let nrs = sort trackNumbers
               in case executeQuery c (faulty sql_set_deferred) s of
                    (Some e, s) \<Rightarrow> (Some (EWrap ''set track key to deferred'' e), s)
                  | (None, s) \<Rightarrow>
                      (case executeQuery c (faulty (sql_update_tracks (\<lambda>t. tr_Playlist t = i \<and> nrs ! 0 < tr_Track t) (track_case nrs))) s of
                         (Some e, s) \<Rightarrow> (Some (EWrap ''update track numbers'' e), s)
                       | (None, s) \<Rightarrow> (None, s)))"

definition PL_RemoveTracks :: "pdb sql_conn \<Rightarrow> bool \<Rightarrow> string \<Rightarrow> int list \<Rightarrow> pstate \<Rightarrow> go_error option \<times> pstate" where
  "PL_RemoveTracks conn in_tx i trackNumbers s =
     (if length trackNumbers = 0 then (None, s)
      else newTransactionFn conn in_tx (remove_body (sc_Constraint conn) i trackNumbers) s)"

definition PL_ClearTracks :: "constr \<Rightarrow> string \<Rightarrow> pstate \<Rightarrow> go_error option \<times> pstate" where
  "PL_ClearTracks c i = executeQuery c (faulty (sql_delete_tracks (\<lambda>t. tr_Playlist t = i)))"

definition PL_SetTracks :: "pdb sql_conn \<Rightarrow> bool \<Rightarrow> string \<Rightarrow> string list \<Rightarrow> pstate \<Rightarrow> go_error option \<times> pstate" where
  "PL_SetTracks conn in_tx i songIDs s =
     (case newTransactionFn conn in_tx
        (\<lambda>s. case PL_ClearTracks (sc_Constraint conn) i s of
               (Some e, s) \<Rightarrow> (Some (EWrap ''clear tracks'' e), s)
             | (None, s) \<Rightarrow>
                 (case PL_AddTracks conn True i songIDs s of
                    (Some e, s) \<Rightarrow> (Some (EWrap ''add tracks'' e), s)
                  | (None, s) \<Rightarrow> (None, s))) s of
        (err, s) \<Rightarrow> (wrapErr (sc_Constraint conn) [] err, s))"

text \<open>\<open>visible owner song\<close>: a folder user of the folder of the song is the owner.\<close>

definition PL_DeleteTracksInaccessible :: "constr \<Rightarrow> (string \<Rightarrow> string \<Rightarrow> bool) \<Rightarrow> pstate \<Rightarrow> go_error option \<times> pstate" where
  "PL_DeleteTracksInaccessible c visible =
     executeQuery c (faulty (\<lambda>d. sql_delete_tracks
       (\<lambda>t. \<exists>p \<in> set (pd_Playlists d). pr_ID p = tr_Playlist t \<and> \<not> visible (pr_Owner p) (tr_Song t)) d))"

text \<open>
  \<open>FixTrackNumbers\<close>: \<open>row_number\<close> counts the tracks of the playlist up to the row. The update joins a row with
  every numbered row of the same song in the playlist whose new number differs from the number of the row
  itself, and takes any one of them: \<open>pick\<close> is that choice.
\<close>

definition row_number :: "track_row list \<Rightarrow> track_row \<Rightarrow> int" where
  "row_number ts t = int (length (filter (\<lambda>u. tr_Playlist u = tr_Playlist t \<and> tr_Track u < tr_Track t) ts))"

definition fix_candidates :: "track_row list \<Rightarrow> track_row \<Rightarrow> int list" where
  "fix_candidates ts t =
     filter (\<lambda>n. n \<noteq> tr_Track t)
       (map (row_number ts) (filter (\<lambda>u. tr_Playlist u = tr_Playlist t \<and> tr_Song u = tr_Song t) ts))"

definition PL_FixTrackNumbers :: "constr \<Rightarrow> (track_row \<Rightarrow> int list \<Rightarrow> int) \<Rightarrow> pstate \<Rightarrow> go_error option \<times> pstate" where
  "PL_FixTrackNumbers c pick =
     executeQuery c (faulty (\<lambda>d.
       let ts = pd_Tracks d; hit = (\<lambda>t. fix_candidates ts t \<noteq> [])
       in put_tracks (map (\<lambda>t. if hit t then t\<lparr>tr_Track := pick t (fix_candidates ts t)\<rparr> else t) ts)
            (int (length (filter hit ts))) d))"

section \<open>Numbered tracks\<close>

text \<open>A list of songs with their positions, and the playlists whose rows are such a list.\<close>

definition numbered :: "string list \<Rightarrow> (int \<times> string) list" where
  "numbered xs = map (\<lambda>(k, s). (int k, s)) (enumerate 0 xs)"

definition track_pair :: "track_row \<Rightarrow> int \<times> string" where
  "track_pair t = (tr_Track t, tr_Song t)"

definition tr_holds :: "pdb \<Rightarrow> string \<Rightarrow> string list \<Rightarrow> bool" where
  "tr_holds d i xs \<longleftrightarrow> mset (map track_pair (tracks_of i d)) = mset (numbered xs)"

definition tracks_wf :: "pdb \<Rightarrow> bool" where
  "tracks_wf d \<longleftrightarrow> (\<forall>i. \<exists>xs. tr_holds d i xs)"

lemma numbered_Nil [simp]: "numbered [] = []"
  by (simp add: numbered_def)

lemma numbered_snoc: "numbered (xs @ [x]) = numbered xs @ [(int (length xs), x)]"
  by (simp add: numbered_def enumerate_append_eq)

lemma length_numbered [simp]: "length (numbered xs) = length xs"
  by (simp add: numbered_def)

lemma nth_numbered: "k < length xs \<Longrightarrow> numbered xs ! k = (int k, xs ! k)"
  by (simp add: numbered_def nth_enumerate_eq)

lemma fst_numbered: "map fst (numbered xs) = map int [0..<length xs]"
  by (rule nth_equalityI) (simp_all add: nth_numbered)

lemma snd_numbered: "map snd (numbered xs) = xs"
  by (rule nth_equalityI) (simp_all add: nth_numbered)

lemma sorted_numbered: "sorted (map fst (numbered xs))" "distinct (map fst (numbered xs))"
  by (simp_all add: fst_numbered sorted_iff_nth_mono distinct_map)

lemma numbered_append:
  "numbered (xs @ ys) = numbered xs @ map (\<lambda>(k, s). (int (length xs) + int k, s)) (enumerate 0 ys)"
  by (rule nth_equalityI) (auto simp: nth_append nth_numbered nth_enumerate_eq)

lemma tr_holds_keys:
  assumes "tr_holds d i xs"
  shows "mset (map tr_Track (tracks_of i d)) = mset (map int [0..<length xs])"
proof -
  have "map tr_Track (tracks_of i d) = map fst (map track_pair (tracks_of i d))" by (simp add: track_pair_def)
  with assms show ?thesis unfolding tr_holds_def fst_numbered [symmetric] by (metis mset_map)
qed

lemma tr_holds_length: "tr_holds d i xs \<Longrightarrow> length (tracks_of i d) = length xs"
  by (metis length_map length_numbered size_mset tr_holds_def)

lemma mset_eq_distinct: "mset xs = mset ys \<Longrightarrow> distinct ys \<Longrightarrow> distinct xs"
  by (metis mset_eq_imp_distinct_iff)

lemma tr_holds_distinct: "tr_holds d i xs \<Longrightarrow> distinct (map tr_Track (tracks_of i d))"
  by (drule tr_holds_keys, erule mset_eq_distinct) (simp add: distinct_map)

lemma unique_tracks_iff: "unique_tracks (pd_Tracks d) \<longleftrightarrow> (\<forall>i. distinct (map tr_Track (tracks_of i d)))"
proof -
  have "distinct (map track_key ts) \<longleftrightarrow> (\<forall>i. distinct (map tr_Track (filter (\<lambda>t. tr_Playlist t = i) ts)))" for ts
    by (induction ts) (auto simp: track_key_def image_iff)
  then show ?thesis by (simp add: unique_tracks_def tracks_of_def)
qed

lemma tracks_wf_unique: "tracks_wf d \<Longrightarrow> unique_tracks (pd_Tracks d)"
  unfolding unique_tracks_iff tracks_wf_def using tr_holds_distinct by blast

text \<open>Reading the tracks gives the list.\<close>

lemma tr_holds_songs: "tr_holds d i xs \<Longrightarrow> map tr_Song (sort_key tr_Track (tracks_of i d)) = xs"
proof -
  assume h: "tr_holds d i xs"
  let ?ts = "tracks_of i d"
  have "mset (map track_pair (sort_key tr_Track ?ts)) = mset (numbered xs)" using h by (simp add: tr_holds_def)
  moreover have "sorted (map fst (map track_pair (sort_key tr_Track ?ts)))" by (simp add: track_pair_def comp_def)
  ultimately have "map track_pair (sort_key tr_Track ?ts) = numbered xs"
    using sorted_numbered [of xs] by (metis (no_types, lifting) distinct_map mset_eq_setD sort_key_inj_key_eq)
  then have "map snd (map track_pair (sort_key tr_Track ?ts)) = xs" by (simp add: snd_numbered)
  then show ?thesis by (simp add: track_pair_def comp_def)
qed

lemma tr_holds_unique: "tr_holds d i xs \<Longrightarrow> tr_holds d i ys \<Longrightarrow> xs = ys"
  using tr_holds_songs by blast

lemma tr_holds_cong: "pd_Tracks d = pd_Tracks d' \<Longrightarrow> tr_holds d i xs = tr_holds d' i xs"
  by (simp add: tr_holds_def tracks_of_def)

section \<open>Appending\<close>

lemma new_tracks_append: "new_tracks i m (xs @ ys) = new_tracks i m xs @ new_tracks i (m + int (length xs)) ys"
  by (rule nth_equalityI) (auto simp: new_tracks_def nth_append nth_enumerate_eq)

lemma new_tracks_of: "filter (\<lambda>t. tr_Playlist t = j) (new_tracks i m xs) = (if j = i then new_tracks i m xs else [])"
  by (auto simp: new_tracks_def filter_id_conv filter_empty_conv)

lemma track_pair_new: "map track_pair (new_tracks i m xs) = map (\<lambda>(k, s). (m + 1 + int k, s)) (enumerate 0 xs)"
  by (rule nth_equalityI) (auto simp: new_tracks_def track_pair_def nth_enumerate_eq)

lemma insert_batches:
  "send_all (insert_batch c i) bs (m, d, fs) = (None, m', d', fs') \<Longrightarrow>
     pd_Tracks d' = pd_Tracks d @ new_tracks i m (concat bs) \<and> pd_Playlists d' = pd_Playlists d \<and> pd_Deferred d' = pd_Deferred d"
proof (induction bs arbitrary: m d fs)
  case Nil
  then show ?case by (simp add: new_tracks_def)
next
  case (Cons b bs)
  from Cons.prems obtain m1 d1 fs1 where ib: "insert_batch c i b (m, d, fs) = (None, m1, d1, fs1)"
    and r: "send_all (insert_batch c i) bs (m1, d1, fs1) = (None, m', d', fs')"
    by (auto split: prod.splits option.splits)
  from ib have m1: "m1 = m + int (length b)"
    and e: "executeQuery c (faulty (sql_insert_tracks (new_tracks i m b))) (d, fs) = (None, d1, fs1)"
    by (auto simp: insert_batch_def split: prod.splits)
  from e obtain n where "sql_insert_tracks (new_tracks i m b) d = (Inr n, d1)"
    by (auto dest!: executeQuery_None faulty_Inr)
  then have "d1 = d\<lparr>pd_Tracks := pd_Tracks d @ new_tracks i m b\<rparr>"
    by (auto simp: sql_insert_tracks_def put_tracks_def split: if_splits)
  with Cons.IH [OF r] m1 show ?case by (simp add: new_tracks_append)
qed

lemma max_track:
  assumes "tr_holds d i xs"
  shows "sql_max_track i d = (Inr [int (length xs) - 1], d)"
proof (cases "xs = []")
  case True
  then show ?thesis using tr_holds_length [OF assms] by (simp add: sql_max_track_def)
next
  case False
  have "set (map tr_Track (tracks_of i d)) = set (map int [0..<length xs])"
    using tr_holds_keys [OF assms] by (rule mset_eq_setD)
  then have s: "set (map tr_Track (tracks_of i d)) = int ` {0..<length xs}" by simp
  have "Max (int ` {0..<length xs}) = int (length xs) - 1"
    using False by (cases xs rule: rev_cases) (auto intro!: Max_eqI)
  with s False tr_holds_length [OF assms] show ?thesis by (auto simp: sql_max_track_def)
qed

text \<open>What adding does to the rows of the playlist and to the others.\<close>

lemma tr_holds_added:
  assumes "pd_Tracks d' = pd_Tracks d @ new_tracks i (int (length xs) - 1) ys" "tr_holds d i xs"
  shows "tr_holds d' i (xs @ ys)" "j \<noteq> i \<Longrightarrow> tr_holds d' j zs = tr_holds d j zs"
  using assms unfolding tr_holds_def tracks_of_def numbered_append by (simp_all add: new_tracks_of track_pair_new)

lemma add_body_rows:
  assumes "add_body c i ys s = (None, s')"
    and "tr_holds (fst s) i xs"
  shows "pd_Tracks (fst s') = pd_Tracks (fst s) @ new_tracks i (int (length xs) - 1) ys"
    "pd_Playlists (fst s') = pd_Playlists (fst s)" "pd_Deferred (fst s') = pd_Deferred (fst s)"
proof -
  from assms(1) obtain m s1 m' where q: "getMaxTrackNr c i s = (Inr m, s1)"
      and e: "execBatch (insert_batch c i) ys (m, s1) = (None, m', s')"
    by (auto simp: add_body_def split: prod.splits sum.splits option.splits)
  from q have "sql_max_track i (fst s) = (Inr [m], fst s1)"
    unfolding getMaxTrackNr_def by (auto dest!: getQuery_row_Inr faulty_Inr)
  with max_track [OF assms(2)] have m: "m = int (length xs) - 1" "fst s1 = fst s" by auto
  obtain d1 fs1 where s1: "s1 = (d1, fs1)" by fastforce
  obtain d' fs' where s': "s' = (d', fs')" by fastforce
  have "concat (pieces execBatchSize ys) = ys" by (rule concat_pieces) (simp add: execBatchSize_def)
  with insert_batches [of c i "pieces execBatchSize ys" m d1 fs1 m' d' fs'] e m s1 s'
  show "pd_Tracks (fst s') = pd_Tracks (fst s) @ new_tracks i (int (length xs) - 1) ys"
    "pd_Playlists (fst s') = pd_Playlists (fst s)" "pd_Deferred (fst s') = pd_Deferred (fst s)"
    by (auto simp: execBatch_all_pieces)
qed

section \<open>Removing\<close>

text \<open>In a sorted list the elements below a bound are those before the first that reaches it.\<close>

lemma sorted_below:
  fixes ns :: "int list"
  assumes "sorted ns" "k \<le> length ns" "\<And>j. j < k \<Longrightarrow> ns ! j < t" "k < length ns \<Longrightarrow> t \<le> ns ! k"
  shows "length (filter (\<lambda>n. n < t) ns) = k"
proof -
  have "filter (\<lambda>n. n < t) (take k ns) = take k ns"
    using assms(2,3) by (auto simp: filter_id_conv in_set_conv_nth)
  moreover have "filter (\<lambda>n. n < t) (drop k ns) = []"
  proof (cases "k < length ns")
    case True
    have "t \<le> n" if "n \<in> set (drop k ns)" for n
    proof -
      from that obtain j where "j < length (drop k ns)" "n = drop k ns ! j" by (auto simp: in_set_conv_nth)
      then have "ns ! k \<le> n" using assms(1) by (simp add: sorted_iff_nth_mono)
      with assms(4) [OF True] show ?thesis by simp
    qed
    then show ?thesis by (auto simp: filter_empty_conv not_less)
  qed simp
  ultimately show ?thesis
    using assms(2) by (metis append_Nil2 append_take_drop_id filter_append length_take min.absorb2)
qed

text \<open>The \<open>CASE\<close> takes off the number of removed tracks below.\<close>

lemma track_case_below:
  assumes "sorted ns" "distinct ns" "ns \<noteq> []" "t \<notin> set ns"
  shows "(if ns ! 0 < t then track_case ns t else t) = t - int (length (filter (\<lambda>n. n < t) ns))"
proof -
  have ne: "j < length ns \<Longrightarrow> ns ! j \<noteq> t" for j using assms(4) by (metis nth_mem)
  have mono: "i \<le> j \<Longrightarrow> j < length ns \<Longrightarrow> ns ! i \<le> ns ! j" for i j using assms(1) by (simp add: sorted_iff_nth_mono)
  have len: "0 < length ns" using assms(3) by simp
  consider "t < ns ! 0" | "ns ! 0 < t" "length ns = 1" | "ns ! 0 < t" "1 < length ns" using ne [OF len] len by linarith
  then show ?thesis
  proof cases
    case 1
    then show ?thesis using sorted_below [OF assms(1), of 0 t] by simp
  next
    case 2
    then show ?thesis using sorted_below [OF assms(1), of 1 t] by (simp add: track_case_def)
  next
    case 3
    show ?thesis
    proof (cases "find (\<lambda>k. t < ns ! (k + 1)) [0..<length ns - 1]")
      case None
      then have hi: "\<not> t < ns ! (k + 1)" if "k < length ns - 1" for k using that by (auto simp: find_None_iff)
      have "ns ! j < t" if "j < length ns" for j
        using hi [of "j - 1"] ne [OF that] that 3 by (cases j) (simp_all add: less_diff_conv)
      then have "length (filter (\<lambda>n. n < t) ns) = length ns" by (intro sorted_below [OF assms(1)]) auto
      with 3 None show ?thesis by (simp add: track_case_def)
    next
      case (Some k)
      then have k: "k < length ns - 1" "t < ns ! (k + 1)" and before: "\<And>j. j < k \<Longrightarrow> \<not> t < ns ! (j + 1)"
        by (auto simp: find_Some_iff)
      have "ns ! j < t" if "j < k + 1" for j
        using before [of "j - 1"] ne [of j] that 3 k(1) by (cases j) (simp_all add: less_diff_conv)
      then have "length (filter (\<lambda>n. n < t) ns) = k + 1" using k by (intro sorted_below [OF assms(1)]) auto
      with 3 Some show ?thesis by (simp add: track_case_def)
    qed
  qed
qed

text \<open>Numbering what is kept is taking off the number of those not kept below.\<close>

lemma numbered_nths:
  "numbered (nths xs I) =
     map (\<lambda>(k, s). (k - int (card {n. n < nat k \<and> n \<notin> I}), s)) (filter (\<lambda>(k, s). nat k \<in> I) (numbered xs))"
proof (induction xs rule: rev_induct)
  case (snoc x xs)
  show ?case
  proof (cases "length xs \<in> I")
    case True
    have "card {n. n < length xs \<and> n \<in> I} + card {n. n < length xs \<and> n \<notin> I} = card ({n. n < length xs \<and> n \<in> I} \<union> {n. n < length xs \<and> n \<notin> I})"
      by (subst card_Un_disjoint) auto
    also have "{n. n < length xs \<and> n \<in> I} \<union> {n. n < length xs \<and> n \<notin> I} = {..<length xs}" by auto
    finally have "int (length (nths xs I)) = int (length xs) - int (card {n. n < length xs \<and> n \<notin> I})"
      by (simp add: length_nths)
    with True snoc show ?thesis by (simp add: nths_append nths_singleton numbered_snoc)
  next
    case False
    with snoc show ?thesis by (simp add: nths_append nths_singleton numbered_snoc)
  qed
qed (simp add: nths_def)

definition kept :: "int list \<Rightarrow> nat set" where
  "kept nrs = {k. int k \<notin> set nrs}"

lemma removed_numbers:
  assumes "sorted ns" "distinct ns" "ns \<noteq> []" "\<forall>n \<in> set ns. 0 \<le> n"
  shows "map (\<lambda>(k, s). (if ns ! 0 < k then track_case ns k else k, s)) (filter (\<lambda>(k, s). k \<notin> set ns) (numbered xs)) = numbered (nths xs (kept ns))"
proof -
  have below: "length (filter (\<lambda>n. n < int k) ns) = card {n. n < k \<and> n \<notin> kept ns}" for k
  proof -
    have "length (filter (\<lambda>n. n < int k) ns) = card {n \<in> set ns. n < int k}"
      using assms(2) by (metis distinct_card distinct_filter set_filter)
    also have "{n \<in> set ns. n < int k} = int ` {n. n < k \<and> n \<notin> kept ns}"
      using assms(4) by (auto simp: kept_def image_iff) (metis nonneg_int_cases of_nat_less_iff)
    also have "card \<dots> = card {n. n < k \<and> n \<notin> kept ns}" by (simp add: card_image)
    finally show ?thesis .
  qed
  have pos: "\<exists>n. fst p = int n" if "p \<in> set (numbered xs)" for p
    using that by (auto simp: in_set_conv_nth nth_numbered)
  have f: "filter (\<lambda>(k, s). k \<notin> set ns) (numbered xs) = filter (\<lambda>(k, s). nat k \<in> kept ns) (numbered xs)"
    by (rule filter_cong) (auto simp: kept_def dest!: pos)
  show ?thesis
    unfolding numbered_nths f
  proof (rule map_cong [OF refl])
    fix p assume p: "p \<in> set (filter (\<lambda>(k, s). nat k \<in> kept ns) (numbered xs))"
    then obtain k where k: "fst p = int k" using pos by fastforce
    with p have "int k \<notin> set ns" by (auto simp: kept_def)
    from track_case_below [OF assms(1-3) this] k below [of k]
    show "(\<lambda>(k, s). (if ns ! 0 < k then track_case ns k else k, s)) p = (\<lambda>(k, s). (k - int (card {n. n < nat k \<and> n \<notin> kept ns}), s)) p"
      by (cases p) simp
  qed
qed

lemma removed_count:
  assumes "tr_holds d i xs"
  shows "length (filter (\<lambda>t. tr_Playlist t = i \<and> tr_Track t \<in> set nrs) (pd_Tracks d)) = card (set nrs \<inter> int ` {..<length xs})"
proof -
  have "length (filter (\<lambda>t. tr_Playlist t = i \<and> tr_Track t \<in> set nrs) (pd_Tracks d)) =
      length (filter (\<lambda>k. k \<in> set nrs) (map tr_Track (tracks_of i d)))"
    by (simp add: tracks_of_def filter_map comp_def conj_commute)
  also have "\<dots> = length (filter (\<lambda>k. k \<in> set nrs) (map int [0..<length xs]))"
    using tr_holds_keys [OF assms] by (metis mset_filter size_mset)
  also have "\<dots> = card (set nrs \<inter> int ` {..<length xs})"
    by (subst distinct_card [symmetric]) (auto simp: distinct_map intro: arg_cong [where f = card])
  finally show ?thesis .
qed

definition removable :: "int list \<Rightarrow> string list \<Rightarrow> bool" where
  "removable nrs xs \<longleftrightarrow> distinct nrs \<and> set nrs \<subseteq> int ` {..<length xs}"

lemma removable_count: "card (set nrs \<inter> int ` {..<n}) = length nrs \<longleftrightarrow> distinct nrs \<and> set nrs \<subseteq> int ` {..<n}"
proof
  assume c: "card (set nrs \<inter> int ` {..<n}) = length nrs"
  have "card (set nrs \<inter> int ` {..<n}) \<le> card (set nrs)" by (rule card_mono) auto
  moreover have "card (set nrs) \<le> length nrs" by (rule card_length)
  ultimately have "card (set nrs) = length nrs" "card (set nrs \<inter> int ` {..<n}) = card (set nrs)" using c by auto
  then show "distinct nrs \<and> set nrs \<subseteq> int ` {..<n}"
    using card_distinct card_subset_eq [of "set nrs" "set nrs \<inter> int ` {..<n}"] by blast
next
  assume "distinct nrs \<and> set nrs \<subseteq> int ` {..<n}"
  then show "card (set nrs \<inter> int ` {..<n}) = length nrs" by (metis distinct_card inf.orderE)
qed

text \<open>The two statements, on the rows.\<close>

definition without_tracks :: "string \<Rightarrow> int list \<Rightarrow> track_row list \<Rightarrow> track_row list" where
  "without_tracks i nrs ts =
     map (\<lambda>t. if tr_Playlist t = i \<and> sort nrs ! 0 < tr_Track t then t\<lparr>tr_Track := track_case (sort nrs) (tr_Track t)\<rparr> else t)
       (filter (\<lambda>t. \<not> (tr_Playlist t = i \<and> tr_Track t \<in> set nrs)) ts)"

lemma tr_holds_removed:
  assumes "tr_holds d i xs" "removable nrs xs" "nrs \<noteq> []" "pd_Tracks d' = without_tracks i nrs (pd_Tracks d)"
  shows "tr_holds d' i (nths xs (kept nrs))" "j \<noteq> i \<Longrightarrow> tr_holds d' j zs = tr_holds d j zs"
proof -
  let ?f = "\<lambda>(k, s). (if sort nrs ! 0 < k then track_case (sort nrs) k else k, s)"
  have ne: "sort nrs \<noteq> []" using assms(3) by (metis length_0_conv length_sort)
  have *: "map track_pair (filter (\<lambda>t. tr_Playlist t = i) (without_tracks i nrs ts)) =
      map ?f (filter (\<lambda>(k, s). k \<notin> set nrs) (map track_pair (filter (\<lambda>t. tr_Playlist t = i) ts)))" for ts
    unfolding without_tracks_def by (induction ts) (auto simp: track_pair_def)
  have pairs: "map track_pair (tracks_of i d') = map ?f (filter (\<lambda>(k, s). k \<notin> set nrs) (map track_pair (tracks_of i d)))"
    unfolding tracks_of_def assms(4) by (rule *)
  have "mset (map track_pair (tracks_of i d')) = mset (map ?f (filter (\<lambda>(k, s). k \<notin> set (sort nrs)) (numbered xs)))"
    using assms(1) unfolding pairs tr_holds_def by (simp only: mset_map mset_filter set_sort)
  also have "map ?f (filter (\<lambda>(k, s). k \<notin> set (sort nrs)) (numbered xs)) = numbered (nths xs (kept (sort nrs)))"
    using assms(2) ne by (intro removed_numbers) (auto simp: removable_def)
  finally show "tr_holds d' i (nths xs (kept nrs))" by (simp add: tr_holds_def kept_def)
  assume "j \<noteq> i"
  have "filter (\<lambda>t. tr_Playlist t = j) (without_tracks i nrs ts) = filter (\<lambda>t. tr_Playlist t = j) ts" for ts
    unfolding without_tracks_def using \<open>j \<noteq> i\<close> by (induction ts) auto
  then have "tracks_of j d' = tracks_of j d" unfolding tracks_of_def assms(4) by simp
  then show "tr_holds d' j zs = tr_holds d j zs" by (simp add: tr_holds_def)
qed

lemma remove_body_rows:
  assumes "remove_body c i nrs s = (None, s')" "tr_holds (fst s) i xs"
  shows "removable nrs xs" "pd_Tracks (fst s') = without_tracks i nrs (pd_Tracks (fst s))"
    "pd_Playlists (fst s') = pd_Playlists (fst s)" "pd_Deferred (fst s')"
proof -
  let ?del = "\<lambda>t. tr_Playlist t = i \<and> tr_Track t \<in> set nrs"
  from assms(1) obtain n s1 s2 where d: "executeQueryCountAffectedRows c (faulty (sql_delete_tracks ?del)) s = (Inr n, s1)"
      and n: "n = int (length nrs)" and f: "executeQuery c (faulty sql_set_deferred) s1 = (None, s2)"
      and u: "executeQuery c (faulty (sql_update_tracks (\<lambda>t. tr_Playlist t = i \<and> sort nrs ! 0 < tr_Track t) (track_case (sort nrs)))) s2 = (None, s')"
    by (auto simp: remove_body_def Let_def split: prod.splits sum.splits option.splits if_splits)
  from d have 1: "fst s1 = (fst s)\<lparr>pd_Tracks := filter (\<lambda>t. \<not> ?del t) (pd_Tracks (fst s))\<rparr>"
      and 2: "n = int (length (filter ?del (pd_Tracks (fst s))))"
    unfolding executeQueryCountAffectedRows_def by (auto dest!: faulty_Inr simp: sql_delete_tracks_def split: prod.splits sum.splits)
  from 2 n removed_count [OF assms(2), of nrs] have "card (set nrs \<inter> int ` {..<length xs}) = length nrs" by simp
  then show "removable nrs xs" by (simp add: removable_count removable_def)
  from f have 3: "fst s2 = (fst s1)\<lparr>pd_Deferred := True\<rparr>"
    by (auto dest!: executeQuery_None faulty_Inr simp: sql_set_deferred_def)
  from u have "fst s' = snd (sql_update_tracks (\<lambda>t. tr_Playlist t = i \<and> sort nrs ! 0 < tr_Track t) (track_case (sort nrs)) (fst s2))"
    by (auto dest!: executeQuery_None faulty_state)
  with 3 1 show "pd_Tracks (fst s') = without_tracks i nrs (pd_Tracks (fst s))"
    "pd_Playlists (fst s') = pd_Playlists (fst s)" "pd_Deferred (fst s')"
    by (simp_all add: sql_update_tracks_def put_tracks_def without_tracks_def)
qed

text \<open>Without faults the body succeeds if the numbers are distinct and exist, and otherwise reports that they do not.\<close>

lemma remove_body_ok:
  assumes "tr_holds d i xs" "removable nrs xs"
  shows "\<exists>d'. remove_body c i nrs (d, []) = (None, d', [])"
proof -
  have "int (length (filter (\<lambda>t. tr_Playlist t = i \<and> tr_Track t \<in> set nrs) (pd_Tracks d))) = int (length nrs)"
    using removed_count [OF assms(1), of nrs] assms(2) by (simp add: removable_count removable_def)
  then show ?thesis
    by (simp add: remove_body_def executeQueryCountAffectedRows_def executeQuery_def faulty_def sql_delete_tracks_def
        sql_set_deferred_def sql_update_tracks_def put_tracks_def Let_def)
qed

lemma remove_body_missing:
  assumes "tr_holds d i xs" "\<not> removable nrs xs"
  shows "\<exists>d'. remove_body c i nrs (d, []) = (Some (EWrap ''delete playlist_songs'' (EType ErrNotFound)), d', [])"
proof -
  have "int (length (filter (\<lambda>t. tr_Playlist t = i \<and> tr_Track t \<in> set nrs) (pd_Tracks d))) \<noteq> int (length nrs)"
    using removed_count [OF assms(1), of nrs] assms(2) by (simp add: removable_count removable_def)
  then show ?thesis
    by (simp add: remove_body_def executeQueryCountAffectedRows_def faulty_def sql_delete_tracks_def Let_def)
qed

definition healthy :: "constr \<Rightarrow> pdb sql_conn" where
  "healthy c = playlist_conn c (\<lambda>_. None) (\<lambda>_. None)"

lemma removed_wf:
  assumes "tracks_wf d" "tr_holds d i xs" "removable nrs xs" "nrs \<noteq> []" "pd_Tracks d' = without_tracks i nrs (pd_Tracks d)"
  shows "tracks_wf d'"
  unfolding tracks_wf_def
proof
  fix j
  show "\<exists>zs. tr_holds d' j zs"
    using tr_holds_removed [OF assms(2-5)] assms(1) by (cases "j = i") (auto simp: tracks_wf_def)
qed

text \<open>
  C15: removing tracks from a numbered playlist keeps exactly the songs at the other positions, in order and
  numbered without gaps, and leaves all other playlists alone; numbers that are repeated or do not exist are an error that
  is \<open>not found\<close> and changes nothing.
\<close>

theorem remove_tracks_spec:
  assumes "tracks_wf d" "tr_holds d i xs" "nrs \<noteq> []"
  shows "if removable nrs xs
    then \<exists>d'. PL_RemoveTracks (healthy c) False i nrs (d, []) = (None, d', []) \<and> tr_holds d' i (nths xs (kept nrs))
           \<and> (\<forall>j zs. j \<noteq> i \<longrightarrow> tr_holds d' j zs = tr_holds d j zs) \<and> tracks_wf d'
    else \<exists>e. PL_RemoveTracks (healthy c) False i nrs (d, []) = (Some e, d, []) \<and> errors_Is e (EType ErrNotFound)"
proof (cases "removable nrs xs")
  case True
  from remove_body_ok [OF assms(2) True] obtain d1 where b: "remove_body c i nrs (d, []) = (None, d1, [])" ..
  have rows: "pd_Tracks d1 = without_tracks i nrs (pd_Tracks d)"
    using remove_body_rows(2) [OF b] assms(2) by simp
  define d' where "d' = d1\<lparr>pd_Deferred := False\<rparr>"
  have rows': "pd_Tracks d' = without_tracks i nrs (pd_Tracks d)" by (simp add: d'_def rows)
  have wf: "tracks_wf d'" using removed_wf [OF assms(1,2) True assms(3) rows'] .
  then have "unique_tracks (pd_Tracks d1)" using tracks_wf_unique [of d'] by (simp add: d'_def)
  with b have "PL_RemoveTracks (healthy c) False i nrs (d, []) = (None, d', [])"
    using assms(3) by (simp add: PL_RemoveTracks_def newTransactionFn_def healthy_def playlist_conn_def d'_def Let_def)
  with True wf tr_holds_removed [OF assms(2) True assms(3) rows'] show ?thesis by auto
next
  case False
  from remove_body_missing [OF assms(2) False] obtain d1 where
    "remove_body c i nrs (d, []) = (Some (EWrap ''delete playlist_songs'' (EType ErrNotFound)), d1, [])" ..
  then have "PL_RemoveTracks (healthy c) False i nrs (d, []) =
      (Some (NewError [] ErrNotFound (Some (EWrap ''delete playlist_songs'' (EType ErrNotFound)))), d, [])"
    using assms(3) by (simp add: PL_RemoveTracks_def newTransactionFn_def healthy_def playlist_conn_def wrapErr_def sqlErrToErrType_def Let_def)
  with False show ?thesis by (auto simp: NewError_def errors_Is_def err_is1_def)
qed

section \<open>Adding always succeeds on a sound database\<close>

lemma added_wf:
  assumes "tracks_wf d" "tr_holds d i xs" "pd_Tracks d' = pd_Tracks d @ new_tracks i (int (length xs) - 1) ys"
  shows "tracks_wf d'"
  unfolding tracks_wf_def
proof
  fix j
  show "\<exists>zs. tr_holds d' j zs"
    using tr_holds_added [OF assms(3,2)] assms(1) by (cases "j = i") (auto simp: tracks_wf_def)
qed

lemma insert_batches_ok:
  "tracks_wf d \<Longrightarrow> tr_holds d i xs \<Longrightarrow>
     \<exists>m' d'. send_all (insert_batch c i) bs (int (length xs) - 1, d, []) = (None, m', d', [])"
proof (induction bs arbitrary: d xs)
  case (Cons b bs)
  define d1 where "d1 = d\<lparr>pd_Tracks := pd_Tracks d @ new_tracks i (int (length xs) - 1) b\<rparr>"
  have rows: "pd_Tracks d1 = pd_Tracks d @ new_tracks i (int (length xs) - 1) b" by (simp add: d1_def)
  have wf: "tracks_wf d1" using added_wf [OF Cons.prems rows] .
  have "insert_batch c i b (int (length xs) - 1, d, []) = (None, int (length (xs @ b)) - 1, d1, [])"
    using tracks_wf_unique [OF wf]
    by (simp add: insert_batch_def executeQuery_def faulty_def sql_insert_tracks_def put_tracks_def d1_def algebra_simps)
  moreover obtain m' d' where "send_all (insert_batch c i) bs (int (length (xs @ b)) - 1, d1, []) = (None, m', d', [])"
    using Cons.IH [OF wf tr_holds_added(1) [OF rows Cons.prems(2)]] by blast
  ultimately show ?case by simp
qed simp

lemma add_body_ok:
  assumes "tracks_wf d" "tr_holds d i xs"
  shows "\<exists>d'. add_body c i ys (d, []) = (None, d', [])"
proof -
  obtain m' d' where "send_all (insert_batch c i) (pieces execBatchSize ys) (int (length xs) - 1, d, []) = (None, m', d', [])"
    using insert_batches_ok [OF assms] by blast
  then show ?thesis
    by (simp add: add_body_def getMaxTrackNr_def getQuery_row_def selectQuery_def faulty_def max_track [OF assms(2)] execBatch_all_pieces)
qed

text \<open>
  Adding tracks to a numbered playlist appends them in order and leaves all other playlists alone, however
  many batches it takes.\<close>

lemma add_tracks_spec:
  assumes "tracks_wf d" "tr_holds d i xs" "\<not> pd_Deferred d"
  shows "\<exists>d'. PL_AddTracks (healthy c) False i ys (d, []) = (None, d', []) \<and> tr_holds d' i (xs @ ys)
    \<and> (\<forall>j zs. j \<noteq> i \<longrightarrow> tr_holds d' j zs = tr_holds d j zs) \<and> tracks_wf d'"
proof (cases "ys = []")
  case True
  with assms show ?thesis by (auto simp: PL_AddTracks_def)
next
  case False
  from add_body_ok [OF assms(1,2)] obtain d' where b: "add_body c i ys (d, []) = (None, d', [])" ..
  have rows: "pd_Tracks d' = pd_Tracks d @ new_tracks i (int (length xs) - 1) ys"
    and "\<not> pd_Deferred d'" using add_body_rows [OF b] assms(2,3) by simp_all
  then have "d'\<lparr>pd_Deferred := False\<rparr> = d'" by simp
  moreover have wf: "tracks_wf d'" using added_wf [OF assms(1,2) rows] .
  ultimately have "PL_AddTracks (healthy c) False i ys (d, []) = (None, d', [])"
    using False b tracks_wf_unique [OF wf]
    by (simp add: PL_AddTracks_def newTransactionFn_def healthy_def playlist_conn_def Let_def)
  with wf tr_holds_added [OF rows assms(2)] show ?thesis by blast
qed

section \<open>Closing gaps\<close>

text \<open>In a list sorted by distinct keys the position of an element is the number of smaller keys.\<close>

lemma position_is_count:
  fixes f :: "'a \<Rightarrow> int"
  assumes "sorted (map f ts)" "distinct (map f ts)" "k < length ts"
  shows "length (filter (\<lambda>u. f u < f (ts ! k)) ts) = k"
proof -
  have lt: "f (ts ! j) < f (ts ! k)" if "j < k" for j
  proof -
    have "f (ts ! j) \<le> f (ts ! k)" using sorted_nth_mono [OF assms(1), of j k] that assms(3) by simp
    moreover have "f (ts ! j) \<noteq> f (ts ! k)" using assms(2,3) that nth_eq_iff_index_eq [of "map f ts" j k] by simp
    ultimately show ?thesis by simp
  qed
  have "length (filter (\<lambda>n. n < f (ts ! k)) (map f ts)) = k"
    using assms(3) lt by (intro sorted_below [OF assms(1)]) auto
  then show ?thesis by (simp add: filter_map comp_def)
qed

definition content :: "pdb \<Rightarrow> string \<Rightarrow> string list" where
  "content d i = map tr_Song (sort_key tr_Track (tracks_of i d))"

lemma row_numbers:
  assumes "distinct (map tr_Track (tracks_of i d))"
  shows "mset (map (\<lambda>t. (row_number (pd_Tracks d) t, tr_Song t)) (tracks_of i d)) = mset (numbered (content d i))"
proof -
  define L where "L = sort_key tr_Track (tracks_of i d)"
  have s: "sorted (map tr_Track L)" "distinct (map tr_Track L)"
    using assms by (simp_all add: L_def distinct_map)
  have rn: "row_number (pd_Tracks d) t = int (length (filter (\<lambda>u. tr_Track u < tr_Track t) L))" if "t \<in> set L" for t
  proof -
    from that have "tr_Playlist t = i" by (simp add: L_def tracks_of_def)
    then have "filter (\<lambda>u. tr_Playlist u = tr_Playlist t \<and> tr_Track u < tr_Track t) (pd_Tracks d) =
        filter (\<lambda>u. tr_Track u < tr_Track t) (tracks_of i d)" by (simp add: tracks_of_def conj_commute)
    moreover have "length (filter (\<lambda>u. tr_Track u < tr_Track t) L) = length (filter (\<lambda>u. tr_Track u < tr_Track t) (tracks_of i d))"
      unfolding L_def by (metis mset_filter mset_sort size_mset)
    ultimately show ?thesis by (simp add: row_number_def)
  qed
  have "map (\<lambda>t. (row_number (pd_Tracks d) t, tr_Song t)) L = numbered (map tr_Song L)"
  proof (rule nth_equalityI)
    fix k assume "k < length (map (\<lambda>t. (row_number (pd_Tracks d) t, tr_Song t)) L)"
    then have k: "k < length L" by simp
    then show "map (\<lambda>t. (row_number (pd_Tracks d) t, tr_Song t)) L ! k = numbered (map tr_Song L) ! k"
      by (simp add: rn nth_numbered position_is_count [OF s k])
  qed simp
  then have "mset (map (\<lambda>t. (row_number (pd_Tracks d) t, tr_Song t)) L) = mset (numbered (content d i))"
    by (simp add: content_def L_def)
  then show ?thesis by (simp add: L_def)
qed

definition no_repeats :: "pdb \<Rightarrow> bool" where
  "no_repeats d \<longleftrightarrow> (\<forall>i. distinct (map tr_Song (tracks_of i d)))"

lemma fix_candidates_single:
  assumes "no_repeats d" "t \<in> set (pd_Tracks d)"
  shows "fix_candidates (pd_Tracks d) t = (if row_number (pd_Tracks d) t = tr_Track t then [] else [row_number (pd_Tracks d) t])"
proof -
  have "filter (\<lambda>u. tr_Playlist u = tr_Playlist t \<and> tr_Song u = tr_Song t) (pd_Tracks d) =
      filter (\<lambda>u. tr_Song u = tr_Song t) (tracks_of (tr_Playlist t) d)"
    by (simp add: tracks_of_def conj_commute)
  also have "\<dots> = [t]"
  proof -
    have single: "t \<in> set us \<Longrightarrow> distinct (map tr_Song us) \<Longrightarrow> filter (\<lambda>u. tr_Song u = tr_Song t) us = [t]" for us
      by (induction us) (auto simp: filter_empty_conv image_iff)
    show ?thesis using assms by (intro single) (auto simp: no_repeats_def tracks_of_def)
  qed
  finally show ?thesis by (simp add: fix_candidates_def)
qed

text \<open>
  Where no playlist repeats a song, fixing the track numbers numbers the tracks of every playlist without gaps
  in the order they had.
\<close>

lemma fix_track_numbers:
  assumes "unique_tracks (pd_Tracks d)" "no_repeats d" "\<And>t cs. cs \<noteq> [] \<Longrightarrow> pick t cs \<in> set cs"
  shows "\<exists>d'. PL_FixTrackNumbers c pick (d, []) = (None, d', []) \<and> tracks_wf d' \<and> (\<forall>i. tr_holds d' i (content d i))"
proof -
  let ?ts = "pd_Tracks d"
  define ts' where "ts' = map (\<lambda>t. if fix_candidates ?ts t \<noteq> [] then t\<lparr>tr_Track := pick t (fix_candidates ?ts t)\<rparr> else t) ?ts"
  define d' where "d' = d\<lparr>pd_Tracks := ts'\<rparr>"
  have ts': "ts' = map (\<lambda>t. t\<lparr>tr_Track := row_number ?ts t\<rparr>) ?ts"
    unfolding ts'_def
  proof (rule map_cong [OF refl])
    fix t assume "t \<in> set ?ts"
    then show "(if fix_candidates ?ts t \<noteq> [] then t\<lparr>tr_Track := pick t (fix_candidates ?ts t)\<rparr> else t) = t\<lparr>tr_Track := row_number ?ts t\<rparr>"
      using fix_candidates_single [OF assms(2)] assms(3) [of "fix_candidates ?ts t" t] by (cases t) (auto split: if_splits)
  qed
  have holds: "tr_holds d' i (content d i)" for i
  proof -
    have "map track_pair (filter (\<lambda>t. tr_Playlist t = i) (map (\<lambda>t. t\<lparr>tr_Track := g t\<rparr>) us)) =
        map (\<lambda>t. (g t, tr_Song t)) (filter (\<lambda>t. tr_Playlist t = i) us)" for g us
      by (induction us) (auto simp: track_pair_def)
    then have "map track_pair (tracks_of i d') = map (\<lambda>t. (row_number ?ts t, tr_Song t)) (tracks_of i d)"
      by (simp add: tracks_of_def d'_def ts')
    with row_numbers [of i d] assms(1) show ?thesis by (simp add: tr_holds_def unique_tracks_iff)
  qed
  then have wf: "tracks_wf d'" by (auto simp: tracks_wf_def)
  have "PL_FixTrackNumbers c pick (d, []) = (None, d', [])"
    using tracks_wf_unique [OF wf]
    unfolding PL_FixTrackNumbers_def executeQuery_def faulty_def put_tracks_def Let_def d'_def ts'_def fst_conv snd_conv by simp
  with wf holds show ?thesis by blast
qed

text \<open>
  A playlist with one song three times is sound, but fixing the track numbers gives two tracks one number when the
  database takes the first match of each row: the statement fails, and with it the scan.
\<close>

lemma fix_fails_on_repeats:
  "\<exists>d. tracks_wf d \<and> tr_holds d ''p'' [''s'', ''s'', ''s''] \<and>
     (\<exists>e. PL_FixTrackNumbers c (\<lambda>_ cs. hd cs) (d, []) = (Some e, d, []))"
proof -
  define tr where "tr = (\<lambda>k. \<lparr> tr_Playlist = ''p'', tr_Song = ''s'', tr_Track = k \<rparr>)"
  define d where "d = \<lparr> pd_Playlists = [], pd_Tracks = [tr 0, tr 1, tr 2], pd_Deferred = False \<rparr>"
  have of: "tracks_of i d = (if i = ''p'' then [tr 0, tr 1, tr 2] else [])" for i
    by (simp add: tracks_of_def d_def tr_def)
  have "numbered [''s'', ''s'', ''s''] = [(0, ''s''), (1, ''s''), (2, ''s'')]"
    by (simp add: numbered_def)
  then have holds: "tr_holds d ''p'' [''s'', ''s'', ''s'']"
    by (simp add: tr_holds_def of) (simp add: tr_def track_pair_def)
  have "tr_holds d i []" if "i \<noteq> ''p''" for i
    using that by (simp add: tr_holds_def of)
  with holds have wf: "tracks_wf d" unfolding tracks_wf_def by metis
  have rn: "row_number [tr 0, tr 1, tr 2] (tr 0) = 0" "row_number [tr 0, tr 1, tr 2] (tr 1) = 1" "row_number [tr 0, tr 1, tr 2] (tr 2) = 2"
    by (simp_all add: row_number_def tr_def)
  have fc: "fix_candidates [tr 0, tr 1, tr 2] (tr 0) = [1, 2]" "fix_candidates [tr 0, tr 1, tr 2] (tr 1) = [0, 2]"
    "fix_candidates [tr 0, tr 1, tr 2] (tr 2) = [0, 1]"
    unfolding fix_candidates_def by (simp_all add: rn) (simp_all add: tr_def rn [unfolded tr_def])
  have "PL_FixTrackNumbers c (\<lambda>_ cs. hd cs) (d, []) = (wrapErr c ''execute exec query'' (Some pkey_violation), d, [])"
    unfolding PL_FixTrackNumbers_def executeQuery_def faulty_def put_tracks_def Let_def d_def
    by (simp add: fc) (simp add: unique_tracks_def track_key_def tr_def)
  with holds wf show ?thesis by (auto simp: wrapErr_def)
qed

section \<open>Examples\<close>

definition wit_track :: "string \<Rightarrow> nat \<times> string \<Rightarrow> track_row" where
  "wit_track i p = \<lparr> tr_Playlist = i, tr_Song = snd p, tr_Track = int (fst p) \<rparr>"

definition wit_pdb :: "string \<Rightarrow> string list \<Rightarrow> pdb" where
  "wit_pdb i xs = \<lparr> pd_Playlists = [\<lparr> pr_ID = i, pr_Name = ''n'', pr_Created = 0, pr_Updated = 0, pr_Owner = ''u'',
       pr_Public = False, pr_Comment = None \<rparr>], pd_Tracks = map (wit_track i) (enumerate 0 xs), pd_Deferred = False \<rparr>"

lemma wit_tracks_of: "tracks_of j (wit_pdb i xs) = (if j = i then map (wit_track i) (enumerate 0 xs) else [])"
  by (auto simp: tracks_of_def wit_pdb_def wit_track_def filter_empty_conv filter_id_conv)

lemma wit_pdb_holds: "tr_holds (wit_pdb i xs) i xs"
  by (simp add: tr_holds_def wit_tracks_of numbered_def wit_track_def track_pair_def case_prod_unfold comp_def flip: mset_map)

lemma wit_pdb_wf: "tracks_wf (wit_pdb i xs)"
proof -
  have "tr_holds (wit_pdb i xs) j []" if "j \<noteq> i" for j
    using that by (simp add: tr_holds_def wit_tracks_of)
  then show ?thesis using wit_pdb_holds unfolding tracks_wf_def by metis
qed

lemma remove_tracks_spec_witness:
  "\<exists>d'. PL_RemoveTracks (healthy (\<lambda>_. None)) False ''p'' [2, 0] (wit_pdb ''p'' [''a'', ''b'', ''c'', ''d''], []) = (None, d', [])
     \<and> tr_holds d' ''p'' [''b'', ''d'']"
proof -
  have r: "removable [2, 0] [''a'', ''b'', ''c'', ''d'']"
    by (auto simp: removable_def image_iff intro: bexI [of _ 2])
  have "nths [''a'', ''b'', ''c'', ''d''] (kept [2, 0]) = [''b'', ''d'']"
    by (simp add: nths_Cons kept_def)
  then show ?thesis
    using remove_tracks_spec [OF wit_pdb_wf wit_pdb_holds [of "''p''" "[''a'', ''b'', ''c'', ''d'']"], of "[2, 0]" "\<lambda>_. None"] r by auto
qed

lemma add_tracks_spec_example:
  "\<exists>d'. PL_AddTracks (healthy (\<lambda>_. None)) False ''p'' [''c'', ''a''] (wit_pdb ''p'' [''a'', ''b''], []) = (None, d', [])
     \<and> tr_holds d' ''p'' [''a'', ''b'', ''c'', ''a'']"
  using add_tracks_spec [OF wit_pdb_wf wit_pdb_holds [of "''p''" "[''a'', ''b'']"], of "\<lambda>_. None" "[''c'', ''a'']"]
  by (auto simp: wit_pdb_def)

lemma fix_track_numbers_example:
  "\<exists>d'. PL_FixTrackNumbers (\<lambda>_. None) (\<lambda>_ cs. hd cs) (wit_pdb ''p'' [''a'', ''b''], []) = (None, d', [])
     \<and> tr_holds d' ''p'' (content (wit_pdb ''p'' [''a'', ''b'']) ''p'')"
proof -
  have "no_repeats (wit_pdb ''p'' [''a'', ''b''])"
    by (simp add: no_repeats_def wit_tracks_of) (simp add: wit_track_def)
  from fix_track_numbers [OF tracks_wf_unique [OF wit_pdb_wf] this, of "\<lambda>_ cs. hd cs" "\<lambda>_. None"]
  show ?thesis by auto
qed

end
