(* ===== verification/PlaylistHandlers.thy ===== *)
theory PlaylistHandlers
  imports Requests Playlists ScanCovers ArtistMap
begin

text \<open>
  The requests on playlists (\<open>handlers/subsonic_playlists.go\<close>, \<open>handlers/crossonic_playlists.go\<close>) on the
  repository of playlists, the cover files and the cache of scaled covers. A request appends one write to its
  writer; what a successful response carries is returned beside it.
\<close>

section \<open>State\<close>

datatype pl_response = REmpty | RPlaylist playlist_row int "string list"

record ph_state =
  ph_db :: pstate
  ph_files :: "string \<rightharpoonup> stored_cover"
  ph_cache :: sys

text \<open>\<open>pe_io\<close> has the faults of the files and of the cache, \<open>pe_order\<close> is the order of the keys of the cache.\<close>

record ph_env =
  pe_conn :: "pdb sql_conn"
  pe_now :: int
  pe_gen :: string
  pe_DataDir :: string
  pe_io :: cover_io
  pe_order :: "string list"

type_synonym ph_outcome = "(pl_response option, ph_state) reply"

definition pl_ok :: "url_values \<Rightarrow> writer \<Rightarrow> pl_response \<Rightarrow> ph_state \<Rightarrow> ph_outcome" where
  "pl_ok q w res s = ((w @ [WOk (Q_Format q)], Some res), s)"

definition in_db :: "(pstate \<Rightarrow> 'a \<times> pstate) \<Rightarrow> ph_state \<Rightarrow> 'a \<times> ph_state" where
  "in_db f s = (case f (ph_db s) of (a, db) \<Rightarrow> (a, s\<lparr>ph_db := db\<rparr>))"

definition tx_done :: "go_error option \<times> pstate \<Rightarrow> go_error option outcome \<times> pstate" where
  "tx_done r = (Done (fst r), snd r)"

text \<open>A transaction of the database handle whose function does not panic.\<close>

definition pl_tx :: "ph_env \<Rightarrow> (pstate \<Rightarrow> go_error option \<times> pstate) \<Rightarrow> pstate \<Rightarrow> go_error option \<times> pstate" where
  "pl_tx env fn s =
     (case Transaction (pe_conn env) False (\<lambda>s. tx_done (fn s)) s of
        (Done err, s) \<Rightarrow> (err, s) | (Panic, s) \<Rightarrow> (None, s))"

definition pe_c :: "ph_env \<Rightarrow> constr" where
  "pe_c env = sc_Constraint (pe_conn env)"

section \<open>Reading\<close>

definition getPlaylistById :: "ph_env \<Rightarrow> string \<Rightarrow> string \<Rightarrow> (pstate, pl_response) stmt" where
  "getPlaylistById env i user s =
     (case PL_FindByID (pe_c env) user i True s of
        (Inl e, s) \<Rightarrow> (Inl (EWrap ''get playlist by id: find playlist'' e), s)
      | (Inr (pl, n), s) \<Rightarrow>
          (case PL_GetTracks (pe_c env) i s of
             (Inl e, s) \<Rightarrow> (Inl (EWrap ''get playlist by id: get tracks'' e), s)
           | (Inr songs, s) \<Rightarrow> (Inr (RPlaylist pl n songs), s)))"

definition handleGetPlaylist :: "ph_env \<Rightarrow> url_values \<Rightarrow> writer \<Rightarrow> ph_state \<Rightarrow> ph_outcome" where
  "handleGetPlaylist env q w s =
     (case IDReq q ''id'' w of
        (None, w) \<Rightarrow> ((w, None), s)
      | (Some i, w) \<Rightarrow>
          (case in_db (getPlaylistById env i (Q_User q)) s of
             (Inl e, s) \<Rightarrow> ((respondErr (Q_Format q) (EWrap ''get playlist'' e) w, None), s)
           | (Inr res, s) \<Rightarrow> pl_ok q w res s))"

section \<open>Creating\<close>

definition no_update :: UpdatePlaylistParams where
  "no_update = \<lparr> up_Name = NewOptionalEmpty [], up_Public = NewOptionalEmpty False, up_Comment = NewOptionalEmpty None \<rparr>"

text \<open>The identifier of a new playlist is the one the insertion returns.\<close>

definition playlist_id :: "ph_env \<Rightarrow> string \<Rightarrow> string" where
  "playlist_id env i = (if i = [] then GenIDPlaylist (pe_gen env) else i)"

definition create_first :: "ph_env \<Rightarrow> string \<Rightarrow> string \<Rightarrow> string \<Rightarrow> pstate \<Rightarrow> go_error option \<times> pstate" where
  "create_first env user i name s =
     (let c = pe_c env
      in if i = []
         then (case PL_Create c (playlist_id env i) (pe_now env) name user False None s of
                 (Inl e, s) \<Rightarrow> (Some (EWrap ''create'' e), s) | (Inr _, s) \<Rightarrow> (None, s))
         else if name \<noteq> []
         then (case PL_Update c (pe_now env) user i (no_update\<lparr> up_Name := NewOptionalFull name \<rparr>) s of
                 (Some e, s) \<Rightarrow> (Some (EWrap ''update name'' e), s) | (None, s) \<Rightarrow> (None, s))
         else (case PL_Update c (pe_now env) user i no_update s of
                 (Some e, s) \<Rightarrow> (Some (EWrap ''update'' e), s) | (None, s) \<Rightarrow> (None, s)))"

definition create_tx :: "ph_env \<Rightarrow> string \<Rightarrow> string \<Rightarrow> string \<Rightarrow> string list \<Rightarrow> pstate \<Rightarrow> go_error option \<times> pstate" where
  "create_tx env user i name songIds s =
     (case create_first env user i name s of
        (Some e, s) \<Rightarrow> (Some e, s)
      | (None, s) \<Rightarrow>
          (case PL_ClearTracks (pe_c env) (playlist_id env i) s of
             (Some e, s) \<Rightarrow> (Some (EWrap ''remove old tracks'' e), s)
           | (None, s) \<Rightarrow>
               if length songIds > 0
               then (case PL_AddTracks (pe_conn env) True (playlist_id env i) songIds s of
                       (Some e, s) \<Rightarrow> (Some (EWrap ''add new tracks'' e), s) | (None, s) \<Rightarrow> (None, s))
               else (None, s)))"

definition handleCreatePlaylist :: "ph_env \<Rightarrow> url_values \<Rightarrow> writer \<Rightarrow> ph_state \<Rightarrow> ph_outcome" where
  "handleCreatePlaylist env q w s =
     (let i = Q_Str q ''playlistId''; name = Q_Str q ''name''
      in if i = [] \<and> name = []
         then ((EncodeError (Q_Format q) ''missing name parameter'' SubsonicErrorRequiredParameterMissing w, None), s)
         else case IDsType q ''songId'' [IDTypeSong] w of
                (None, w) \<Rightarrow> ((w, None), s)
              | (Some songIds, w) \<Rightarrow>
                  (case in_db (pl_tx env (create_tx env (Q_User q) i name songIds)) s of
                     (Some e, s) \<Rightarrow> ((respondInternalErr (Q_Format q) (EWrap ''create playlist'' e) w, None), s)
                   | (None, s) \<Rightarrow>
                       (case in_db (getPlaylistById env (playlist_id env i) (Q_User q)) s of
                          (Inl e, s) \<Rightarrow>
                            ((if errors_Is e (EType ErrNotFound) then EncodeError (Q_Format q) ''not found'' SubsonicErrorNotFound w
                              else respondInternalErr (Q_Format q) (EWrap ''create playlist: get playlist by id'' e) w, None), s)
                        | (Inr res, s) \<Rightarrow> pl_ok q w res s)))"

section \<open>Updating\<close>

definition bad_index :: "int \<Rightarrow> int \<Rightarrow> bool" where
  "bad_index trackCount i \<longleftrightarrow> i < 0 \<or> i \<ge> trackCount"

definition update_remove :: "ph_env \<Rightarrow> string \<Rightarrow> int \<Rightarrow> int list \<Rightarrow> pstate \<Rightarrow> go_error option \<times> pstate" where
  "update_remove env i trackCount removeIndices s =
     (if length removeIndices > 0
      then (case find (bad_index trackCount) removeIndices of
              Some k \<Rightarrow> (Some (EMsg (''invalid remove index: '' @ show_int k @ '', track count: '' @ show_int trackCount)), s)
            | None \<Rightarrow>
                (case PL_RemoveTracks (pe_conn env) True i removeIndices s of
                   (Some e, s) \<Rightarrow> (Some (EWrap ''remove tracks'' e), s) | (None, s) \<Rightarrow> (None, s)))
      else (None, s))"

definition update_add :: "ph_env \<Rightarrow> string \<Rightarrow> string list \<Rightarrow> pstate \<Rightarrow> go_error option \<times> pstate" where
  "update_add env i songIdsToAdd s =
     (if length songIdsToAdd > 0
      then (case PL_AddTracks (pe_conn env) True i songIdsToAdd s of
              (Some e, s) \<Rightarrow> (Some (EWrap ''add tracks'' e), s) | (None, s) \<Rightarrow> (None, s))
      else (None, s))"

definition update_tx ::
  "ph_env \<Rightarrow> string \<Rightarrow> string \<Rightarrow> UpdatePlaylistParams \<Rightarrow> int list \<Rightarrow> string list \<Rightarrow> pstate \<Rightarrow> go_error option \<times> pstate" where
  "update_tx env user i params removeIndices songIdsToAdd s =
     (case PL_FindByID (pe_c env) user i False s of
        (Inl e, s) \<Rightarrow> (Some (EWrap ''find playlist'' e), s)
      | (Inr (pl, trackCount), s) \<Rightarrow>
          (case PL_Update (pe_c env) (pe_now env) user i params s of
             (Some e, s) \<Rightarrow> (Some (EWrap ''update playlist'' e), s)
           | (None, s) \<Rightarrow>
               (case update_remove env i trackCount removeIndices s of
                  (Some e, s) \<Rightarrow> (Some e, s)
                | (None, s) \<Rightarrow> update_add env i songIdsToAdd s)))"

definition update_params :: "url_values \<Rightarrow> UpdatePlaylistParams" where
  "update_params q =
     (let name = Q_Str q ''name''; comment = NilIfEmpty [] (Q_Str q ''comment'')
      in no_update\<lparr> up_Name := NewOptional name (name \<noteq> []), up_Comment := NewOptional comment (Q_Has q ''comment'') \<rparr>)"

definition handleUpdatePlaylist :: "ph_env \<Rightarrow> url_values \<Rightarrow> writer \<Rightarrow> ph_state \<Rightarrow> ph_outcome" where
  "handleUpdatePlaylist env q w s =
     (case IDReq q ''playlistId'' w of
        (None, w) \<Rightarrow> ((w, None), s)
      | (Some i, w) \<Rightarrow>
          (case Q_Ints q ''songIndexToRemove'' w of
             (None, w) \<Rightarrow> ((w, None), s)
           | (Some removeIndices, w) \<Rightarrow>
               (case IDsType q ''songIdToAdd'' [IDTypeSong] w of
                  (None, w) \<Rightarrow> ((w, None), s)
                | (Some songIdsToAdd, w) \<Rightarrow>
                    (case in_db (pl_tx env (update_tx env (Q_User q) i (update_params q) removeIndices songIdsToAdd)) s of
                       (Some e, s) \<Rightarrow> ((respondErr (Q_Format q) (EWrap ''update playlist'' e) w, None), s)
                     | (None, s) \<Rightarrow> pl_ok q w REmpty s))))"

section \<open>Covers\<close>

text \<open>The identifier in a key of the cache: all but what follows the last dash.\<close>

definition key_id :: "string \<Rightarrow> string" where
  "key_id k = join_with ''-'' (butlast (split_on (CHR ''-'') k))"

fun drop_scaled :: "io_env \<Rightarrow> string \<Rightarrow> string list \<Rightarrow> sys \<Rightarrow> sys" where
  "drop_scaled io i [] c = c"
| "drop_scaled io i (k # ks) c = drop_scaled io i ks (if key_id k = i then snd (DeleteObject io k c) else c)"

definition drop_playlist_covers :: "ph_env \<Rightarrow> string \<Rightarrow> ph_state \<Rightarrow> ph_state" where
  "drop_playlist_covers env i s =
     s\<lparr>ph_cache := drop_scaled (ci_cache_io (pe_io env)) i (Keys (pe_order env) (ph_cache s)) (ph_cache s)\<rparr>"

definition playlist_cover_path :: "ph_env \<Rightarrow> string \<Rightarrow> string" where
  "playlist_cover_path env i = filepath_Join (filepath_Join (pe_DataDir env) ''covers'') i"

text \<open>\<open>os.Remove\<close> of a cover; that it does not exist is no error for the callers.\<close>

definition remove_cover_file :: "ph_env \<Rightarrow> string \<Rightarrow> ph_state \<Rightarrow> go_error option \<times> ph_state" where
  "remove_cover_file env p s =
     (if ph_files s p = None then (None, s)
      else case ci_remove (pe_io env) p of
             Some e \<Rightarrow> (Some e, s)
           | None \<Rightarrow> (None, s\<lparr>ph_files := (ph_files s)(p := None)\<rparr>))"

definition handleDeletePlaylist :: "ph_env \<Rightarrow> url_values \<Rightarrow> writer \<Rightarrow> ph_state \<Rightarrow> ph_outcome" where
  "handleDeletePlaylist env q w s =
     (case IDReq q ''id'' w of
        (None, w) \<Rightarrow> ((w, None), s)
      | (Some i, w) \<Rightarrow>
          (case in_db (PL_Delete (pe_c env) (Q_User q) i) s of
             (Some e, s) \<Rightarrow>
               ((if errors_Is e (EType ErrNotFound) then EncodeError (Q_Format q) ''not found'' SubsonicErrorNotFound w
                 else respondInternalErr (Q_Format q) (EWrap ''delete playlist'' e) w, None), s)
           | (None, s) \<Rightarrow>
               (case remove_cover_file env (playlist_cover_path env i) s of
                  (_, s) \<Rightarrow> pl_ok q w REmpty (drop_playlist_covers env i s))))"

definition maxPlaylistCoverBytes :: int where "maxPlaylistCoverBytes = 15000000"

datatype 'img decoded = DTooLarge | DUnsupported | DFailed go_error | DImage 'img

text \<open>The body with its length and the image library: the bounds, the thumbnail and what encoding writes until it ends or fails.\<close>

record 'img cover_upload =
  cu_hasBody :: bool
  cu_ContentLength :: int
  cu_Decode :: "'img decoded"
  cu_Bounds :: "'img \<Rightarrow> int \<times> int"
  cu_Thumbnail :: "'img \<Rightarrow> int \<Rightarrow> int \<Rightarrow> 'img"
  cu_Encode :: "'img \<Rightarrow> bytes \<times> go_error option"

definition save_cover_image :: "ph_env \<Rightarrow> 'img cover_upload \<Rightarrow> string \<Rightarrow> 'img \<Rightarrow> ph_state \<Rightarrow> go_error option \<times> ph_state" where
  "save_cover_image env up p img s =
     (let targetSize = min 2048 (min (fst (cu_Bounds up img)) (snd (cu_Bounds up img)));
          img = cu_Thumbnail up img targetSize targetSize
      in case ci_create (pe_io env) p of
           Some e \<Rightarrow> (Some (EWrap ''set playlist cover: save image: create file'' e), s)
         | None \<Rightarrow>
             (case cu_Encode up img of (bs, err) \<Rightarrow>
                (let s = s\<lparr>ph_files := (ph_files s)(p \<mapsto> \<lparr> co_content = bs, co_modTime = ci_now (pe_io env) \<rparr>)\<rparr>
                 in case err of
                      Some e \<Rightarrow> (Some (EWrap ''set playlist cover: save image: encode'' e), snd (remove_cover_file env p s))
                    | None \<Rightarrow> (None, s))))"

definition handleSetPlaylistCover :: "ph_env \<Rightarrow> 'img cover_upload \<Rightarrow> url_values \<Rightarrow> writer \<Rightarrow> ph_state \<Rightarrow> ph_outcome" where
  "handleSetPlaylistCover env up q w s =
     (case IDReq q ''id'' w of
        (None, w) \<Rightarrow> ((w, None), s)
      | (Some i, w) \<Rightarrow>
          (case in_db (PL_FindByID (pe_c env) (Q_User q) i False) s of
             (Inl e, s) \<Rightarrow> ((respondErr (Q_Format q) (EWrap ''set playlist cover: get playlist'' e) w, None), s)
           | (Inr _, s) \<Rightarrow>
               (let p = playlist_cover_path env i
                in if \<not> cu_hasBody up \<or> cu_ContentLength up \<le> 0
                   then (case remove_cover_file env p s of
                           (Some e, s) \<Rightarrow> ((respondInternalErr (Q_Format q) (EWrap ''set playlist cover: delete cover'' e) w, None), s)
                         | (None, s) \<Rightarrow> pl_ok q w REmpty (drop_playlist_covers env i s))
                   else if cu_ContentLength up > maxPlaylistCoverBytes
                   then ((respondGenericErr (Q_Format q) ''request body too large'' w, None), s)
                   else case cu_Decode up of
                          DTooLarge \<Rightarrow> ((respondGenericErr (Q_Format q) ''request body too large'' w, None), s)
                        | DUnsupported \<Rightarrow> ((respondGenericErr (Q_Format q) ''unsupported image type'' w, None), s)
                        | DFailed e \<Rightarrow> ((respondInternalErr (Q_Format q) (EWrap ''set playlist cover: decode image'' e) w, None), s)
                        | DImage img \<Rightarrow>
                            (case save_cover_image env up p img s of
                               (Some e, s) \<Rightarrow> ((respondInternalErr (Q_Format q) e w, None), s)
                             | (None, s) \<Rightarrow>
                                 (let s = drop_playlist_covers env i s
                                  in case in_db (PL_Update (pe_c env) (pe_now env) (Q_User q) i no_update) s of
                                       (Some e, s) \<Rightarrow>
                                         ((respondErr (Q_Format q) (EWrap ''set playlist cover: update playlist updated time'' e) w, None), s)
                                     | (None, s) \<Rightarrow> pl_ok q w REmpty s)))))"

section \<open>What a request changes\<close>

lemma pl_tx_error: "pl_tx env fn (d, fs) = (Some e, d', fs') \<Longrightarrow> d' = d"
  by (auto simp: pl_tx_def split: prod.splits outcome.splits dest!: Transaction_error)

lemma pl_tx_success:
  "pl_tx env fn (d, fs) = (None, d', fs') \<Longrightarrow> \<exists>d1. fn (d, fs) = (None, d1, fs') \<and> sc_Commit (pe_conn env) d1 = Inr d'"
  by (cases "fn (d, fs)") (auto simp: pl_tx_def Transaction_def tx_done_def wrapErr_def split: prod.splits outcome.splits option.splits sum.splits)

lemma commit_tables:
  assumes "sc_Commit (playlist_conn c b cm) d1 = Inr d'"
  shows "pd_Tracks d' = pd_Tracks d1" "pd_Playlists d' = pd_Playlists d1"
  using assms by (auto simp: playlist_conn_def split: option.splits if_splits)

lemma executeQueryExpect_None:
  "executeQueryExpectAffectedRows c run s = (None, s') \<Longrightarrow> \<exists>rows. run s = (Inr rows, s') \<and> rows \<noteq> Some 0"
  by (auto simp: executeQueryExpectAffectedRows_def wrapResErr_def split: prod.splits sum.splits if_splits)

lemma PL_Update_success:
  assumes "PL_Update c now user i params s = (None, s')"
  shows "\<exists>p \<in> set (pd_Playlists (fst s)). pr_ID p = i \<and> pr_Owner p = user"
    "pd_Tracks (fst s') = pd_Tracks (fst s)"
    "pd_Playlists (fst s') = map (\<lambda>p. if pr_ID p = i \<and> pr_Owner p = user then set_playlist params now p else p) (pd_Playlists (fst s))"
proof -
  let ?hit = "\<lambda>p. pr_ID p = i \<and> pr_Owner p = user"
  from assms obtain rows where r: "faulty (\<lambda>d. (Inr (Some (int (length (filter ?hit (pd_Playlists d))))),
      d\<lparr>pd_Playlists := map (\<lambda>p. if ?hit p then set_playlist params now p else p) (pd_Playlists d)\<rparr>)) s = (Inr rows, s')" "rows \<noteq> Some 0"
    unfolding PL_Update_def Let_def by (auto dest!: executeQueryExpect_None)
  from faulty_Inr [OF r(1)] have rows: "rows = Some (int (length (filter ?hit (pd_Playlists (fst s)))))"
    and s': "fst s' = (fst s)\<lparr>pd_Playlists := map (\<lambda>p. if ?hit p then set_playlist params now p else p) (pd_Playlists (fst s))\<rparr>"
    by simp_all
  from rows r(2) have "filter ?hit (pd_Playlists (fst s)) \<noteq> []" by auto
  then show "\<exists>p \<in> set (pd_Playlists (fst s)). pr_ID p = i \<and> pr_Owner p = user" by (auto simp: filter_empty_conv)
  from s' show "pd_Tracks (fst s') = pd_Tracks (fst s)"
    "pd_Playlists (fst s') = map (\<lambda>p. if ?hit p then set_playlist params now p else p) (pd_Playlists (fst s))" by simp_all
qed

lemma PL_FindByID_Inr: "PL_FindByID c user i pub s = (Inr (p, n), s') \<Longrightarrow> fst s' = fst s \<and> n = int (length (tracks_of i (fst s)))"
proof -
  assume "PL_FindByID c user i pub s = (Inr (p, n), s')"
  from getQuery_row_Inr [OF this [unfolded PL_FindByID_def]] have
    f: "map (\<lambda>p. (p, int (length (tracks_of (pr_ID p) (fst s)))))
      (filter (\<lambda>p. pr_ID p = i \<and> (pr_Owner p = user \<or> pub \<and> pr_Public p)) (pd_Playlists (fst s))) = [(p, n)]" and "fst s' = fst s"
    by (auto dest!: faulty_Inr)
  from f have "(p, n) \<in> set (map (\<lambda>p. (p, int (length (tracks_of (pr_ID p) (fst s)))))
      (filter (\<lambda>p. pr_ID p = i \<and> (pr_Owner p = user \<or> pub \<and> pr_Public p)) (pd_Playlists (fst s))))" by simp
  with \<open>fst s' = fst s\<close> show ?thesis by auto
qed

lemma PL_AddTracks_nested:
  assumes "PL_AddTracks conn True i ys s = (None, s')" "tr_holds (fst s) i xs"
  shows "tr_holds (fst s') i (xs @ ys)" "j \<noteq> i \<Longrightarrow> tr_holds (fst s') j zs = tr_holds (fst s) j zs"
    "pd_Playlists (fst s') = pd_Playlists (fst s)"
proof -
  have "pd_Tracks (fst s') = pd_Tracks (fst s) @ new_tracks i (int (length xs) - 1) ys \<and> pd_Playlists (fst s') = pd_Playlists (fst s)"
  proof (cases "ys = []")
    case True
    with assms show ?thesis by (simp add: PL_AddTracks_def new_tracks_def)
  next
    case False
    with assms(1) have "add_body (sc_Constraint conn) i ys s = (None, s')" by (simp add: PL_AddTracks_def newTransactionFn_def)
    from add_body_rows [OF this assms(2)] show ?thesis by simp
  qed
  with tr_holds_added [OF conjunct1 assms(2)]
  show "tr_holds (fst s') i (xs @ ys)" "j \<noteq> i \<Longrightarrow> tr_holds (fst s') j zs = tr_holds (fst s) j zs"
    "pd_Playlists (fst s') = pd_Playlists (fst s)" by blast+
qed

lemma kept_Nil: "nths xs (kept []) = xs"
  by (simp add: kept_def nths_all)

lemma PL_RemoveTracks_nested:
  assumes "PL_RemoveTracks conn True i nrs s = (None, s')" "tr_holds (fst s) i xs"
  shows "removable nrs xs" "tr_holds (fst s') i (nths xs (kept nrs))" "j \<noteq> i \<Longrightarrow> tr_holds (fst s') j zs = tr_holds (fst s) j zs"
    "pd_Playlists (fst s') = pd_Playlists (fst s)"
proof -
  have "removable nrs xs \<and> tr_holds (fst s') i (nths xs (kept nrs)) \<and> (\<forall>j zs. j \<noteq> i \<longrightarrow> tr_holds (fst s') j zs = tr_holds (fst s) j zs)
      \<and> pd_Playlists (fst s') = pd_Playlists (fst s)"
  proof (cases "nrs = []")
    case True
    with assms show ?thesis by (simp add: PL_RemoveTracks_def kept_Nil removable_def)
  next
    case False
    with assms(1) have b: "remove_body (sc_Constraint conn) i nrs s = (None, s')" by (simp add: PL_RemoveTracks_def newTransactionFn_def)
    from remove_body_rows [OF b assms(2)] tr_holds_removed [OF assms(2) _ False] show ?thesis by blast
  qed
  then show "removable nrs xs" "tr_holds (fst s') i (nths xs (kept nrs))" "j \<noteq> i \<Longrightarrow> tr_holds (fst s') j zs = tr_holds (fst s) j zs"
    "pd_Playlists (fst s') = pd_Playlists (fst s)" by blast+
qed

lemma update_tx_success:
  assumes "update_tx env user i params nrs ys s = (None, s')" "tr_holds (fst s) i xs"
  shows "removable nrs xs \<and> tr_holds (fst s') i (nths xs (kept nrs) @ ys) \<and> (\<forall>j zs. j \<noteq> i \<longrightarrow> tr_holds (fst s') j zs = tr_holds (fst s) j zs)
    \<and> (\<exists>p \<in> set (pd_Playlists (fst s)). pr_ID p = i \<and> pr_Owner p = user)
    \<and> pd_Playlists (fst s') = map (\<lambda>p. if pr_ID p = i \<and> pr_Owner p = user then set_playlist params (pe_now env) p else p) (pd_Playlists (fst s))"
proof -
  from assms(1) obtain p n s1 s2 s3 where f: "PL_FindByID (pe_c env) user i False s = (Inr (p, n), s1)"
      and u: "PL_Update (pe_c env) (pe_now env) user i params s1 = (None, s2)"
      and r: "update_remove env i n nrs s2 = (None, s3)" and a: "update_add env i ys s3 = (None, s')"
    by (auto simp: update_tx_def split: prod.splits sum.splits option.splits)
  from PL_FindByID_Inr [OF f] have 1: "fst s1 = fst s" ..
  have h2: "tr_holds (fst s2) j zs = tr_holds (fst s) j zs" for j zs
    using PL_Update_success(2) [OF u] 1 by (intro tr_holds_cong) simp
  from r have "PL_RemoveTracks (pe_conn env) True i nrs s2 = (None, s3)"
    by (auto simp: update_remove_def PL_RemoveTracks_def split: if_splits option.splits prod.splits)
  note rem = PL_RemoveTracks_nested [OF this]
  from a have "PL_AddTracks (pe_conn env) True i ys s3 = (None, s')"
    by (auto simp: update_add_def PL_AddTracks_def split: if_splits option.splits prod.splits)
  note add = PL_AddTracks_nested [OF this]
  from assms(2) have h: "tr_holds (fst s2) i xs" by (simp add: h2)
  show ?thesis
    using rem(1,2) [OF h] add(1) [OF rem(2) [OF h]] add(2) [OF rem(2) [OF h]] add(3) [OF rem(2) [OF h]] rem(3,4) [OF h] h2
      PL_Update_success [OF u] 1 by auto
qed

lemma update_in_db:
  assumes "in_db (pl_tx env (update_tx env user i params nrs ys)) s = (err, s')" "pe_conn env = playlist_conn c b cm"
    and "tr_holds (fst (ph_db s)) i xs"
  shows "if err = None
    then removable nrs xs \<and> tr_holds (fst (ph_db s')) i (nths xs (kept nrs) @ ys)
      \<and> (\<forall>j zs. j \<noteq> i \<longrightarrow> tr_holds (fst (ph_db s')) j zs = tr_holds (fst (ph_db s)) j zs)
      \<and> (\<exists>p \<in> set (pd_Playlists (fst (ph_db s))). pr_ID p = i \<and> pr_Owner p = user)
      \<and> pd_Playlists (fst (ph_db s')) =
          map (\<lambda>p. if pr_ID p = i \<and> pr_Owner p = user then set_playlist params (pe_now env) p else p) (pd_Playlists (fst (ph_db s)))
    else fst (ph_db s') = fst (ph_db s)"
proof -
  obtain d fs where db: "ph_db s = (d, fs)" by fastforce
  obtain d' fs' where db': "ph_db s' = (d', fs')" by fastforce
  from assms(1) have t: "pl_tx env (update_tx env user i params nrs ys) (d, fs) = (err, d', fs')"
    using db db' by (auto simp: in_db_def split: prod.splits)
  show ?thesis
  proof (cases err)
    case (Some e)
    with pl_tx_error t db db' show ?thesis by simp
  next
    case None
    from pl_tx_success [OF t [unfolded None]] obtain d1 where u: "update_tx env user i params nrs ys (d, fs) = (None, d1, fs')"
      and k: "sc_Commit (pe_conn env) d1 = Inr d'" by blast
    note tables = commit_tables [OF k [unfolded assms(2)]]
    have "tr_holds d' j zs = tr_holds d1 j zs" for j zs by (rule tr_holds_cong) (rule tables)
    with update_tx_success [OF u, of xs] assms(3) tables(2) None db db' show ?thesis by simp
  qed
qed

text \<open>
  C17: a request to update a playlist that is well formed either succeeds, and then the playlist is the user's own, its
  songs are those at the kept positions followed by the added ones, and all other playlists are as before; or it fails,
  and then the database is as before.
\<close>

theorem update_playlist_spec:
  assumes "handleUpdatePlaylist env q w s = ((w', res), s')" "pe_conn env = playlist_conn c b cm"
    and "IDReq q ''playlistId'' w = (Some i, w)" "Q_Ints q ''songIndexToRemove'' w = (Some nrs, w)"
      "IDsType q ''songIdToAdd'' [IDTypeSong] w = (Some ys, w)"
    and "tr_holds (fst (ph_db s)) i xs"
  shows "if res = Some REmpty
    then w' = w @ [WOk (Q_Format q)] \<and> removable nrs xs \<and> content (fst (ph_db s')) i = nths xs (kept nrs) @ ys
      \<and> (\<exists>p \<in> set (pd_Playlists (fst (ph_db s))). pr_ID p = i \<and> pr_Owner p = Q_User q)
      \<and> (\<forall>j zs. j \<noteq> i \<longrightarrow> tr_holds (fst (ph_db s')) j zs = tr_holds (fst (ph_db s)) j zs)
    else res = None \<and> fst (ph_db s') = fst (ph_db s)"
proof -
  obtain err s1 where u: "in_db (pl_tx env (update_tx env (Q_User q) i (update_params q) nrs ys)) s = (err, s1)" by fastforce
  have "(if err = None then ((w @ [WOk (Q_Format q)], Some REmpty), s1)
         else ((respondErr (Q_Format q) (EWrap ''update playlist'' (the err)) w, None), s1)) = ((w', res), s')"
    using assms(1) u by (cases err) (simp_all add: handleUpdatePlaylist_def assms(3-5) pl_ok_def)
  with update_in_db [OF u assms(2,6)] show ?thesis
    by (cases err) (auto simp: content_def tr_holds_songs)
qed

section \<open>One answer\<close>

lemma answered_pl_ok [answer_intros]: "once_answered w (pl_ok q w res s)"
  by (simp add: pl_ok_def once_answered_def one_write_def)

lemma answered_decoded [answer_intros]:
  "once_answered w a \<Longrightarrow> once_answered w b \<Longrightarrow> (\<And>e. once_answered w (f e)) \<Longrightarrow> (\<And>img. once_answered w (g img)) \<Longrightarrow>
     once_answered w (case x of DTooLarge \<Rightarrow> a | DUnsupported \<Rightarrow> b | DFailed e \<Rightarrow> f e | DImage img \<Rightarrow> g img)"
  by (cases x) auto

text \<open>
  Every request on playlists is answered exactly once, by a response or by an error.\<close>

lemma playlist_requests_answer_once:
  "answers_once (handleGetPlaylist env q) \<and> answers_once (handleCreatePlaylist env q)
   \<and> answers_once (handleUpdatePlaylist env q) \<and> answers_once (handleDeletePlaylist env q)
   \<and> answers_once (handleSetPlaylistCover env up q)"
  unfolding handleGetPlaylist_def handleCreatePlaylist_def handleUpdatePlaylist_def handleDeletePlaylist_def handleSetPlaylistCover_def
  by (intro conjI answers_onceI answer_intros accessor_intros; simp)

section \<open>Playlists of others\<close>

definition spares :: "string \<Rightarrow> pdb \<Rightarrow> pdb \<Rightarrow> bool" where
  "spares user d d' \<longleftrightarrow>
     (\<forall>p \<in> set (pd_Playlists d). pr_Owner p \<noteq> user \<longrightarrow> p \<in> set (pd_Playlists d') \<and> tracks_of (pr_ID p) d' = tracks_of (pr_ID p) d)"

lemma spares_refl [simp]: "spares user d d"
  by (simp add: spares_def)

text \<open>Changes to the tracks of one playlist and to the rows of the user.\<close>

definition only_playlist :: "string \<Rightarrow> string \<Rightarrow> pdb \<Rightarrow> pdb \<Rightarrow> bool" where
  "only_playlist user i d d' \<longleftrightarrow>
     (\<forall>p \<in> set (pd_Playlists d). pr_Owner p \<noteq> user \<longrightarrow> p \<in> set (pd_Playlists d')) \<and> (\<forall>j. j \<noteq> i \<longrightarrow> tracks_of j d' = tracks_of j d)"

lemma only_refl [simp]: "only_playlist user i d d"
  by (simp add: only_playlist_def)

lemma only_trans: "only_playlist user i d d1 \<Longrightarrow> only_playlist user i d1 d2 \<Longrightarrow> only_playlist user i d d2"
  by (auto simp: only_playlist_def)

lemma only_tracks: "pd_Playlists d' = pd_Playlists d \<Longrightarrow> (\<And>j. j \<noteq> i \<Longrightarrow> tracks_of j d' = tracks_of j d) \<Longrightarrow> only_playlist user i d d'"
  by (simp add: only_playlist_def)

lemma only_spares:
  assumes "only_playlist user i d d'" "\<And>p. p \<in> set (pd_Playlists d) \<Longrightarrow> pr_ID p = i \<Longrightarrow> pr_Owner p = user"
  shows "spares user d d'"
  using assms by (auto simp: spares_def only_playlist_def)

lemma add_body_any:
  assumes "add_body c i ys s = (None, s')"
  shows "only_playlist user i (fst s) (fst s')"
proof -
  from assms obtain m s1 m' where q: "getMaxTrackNr c i s = (Inr m, s1)"
      and e: "execBatch (insert_batch c i) ys (m, s1) = (None, m', s')"
    by (auto simp: add_body_def split: prod.splits sum.splits option.splits)
  from q have s1: "fst s1 = fst s"
    unfolding getMaxTrackNr_def by (auto dest!: getQuery_row_Inr faulty_Inr simp: sql_max_track_def)
  obtain d1 fs1 where p1: "s1 = (d1, fs1)" by fastforce
  obtain d' fs' where p': "s' = (d', fs')" by fastforce
  have "pd_Tracks d' = pd_Tracks d1 @ new_tracks i m (concat (pieces execBatchSize ys)) \<and> pd_Playlists d' = pd_Playlists d1"
    using insert_batches [of c i "pieces execBatchSize ys" m d1 fs1 m' d' fs'] e p1 p' by (simp add: execBatch_all_pieces)
  then show ?thesis using s1 p1 p' by (intro only_tracks) (simp_all add: tracks_of_def new_tracks_of)
qed

lemma add_any: "PL_AddTracks conn True i ys s = (None, s') \<Longrightarrow> only_playlist user i (fst s) (fst s')"
  by (auto simp: PL_AddTracks_def newTransactionFn_def split: if_splits intro: add_body_any)

lemma clear_any:
  assumes "PL_ClearTracks c i s = (None, s')"
  shows "only_playlist user i (fst s) (fst s')"
proof -
  from assms have "fst s' = snd (sql_delete_tracks (\<lambda>t. tr_Playlist t = i) (fst s))"
    unfolding PL_ClearTracks_def by (auto dest!: executeQuery_None faulty_state)
  then show ?thesis by (intro only_tracks) (auto simp: sql_delete_tracks_def tracks_of_def intro: filter_cong)
qed

lemma remove_any:
  assumes "PL_RemoveTracks conn True i nrs s = (None, s')"
  shows "only_playlist user i (fst s) (fst s')"
proof (cases "nrs = []")
  case True
  with assms show ?thesis by (simp add: PL_RemoveTracks_def)
next
  case False
  let ?c = "sc_Constraint conn" and ?del = "\<lambda>t. tr_Playlist t = i \<and> tr_Track t \<in> set nrs"
  let ?up = "sql_update_tracks (\<lambda>t. tr_Playlist t = i \<and> sort nrs ! 0 < tr_Track t) (track_case (sort nrs))"
  from assms False obtain n s1 s2 where d: "executeQueryCountAffectedRows ?c (faulty (sql_delete_tracks ?del)) s = (Inr n, s1)"
      and f: "executeQuery ?c (faulty sql_set_deferred) s1 = (None, s2)" and u: "executeQuery ?c (faulty ?up) s2 = (None, s')"
    by (auto simp: PL_RemoveTracks_def newTransactionFn_def remove_body_def Let_def split: prod.splits sum.splits option.splits if_splits)
  from d have 1: "fst s1 = snd (sql_delete_tracks ?del (fst s))"
    unfolding executeQueryCountAffectedRows_def by (auto dest!: faulty_state split: prod.splits sum.splits)
  from f have 2: "fst s2 = snd (sql_set_deferred (fst s1))" by (auto dest!: executeQuery_None faulty_state)
  from u have 3: "fst s' = snd (?up (fst s2))" by (auto dest!: executeQuery_None faulty_state)
  have "filter (\<lambda>t. tr_Playlist t = j) (map (\<lambda>t. if tr_Playlist t = i \<and> P t then t\<lparr>tr_Track := g t\<rparr> else t) (filter (\<lambda>t. \<not> ?del t) ts)) =
      filter (\<lambda>t. tr_Playlist t = j) ts" if "j \<noteq> i" for j ts g P
    using that by (induction ts) auto
  then show ?thesis
    unfolding 1 2 3 by (intro only_tracks) (simp_all add: sql_update_tracks_def put_tracks_def sql_set_deferred_def sql_delete_tracks_def tracks_of_def)
qed

lemma update_any:
  assumes "PL_Update c now user i params s = (None, s')"
  shows "only_playlist user i (fst s) (fst s')"
  using PL_Update_success [OF assms] by (auto simp: only_playlist_def tracks_of_def image_iff intro!: bexI)

lemma create_any:
  assumes "PL_Create c new_id now name user public comment s = (Inr p, s')"
  shows "new_id \<notin> pr_ID ` set (pd_Playlists (fst s))" "only_playlist user new_id (fst s) (fst s')"
proof -
  from getQuery_row_Inr [OF assms [unfolded PL_Create_def Let_def]]
  have "new_id \<notin> pr_ID ` set (pd_Playlists (fst s)) \<and> pd_Tracks (fst s') = pd_Tracks (fst s)
      \<and> set (pd_Playlists (fst s)) \<subseteq> set (pd_Playlists (fst s'))"
    by (frule_tac faulty_Inr, drule_tac faulty_state) (auto split: if_splits)
  then show "new_id \<notin> pr_ID ` set (pd_Playlists (fst s))" "only_playlist user new_id (fst s) (fst s')"
    by (auto simp: only_playlist_def tracks_of_def)
qed

definition ids_distinct :: "pdb \<Rightarrow> bool" where
  "ids_distinct d \<longleftrightarrow> distinct (map pr_ID (pd_Playlists d))"

lemma same_row: "ids_distinct d \<Longrightarrow> p \<in> set (pd_Playlists d) \<Longrightarrow> p' \<in> set (pd_Playlists d) \<Longrightarrow> pr_ID p = pr_ID p' \<Longrightarrow> p = p'"
  unfolding ids_distinct_def by (metis distinct_map inj_onD)

lemma faulty_cases: "faulty run s = (res, s') \<Longrightarrow> fst s' = fst s \<or> fst s' = snd (run (fst s))"
  by (auto simp: faulty_def split: list.splits option.splits prod.splits)

lemma expect_state: "executeQueryExpectAffectedRows c run s = (err, s') \<Longrightarrow> s' = snd (run s)"
  by (auto simp: executeQueryExpectAffectedRows_def split: prod.splits)

lemma update_result_any:
  assumes "PL_Update c now user i params s = (err, s')"
  shows "spares user (fst s) (fst s')"
proof -
  let ?hit = "\<lambda>p. pr_ID p = i \<and> pr_Owner p = user"
  let ?run = "\<lambda>d. (Inr (Some (int (length (filter ?hit (pd_Playlists d))))) :: go_error + int option,
      d\<lparr>pd_Playlists := map (\<lambda>p. if ?hit p then set_playlist params now p else p) (pd_Playlists d)\<rparr>)"
  have "s' = snd (faulty ?run s)" by (rule expect_state [OF assms [unfolded PL_Update_def Let_def]])
  then have "faulty ?run s = (fst (faulty ?run s), s')" by simp
  from faulty_cases [OF this] show ?thesis
    by (auto simp: spares_def tracks_of_def image_iff intro!: bexI)
qed

lemma delete_any:
  assumes "PL_Delete c user i s = (err, s')" "ids_distinct (fst s)"
  shows "spares user (fst s) (fst s')"
proof -
  let ?hit = "\<lambda>p. pr_ID p = i \<and> pr_Owner p = user"
  let ?cascade = "\<lambda>d t. \<exists>p \<in> set (pd_Playlists d). ?hit p \<and> pr_ID p = tr_Playlist t"
  let ?run = "\<lambda>d. (Inr (Some (int (length (filter ?hit (pd_Playlists d))))) :: go_error + int option,
      d\<lparr>pd_Playlists := filter (\<lambda>p. \<not> ?hit p) (pd_Playlists d), pd_Tracks := filter (\<lambda>t. \<not> ?cascade d t) (pd_Tracks d)\<rparr>)"
  have "s' = snd (faulty ?run s)" by (rule expect_state [OF assms(1) [unfolded PL_Delete_def Let_def]])
  then have "faulty ?run s = (fst (faulty ?run s), s')" by simp
  from faulty_cases [OF this] show ?thesis
  proof
    assume "fst s' = snd (?run (fst s))"
    then have s': "fst s' = (fst s)\<lparr>pd_Playlists := filter (\<lambda>p. \<not> ?hit p) (pd_Playlists (fst s)),
        pd_Tracks := filter (\<lambda>t. \<not> ?cascade (fst s) t) (pd_Tracks (fst s))\<rparr>" by simp
    show ?thesis
      unfolding spares_def
    proof (intro ballI impI conjI)
      fix p assume p: "p \<in> set (pd_Playlists (fst s))" "pr_Owner p \<noteq> user"
      then show "p \<in> set (pd_Playlists (fst s'))" by (simp add: s')
      have "\<not> ?cascade (fst s) t" if "tr_Playlist t = pr_ID p" for t
        using same_row [OF assms(2) p(1)] p(2) that by metis
      then show "tracks_of (pr_ID p) (fst s') = tracks_of (pr_ID p) (fst s)"
        by (auto simp: s' tracks_of_def intro: filter_cong)
    qed
  qed simp
qed

lemma create_tx_spares:
  assumes "create_tx env user i name songIds s = (None, s')" "ids_distinct (fst s)"
  shows "spares user (fst s) (fst s')"
proof -
  let ?i = "playlist_id env i"
  from assms(1) obtain s1 s2 where f: "create_first env user i name s = (None, s1)" and c: "PL_ClearTracks (pe_c env) ?i s1 = (None, s2)"
      and a: "PL_AddTracks (pe_conn env) True ?i songIds s2 = (None, s')"
    by (auto simp: create_tx_def PL_AddTracks_def split: prod.splits option.splits if_splits)
  have first: "only_playlist user ?i (fst s) (fst s1) \<and> (\<forall>p \<in> set (pd_Playlists (fst s)). pr_ID p = ?i \<longrightarrow> pr_Owner p = user)"
  proof (cases "i = []")
    case True
    with f obtain p where "PL_Create (pe_c env) ?i (pe_now env) name user False None s = (Inr p, s1)"
      by (auto simp: create_first_def split: prod.splits sum.splits)
    from create_any [OF this] show ?thesis by (blast intro: image_eqI [OF sym])
  next
    case False
    with f obtain params where u: "PL_Update (pe_c env) (pe_now env) user i params s = (None, s1)"
      by (auto simp: create_first_def Let_def split: prod.splits option.splits if_splits)
    from PL_Update_success(1) [OF u] obtain p0 where p0: "p0 \<in> set (pd_Playlists (fst s))" "pr_ID p0 = i" "pr_Owner p0 = user" by blast
    with same_row [OF assms(2)] update_any [OF u] False show ?thesis by (auto simp: playlist_id_def)
  qed
  have "only_playlist user ?i (fst s) (fst s')"
    using only_trans [OF conjunct1 [OF first] only_trans [OF clear_any [OF c] add_any [OF a]]] .
  with first show ?thesis by (intro only_spares) auto
qed

lemma update_tx_spares:
  assumes "update_tx env user i params nrs ys s = (None, s')" "ids_distinct (fst s)"
  shows "spares user (fst s) (fst s')"
proof -
  from assms(1) obtain p n s1 s2 s3 where f: "PL_FindByID (pe_c env) user i False s = (Inr (p, n), s1)"
      and u: "PL_Update (pe_c env) (pe_now env) user i params s1 = (None, s2)"
      and r: "update_remove env i n nrs s2 = (None, s3)" and a: "update_add env i ys s3 = (None, s')"
    by (auto simp: update_tx_def split: prod.splits sum.splits option.splits)
  from PL_FindByID_Inr [OF f] have 1: "fst s1 = fst s" ..
  from r have r': "PL_RemoveTracks (pe_conn env) True i nrs s2 = (None, s3)"
    by (auto simp: update_remove_def PL_RemoveTracks_def split: if_splits option.splits prod.splits)
  from a have a': "PL_AddTracks (pe_conn env) True i ys s3 = (None, s')"
    by (auto simp: update_add_def PL_AddTracks_def split: if_splits option.splits prod.splits)
  have "only_playlist user i (fst s) (fst s')"
    using only_trans [OF update_any [OF u] only_trans [OF remove_any [OF r'] add_any [OF a']]] by (simp add: 1)
  with PL_Update_success(1) [OF u] same_row [OF assms(2)] 1 show ?thesis by (intro only_spares) auto
qed

lemma in_db_tx_spares:
  assumes "in_db (pl_tx env fn) s = (err, s')" "pe_conn env = playlist_conn c b cm"
    and "\<And>d1 fs1. fn (ph_db s) = (None, d1, fs1) \<Longrightarrow> spares user (fst (ph_db s)) d1"
  shows "spares user (fst (ph_db s)) (fst (ph_db s'))"
proof -
  obtain d fs where db: "ph_db s = (d, fs)" by fastforce
  obtain d' fs' where t: "pl_tx env fn (d, fs) = (err, d', fs')" and db': "ph_db s' = (d', fs')"
    using assms(1) db by (auto simp: in_db_def split: prod.splits)
  show ?thesis
  proof (cases err)
    case (Some e)
    with pl_tx_error [of env fn d fs e d' fs'] t db db' show ?thesis by simp
  next
    case None
    from pl_tx_success [OF t [unfolded None]] obtain d1 where u: "fn (d, fs) = (None, d1, fs')" "sc_Commit (pe_conn env) d1 = Inr d'" by blast
    from assms(3) [unfolded db, OF u(1)] commit_tables [OF u(2) [unfolded assms(2)]] db db' show ?thesis
      by (simp add: spares_def tracks_of_def)
  qed
qed

lemma in_db_read: "in_db f s = (a, s') \<Longrightarrow> (\<And>x y. f (ph_db s) = (x, y) \<Longrightarrow> fst y = fst (ph_db s)) \<Longrightarrow> fst (ph_db s') = fst (ph_db s)"
  by (auto simp: in_db_def split: prod.splits)

lemma select_reads: "(\<And>d. snd (run d) = d) \<Longrightarrow> selectQuery c (faulty run) s = (a, s') \<Longrightarrow> fst s' = fst s"
  by (auto simp: selectQuery_def split: prod.splits sum.splits dest!: faulty_cases)

lemma get_reads: "(\<And>d. snd (run d) = d) \<Longrightarrow> getQuery_row c (faulty run) s = (a, s') \<Longrightarrow> fst s' = fst s"
  by (auto simp: getQuery_row_def split: prod.splits sum.splits if_splits dest!: select_reads [rotated])

lemma find_reads: "PL_FindByID c user i pub s = (a, s') \<Longrightarrow> fst s' = fst s"
  unfolding PL_FindByID_def by (erule get_reads [rotated]) simp

lemma tracks_read: "PL_GetTracks c i s = (a, s') \<Longrightarrow> fst s' = fst s"
  unfolding PL_GetTracks_def by (erule select_reads [rotated]) simp

lemma playlist_read: "getPlaylistById env i user s = (a, s') \<Longrightarrow> fst s' = fst s"
  by (auto simp: getPlaylistById_def split: prod.splits sum.splits dest!: find_reads tracks_read)

lemma cover_file_db [simp]: "ph_db (snd (remove_cover_file env p s)) = ph_db s" "ph_db (drop_playlist_covers env i s) = ph_db s"
  by (auto simp: remove_cover_file_def drop_playlist_covers_def split: option.split)

lemma save_cover_db: "save_cover_image env up p img s = (err, s') \<Longrightarrow> ph_db s' = ph_db s"
  by (auto simp: save_cover_image_def Let_def split: option.splits prod.splits)

lemma create_request_spares:
  assumes "handleCreatePlaylist env q w s = (out, s')" "pe_conn env = playlist_conn c b cm" "ids_distinct (fst (ph_db s))"
  shows "spares (Q_User q) (fst (ph_db s)) (fst (ph_db s'))"
proof (cases "s' = s")
  case False
  let ?i = "Q_Str q ''playlistId''" and ?name = "Q_Str q ''name''"
  from assms(1) False obtain songIds err s1 where
      t: "in_db (pl_tx env (create_tx env (Q_User q) ?i ?name songIds)) s = (err, s1)" and
      g: "s' = s1 \<or> (\<exists>a. in_db (getPlaylistById env (playlist_id env ?i) (Q_User q)) s1 = (a, s'))"
    by (auto simp: handleCreatePlaylist_def Let_def pl_ok_def split: if_splits prod.splits option.splits sum.splits)
  have "spares (Q_User q) (fst (ph_db s)) (fst (ph_db s1))"
    by (rule in_db_tx_spares [OF t assms(2)]) (use create_tx_spares assms(3) in fastforce)
  moreover have "fst (ph_db s') = fst (ph_db s1)"
    using g by (auto dest!: in_db_read intro: playlist_read)
  ultimately show ?thesis by simp
qed simp

lemma update_request_spares:
  assumes "handleUpdatePlaylist env q w s = (out, s')" "pe_conn env = playlist_conn c b cm" "ids_distinct (fst (ph_db s))"
  shows "spares (Q_User q) (fst (ph_db s)) (fst (ph_db s'))"
proof (cases "s' = s")
  case False
  with assms(1) obtain i params nrs ys err where
      t: "in_db (pl_tx env (update_tx env (Q_User q) i params nrs ys)) s = (err, s')"
    by (auto simp: handleUpdatePlaylist_def pl_ok_def split: prod.splits option.splits)
  show ?thesis
    by (rule in_db_tx_spares [OF t assms(2)]) (use update_tx_spares assms(3) in fastforce)
qed simp

lemma delete_request_spares:
  assumes "handleDeletePlaylist env q w s = (out, s')" "ids_distinct (fst (ph_db s))"
  shows "spares (Q_User q) (fst (ph_db s)) (fst (ph_db s'))"
proof (cases "s' = s")
  case False
  with assms(1) obtain i err s1 where t: "in_db (PL_Delete (pe_c env) (Q_User q) i) s = (err, s1)" and "ph_db s' = ph_db s1"
    by (auto simp: handleDeletePlaylist_def pl_ok_def split: prod.splits option.splits) (metis cover_file_db(1) snd_conv)+
  then show ?thesis using delete_any [OF _ assms(2)] by (auto simp: in_db_def split: prod.splits)
qed simp

lemma cover_request_spares:
  assumes "handleSetPlaylistCover env up q w s = (out, s')"
  shows "spares (Q_User q) (fst (ph_db s)) (fst (ph_db s'))"
proof (cases "s' = s")
  case False
  with assms obtain i w1 a s1 where r: "IDReq q ''id'' w = (Some i, w1)" and
      f: "in_db (PL_FindByID (pe_c env) (Q_User q) i False) s = (a, s1)"
    by (auto simp: handleSetPlaylistCover_def split: prod.splits option.splits)
  from in_db_read [OF f] have 1: "fst (ph_db s1) = fst (ph_db s)" by (auto dest: find_reads)
  have "ph_db s' = ph_db s1 \<or> (\<exists>err s2. ph_db s2 = ph_db s1 \<and> in_db (PL_Update (pe_c env) (pe_now env) (Q_User q) i no_update) s2 = (err, s'))"
    using assms r f unfolding handleSetPlaylistCover_def Let_def pl_ok_def
    by (auto split: if_splits prod.splits option.splits sum.splits decoded.splits dest!: save_cover_db)
      (metis cover_file_db snd_conv)+
  then show ?thesis
  proof
    assume "\<exists>err s2. ph_db s2 = ph_db s1 \<and> in_db (PL_Update (pe_c env) (pe_now env) (Q_User q) i no_update) s2 = (err, s')"
    then obtain err s2 where e: "ph_db s2 = ph_db s1" "in_db (PL_Update (pe_c env) (pe_now env) (Q_User q) i no_update) s2 = (err, s')" by blast
    then have "PL_Update (pe_c env) (pe_now env) (Q_User q) i no_update (ph_db s1) =
        (fst (PL_Update (pe_c env) (pe_now env) (Q_User q) i no_update (ph_db s1)), ph_db s')"
      by (auto simp: in_db_def split: prod.splits)
    from update_result_any [OF this] show ?thesis by (simp add: 1)
  qed (simp add: 1)
qed simp

text \<open>
  C16: no request changes a playlist of another user than its own, neither its row nor its tracks, whether it
  succeeds or fails and whatever faults there are.
\<close>

theorem playlists_of_others_spared:
  assumes "pe_conn env = playlist_conn c b cm" "ids_distinct (fst (ph_db s))"
  shows "spares (Q_User q) (fst (ph_db s)) (fst (ph_db (snd (handleCreatePlaylist env q w s))))
    \<and> spares (Q_User q) (fst (ph_db s)) (fst (ph_db (snd (handleUpdatePlaylist env q w s))))
    \<and> spares (Q_User q) (fst (ph_db s)) (fst (ph_db (snd (handleDeletePlaylist env q w s))))
    \<and> spares (Q_User q) (fst (ph_db s)) (fst (ph_db (snd (handleSetPlaylistCover env up q w s))))"
  using create_request_spares [OF _ assms] update_request_spares [OF _ assms] delete_request_spares [OF _ assms(2)] cover_request_spares
  by (metis prod.collapse)

section \<open>An update succeeds\<close>

lemma find_own:
  assumes "ids_distinct d" "p \<in> set (pd_Playlists d)"
  shows "PL_FindByID c (pr_Owner p) (pr_ID p) pub (d, []) = (Inr (p, int (length (tracks_of (pr_ID p) d))), d, [])"
proof -
  have "P p \<Longrightarrow> p \<in> set ps \<Longrightarrow> distinct (map pr_ID ps) \<Longrightarrow> filter (\<lambda>x. pr_ID x = pr_ID p \<and> P x) ps = [p]" for ps P
    by (induction ps) (auto simp: filter_empty_conv image_iff)
  with assms have "filter (\<lambda>x. pr_ID x = pr_ID p \<and> (pr_Owner x = pr_Owner p \<or> pub \<and> pr_Public x)) (pd_Playlists d) = [p]"
    by (simp add: ids_distinct_def)
  then show ?thesis by (simp add: PL_FindByID_def getQuery_row_def selectQuery_def faulty_def)
qed

lemma update_own:
  assumes "p \<in> set (pd_Playlists d)"
  shows "\<exists>d'. PL_Update c now (pr_Owner p) (pr_ID p) params (d, []) = (None, d', []) \<and> pd_Tracks d' = pd_Tracks d \<and> pd_Deferred d' = pd_Deferred d"
proof -
  have "filter (\<lambda>x. pr_ID x = pr_ID p \<and> pr_Owner x = pr_Owner p) (pd_Playlists d) \<noteq> []" using assms by (auto simp: filter_empty_conv)
  then show ?thesis by (simp add: PL_Update_def executeQueryExpectAffectedRows_def faulty_def wrapResErr_def Let_def)
qed

lemma tracks_wf_cong: "pd_Tracks d' = pd_Tracks d \<Longrightarrow> tracks_wf d' = tracks_wf d"
  by (simp add: tracks_wf_def tr_holds_def tracks_of_def)

lemma update_tx_ok:
  assumes "tracks_wf d" "ids_distinct d" "p \<in> set (pd_Playlists d)" "tr_holds d (pr_ID p) xs" "removable nrs xs"
  shows "\<exists>d'. update_tx env (pr_Owner p) (pr_ID p) params nrs ys (d, []) = (None, d', []) \<and> tracks_wf d'"
proof -
  obtain d1 where u: "PL_Update (pe_c env) (pe_now env) (pr_Owner p) (pr_ID p) params (d, []) = (None, d1, [])" "pd_Tracks d1 = pd_Tracks d"
    using update_own [OF assms(3)] by blast
  have h1: "tr_holds d1 (pr_ID p) xs" "tracks_wf d1"
    using assms(1,4) tr_holds_cong [OF u(2)] tracks_wf_cong [OF u(2)] by simp_all
  have len: "length (tracks_of (pr_ID p) d) = length xs" using tr_holds_length [OF assms(4)] .
  have ok: "find (bad_index (int (length xs))) nrs = None"
    using assms(5) by (auto simp: find_None_iff bad_index_def removable_def)
  obtain d2 where r: "update_remove env (pr_ID p) (int (length xs)) nrs (d1, []) = (None, d2, [])" "tracks_wf d2"
      "tr_holds d2 (pr_ID p) (nths xs (kept nrs))"
  proof (cases "nrs = []")
    case True
    with h1 that show ?thesis by (simp add: update_remove_def kept_Nil)
  next
    case False
    from remove_body_ok [OF h1(1) assms(5)] obtain d2 where b: "remove_body (sc_Constraint (pe_conn env)) (pr_ID p) nrs (d1, []) = (None, d2, [])" by blast
    then have "update_remove env (pr_ID p) (int (length xs)) nrs (d1, []) = (None, d2, [])"
      using False by (simp add: update_remove_def ok PL_RemoveTracks_def newTransactionFn_def)
    moreover have rows: "pd_Tracks d2 = without_tracks (pr_ID p) nrs (pd_Tracks d1)" using remove_body_rows(2) [OF b] h1(1) by simp
    ultimately show ?thesis
      using removed_wf [OF h1(2,1) assms(5) False rows] tr_holds_removed(1) [OF h1(1) assms(5) False rows] that by blast
  qed
  obtain d3 where a: "update_add env (pr_ID p) ys (d2, []) = (None, d3, [])" "tracks_wf d3"
  proof (cases "ys = []")
    case True
    with r(2) that show ?thesis by (simp add: update_add_def)
  next
    case False
    from add_body_ok [OF r(2,3)] obtain d3 where b: "add_body (sc_Constraint (pe_conn env)) (pr_ID p) ys (d2, []) = (None, d3, [])" by blast
    then have "update_add env (pr_ID p) ys (d2, []) = (None, d3, [])"
      using False by (simp add: update_add_def PL_AddTracks_def newTransactionFn_def)
    moreover have "pd_Tracks d3 = pd_Tracks d2 @ new_tracks (pr_ID p) (int (length (nths xs (kept nrs))) - 1) ys"
      using add_body_rows(1) [OF b] r(3) by simp
    ultimately show ?thesis using added_wf [OF r(2,3)] that by blast
  qed
  show ?thesis
    using u(1) r(1) a find_own [OF assms(2,3)] by (simp add: update_tx_def len)
qed

lemma update_in_db_ok:
  assumes "tracks_wf d" "ids_distinct d" "p \<in> set (pd_Playlists d)" "tr_holds d (pr_ID p) xs" "removable nrs xs"
    and "ph_db s = (d, [])" "pe_conn env = healthy c"
  shows "\<exists>s'. in_db (pl_tx env (update_tx env (pr_Owner p) (pr_ID p) params nrs ys)) s = (None, s')"
proof -
  from update_tx_ok [OF assms(1-5), of env params ys] obtain d' where
    "update_tx env (pr_Owner p) (pr_ID p) params nrs ys (d, []) = (None, d', [])" "unique_tracks (pd_Tracks d')"
    using tracks_wf_unique by blast
  then show ?thesis
    by (simp add: in_db_def pl_tx_def Transaction_def tx_done_def assms(6,7) healthy_def playlist_conn_def)
qed

section \<open>A playlist is updated\<close>

text \<open>The user u removes the first of two songs and adds another one.\<close>

definition wit_pl_id :: string where "wit_pl_id = ''pl_aaaaaaaaaaaa''"
definition wit_song_id :: string where "wit_song_id = ''tr_bbbbbbbbbbbb''"

definition wit_ph_env :: ph_env where
  "wit_ph_env = \<lparr> pe_conn = healthy (\<lambda>_. None), pe_now = 9, pe_gen = ''cccccccccccc'', pe_DataDir = ''/d'',
     pe_io = wit_cover_io, pe_order = [] \<rparr>"

definition wit_ph_query :: url_values where
  "wit_ph_query = [''playlistId'' \<mapsto> [wit_pl_id], ''songIndexToRemove'' \<mapsto> [''0''], ''songIdToAdd'' \<mapsto> [wit_song_id], ''u'' \<mapsto> [''u'']]"

definition wit_ph_state :: ph_state where
  "wit_ph_state = \<lparr> ph_db = (wit_pdb wit_pl_id [''s'', ''t''], []), ph_files = Map.empty, ph_cache = cs_cache wit_cover_state \<rparr>"

lemma wit_atoi: "atoi ''0'' = Inr 0"
  by (simp add: atoi_def atoi_full_def parse_unsigned_def digits_val_def is_digit_def code_of_def clamp_int_def max_int_def min_int_def)

lemma wit_ph_params:
  "IDReq wit_ph_query ''playlistId'' w = (Some wit_pl_id, w)" "Q_Ints wit_ph_query ''songIndexToRemove'' w = (Some [0], w)"
  "IDsType wit_ph_query ''songIdToAdd'' [IDTypeSong] w = (Some [wit_song_id], w)"
  by (simp_all add: IDReq_def StrReq_def Q_Str_def values_Get_def values_get_all_def wit_ph_query_def wit_pl_id_def wit_song_id_def
      IDRegex_match_def id_types_def id_tail_def IDAlphabet_def Q_Ints_def Q_Strs_def wit_atoi IDsType_def Q_IDs_def
      id_type_allowed_def GetIDType_def Let_def)

lemma wit_ph_update:
  "\<exists>s'. handleUpdatePlaylist wit_ph_env wit_ph_query [] wit_ph_state = (([WOk (Q_Format wit_ph_query)], Some REmpty), s')"
proof -
  let ?d = "wit_pdb wit_pl_id [''s'', ''t'']"
  have "removable [0] [''s'', ''t'']" by (auto simp: removable_def)
  moreover define p where "p = hd (pd_Playlists ?d)"
  moreover have "p \<in> set (pd_Playlists ?d)" "pr_ID p = wit_pl_id" and owner: "pr_Owner p = ''u''"
    by (simp_all add: p_def wit_pdb_def)
  moreover have "ids_distinct ?d" by (simp add: ids_distinct_def wit_pdb_def)
  moreover have "tr_holds ?d (pr_ID p) [''s'', ''t'']" using \<open>pr_ID p = wit_pl_id\<close> wit_pdb_holds by simp
  moreover have "ph_db wit_ph_state = (?d, [])" "pe_conn wit_ph_env = healthy (\<lambda>_. None)"
    by (simp_all add: wit_ph_state_def wit_ph_env_def)
  ultimately obtain s' where "in_db (pl_tx wit_ph_env (update_tx wit_ph_env ''u'' wit_pl_id (update_params wit_ph_query) [0] [wit_song_id])) wit_ph_state = (None, s')"
    using update_in_db_ok [OF wit_pdb_wf, of wit_pl_id "[''s'', ''t'']" p] by metis
  moreover have "Q_User wit_ph_query = ''u''" by (simp add: Q_User_def Q_Str_def values_Get_def values_get_all_def wit_ph_query_def)
  ultimately show ?thesis by (simp add: handleUpdatePlaylist_def wit_ph_params pl_ok_def)
qed

lemma update_playlist_spec_witness:
  "\<exists>s'. handleUpdatePlaylist wit_ph_env wit_ph_query [] wit_ph_state = (([WOk (Q_Format wit_ph_query)], Some REmpty), s')
     \<and> content (fst (ph_db s')) wit_pl_id = [''t'', wit_song_id]"
proof -
  obtain s' where h: "handleUpdatePlaylist wit_ph_env wit_ph_query [] wit_ph_state = (([WOk (Q_Format wit_ph_query)], Some REmpty), s')"
    using wit_ph_update by blast
  have conn: "pe_conn wit_ph_env = playlist_conn (\<lambda>_. None) (\<lambda>_. None) (\<lambda>_. None)" by (simp add: wit_ph_env_def healthy_def)
  have holds: "tr_holds (fst (ph_db wit_ph_state)) wit_pl_id [''s'', ''t'']" by (simp add: wit_ph_state_def wit_pdb_holds)
  have "nths [''s'', ''t''] (kept [0]) = [''t'']" by (simp add: nths_Cons kept_def)
  with update_playlist_spec [OF h conn wit_ph_params holds] h show ?thesis by auto
qed

lemma playlists_of_others_spared_witness:
  "spares ''u'' (fst (ph_db wit_ph_state)) (fst (ph_db (snd (handleUpdatePlaylist wit_ph_env wit_ph_query [] wit_ph_state))))"
proof -
  have conn: "pe_conn wit_ph_env = playlist_conn (\<lambda>_. None) (\<lambda>_. None) (\<lambda>_. None)" by (simp add: wit_ph_env_def healthy_def)
  have ids: "ids_distinct (fst (ph_db wit_ph_state))" by (simp add: ids_distinct_def wit_ph_state_def wit_pdb_def)
  have "Q_User wit_ph_query = ''u''" by (simp add: Q_User_def Q_Str_def values_Get_def values_get_all_def wit_ph_query_def)
  moreover have "spares (Q_User wit_ph_query) (fst (ph_db wit_ph_state)) (fst (ph_db (snd (handleUpdatePlaylist wit_ph_env wit_ph_query [] wit_ph_state))))"
    if "up = (up :: unit cover_upload)" for up
    using playlists_of_others_spared [OF conn ids, of wit_ph_query "[]" up] by blast
  ultimately show ?thesis by simp
qed

end
