(* ===== verification/Entities.thy ===== *)
theory Entities
  imports AlbumMap Ids Transcode "HOL-Library.Multiset"
begin

text \<open>
  Songs, albums and artists as the repositories return them (\<open>repos/song.go\<close>, \<open>album.go\<close>, \<open>artist.go\<close>) and as
  responses show them (\<open>handlers/responses/song.go\<close>, \<open>album.go\<close>, \<open>artist.go\<close>, \<open>date.go\<close>, \<open>genre.go\<close>, \<open>helpers.go\<close>).
  The parts of a row that a query need not include are options. Times are nanoseconds since the epoch.
\<close>

section \<open>What the repositories return\<close>

record ArtistRef =
  arf_ID :: string
  arf_Name :: string
  arf_MusicBrainzID :: "string option"

record Song =
  so_ID :: string
  so_Path :: string
  so_AlbumID :: "string option"
  so_Title :: string
  so_Track :: "int option"
  so_ReleaseDate :: "Date option"
  so_OriginalDate :: "Date option"
  so_Size :: int
  so_ContentType :: string
  so_Duration :: DurationMS
  so_BitRate :: int
  so_SamplingRate :: int
  so_ChannelCount :: int
  so_Disc :: "int option"
  so_Created :: int
  so_Updated :: int
  so_BPM :: "int option"
  so_MusicBrainzID :: "string option"
  so_ReplayGain :: "float64 option"
  so_ReplayGainPeak :: "float64 option"
  so_Lyrics :: "string option"
  so_MusicFolderID :: "int option"

record SongAlbumInfo =
  sai_AlbumName :: "string option"
  sai_AlbumReplayGain :: "float64 option"
  sai_AlbumReplayGainPeak :: "float64 option"
  sai_AlbumMusicBrainzID :: "string option"
  sai_AlbumReleaseMBID :: "string option"

text \<open>Songs, albums and artists are annotated alike, songs and albums also with plays.\<close>

record SongAnnotations =
  ann_Starred :: "int option"
  ann_UserRating :: "int option"
  ann_AverageRating :: "float64 option"

type_synonym AlbumAnnotations = SongAnnotations
type_synonym ArtistAnnotations = SongAnnotations

record SongPlayInfo =
  pli_PlayCount :: int
  pli_LastPlayed :: "int option"

type_synonym AlbumPlayInfo = SongPlayInfo

record SongLists =
  sls_Genres :: "string list"
  sls_Artists :: "ArtistRef list"
  sls_AlbumArtists :: "ArtistRef list"

record CompleteSong =
  cs_Song :: Song
  cs_AlbumInfo :: "SongAlbumInfo option"
  cs_Annotations :: "SongAnnotations option"
  cs_PlayInfo :: "SongPlayInfo option"
  cs_Lists :: "SongLists option"

record StoredAlbum = Album +
  sa_Created :: int
  sa_Updated :: int

record AlbumTrackInfo =
  ati_TrackCount :: int
  ati_Duration :: DurationMS

record AlbumLists =
  als_Genres :: "string list"
  als_Artists :: "ArtistRef list"

record CompleteAlbum =
  ca_Album :: StoredAlbum
  ca_TrackInfo :: "AlbumTrackInfo option"
  ca_Annotations :: "AlbumAnnotations option"
  ca_PlayInfo :: "AlbumPlayInfo option"
  ca_Lists :: "AlbumLists option"

record Artist = artist_row +
  at_Created :: int
  at_Updated :: int

record CompleteArtist =
  ct_Artist :: Artist
  ct_Annotations :: "ArtistAnnotations option"
  ct_AlbumCount :: "int option"

text \<open>The gain for songs without one, \<open>repos/fallbackgain.go\<close>: minus eight until a negative gain is set.\<close>

definition f64_nonneg :: "float64 \<Rightarrow> bool" where
  "f64_nonneg x \<longleftrightarrow> \<not> is_nan x \<and> (\<not> bit x 63 \<or> take_bit 63 x = 0)"

definition defaultFallbackGain :: float64 where
  "defaultFallbackGain = 0xC020000000000000"

definition FallbackGain :: "float64 option \<Rightarrow> float64" where
  "FallbackGain fallbackGain = (case fallbackGain of None \<Rightarrow> defaultFallbackGain | Some g \<Rightarrow> g)"

definition SetFallbackGain :: "float64 \<Rightarrow> float64 option" where
  "SetFallbackGain gain = (if f64_nonneg gain then None else Some gain)"

section \<open>What responses show\<close>

record DateResponse =
  dr_Year :: "int option"
  dr_Month :: "int option"
  dr_Day :: "int option"

definition responses_NewDate :: "Date option \<Rightarrow> DateResponse option" where
  "responses_NewDate date =
     (case date of None \<Rightarrow> None
      | Some d \<Rightarrow> Some \<lparr> dr_Year = Some (Date_Year d), dr_Month = Date_Month d, dr_Day = Date_Day d \<rparr>)"

text \<open>
  Whole seconds of a duration. Durations are whole milliseconds, so that the floating point number of seconds
  the code truncates is exact enough.
\<close>

definition DurationMS_Seconds :: "DurationMS \<Rightarrow> int" where
  "DurationMS_Seconds nt = sint (go_div nt 1000000000)"

text \<open>
  The size of the file \<open>id\<close> in the directory of covers, if it can be told. An artist without a file may still have a
  cover: it would be fetched on demand. An empty file is a placeholder.
\<close>

type_synonym cover_sizes = "string \<Rightarrow> int option"

definition HasCoverArt :: "cover_sizes \<Rightarrow> string \<Rightarrow> bool" where
  "HasCoverArt covers i =
     (case GetIDType i of
        None \<Rightarrow> False
      | Some idType \<Rightarrow> (case covers i of None \<Rightarrow> idType = IDTypeArtist | Some sz \<Rightarrow> sz \<noteq> 0))"

definition FirstOrNil :: "'a list \<Rightarrow> 'a option" where
  "FirstOrNil s = (if length s > 0 then Some (hd s) else None)"

definition FirstOrNilMap :: "'a list \<Rightarrow> ('a \<Rightarrow> 'b) \<Rightarrow> 'b option" where
  "FirstOrNilMap s mapFn = (if length s > 0 then Some (mapFn (hd s)) else None)"

text \<open>\<open>util.Map\<close> of a nil slice is nil and is shown like an empty one.\<close>

definition newGenreRefs :: "string list \<Rightarrow> string list" where
  "newGenreRefs genres = map (\<lambda>g. g) genres"

definition newArtistRef :: "ArtistRef \<Rightarrow> string \<times> string" where
  "newArtistRef a = (arf_ID a, arf_Name a)"

definition newArtistRefs :: "ArtistRef list \<Rightarrow> (string \<times> string) list" where
  "newArtistRefs a = map newArtistRef a"

record ReplayGainResponse =
  rg_TrackGain :: "float64 option"
  rg_AlbumGain :: "float64 option"
  rg_TrackPeak :: "float64 option"
  rg_AlbumPeak :: "float64 option"
  rg_FallbackGain :: "float64 option"

record SongResponse =
  rs_ID :: string
  rs_IsDir :: bool
  rs_Parent :: "string option"
  rs_Title :: string
  rs_Album :: "string option"
  rs_Artist :: "string option"
  rs_Track :: "int option"
  rs_Year :: "int option"
  rs_Genre :: "string option"
  rs_CoverArt :: "string option"
  rs_Size :: int
  rs_ContentType :: string
  rs_Suffix :: string
  rs_Duration :: int
  rs_BitRate :: int
  rs_SamplingRate :: int
  rs_ChannelCount :: int
  rs_UserRating :: "int option"
  rs_AverageRating :: "float64 option"
  rs_PlayCount :: "int option"
  rs_DiscNumber :: "int option"
  rs_Created :: int
  rs_Starred :: "int option"
  rs_AlbumID :: "string option"
  rs_ArtistID :: "string option"
  rs_Type :: string
  rs_MediaType :: string
  rs_Played :: "int option"
  rs_BPM :: "int option"
  rs_MusicBrainzID :: "string option"
  rs_Genres :: "string list"
  rs_Artists :: "(string \<times> string) list"
  rs_AlbumArtists :: "(string \<times> string) list"
  rs_ReplayGain :: ReplayGainResponse
  rs_OriginalReleaseDate :: "DateResponse option"
  rs_ReleaseDate :: "DateResponse option"

text \<open>A song without artists of its own is shown under the first artist of its album.\<close>

definition NewSong :: "cover_sizes \<Rightarrow> float64 \<Rightarrow> CompleteSong \<Rightarrow> SongResponse" where
  "NewSong covers fallbackGain c =
     (let s = cs_Song c;
          coverArt = (case so_AlbumID s of None \<Rightarrow> None | Some a \<Rightarrow> if HasCoverArt covers a then Some a else None);
          year = map_option Date_Year (so_ReleaseDate s);
          song = \<lparr> rs_ID = so_ID s, rs_IsDir = False, rs_Parent = None, rs_Title = so_Title s, rs_Album = None, rs_Artist = None,
            rs_Track = so_Track s, rs_Year = year, rs_Genre = None, rs_CoverArt = coverArt, rs_Size = so_Size s,
            rs_ContentType = so_ContentType s, rs_Suffix = trim_prefix (filepath_Ext (so_Path s)) ''.'',
            rs_Duration = DurationMS_Seconds (so_Duration s), rs_BitRate = so_BitRate s, rs_SamplingRate = so_SamplingRate s,
            rs_ChannelCount = so_ChannelCount s, rs_UserRating = None, rs_AverageRating = None, rs_PlayCount = None,
            rs_DiscNumber = so_Disc s, rs_Created = so_Created s, rs_Starred = None, rs_AlbumID = None, rs_ArtistID = None,
            rs_Type = ''music'', rs_MediaType = ''song'', rs_Played = None, rs_BPM = so_BPM s, rs_MusicBrainzID = so_MusicBrainzID s,
            rs_Genres = [], rs_Artists = [], rs_AlbumArtists = [],
            rs_ReplayGain = \<lparr> rg_TrackGain = so_ReplayGain s, rg_AlbumGain = None, rg_TrackPeak = so_ReplayGainPeak s,
              rg_AlbumPeak = None, rg_FallbackGain = Some fallbackGain \<rparr>,
            rs_OriginalReleaseDate = responses_NewDate (so_OriginalDate s), rs_ReleaseDate = responses_NewDate (so_ReleaseDate s) \<rparr>;
          song = (case cs_AlbumInfo c of None \<Rightarrow> song
            | Some i \<Rightarrow> song\<lparr> rs_Album := sai_AlbumName i, rs_AlbumID := so_AlbumID s, rs_Parent := so_AlbumID s,
                rs_ReplayGain := (rs_ReplayGain song)\<lparr> rg_AlbumGain := sai_AlbumReplayGain i, rg_AlbumPeak := sai_AlbumReplayGainPeak i \<rparr> \<rparr>);
          song = (case cs_Annotations c of None \<Rightarrow> song
            | Some a \<Rightarrow> song\<lparr> rs_Starred := ann_Starred a, rs_UserRating := ann_UserRating a, rs_AverageRating := ann_AverageRating a \<rparr>);
          song = (case cs_PlayInfo c of None \<Rightarrow> song
            | Some p \<Rightarrow> song\<lparr> rs_PlayCount := Some (pli_PlayCount p), rs_Played := pli_LastPlayed p \<rparr>)
      in case cs_Lists c of None \<Rightarrow> song
         | Some ls \<Rightarrow>
             (let song = song\<lparr> rs_Genres := newGenreRefs (sls_Genres ls), rs_Genre := FirstOrNil (sls_Genres ls),
                    rs_Artists := newArtistRefs (sls_Artists ls),
                    rs_Artist := FirstOrNilMap (sls_Artists ls) arf_Name, rs_ArtistID := FirstOrNilMap (sls_Artists ls) arf_ID,
                    rs_AlbumArtists := newArtistRefs (sls_AlbumArtists ls) \<rparr>
              in if length (rs_AlbumArtists song) > 0 \<and> rs_ArtistID song = None \<and> rs_Artist song = None
                 then song\<lparr> rs_ArtistID := Some (fst (hd (rs_AlbumArtists song))), rs_Artist := Some (snd (hd (rs_AlbumArtists song))) \<rparr>
                 else song))"

definition NewSongs :: "cover_sizes \<Rightarrow> float64 \<Rightarrow> CompleteSong list \<Rightarrow> SongResponse list" where
  "NewSongs covers fallbackGain songs = map (NewSong covers fallbackGain) songs"

record AlbumResponse =
  rb_ID :: string
  rb_Created :: int
  rb_ArtistID :: "string option"
  rb_Artist :: "string option"
  rb_Artists :: "(string \<times> string) list"
  rb_CoverArt :: "string option"
  rb_Title :: string
  rb_Name :: string
  rb_SongCount :: int
  rb_Duration :: int
  rb_PlayCount :: "int option"
  rb_Genre :: "string option"
  rb_Genres :: "string list"
  rb_Year :: "int option"
  rb_Starred :: "int option"
  rb_UserRating :: "int option"
  rb_AverageRating :: "float64 option"
  rb_Parent :: "string option"
  rb_IsDir :: bool
  rb_Type :: string
  rb_MediaType :: string
  rb_Played :: "int option"
  rb_MusicBrainzID :: "string option"
  rb_ReleaseMBID :: "string option"
  rb_RecordLabels :: "string list"
  rb_ReleaseTypes :: "string list"
  rb_IsCompilation :: "bool option"
  rb_DiscTitles :: "(int \<times> string) list"
  rb_OriginalReleaseDate :: "DateResponse option"
  rb_ReleaseDate :: "DateResponse option"
  rb_Version :: "string option"

text \<open>The titles of discs, visited in the order \<open>order\<close> of the map's keys and sorted by disc.\<close>

definition disc_titles :: "int list \<Rightarrow> (int \<rightharpoonup> string) \<Rightarrow> (int \<times> string) list" where
  "disc_titles order titles = sort_key fst (List.map_filter (\<lambda>disc. map_option (Pair disc) (titles disc)) order)"

definition NewAlbum :: "cover_sizes \<Rightarrow> ((int \<rightharpoonup> string) \<Rightarrow> int list) \<Rightarrow> CompleteAlbum \<Rightarrow> AlbumResponse" where
  "NewAlbum covers keys c =
     (let a = ca_Album c;
          album = \<lparr> rb_ID = ab_ID a, rb_Created = sa_Created a, rb_ArtistID = None, rb_Artist = None, rb_Artists = [], rb_CoverArt = None,
            rb_Title = ab_Name a, rb_Name = ab_Name a, rb_SongCount = 0, rb_Duration = 0, rb_PlayCount = None, rb_Genre = None,
            rb_Genres = [], rb_Year = map_option Date_Year (ab_ReleaseDate a), rb_Starred = None, rb_UserRating = None,
            rb_AverageRating = None, rb_Parent = None, rb_IsDir = True, rb_Type = ''music'', rb_MediaType = ''album'', rb_Played = None,
            rb_MusicBrainzID = ab_MusicBrainzID a, rb_ReleaseMBID = ab_ReleaseMBID a, rb_RecordLabels = ab_RecordLabels a,
            rb_ReleaseTypes = ab_ReleaseTypes a, rb_IsCompilation = ab_IsCompilation a, rb_DiscTitles = [],
            rb_OriginalReleaseDate = responses_NewDate (ab_OriginalDate a), rb_ReleaseDate = responses_NewDate (ab_ReleaseDate a),
            rb_Version = ab_Version a \<rparr>;
          album = (case ca_TrackInfo c of None \<Rightarrow> album
            | Some t \<Rightarrow> album\<lparr> rb_SongCount := ati_TrackCount t, rb_Duration := DurationMS_Seconds (ati_Duration t) \<rparr>);
          album = (case ca_Annotations c of None \<Rightarrow> album
            | Some n \<Rightarrow> album\<lparr> rb_Starred := ann_Starred n, rb_UserRating := ann_UserRating n, rb_AverageRating := ann_AverageRating n \<rparr>);
          album = (case ca_PlayInfo c of None \<Rightarrow> album
            | Some p \<Rightarrow> album\<lparr> rb_PlayCount := Some (pli_PlayCount p), rb_Played := pli_LastPlayed p \<rparr>);
          album = (case ca_Lists c of None \<Rightarrow> album
            | Some ls \<Rightarrow> album\<lparr> rb_Genres := newGenreRefs (als_Genres ls), rb_Genre := FirstOrNil (als_Genres ls),
                rb_Artists := newArtistRefs (als_Artists ls), rb_Artist := FirstOrNilMap (als_Artists ls) arf_Name,
                rb_ArtistID := FirstOrNilMap (als_Artists ls) arf_ID, rb_Parent := FirstOrNilMap (als_Artists ls) arf_ID \<rparr>);
          album = album\<lparr> rb_DiscTitles := disc_titles (keys (ab_DiscTitles a)) (ab_DiscTitles a) \<rparr>
      in if HasCoverArt covers (ab_ID a) then album\<lparr> rb_CoverArt := Some (ab_ID a) \<rparr> else album)"

definition NewAlbums :: "cover_sizes \<Rightarrow> ((int \<rightharpoonup> string) \<Rightarrow> int list) \<Rightarrow> CompleteAlbum list \<Rightarrow> AlbumResponse list" where
  "NewAlbums covers keys albums = map (NewAlbum covers keys) albums"

record ArtistResponse =
  ra_ID :: string
  ra_Name :: string
  ra_CoverArt :: "string option"
  ra_AlbumCount :: "int option"
  ra_Starred :: "int option"
  ra_MusicBrainzID :: "string option"
  ra_UserRating :: "int option"
  ra_AverageRating :: "float64 option"
  ra_Albums :: "AlbumResponse list"

definition NewArtist :: "cover_sizes \<Rightarrow> CompleteArtist \<Rightarrow> ArtistResponse" where
  "NewArtist covers c =
     (let a = ct_Artist c;
          artist = \<lparr> ra_ID = ad_ID a, ra_Name = ad_Name a, ra_CoverArt = None, ra_AlbumCount = None, ra_Starred = None,
            ra_MusicBrainzID = ad_MusicBrainzID a, ra_UserRating = None, ra_AverageRating = None, ra_Albums = [] \<rparr>;
          artist = artist\<lparr> ra_AlbumCount := ct_AlbumCount c \<rparr>;
          artist = (case ct_Annotations c of None \<Rightarrow> artist
            | Some n \<Rightarrow> artist\<lparr> ra_Starred := ann_Starred n, ra_UserRating := ann_UserRating n, ra_AverageRating := ann_AverageRating n \<rparr>)
      in if HasCoverArt covers (ad_ID a) then artist\<lparr> ra_CoverArt := Some (ad_ID a) \<rparr> else artist)"

definition NewArtists :: "cover_sizes \<Rightarrow> CompleteArtist list \<Rightarrow> ArtistResponse list" where
  "NewArtists covers artists = map (NewArtist covers) artists"

section \<open>Facts\<close>

text \<open>A response shows the row it is made from.\<close>

lemma NewSong_shows [simp]:
  "rs_ID (NewSong covers gain c) = so_ID (cs_Song c)" "rs_Title (NewSong covers gain c) = so_Title (cs_Song c)"
  by (simp_all add: NewSong_def Let_def split: option.split)

lemma NewAlbum_shows [simp]:
  "rb_ID (NewAlbum covers keys c) = ab_ID (ca_Album c)" "rb_Name (NewAlbum covers keys c) = ab_Name (ca_Album c)"
  by (simp_all add: NewAlbum_def Let_def split: option.split)

lemma NewArtist_shows [simp]:
  "ra_ID (NewArtist covers c) = ad_ID (ct_Artist c)" "ra_Name (NewArtist covers c) = ad_Name (ct_Artist c)"
  "ra_Albums (NewArtist covers c) = []"
  by (simp_all add: NewArtist_def Let_def split: option.split)

lemma ids_shown [simp]:
  "map rs_ID (NewSongs covers gain songs) = map (so_ID \<circ> cs_Song) songs"
  "map rb_ID (NewAlbums covers keys albums) = map (ab_ID \<circ> ca_Album) albums"
  "map ra_ID (NewArtists covers artists) = map (ad_ID \<circ> ct_Artist) artists"
  by (simp_all add: NewSongs_def NewAlbums_def NewArtists_def)

text \<open>The titles of discs do not depend on the order in which the map is visited.\<close>

lemma disc_titles_order:
  assumes "distinct order" "set order = dom titles" "distinct order'" "set order' = dom titles"
  shows "disc_titles order titles = disc_titles order' titles"
proof -
  have mset: "mset (List.map_filter (\<lambda>disc. map_option (Pair disc) (titles disc)) xs)
      = image_mset (\<lambda>d. (d, the (titles d))) (mset xs)" if "set xs \<subseteq> dom titles" for xs
    using that by (induction xs) (auto simp: List.map_filter_simps)
  have "mset order = mset order'" using set_eq_iff_mset_eq_distinct [of order order'] assms by simp
  moreover have "inj_on fst (set (List.map_filter (\<lambda>disc. map_option (Pair disc) (titles disc)) order))"
    by (auto simp: inj_on_def List.map_filter_def)
  ultimately show ?thesis
    unfolding disc_titles_def using mset [of order] mset [of order'] assms(2,4)
    by (intro sort_key_inj_key_eq) simp_all
qed

end
