(* ===== verification/Catalogue.thy ===== *)
theory Catalogue
  imports Entities PgDB
begin

text \<open>
  The catalogue in the database and the queries on it (\<open>repos/postgres/song.go\<close>, \<open>album.go\<close>, \<open>artist.go\<close>,
  \<open>musicfolder.go\<close>, \<open>genre.go\<close>, the search of \<open>helpers.go\<close> and \<open>util/normalize.go\<close>). A table is the list of its rows in
  the order the database keeps them. A query is built as the code builds it: a list of conditions, clauses for the
  order and for paging. The conditions have their SQL meaning on rows; sorting by clauses and averages are the
  database's and arguments, as is the failure of a statement, told apart by a name.
\<close>

section \<open>Tables\<close>

record song_rec = Song +
  sx_SearchText :: string

record album_rec = StoredAlbum +
  bx_SearchText :: string
  bx_InfoUpdated :: "int option"
  bx_Description :: "string option"
  bx_LastFMURL :: "string option"
  bx_LastFMMBID :: "string option"

record artist_rec = Artist +
  tx_SearchText :: string
  tx_InfoUpdated :: "int option"
  tx_Biography :: "string option"
  tx_LastFMURL :: "string option"
  tx_LastFMMBID :: "string option"

record scrobble_rec =
  sk_User :: string
  sk_SongID :: string
  sk_AlbumID :: "string option"
  sk_Time :: int
  sk_SongDuration :: int           \<comment> \<open>milliseconds, as the next\<close>
  sk_Duration :: "int option"
  sk_Submitted :: bool
  sk_NowPlaying :: bool

record MusicFolder =
  mfo_ID :: int
  mfo_Name :: string
  mfo_Path :: string

text \<open>Stars and ratings name the entity, the user and the time or the rating.\<close>

record catalogue =
  tb_songs :: "song_rec list"
  tb_albums :: "album_rec list"
  tb_artists :: "artist_rec list"
  tb_genres :: "string list"
  tb_song_artist :: "(string \<times> string \<times> int) list"
  tb_album_artist :: "(string \<times> string \<times> int) list"
  tb_song_genre :: "(string \<times> string) list"
  tb_folders :: "MusicFolder list"
  tb_folder_users :: "(int \<times> string) list"
  tb_folder_artists :: "(int \<times> string) list"
  tb_song_stars :: "(string \<times> string \<times> int) list"
  tb_album_stars :: "(string \<times> string \<times> int) list"
  tb_artist_stars :: "(string \<times> string \<times> int) list"
  tb_song_ratings :: "(string \<times> string \<times> int) list"
  tb_album_ratings :: "(string \<times> string \<times> int) list"
  tb_artist_ratings :: "(string \<times> string \<times> int) list"
  tb_scrobbles :: "scrobble_rec list"

text \<open>A clause is its text with placeholders, and the arguments.\<close>

type_synonym clause = "string \<times> string list"

record database =
  dv_conn :: "catalogue sql_conn"
  dv_Fault :: "string \<Rightarrow> go_error option"
  dv_Avg :: "int list \<Rightarrow> float64"
  dv_SortSongs :: "clause list \<Rightarrow> catalogue \<Rightarrow> song_rec list \<Rightarrow> song_rec list"
  dv_SortAlbums :: "clause list \<Rightarrow> catalogue \<Rightarrow> album_rec list \<Rightarrow> album_rec list"
  dv_SortArtists :: "clause list \<Rightarrow> catalogue \<Rightarrow> artist_rec list \<Rightarrow> artist_rec list"
  dv_Unidecode :: "string \<Rightarrow> string"

text \<open>A database that sorts.\<close>

definition sorts :: "database \<Rightarrow> bool" where
  "sorts v \<longleftrightarrow> (\<forall>cs c rows. mset (dv_SortSongs v cs c rows) = mset rows)
     \<and> (\<forall>cs c rows. mset (dv_SortAlbums v cs c rows) = mset rows) \<and> (\<forall>cs c rows. mset (dv_SortArtists v cs c rows) = mset rows)"

definition dv_c :: "database \<Rightarrow> go_error \<Rightarrow> string option" where "dv_c v = sc_Constraint (dv_conn v)"

section \<open>Statements\<close>

definition select_rows :: "database \<Rightarrow> string \<Rightarrow> 'a list \<Rightarrow> go_error + 'a list" where
  "select_rows v name rows =
     fst (selectQuery (dv_c v) (\<lambda>s. (case dv_Fault v name of Some e \<Rightarrow> Inl e | None \<Rightarrow> Inr rows, s)) ())"

definition get_row :: "database \<Rightarrow> string \<Rightarrow> 'a list \<Rightarrow> go_error + 'a" where
  "get_row v name rows =
     fst (getQuery_row (dv_c v) (\<lambda>s. (case dv_Fault v name of Some e \<Rightarrow> Inl e | None \<Rightarrow> Inr rows, s)) ())"

text \<open>What the paging clauses mean.\<close>

definition sql_page :: "(string \<times> int) list \<Rightarrow> 'a list \<Rightarrow> 'a list" where
  "sql_page q rows =
     (let rows = (case map_of q ''OFFSET ?'' of None \<Rightarrow> rows | Some n \<Rightarrow> drop (nat n) rows)
      in case map_of q ''LIMIT ?'' of None \<Rightarrow> rows | Some n \<Rightarrow> take (nat n) rows)"

section \<open>Search\<close>

text \<open>
  The transliteration is a package's; its result is ASCII, so that runes are bytes.
\<close>

definition ascii_space :: "char \<Rightarrow> bool" where
  "ascii_space ch \<longleftrightarrow> code_of ch \<in> {9, 10, 11, 12, 13, 32}"

definition ascii_letter :: "char \<Rightarrow> bool" where
  "ascii_letter ch \<longleftrightarrow> between 65 90 ch \<or> between 97 122 ch"

fun normalize_runes :: "string \<Rightarrow> string \<Rightarrow> string" where
  "normalize_runes result [] = result"
| "normalize_runes result (r # rs) =
     (if ascii_space r
      then normalize_runes (if length result = 0 \<or> last result \<noteq> CHR '' '' then result @ '' '' else result) rs
      else if \<not> ascii_letter r \<and> \<not> is_digit r then normalize_runes result rs
      else normalize_runes (result @ [lower_char r]) rs)"

definition NormalizeText :: "(string \<Rightarrow> string) \<Rightarrow> string \<Rightarrow> string" where
  "NormalizeText unidecode text = normalize_runes [] (unidecode text)"

text \<open>The tokens of a search, each to be found at the beginning of a word.\<close>

definition search_tokens :: "database \<Rightarrow> string \<Rightarrow> string list" where
  "search_tokens v query = map (\<lambda>t. '' '' @ t) (filter (\<lambda>t. t \<noteq> []) (split_on (CHR '' '') (NormalizeText (dv_Unidecode v) query)))"

definition genSearch :: "database \<Rightarrow> string \<Rightarrow> string \<Rightarrow> string \<Rightarrow> string list \<times> clause list" where
  "genSearch v query searchColumn titleCol =
     (let tokens = search_tokens v query
      in (tokens, map (\<lambda>t. (''position(? in '' @ searchColumn @ '')'', [t])) (take 3 tokens) @ [(''lower('' @ titleCol @ '')'', [])]))"

definition finds :: "string list \<Rightarrow> string \<Rightarrow> bool" where
  "finds tokens searchText \<longleftrightarrow> (\<forall>t \<in> set tokens. sublist t searchText)"

section \<open>Music folders\<close>

text \<open>\<open>genMusicFolderUserJoin\<close> pairs every row with the associations of the user with its folder.\<close>

definition genMusicFolderUserJoin :: "catalogue \<Rightarrow> string \<Rightarrow> ('a \<Rightarrow> int option) \<Rightarrow> 'a list \<Rightarrow> 'a list" where
  "genMusicFolderUserJoin c user folder rows =
     concat (map (\<lambda>r. map (\<lambda>_. r) (filter (\<lambda>(f, u). folder r = Some f \<and> u = user) (tb_folder_users c))) rows)"

definition genOneOfMusicFoldersCondition :: "int list \<Rightarrow> int option \<Rightarrow> bool" where
  "genOneOfMusicFoldersCondition musicFolderIDs folder =
     (if length musicFolderIDs = 0 then False else case folder of None \<Rightarrow> False | Some f \<Rightarrow> f \<in> set musicFolderIDs)"

definition genArtistAccessibleByUserCondition :: "catalogue \<Rightarrow> string \<Rightarrow> string \<Rightarrow> bool" where
  "genArtistAccessibleByUserCondition c user i \<longleftrightarrow>
     (\<exists>(f, a) \<in> set (tb_folder_artists c). a = i \<and> (f, user) \<in> set (tb_folder_users c))"

definition genArtistInMusicFolderCondition :: "catalogue \<Rightarrow> int list \<Rightarrow> string \<Rightarrow> bool" where
  "genArtistInMusicFolderCondition c musicFolderIDs i \<longleftrightarrow>
     (if length musicFolderIDs = 0 then False else \<exists>(f, a) \<in> set (tb_folder_artists c). a = i \<and> f \<in> set musicFolderIDs)"

definition user_folders :: "catalogue \<Rightarrow> string \<Rightarrow> int list" where
  "user_folders c user =
     concat (map (\<lambda>m. map (\<lambda>_. mfo_ID m) (filter (\<lambda>(f, u). f = mfo_ID m \<and> u = user) (tb_folder_users c))) (tb_folders c))"

text \<open>
  The comparison of lengths comes before the error of the query is looked at: if the query fails the user is told
  to have no access.
\<close>

definition folder_ids_body :: "database \<Rightarrow> string \<Rightarrow> int list \<Rightarrow> catalogue \<times> int list \<Rightarrow> go_error option \<times> catalogue \<times> int list" where
  "folder_ids_body v user requestedIDs s =
     (case s of (c, _) \<Rightarrow>
        if length requestedIDs = 0
        then (case select_rows v ''user folders'' (user_folders c user) of
                Inl e \<Rightarrow> (Some e, c, []) | Inr result \<Rightarrow> (None, c, result))
        else (let answer = select_rows v ''user folders'' (filter (\<lambda>f. f \<in> set requestedIDs) (user_folders c user));
                  result = (case answer of Inl _ \<Rightarrow> [] | Inr rows \<Rightarrow> rows)
              in if length result \<noteq> length requestedIDs
                 then (Some (EWrap ''user does not have access to requested music folder'' (EType ErrForbidden)), c, result)
                 else (case answer of Inl e \<Rightarrow> (Some e, c, result) | Inr _ \<Rightarrow> (None, c, result))))"

definition GetUserMusicFolderIDs :: "database \<Rightarrow> string \<Rightarrow> int list \<Rightarrow> catalogue \<Rightarrow> go_error + int list" where
  "GetUserMusicFolderIDs v user requestedIDs c =
     (case newTransactionFn (dv_conn v) False (folder_ids_body v user requestedIDs) (c, []) of
        (Some e, _, _) \<Rightarrow> Inl e
      | (None, _, result) \<Rightarrow> Inr result)"

definition MF_FindAll :: "database \<Rightarrow> string \<Rightarrow> catalogue \<Rightarrow> go_error + (MusicFolder \<times> int) list" where
  "MF_FindAll v user c =
     select_rows v ''music folders''
       (map (\<lambda>m. (m, int (length (filter (\<lambda>(f, u). f = mfo_ID m \<and> u = user) (tb_folder_users c))
                       * length (filter (\<lambda>s. so_MusicFolderID s = Some (mfo_ID m)) (tb_songs c)))))
          (sort_key mfo_ID (filter (\<lambda>m. (mfo_ID m, user) \<in> set (tb_folder_users c)) (tb_folders c))))"

section \<open>Songs\<close>

record IncludeSongInfo =
  isi_Album :: bool
  isi_User :: string
  isi_Annotations :: bool
  isi_PlayInfo :: bool
  isi_Lists :: bool

definition IncludeSongInfoBare :: IncludeSongInfo where
  "IncludeSongInfoBare = \<lparr> isi_Album = False, isi_User = [], isi_Annotations = False, isi_PlayInfo = False, isi_Lists = False \<rparr>"

definition IncludeSongInfoFull :: "string \<Rightarrow> IncludeSongInfo" where
  "IncludeSongInfoFull user = \<lparr> isi_Album = True, isi_User = user, isi_Annotations = True, isi_PlayInfo = True, isi_Lists = True \<rparr>"

text \<open>The joins of stars, ratings and plays.\<close>

definition mark_of :: "(string \<times> string \<times> int) list \<Rightarrow> string \<Rightarrow> string \<Rightarrow> int option" where
  "mark_of marks i user = map_option (\<lambda>(_, _, x). x) (find (\<lambda>(e, u, _). e = i \<and> u = user) marks)"

definition average_rating :: "database \<Rightarrow> (string \<times> string \<times> int) list \<Rightarrow> string \<Rightarrow> float64 option" where
  "average_rating v ratings i =
     (let rs = map (\<lambda>(_, _, x). x) (filter (\<lambda>(e, _, _). e = i) ratings) in if rs = [] then None else Some (dv_Avg v rs))"

definition annotations ::
  "database \<Rightarrow> (string \<times> string \<times> int) list \<Rightarrow> (string \<times> string \<times> int) list \<Rightarrow> string \<Rightarrow> string \<Rightarrow> SongAnnotations" where
  "annotations v stars ratings user i =
     \<lparr> ann_Starred = (if user \<noteq> [] then mark_of stars i user else None),
       ann_UserRating = (if user \<noteq> [] then mark_of ratings i user else None),
       ann_AverageRating = average_rating v ratings i \<rparr>"

text \<open>A play counts if its length is unknown, at least four minutes or at least half of the song.\<close>

definition counted_play :: "scrobble_rec \<Rightarrow> bool" where
  "counted_play k \<longleftrightarrow> \<not> sk_NowPlaying k
     \<and> (case sk_Duration k of None \<Rightarrow> True | Some d \<Rightarrow> d \<ge> 240000 \<or> 2 * d \<ge> sk_SongDuration k)"

definition play_info :: "catalogue \<Rightarrow> string \<Rightarrow> (scrobble_rec \<Rightarrow> bool) \<Rightarrow> SongPlayInfo" where
  "play_info c user ours =
     (let ts = map sk_Time (filter (\<lambda>k. sk_User k = user \<and> counted_play k \<and> ours k) (tb_scrobbles c))
      in \<lparr> pli_PlayCount = int (length ts), pli_LastPlayed = (if ts = [] then None else Some (foldr max (tl ts) (hd ts))) \<rparr>)"

definition song_album_info :: "catalogue \<Rightarrow> song_rec \<Rightarrow> SongAlbumInfo" where
  "song_album_info c s =
     (case find (\<lambda>a. so_AlbumID s = Some (ab_ID a)) (tb_albums c) of
        None \<Rightarrow> \<lparr> sai_AlbumName = None, sai_AlbumReplayGain = None, sai_AlbumReplayGainPeak = None,
                  sai_AlbumMusicBrainzID = None, sai_AlbumReleaseMBID = None \<rparr>
      | Some a \<Rightarrow> \<lparr> sai_AlbumName = Some (ab_Name a), sai_AlbumReplayGain = ab_ReplayGain a, sai_AlbumReplayGainPeak = ab_ReplayGainPeak a,
                    sai_AlbumMusicBrainzID = ab_MusicBrainzID a, sai_AlbumReleaseMBID = ab_ReleaseMBID a \<rparr>)"

text \<open>The columns of \<open>genSongSelectList\<close> over the joins of \<open>genSongJoins\<close>.\<close>

definition song_columns_of :: "database \<Rightarrow> catalogue \<Rightarrow> IncludeSongInfo \<Rightarrow> song_rec \<Rightarrow> CompleteSong" where
  "song_columns_of v c include s =
     \<lparr> cs_Song = Song.truncate s,
       cs_AlbumInfo = (if isi_Album include then Some (song_album_info c s) else None),
       cs_Annotations = (if isi_Annotations include
         then Some (annotations v (tb_song_stars c) (tb_song_ratings c) (isi_User include) (so_ID s)) else None),
       cs_PlayInfo = (if isi_PlayInfo include \<and> isi_User include \<noteq> []
         then Some (play_info c (isi_User include) (\<lambda>k. sk_SongID k = so_ID s)) else None),
       cs_Lists = None \<rparr>"

definition artist_ref :: "artist_rec \<Rightarrow> ArtistRef" where
  "artist_ref a = \<lparr> arf_ID = ad_ID a, arf_Name = ad_Name a, arf_MusicBrainzID = ad_MusicBrainzID a \<rparr>"

text \<open>The artists of an entity by a table of connections, in the order of their index.\<close>

definition artist_refs :: "catalogue \<Rightarrow> (string \<times> string \<times> int) list \<Rightarrow> string \<Rightarrow> ArtistRef list" where
  "artist_refs c connections i =
     concat (map (\<lambda>(_, a, _). map artist_ref (filter (\<lambda>r. ad_ID r = a) (tb_artists c)))
       (sort_key (\<lambda>(_, _, n). n) (filter (\<lambda>(e, _, _). e = i) connections)))"

definition getSongGenres :: "database \<Rightarrow> catalogue \<Rightarrow> go_error + (string \<Rightarrow> string list)" where
  "getSongGenres v c =
     (case select_rows v ''song genres'' (filter (\<lambda>(_, g). g \<in> set (tb_genres c)) (tb_song_genre c)) of
        Inl e \<Rightarrow> Inl (EWrap ''select query'' e)
      | Inr rows \<Rightarrow> Inr (\<lambda>i. map snd (filter (\<lambda>(s, _). s = i) rows)))"

definition getSongArtistRefs :: "database \<Rightarrow> catalogue \<Rightarrow> go_error + (string \<Rightarrow> ArtistRef list)" where
  "getSongArtistRefs v c =
     (case select_rows v ''song artists'' (tb_song_artist c) of
        Inl e \<Rightarrow> Inl (EWrap ''select query'' e) | Inr rows \<Rightarrow> Inr (artist_refs c rows))"

text \<open>The artists of the album of a song.\<close>

definition getSongAlbumArtistRefs :: "database \<Rightarrow> catalogue \<Rightarrow> go_error + (string \<Rightarrow> ArtistRef list)" where
  "getSongAlbumArtistRefs v c =
     (case select_rows v ''song album artists''
        (concat (map (\<lambda>s. map (\<lambda>(_, a, n). (so_ID s, a, n))
           (filter (\<lambda>(al, _, _). so_AlbumID s = Some al \<and> al \<in> ab_ID ` set (tb_albums c)) (tb_album_artist c))) (tb_songs c))) of
        Inl e \<Rightarrow> Inl (EWrap ''select query'' e) | Inr rows \<Rightarrow> Inr (artist_refs c rows))"

definition loadSongLists :: "database \<Rightarrow> catalogue \<Rightarrow> IncludeSongInfo \<Rightarrow> CompleteSong list \<Rightarrow> go_error + CompleteSong list" where
  "loadSongLists v c include songs =
     (if length songs = 0 \<or> \<not> isi_Lists include then Inr songs
      else case getSongGenres v c of Inl e \<Rightarrow> Inl (EWrap ''get genres'' e)
      | Inr genres \<Rightarrow>
          (case getSongArtistRefs v c of Inl e \<Rightarrow> Inl (EWrap ''get artist refs'' e)
           | Inr artists \<Rightarrow>
               (case getSongAlbumArtistRefs v c of Inl e \<Rightarrow> Inl (EWrap ''get album artist refs'' e)
                | Inr albumArtists \<Rightarrow>
                    Inr (map (\<lambda>s. let i = so_ID (cs_Song s) in
                           s\<lparr> cs_Lists := Some \<lparr> sls_Genres = genres i, sls_Artists = artists i, sls_AlbumArtists = albumArtists i \<rparr> \<rparr>) songs))))"

definition execSongSelectMany ::
  "database \<Rightarrow> catalogue \<Rightarrow> IncludeSongInfo \<Rightarrow> song_rec list \<Rightarrow> go_error + CompleteSong list" where
  "execSongSelectMany v c include rows =
     (case select_rows v ''songs'' (map (song_columns_of v c include) rows) of
        Inl e \<Rightarrow> Inl (EWrap ''select query'' e)
      | Inr songs \<Rightarrow>
          (case loadSongLists v c include songs of Inl e \<Rightarrow> Inl (EWrap ''load song lists'' e) | Inr songs \<Rightarrow> Inr songs))"

definition exactly_one :: "'a list \<Rightarrow> go_error + 'a" where
  "exactly_one xs = (if length xs = 0 then Inl (EType ErrNotFound) else if length xs > 1 then Inl (EType ErrTooMany) else Inr (xs ! 0))"

definition execSongSelectOne ::
  "database \<Rightarrow> catalogue \<Rightarrow> IncludeSongInfo \<Rightarrow> song_rec list \<Rightarrow> go_error + CompleteSong" where
  "execSongSelectOne v c include rows = ebind (execSongSelectMany v c include rows) exactly_one"

definition S_FindByID :: "database \<Rightarrow> string \<Rightarrow> string \<Rightarrow> IncludeSongInfo \<Rightarrow> catalogue \<Rightarrow> go_error + CompleteSong" where
  "S_FindByID v i user include c =
     execSongSelectOne v c include (filter (\<lambda>s. so_ID s = i) (genMusicFolderUserJoin c user so_MusicFolderID (tb_songs c)))"

definition S_FindByTitle :: "database \<Rightarrow> string \<Rightarrow> string \<Rightarrow> IncludeSongInfo \<Rightarrow> catalogue \<Rightarrow> go_error + CompleteSong list" where
  "S_FindByTitle v title user include c =
     execSongSelectMany v c include (filter (\<lambda>s. so_Title s = title) (genMusicFolderUserJoin c user so_MusicFolderID (tb_songs c)))"

record StreamInfoRow =
  sti_Path :: string
  sti_BitRate :: int
  sti_ContentType :: string
  sti_Duration :: DurationMS
  sti_ChannelCount :: int

definition GetStreamInfo :: "database \<Rightarrow> string \<Rightarrow> string \<Rightarrow> catalogue \<Rightarrow> go_error + StreamInfoRow" where
  "GetStreamInfo v i user c =
     get_row v ''stream info''
       (map (\<lambda>s. \<lparr> sti_Path = so_Path s, sti_BitRate = so_BitRate s, sti_ContentType = so_ContentType s,
                   sti_Duration = so_Duration s, sti_ChannelCount = so_ChannelCount s \<rparr>)
          (filter (\<lambda>s. so_ID s = i) (genMusicFolderUserJoin c user so_MusicFolderID (tb_songs c))))"

datatype SongOrder =
    SongOrderTitle | SongOrderRandom | SongOrderOriginalDate | SongOrderReleaseDate | SongOrderAdded
  | SongOrderLastPlayed | SongOrderPlayCount | SongOrderStarred | SongOrderBPM

text \<open>The strings that are valid orders.\<close>

definition SongOrder_of :: "string \<Rightarrow> SongOrder option" where
  "SongOrder_of s = map_of
     [(''title'', SongOrderTitle), (''random'', SongOrderRandom), (''originalDate'', SongOrderOriginalDate),
      (''releaseDate'', SongOrderReleaseDate), (''added'', SongOrderAdded), (''lastPlayed'', SongOrderLastPlayed),
      (''playCount'', SongOrderPlayCount), (''starred'', SongOrderStarred), (''bpm'', SongOrderBPM)] s"

record SongFindAllFilter =
  sf_Search :: string
  sf_OnlyStarred :: bool
  sf_MinBPM :: "int option"
  sf_MaxBPM :: "int option"
  sf_FromYear :: "int option"
  sf_ToYear :: "int option"
  sf_Genres :: "string list"
  sf_ArtistIDs :: "string list"
  sf_AlbumIDs :: "string list"
  sf_Order :: "SongOrder option"
  sf_OrderDesc :: bool
  sf_RandomSeed :: "string option"
  sf_Paginate :: Paginate
  sf_MusicFolderIDs :: "int list option"

text \<open>The conditions of \<open>WHERE\<close> clauses on songs.\<close>

datatype song_cond =
    SGenres "string list" | SArtists "string list" | SStarredBy string | SMinBPM int | SMaxBPM int
  | SFromYear int | SToYear int | SAlbums "string list" | SFolders "int list" | SSearch "string list"

fun year_from :: "int \<Rightarrow> Date option \<Rightarrow> bool" where
  "year_from y None = False" | "year_from y (Some d) = (Date_Year d \<ge> y)"

fun year_to :: "int \<Rightarrow> Date option \<Rightarrow> bool" where
  "year_to y None = False" | "year_to y (Some d) = (Date_Year d \<le> y)"

fun song_cond_holds :: "catalogue \<Rightarrow> song_rec \<Rightarrow> song_cond \<Rightarrow> bool" where
  "song_cond_holds c s (SGenres gs) = (\<exists>(i, g) \<in> set (tb_song_genre c). i = so_ID s \<and> to_lower g \<in> set gs)"
| "song_cond_holds c s (SArtists as) = (\<exists>(i, a, _) \<in> set (tb_song_artist c). i = so_ID s \<and> a \<in> set as)"
| "song_cond_holds c s (SStarredBy user) = (mark_of (tb_song_stars c) (so_ID s) user \<noteq> None)"
| "song_cond_holds c s (SMinBPM b) = (case so_BPM s of None \<Rightarrow> False | Some x \<Rightarrow> x \<ge> b)"
| "song_cond_holds c s (SMaxBPM b) = (case so_BPM s of None \<Rightarrow> False | Some x \<Rightarrow> x \<le> b)"
| "song_cond_holds c s (SFromYear y) = year_from y (so_ReleaseDate s)"
| "song_cond_holds c s (SToYear y) = year_to y (so_ReleaseDate s)"
| "song_cond_holds c s (SAlbums as) = (case so_AlbumID s of None \<Rightarrow> False | Some a \<Rightarrow> a \<in> set as)"
| "song_cond_holds c s (SFolders fs) = genOneOfMusicFoldersCondition fs (so_MusicFolderID s)"
| "song_cond_holds c s (SSearch tokens) = finds tokens (sx_SearchText s)"

text \<open>Years given in the wrong order are swapped.\<close>

definition ordered_years :: "int option \<Rightarrow> int option \<Rightarrow> int option \<times> int option" where
  "ordered_years fromYear toYear =
     (case (fromYear, toYear) of
        (Some f, Some t) \<Rightarrow> if t < f then (Some t, Some f) else (Some f, Some t)
      | _ \<Rightarrow> (fromYear, toYear))"

definition opt_cond :: "('a \<Rightarrow> 'b) \<Rightarrow> 'a option \<Rightarrow> 'b list" where
  "opt_cond cond x = (case x of None \<Rightarrow> [] | Some a \<Rightarrow> [cond a])"

definition list_cond :: "('a list \<Rightarrow> 'b) \<Rightarrow> 'a list \<Rightarrow> 'b list" where
  "list_cond cond xs = (if length xs > 0 then [cond xs] else [])"

definition song_where :: "database \<Rightarrow> SongFindAllFilter \<Rightarrow> string \<Rightarrow> song_cond list" where
  "song_where v flt user =
     (case ordered_years (sf_FromYear flt) (sf_ToYear flt) of (fromYear, toYear) \<Rightarrow>
        list_cond SGenres (map to_lower (sf_Genres flt)) @ list_cond SArtists (sf_ArtistIDs flt)
        @ (if sf_OnlyStarred flt then [SStarredBy user] else [])
        @ opt_cond SMinBPM (sf_MinBPM flt) @ opt_cond SMaxBPM (sf_MaxBPM flt)
        @ opt_cond SFromYear fromYear @ opt_cond SToYear toYear
        @ list_cond SAlbums (sf_AlbumIDs flt) @ opt_cond SFolders (sf_MusicFolderIDs flt)
        @ (if sf_Search flt \<noteq> [] then [SSearch (search_tokens v (sf_Search flt))] else []))"

fun song_order_clause :: "SongOrder \<Rightarrow> string option \<Rightarrow> clause" where
  "song_order_clause SongOrderTitle seed = (''songs.title'', [])"
| "song_order_clause SongOrderRandom None = (''random()'', [])"
| "song_order_clause SongOrderRandom (Some seed) = (''md5(songs.id||?)'', [seed])"
| "song_order_clause SongOrderOriginalDate seed = (''songs.original_date, songs.release_date'', [])"
| "song_order_clause SongOrderReleaseDate seed = (''songs.release_date'', [])"
| "song_order_clause SongOrderAdded seed = (''songs.created'', [])"
| "song_order_clause SongOrderLastPlayed seed = (''plays.last_played'', [])"
| "song_order_clause SongOrderPlayCount seed = (''COALESCE(plays.count, 0)'', [])"
| "song_order_clause SongOrderStarred seed = (''song_stars.created'', [])"
| "song_order_clause SongOrderBPM seed = (''songs.bpm'', [])"

definition song_order_by :: "database \<Rightarrow> SongFindAllFilter \<Rightarrow> clause list" where
  "song_order_by v flt =
     (case sf_Order flt of None \<Rightarrow> []
      | Some ord \<Rightarrow>
          (case song_order_clause ord (sf_RandomSeed flt) of (text, args) \<Rightarrow>
             [(text @ (if ord = SongOrderRandom then []
                       else (if sf_OrderDesc flt then '' DESC'' else '' ASC'') @ '' NULLS LAST''), args)]))
     @ (if sf_Search flt \<noteq> [] then snd (genSearch v (sf_Search flt) ''songs.search_text'' ''songs.title'') else [])
     @ [(''songs.id'', [])]"

text \<open>What a filter needs of the joins; without it no query is made.\<close>

definition song_filter_error :: "SongFindAllFilter \<Rightarrow> IncludeSongInfo \<Rightarrow> go_error option" where
  "song_filter_error flt include =
     (let noAnnotations = (\<not> isi_Annotations include \<or> isi_User include = []);
          noPlays = (\<not> isi_PlayInfo include \<or> isi_User include = [])
      in if sf_OnlyStarred flt \<and> noAnnotations
         then Some (NewError ''find all songs filtered by starred requires include.Annotations and include.User to be set'' ErrInvalidParams None)
         else if sf_Order flt \<in> {Some SongOrderLastPlayed, Some SongOrderPlayCount} \<and> noPlays
         then Some (NewError ''find all songs ordered by play count/time requires include.PlayInfo and include.User to be set'' ErrInvalidParams None)
         else if sf_Order flt = Some SongOrderStarred \<and> noAnnotations
         then Some (NewError ''find all songs ordered by starred requires include.Annotations and include.User to be set'' ErrInvalidParams None)
         else None)"

definition S_FindAllFiltered :: "database \<Rightarrow> SongFindAllFilter \<Rightarrow> IncludeSongInfo \<Rightarrow> catalogue \<Rightarrow> go_error + CompleteSong list" where
  "S_FindAllFiltered v flt include c =
     (case song_filter_error flt include of
        Some e \<Rightarrow> Inl e
      | None \<Rightarrow>
          execSongSelectMany v c include
            (sql_page (Paginate_Apply (sf_Paginate flt) [])
               (dv_SortSongs v (song_order_by v flt) c
                  (filter (\<lambda>s. list_all (song_cond_holds c s) (song_where v flt (isi_User include))) (tb_songs c)))))"

end
