(* ===== verification/AlbumQueries.thy ===== *)
theory AlbumQueries
  imports Catalogue
begin

text \<open>
  The queries on albums, artists and genres (\<open>repos/postgres/album.go\<close>, \<open>artist.go\<close>, \<open>genre.go\<close>), built and read like
  those on songs. Joins with connection tables repeat a row once for each connection, as SQL does.
\<close>

section \<open>Albums\<close>

record IncludeAlbumInfo =
  iai_TrackInfo :: bool
  iai_User :: string
  iai_Annotations :: bool
  iai_PlayInfo :: bool
  iai_Genres :: bool
  iai_Artists :: bool

definition IncludeAlbumInfoBare :: IncludeAlbumInfo where
  "IncludeAlbumInfoBare = \<lparr> iai_TrackInfo = False, iai_User = [], iai_Annotations = False, iai_PlayInfo = False,
     iai_Genres = False, iai_Artists = False \<rparr>"

definition IncludeAlbumInfoFull :: "string \<Rightarrow> IncludeAlbumInfo" where
  "IncludeAlbumInfoFull user = \<lparr> iai_TrackInfo = True, iai_User = user, iai_Annotations = True, iai_PlayInfo = True,
     iai_Genres = True, iai_Artists = True \<rparr>"

definition songs_of_album :: "catalogue \<Rightarrow> string \<Rightarrow> song_rec list" where
  "songs_of_album c i = filter (\<lambda>s. so_AlbumID s = Some i) (tb_songs c)"

text \<open>The duration column holds milliseconds.\<close>

definition track_info :: "catalogue \<Rightarrow> string \<Rightarrow> AlbumTrackInfo" where
  "track_info c i =
     \<lparr> ati_TrackCount = int (length (songs_of_album c i)),
       ati_Duration = NewDurationMS (word_of_int (\<Sum>s\<leftarrow>songs_of_album c i. sint (DurationMS_Millis (so_Duration s)))) \<rparr>"

definition album_columns_of :: "database \<Rightarrow> catalogue \<Rightarrow> IncludeAlbumInfo \<Rightarrow> album_rec \<Rightarrow> CompleteAlbum" where
  "album_columns_of v c include a =
     \<lparr> ca_Album = StoredAlbum.truncate a,
       ca_TrackInfo = (if iai_TrackInfo include then Some (track_info c (ab_ID a)) else None),
       ca_Annotations = (if iai_Annotations include
         then Some (annotations v (tb_album_stars c) (tb_album_ratings c) (iai_User include) (ab_ID a)) else None),
       ca_PlayInfo = (if iai_PlayInfo include \<and> iai_User include \<noteq> []
         then Some (play_info c (iai_User include) (\<lambda>k. sk_AlbumID k = Some (ab_ID a))) else None),
       ca_Lists = None \<rparr>"

text \<open>The genres of an album, each once.\<close>

definition getAlbumGenres :: "database \<Rightarrow> catalogue \<Rightarrow> go_error + (string \<Rightarrow> string list)" where
  "getAlbumGenres v c =
     (case select_rows v ''album genres''
        (remdups (concat (map (\<lambda>s. map (\<lambda>(_, g). (so_AlbumID s, g)) (filter (\<lambda>(i, _). i = so_ID s) (tb_song_genre c))) (tb_songs c)))) of
        Inl e \<Rightarrow> Inl (EWrap ''select query'' e)
      | Inr rows \<Rightarrow> Inr (\<lambda>i. map snd (filter (\<lambda>(a, _). a = Some i) rows)))"

definition getAlbumArtistRefs :: "database \<Rightarrow> catalogue \<Rightarrow> go_error + (string \<Rightarrow> ArtistRef list)" where
  "getAlbumArtistRefs v c =
     (case select_rows v ''album artists'' (tb_album_artist c) of
        Inl e \<Rightarrow> Inl (EWrap ''select query'' e) | Inr rows \<Rightarrow> Inr (artist_refs c rows))"

definition loadAlbumLists :: "database \<Rightarrow> catalogue \<Rightarrow> IncludeAlbumInfo \<Rightarrow> CompleteAlbum list \<Rightarrow> go_error + CompleteAlbum list" where
  "loadAlbumLists v c include albums =
     (if length albums = 0 then Inr albums
      else case (if iai_Genres include then getAlbumGenres v c else Inr (\<lambda>_. [])) of
        Inl e \<Rightarrow> Inl (EWrap ''get genres'' e)
      | Inr genres \<Rightarrow>
          (case (if iai_Artists include then getAlbumArtistRefs v c else Inr (\<lambda>_. [])) of
             Inl e \<Rightarrow> Inl (EWrap ''get artist refs'' e)
           | Inr artists \<Rightarrow>
               Inr (map (\<lambda>a. let i = ab_ID (ca_Album a) in a\<lparr> ca_Lists := Some \<lparr> als_Genres = genres i, als_Artists = artists i \<rparr> \<rparr>) albums)))"

definition execAlbumSelectMany ::
  "database \<Rightarrow> catalogue \<Rightarrow> IncludeAlbumInfo \<Rightarrow> album_rec list \<Rightarrow> go_error + CompleteAlbum list" where
  "execAlbumSelectMany v c include rows =
     (case select_rows v ''albums'' (map (album_columns_of v c include) rows) of
        Inl e \<Rightarrow> Inl (EWrap ''select query'' e)
      | Inr albums \<Rightarrow>
          (case loadAlbumLists v c include albums of Inl e \<Rightarrow> Inl (EWrap ''load album lists'' e) | Inr albums \<Rightarrow> Inr albums))"

definition execAlbumSelectOne ::
  "database \<Rightarrow> catalogue \<Rightarrow> IncludeAlbumInfo \<Rightarrow> album_rec list \<Rightarrow> go_error + CompleteAlbum" where
  "execAlbumSelectOne v c include rows = ebind (execAlbumSelectMany v c include rows) exactly_one"

definition A_FindByID :: "database \<Rightarrow> string \<Rightarrow> string \<Rightarrow> IncludeAlbumInfo \<Rightarrow> catalogue \<Rightarrow> go_error + CompleteAlbum" where
  "A_FindByID v i user include c =
     execAlbumSelectOne v c include (filter (\<lambda>a. ab_ID a = i) (genMusicFolderUserJoin c user ab_MusicFolderID (tb_albums c)))"

definition A_GetTracks :: "database \<Rightarrow> string \<Rightarrow> IncludeSongInfo \<Rightarrow> catalogue \<Rightarrow> go_error + CompleteSong list" where
  "A_GetTracks v i include c =
     execSongSelectMany v c include
       (dv_SortSongs v [(''songs.disc_number'', []), (''songs.track'', [])] c (songs_of_album c i))"

datatype FindAlbumSortBy =
    FindAlbumSortByName | FindAlbumSortByCreated | FindAlbumSortByRating | FindAlbumSortByStarred | FindAlbumSortRandom
  | FindAlbumSortByOriginalDate | FindAlbumSortByReleaseDate | FindAlbumSortByFrequent | FindAlbumSortByRecent

record FindAlbumParams =
  fa_SortBy :: FindAlbumSortBy
  fa_FromYear :: "int option"
  fa_ToYear :: "int option"
  fa_Genres :: "string list"
  fa_Paginate :: Paginate
  fa_RandomSeed :: "string option"
  fa_MusicFolderIDs :: "int list option"

datatype album_cond =
    AFromYear int | AToYear int | AGenres "string list" | AFolders "int list" | AStarredBy string
  | AHasOriginalDate | AHasReleaseDate | ASearch "string list"

fun album_cond_holds :: "catalogue \<Rightarrow> album_rec \<Rightarrow> album_cond \<Rightarrow> bool" where
  "album_cond_holds c a (AFromYear y) = year_from y (ab_ReleaseDate a)"
| "album_cond_holds c a (AToYear y) = year_to y (ab_ReleaseDate a)"
| "album_cond_holds c a (AGenres gs) =
     (\<exists>s \<in> set (songs_of_album c (ab_ID a)). \<exists>(i, g) \<in> set (tb_song_genre c). i = so_ID s \<and> to_lower g \<in> set gs)"
| "album_cond_holds c a (AFolders fs) = genOneOfMusicFoldersCondition fs (ab_MusicFolderID a)"
| "album_cond_holds c a (AStarredBy user) = (mark_of (tb_album_stars c) (ab_ID a) user \<noteq> None)"
| "album_cond_holds c a AHasOriginalDate = (ab_OriginalDate a \<noteq> None)"
| "album_cond_holds c a AHasReleaseDate = (ab_ReleaseDate a \<noteq> None)"
| "album_cond_holds c a (ASearch tokens) = finds tokens (bx_SearchText a)"

definition descending_years :: "int option \<Rightarrow> int option \<Rightarrow> bool" where
  "descending_years fromYear toYear = (case (fromYear, toYear) of (Some f, Some t) \<Rightarrow> t < f | _ \<Rightarrow> False)"

definition by_name :: "string \<Rightarrow> clause list" where
  "by_name text = (if text = [] then [(''lower(albums.name)'', [])] else [(text, []), (''lower(albums.name)'', [])])"

text \<open>The order of a list of albums, the conditions it adds, and what it needs.\<close>

fun album_sorting :: "FindAlbumSortBy \<Rightarrow> bool \<Rightarrow> string option \<Rightarrow> string \<Rightarrow> clause list \<times> album_cond list" where
  "album_sorting FindAlbumSortByName desc seed user = (by_name [], [])"
| "album_sorting FindAlbumSortByCreated desc seed user = (by_name ''albums.created DESC'', [])"
| "album_sorting FindAlbumSortByRating desc seed user = (by_name ''COALESCE(album_ratings.rating, 0)'', [])"
| "album_sorting FindAlbumSortByStarred desc seed user = (by_name ''album_stars.created DESC'', [AStarredBy user])"
| "album_sorting FindAlbumSortRandom desc None user = ([(''random()'', [])], [])"
| "album_sorting FindAlbumSortRandom desc (Some seed) user = ([(''md5(albums.id||?)'', [seed])], [])"
| "album_sorting FindAlbumSortByOriginalDate desc seed user =
     (by_name (''albums.original_date'' @ (if desc then '' DESC'' else [])), [AHasOriginalDate])"
| "album_sorting FindAlbumSortByReleaseDate desc seed user =
     (by_name (''albums.release_date'' @ (if desc then '' DESC'' else [])), [AHasReleaseDate])"
| "album_sorting FindAlbumSortByFrequent desc seed user = (by_name ''COALESCE(plays.count, 0) DESC'', [])"
| "album_sorting FindAlbumSortByRecent desc seed user = (by_name ''plays.last_played DESC NULLS LAST'', [])"

fun album_sorting_error :: "FindAlbumSortBy \<Rightarrow> IncludeAlbumInfo \<Rightarrow> go_error option" where
  "album_sorting_error FindAlbumSortByRating include =
     (if \<not> iai_Annotations include \<or> iai_User include = []
      then Some (NewError ''find all albums ordered by rating requires include.Annotations and include.User to be set'' ErrInvalidParams None) else None)"
| "album_sorting_error FindAlbumSortByStarred include =
     (if \<not> iai_Annotations include \<or> iai_User include = []
      then Some (NewError ''find all albums ordered by starred requires include.Annotations and include.User to be set'' ErrInvalidParams None) else None)"
| "album_sorting_error FindAlbumSortByFrequent include =
     (if \<not> iai_PlayInfo include \<or> iai_User include = []
      then Some (NewError ''find all albums ordered by frequency requires include.PlayInfo and include.User to be set'' ErrInvalidParams None) else None)"
| "album_sorting_error FindAlbumSortByRecent include =
     (if \<not> iai_PlayInfo include \<or> iai_User include = []
      then Some (NewError ''find all albums ordered by last played requires include.PlayInfo and include.User to be set'' ErrInvalidParams None) else None)"
| "album_sorting_error _ include = None"

definition album_where :: "FindAlbumParams \<Rightarrow> string \<Rightarrow> album_cond list" where
  "album_where params user =
     (case ordered_years (fa_FromYear params) (fa_ToYear params) of (fromYear, toYear) \<Rightarrow>
        opt_cond AFromYear fromYear @ opt_cond AToYear toYear @ list_cond AGenres (map to_lower (fa_Genres params))
        @ opt_cond AFolders (fa_MusicFolderIDs params)
        @ snd (album_sorting (fa_SortBy params) (descending_years (fa_FromYear params) (fa_ToYear params)) (fa_RandomSeed params) user))"

definition select_albums ::
  "database \<Rightarrow> clause list \<Rightarrow> album_cond list \<Rightarrow> Paginate option \<Rightarrow> IncludeAlbumInfo \<Rightarrow> catalogue \<Rightarrow> album_rec list \<Rightarrow> go_error + CompleteAlbum list" where
  "select_albums v order conds paginate include c rows =
     execAlbumSelectMany v c include
       (sql_page (case paginate of None \<Rightarrow> [] | Some p \<Rightarrow> Paginate_Apply p [])
          (dv_SortAlbums v order c (filter (\<lambda>a. list_all (album_cond_holds c a) conds) rows)))"

definition A_FindAll :: "database \<Rightarrow> FindAlbumParams \<Rightarrow> IncludeAlbumInfo \<Rightarrow> catalogue \<Rightarrow> go_error + CompleteAlbum list" where
  "A_FindAll v params include c =
     (case album_sorting_error (fa_SortBy params) include of
        Some e \<Rightarrow> Inl e
      | None \<Rightarrow>
          select_albums v
            (fst (album_sorting (fa_SortBy params) (descending_years (fa_FromYear params) (fa_ToYear params)) (fa_RandomSeed params) (iai_User include))
               @ [(''albums.id'', [])])
            (album_where params (iai_User include)) (Some (fa_Paginate params)) include c (tb_albums c))"

definition A_FindBySearch ::
  "database \<Rightarrow> string \<Rightarrow> int list option \<Rightarrow> Paginate \<Rightarrow> IncludeAlbumInfo \<Rightarrow> catalogue \<Rightarrow> go_error + CompleteAlbum list" where
  "A_FindBySearch v query musicFolderIDs paginate include c =
     (case genSearch v (to_lower query) ''albums.search_text'' ''albums.name'' of (tokens, orderBy) \<Rightarrow>
        select_albums v (orderBy @ [(''albums.id'', [])]) (ASearch tokens # opt_cond AFolders musicFolderIDs) (Some paginate) include c (tb_albums c))"

definition A_FindStarred ::
  "database \<Rightarrow> int list option \<Rightarrow> Paginate \<Rightarrow> IncludeAlbumInfo \<Rightarrow> catalogue \<Rightarrow> go_error + CompleteAlbum list" where
  "A_FindStarred v musicFolderIDs paginate include c =
     (if \<not> iai_Annotations include \<or> iai_User include = []
      then Inl (NewError ''include.Annotations and include.User required'' ErrInvalidParams None)
      else select_albums v [(''album_stars.created DESC'', []), (''albums.id'', [])]
             (AStarredBy (iai_User include) # opt_cond AFolders musicFolderIDs) (Some paginate) include c (tb_albums c))"

text \<open>Other versions: the same MusicBrainz identifier, or none on both sides, the same name, a common artist and no other date.\<close>

definition same_date :: "Date option \<Rightarrow> Date option \<Rightarrow> bool" where
  "same_date x y = (case (x, y) of (Some a, Some b) \<Rightarrow> Date_String a = Date_String b | _ \<Rightarrow> True)"

definition alternate_version :: "catalogue \<Rightarrow> album_rec \<Rightarrow> album_rec \<Rightarrow> bool" where
  "alternate_version c a b \<longleftrightarrow>
     ab_MusicBrainzID a \<noteq> None \<and> ab_MusicBrainzID a = ab_MusicBrainzID b
   \<or> ab_MusicBrainzID a = None \<and> ab_MusicBrainzID b = None \<and> ab_Name a = ab_Name b
     \<and> same_date (ab_OriginalDate a) (ab_OriginalDate b)
     \<and> (\<exists>(x, artist, _) \<in> set (tb_album_artist c). x = ab_ID a \<and> (\<exists>(y, artist', _) \<in> set (tb_album_artist c). y = ab_ID b \<and> artist' = artist))"

definition GetAlternateVersions ::
  "database \<Rightarrow> string \<Rightarrow> int list option \<Rightarrow> IncludeAlbumInfo \<Rightarrow> catalogue \<Rightarrow> go_error + CompleteAlbum list" where
  "GetAlternateVersions v albumId musicFolderIDs include c =
     select_albums v [(''albums.release_date DESC'', []), (''albums.version ASC NULLS LAST'', []), (''albums.id'', [])]
       (opt_cond AFolders musicFolderIDs) None include c
       (concat (map (\<lambda>a. map (\<lambda>_. a) (filter (\<lambda>b. ab_ID b = albumId \<and> alternate_version c a b) (tb_albums c)))
          (filter (\<lambda>a. ab_ID a \<noteq> albumId) (tb_albums c))))"

record AlbumInfo =
  alin_AlbumID :: string
  alin_Updated :: "int option"
  alin_Description :: "string option"
  alin_LastFMURL :: "string option"
  alin_LastFMMBID :: "string option"
  alin_MusicBrainzID :: "string option"
  alin_ReleaseMBID :: "string option"

definition A_GetInfo :: "database \<Rightarrow> string \<Rightarrow> string \<Rightarrow> catalogue \<Rightarrow> go_error + AlbumInfo" where
  "A_GetInfo v i user c =
     get_row v ''album info''
       (map (\<lambda>a. \<lparr> alin_AlbumID = ab_ID a, alin_Updated = bx_InfoUpdated a, alin_Description = bx_Description a,
                   alin_LastFMURL = bx_LastFMURL a, alin_LastFMMBID = bx_LastFMMBID a, alin_MusicBrainzID = ab_MusicBrainzID a,
                   alin_ReleaseMBID = ab_ReleaseMBID a \<rparr>)
          (filter (\<lambda>a. ab_ID a = i) (genMusicFolderUserJoin c user ab_MusicFolderID (tb_albums c))))"

text \<open>What is stored of a description from last.fm: text, URL, MusicBrainz identifier.\<close>

type_synonym SetAlbumInfo = "string option \<times> string option \<times> string option"

definition expect_rows :: "database \<Rightarrow> string \<Rightarrow> nat \<Rightarrow> catalogue \<Rightarrow> catalogue \<Rightarrow> go_error option \<times> catalogue" where
  "expect_rows v name n c' c =
     executeQueryExpectAffectedRows (dv_c v)
       (\<lambda>c. case dv_Fault v name of Some e \<Rightarrow> (Inl e, c) | None \<Rightarrow> (Inr (Some (int n)), c')) c"

definition A_SetInfo :: "database \<Rightarrow> int \<Rightarrow> string \<Rightarrow> SetAlbumInfo \<Rightarrow> catalogue \<Rightarrow> go_error option \<times> catalogue" where
  "A_SetInfo v now i info c =
     (case info of (description, url, mbid) \<Rightarrow>
        expect_rows v ''set album info'' (length (filter (\<lambda>a. ab_ID a = i) (tb_albums c)))
          (c\<lparr> tb_albums := map (\<lambda>a. if ab_ID a = i
                then a\<lparr> bx_InfoUpdated := Some now, bx_Description := description, bx_LastFMURL := url, bx_LastFMMBID := mbid \<rparr> else a)
              (tb_albums c) \<rparr>) c)"

section \<open>Artists\<close>

record IncludeArtistInfo =
  iri_AlbumInfo :: bool
  iri_Annotations :: bool
  iri_User :: string

definition IncludeArtistInfoBare :: IncludeArtistInfo where
  "IncludeArtistInfoBare = \<lparr> iri_AlbumInfo = False, iri_Annotations = False, iri_User = [] \<rparr>"

definition IncludeArtistInfoFull :: "string \<Rightarrow> IncludeArtistInfo" where
  "IncludeArtistInfoFull user = \<lparr> iri_AlbumInfo = True, iri_Annotations = True, iri_User = user \<rparr>"

definition album_count :: "catalogue \<Rightarrow> string \<Rightarrow> int" where
  "album_count c i = int (length (filter (\<lambda>(_, a, _). a = i) (tb_album_artist c)))"

definition artist_columns_of :: "database \<Rightarrow> catalogue \<Rightarrow> IncludeArtistInfo \<Rightarrow> artist_rec \<Rightarrow> CompleteArtist" where
  "artist_columns_of v c include a =
     \<lparr> ct_Artist = Artist.truncate a,
       ct_Annotations = (if iri_Annotations include
         then Some (annotations v (tb_artist_stars c) (tb_artist_ratings c) (iri_User include) (ad_ID a)) else None),
       ct_AlbumCount = (if iri_AlbumInfo include then Some (album_count c (ad_ID a)) else None) \<rparr>"

definition select_artists :: "database \<Rightarrow> catalogue \<Rightarrow> IncludeArtistInfo \<Rightarrow> artist_rec list \<Rightarrow> go_error + CompleteArtist list" where
  "select_artists v c include rows = select_rows v ''artists'' (map (artist_columns_of v c include) rows)"

definition R_FindByID :: "database \<Rightarrow> string \<Rightarrow> string \<Rightarrow> IncludeArtistInfo \<Rightarrow> catalogue \<Rightarrow> go_error + CompleteArtist" where
  "R_FindByID v i user include c =
     get_row v ''artists'' (map (artist_columns_of v c include)
       (filter (\<lambda>a. ad_ID a = i \<and> genArtistAccessibleByUserCondition c user (ad_ID a)) (tb_artists c)))"

record FindArtistsParams =
  fr_OnlyAlbumArtists :: bool
  fr_UpdatedAfter :: "int option"
  fr_MusicFolderIDs :: "int list option"

datatype artist_cond = RAlbumArtist | RUpdatedAfter int | RFolders "int list" | RStarredBy string | RSearch "string list"

fun artist_cond_holds :: "catalogue \<Rightarrow> artist_rec \<Rightarrow> artist_cond \<Rightarrow> bool" where
  "artist_cond_holds c a RAlbumArtist = (album_count c (ad_ID a) > 0)"
| "artist_cond_holds c a (RUpdatedAfter t) = (at_Updated a \<ge> t)"
| "artist_cond_holds c a (RFolders fs) = genArtistInMusicFolderCondition c fs (ad_ID a)"
| "artist_cond_holds c a (RStarredBy user) = (mark_of (tb_artist_stars c) (ad_ID a) user \<noteq> None)"
| "artist_cond_holds c a (RSearch tokens) = finds tokens (tx_SearchText a)"

definition find_artists ::
  "database \<Rightarrow> clause list \<Rightarrow> artist_cond list \<Rightarrow> Paginate option \<Rightarrow> IncludeArtistInfo \<Rightarrow> catalogue \<Rightarrow> go_error + CompleteArtist list" where
  "find_artists v order conds paginate include c =
     select_artists v c include
       (sql_page (case paginate of None \<Rightarrow> [] | Some p \<Rightarrow> Paginate_Apply p [])
          (dv_SortArtists v order c (filter (\<lambda>a. list_all (artist_cond_holds c a) conds) (tb_artists c))))"

definition albumArtistsRefused :: go_error where
  "albumArtistsRefused = NewError ''onlyAlbumArtists only allowed if include.AlbumInfo is true'' ErrInvalidParams None"

definition R_FindAll :: "database \<Rightarrow> FindArtistsParams \<Rightarrow> IncludeArtistInfo \<Rightarrow> catalogue \<Rightarrow> go_error + CompleteArtist list" where
  "R_FindAll v params include c =
     (if fr_OnlyAlbumArtists params \<and> \<not> iri_AlbumInfo include then Inl albumArtistsRefused
      else find_artists v [(''lower(artists.name)'', []), (''artists.id'', [])]
             ((if fr_OnlyAlbumArtists params then [RAlbumArtist] else []) @ opt_cond RUpdatedAfter (fr_UpdatedAfter params)
               @ opt_cond RFolders (fr_MusicFolderIDs params)) None include c)"

definition R_FindBySearch ::
  "database \<Rightarrow> string \<Rightarrow> bool \<Rightarrow> int list option \<Rightarrow> Paginate \<Rightarrow> IncludeArtistInfo \<Rightarrow> catalogue \<Rightarrow> go_error + CompleteArtist list" where
  "R_FindBySearch v query onlyAlbumArtists musicFolderIDs paginate include c =
     (if onlyAlbumArtists \<and> \<not> iri_AlbumInfo include then Inl albumArtistsRefused
      else case genSearch v (to_lower query) ''artists.search_text'' ''artists.name'' of (tokens, orderBy) \<Rightarrow>
        find_artists v (orderBy @ [(''artists.id'', [])])
          (RSearch tokens # (if onlyAlbumArtists then [RAlbumArtist] else []) @ opt_cond RFolders musicFolderIDs) (Some paginate) include c)"

definition R_FindStarred ::
  "database \<Rightarrow> int list option \<Rightarrow> Paginate \<Rightarrow> IncludeArtistInfo \<Rightarrow> catalogue \<Rightarrow> go_error + CompleteArtist list" where
  "R_FindStarred v musicFolderIDs paginate include c =
     (if \<not> iri_Annotations include \<or> iri_User include = []
      then Inl (NewError ''include.Annotations and include.AnnotationUser required'' ErrInvalidParams None)
      else find_artists v [(''artist_stars.created DESC'', []), (''artists.id'', [])]
             (RStarredBy (iri_User include) # opt_cond RFolders musicFolderIDs) (Some paginate) include c)"

text \<open>The albums of an artist, newest first.\<close>

definition newest_first :: "clause list" where
  "newest_first = [(''albums.original_date DESC'', []), (''albums.release_date DESC'', []), (''albums.id'', [])]"

definition R_GetAlbums ::
  "database \<Rightarrow> string \<Rightarrow> int list option \<Rightarrow> IncludeAlbumInfo \<Rightarrow> catalogue \<Rightarrow> go_error + CompleteAlbum list" where
  "R_GetAlbums v i musicFolderIDs include c =
     select_albums v newest_first (opt_cond AFolders musicFolderIDs) None include c
       (concat (map (\<lambda>a. map (\<lambda>_. a) (filter (\<lambda>(x, artist, _). x = ab_ID a \<and> artist = i) (tb_album_artist c))) (tb_albums c)))"

text \<open>
  The albums with a song of an artist that are not the artist's own. The comparison of the joined album artist with
  the artist is not true for an album without album artists.
\<close>

definition appears_on :: "catalogue \<Rightarrow> string \<Rightarrow> album_rec \<Rightarrow> bool" where
  "appears_on c i a \<longleftrightarrow>
     (\<exists>(x, artist, _) \<in> set (tb_album_artist c). x = ab_ID a \<and> artist \<noteq> i)
   \<and> (\<exists>s \<in> set (songs_of_album c (ab_ID a)). \<exists>(x, artist, _) \<in> set (tb_song_artist c). x = so_ID s \<and> artist = i)
   \<and> \<not> (\<exists>(x, artist, _) \<in> set (tb_album_artist c). x = ab_ID a \<and> artist = i)"

definition GetAppearsOnAlbums ::
  "database \<Rightarrow> string \<Rightarrow> int list option \<Rightarrow> IncludeAlbumInfo \<Rightarrow> catalogue \<Rightarrow> go_error + CompleteAlbum list" where
  "GetAppearsOnAlbums v i musicFolderIDs include c =
     select_albums v newest_first (opt_cond AFolders musicFolderIDs) None include c (remdups (filter (appears_on c i) (tb_albums c)))"

record ArtistInfo =
  arin_ArtistID :: string
  arin_Updated :: "int option"
  arin_Biography :: "string option"
  arin_LastFMURL :: "string option"
  arin_LastFMMBID :: "string option"
  arin_MusicBrainzID :: "string option"

definition R_GetInfo :: "database \<Rightarrow> string \<Rightarrow> string \<Rightarrow> catalogue \<Rightarrow> go_error + ArtistInfo" where
  "R_GetInfo v i user c =
     get_row v ''artist info''
       (map (\<lambda>a. \<lparr> arin_ArtistID = ad_ID a, arin_Updated = tx_InfoUpdated a, arin_Biography = tx_Biography a,
                   arin_LastFMURL = tx_LastFMURL a, arin_LastFMMBID = tx_LastFMMBID a, arin_MusicBrainzID = ad_MusicBrainzID a \<rparr>)
          (filter (\<lambda>a. ad_ID a = i \<and> genArtistAccessibleByUserCondition c user (ad_ID a)) (tb_artists c)))"

definition R_SetInfo :: "database \<Rightarrow> int \<Rightarrow> string \<Rightarrow> SetAlbumInfo \<Rightarrow> catalogue \<Rightarrow> go_error option \<times> catalogue" where
  "R_SetInfo v now i info c =
     (case info of (biography, url, mbid) \<Rightarrow>
        expect_rows v ''set artist info'' (length (filter (\<lambda>a. ad_ID a = i) (tb_artists c)))
          (c\<lparr> tb_artists := map (\<lambda>a. if ad_ID a = i
                then a\<lparr> tx_InfoUpdated := Some now, tx_Biography := biography, tx_LastFMURL := url, tx_LastFMMBID := mbid \<rparr> else a)
              (tb_artists c) \<rparr>) c)"

section \<open>Genres\<close>

record GenreWithCounts =
  gc_Name :: string
  gc_AlbumCount :: int
  gc_SongCount :: int

text \<open>The counts are over all folders. A user without folders is given one genre without a name.\<close>

definition FindAllWithCounts :: "database \<Rightarrow> (string list \<Rightarrow> string list) \<Rightarrow> int list option \<Rightarrow> catalogue \<Rightarrow> go_error + GenreWithCounts list" where
  "FindAllWithCounts v by_lower_name musicFolderIDs c =
     (if musicFolderIDs = Some [] then Inr [\<lparr> gc_Name = [], gc_AlbumCount = 0, gc_SongCount = 0 \<rparr>]
      else select_rows v ''genres''
        (map (\<lambda>g. let rows = filter (\<lambda>(_, n). n = g) (tb_song_genre c) in
             \<lparr> gc_Name = g,
               gc_AlbumCount = int (length (remdups (concat (map (\<lambda>(i, _).
                  List.map_filter (\<lambda>s. if so_ID s = i then so_AlbumID s else None) (tb_songs c)) rows)))),
               gc_SongCount = int (length rows) \<rparr>)
           (by_lower_name (filter (\<lambda>g. case musicFolderIDs of None \<Rightarrow> True
              | Some fs \<Rightarrow> \<exists>(i, n) \<in> set (tb_song_genre c). n = g
                  \<and> (\<exists>s \<in> set (tb_songs c). so_ID s = i \<and> (case so_MusicFolderID s of None \<Rightarrow> False | Some f \<Rightarrow> f \<in> set fs)))
              (tb_genres c)))))"

end
