(* ===== verification/BrowseHandlers.thy ===== *)
theory BrowseHandlers
  imports Requests AlbumQueries LastFM NetURL
begin

text \<open>
  The handlers that browse the library (\<open>handlers/subsonic_browsing.go\<close>, \<open>crossonic_browsing.go\<close>) on top of the
  parameters of requests and the queries on the catalogue. A handler yields its writer, what its response carries and
  the catalogue. The failures of the database and of last.fm, the covers on disk and the time are in the environment;
  other requests and the scanner may change the catalogue between two requests, not within one.
\<close>

section \<open>Environment and responses\<close>

record br_env =
  be_v :: database
  be_covers :: cover_sizes
  be_gain :: float64
  be_keys :: "(int \<rightharpoonup> string) \<Rightarrow> int list"
  be_now :: int
  be_LastFM :: bool
  be_GetAlbumInfo :: "string \<Rightarrow> string \<Rightarrow> string option \<Rightarrow> go_error + lfm_info"
  be_GetArtistInfo :: "string \<Rightarrow> string option \<Rightarrow> go_error + lfm_info"
  be_BaseURL :: string
  be_LastScan :: "go_error + int"
  be_genre_order :: "string list \<Rightarrow> string list"
  be_IsLetter :: "string \<Rightarrow> bool"        \<comment> \<open>of runes beyond ASCII, as the next two\<close>
  be_ToLower :: "string \<Rightarrow> string"
  be_ToUpper :: "string \<Rightarrow> string"

record ArtistIndexes =
  ix_IgnoredArticles :: string
  ix_LastModified :: int
  ix_Index :: "(string \<times> ArtistResponse list) list"

record InfoResponse =
  if_Text :: "string option"
  if_MusicBrainzID :: "string option"
  if_ReleaseMBID :: "string option"
  if_LastFMUrl :: "string option"
  if_SmallImageURL :: "string option"
  if_MediumImageURL :: "string option"
  if_LargeImageURL :: "string option"

datatype dir_children = DSongs "SongResponse list" | DAlbums "AlbumResponse list"

record Directory =
  di_ID :: string
  di_Name :: string
  di_Parent :: "string option"
  di_Starred :: "int option"
  di_UserRating :: "int option"
  di_AverageRating :: "float64 option"
  di_PlayCount :: "int option"
  di_Child :: dir_children

text \<open>What a response carries; the first argument of some is the element it is shown under.\<close>

datatype br_response =
    BMusicFolders "(int \<times> string \<times> int) list"
  | BArtist ArtistResponse
  | BAlbum AlbumResponse "SongResponse list"
  | BSong SongResponse
  | BGenres "GenreWithCounts list"
  | BIndexes string ArtistIndexes
  | BInfo string InfoResponse
  | BDirectory Directory
  | BAlbums string "AlbumResponse list"
  | BSongs string "SongResponse list"
  | BLists string "SongResponse list" "AlbumResponse list" "ArtistResponse list"
  | BRecap int int int int
  | BTopSongs "(SongResponse \<times> int) list"
  | BNowPlaying "(SongResponse \<times> string \<times> int) list"

type_synonym br_reply = "(br_response option, catalogue) reply"

definition br_ok :: "url_values \<Rightarrow> writer \<Rightarrow> br_response \<Rightarrow> catalogue \<Rightarrow> br_reply" where
  "br_ok q w res c = ((ok_write q w, Some res), c)"

definition br_internal :: "url_values \<Rightarrow> string \<Rightarrow> go_error \<Rightarrow> writer \<Rightarrow> catalogue \<Rightarrow> br_reply" where
  "br_internal q msg e w c = ((respondInternalErr (Q_Format q) (EWrap msg e) w, None), c)"

definition br_error :: "url_values \<Rightarrow> string \<Rightarrow> go_error \<Rightarrow> writer \<Rightarrow> catalogue \<Rightarrow> br_reply" where
  "br_error q msg e w c = ((respondErr (Q_Format q) (EWrap msg e) w, None), c)"

text \<open>The folders a request may look at.\<close>

definition folders_of :: "br_env \<Rightarrow> url_values \<Rightarrow> catalogue \<Rightarrow> writer \<Rightarrow> int list qres" where
  "folders_of env q c = MusicFolderIDs (\<lambda>user requested. GetUserMusicFolderIDs (be_v env) user requested c) q"

definition songs_shown :: "br_env \<Rightarrow> CompleteSong list \<Rightarrow> SongResponse list" where
  "songs_shown env = NewSongs (be_covers env) (be_gain env)"

definition albums_shown :: "br_env \<Rightarrow> CompleteAlbum list \<Rightarrow> AlbumResponse list" where
  "albums_shown env = NewAlbums (be_covers env) (be_keys env)"

definition artists_shown :: "br_env \<Rightarrow> CompleteArtist list \<Rightarrow> ArtistResponse list" where
  "artists_shown env = NewArtists (be_covers env)"

section \<open>Folders, genres, single entities\<close>

definition handleGetMusicFolders :: "br_env \<Rightarrow> url_values \<Rightarrow> writer \<Rightarrow> catalogue \<Rightarrow> br_reply" where
  "handleGetMusicFolders env q w c =
     (case MF_FindAll (be_v env) (Q_User q) c of
        Inl e \<Rightarrow> br_internal q ''find music folders'' e w c
      | Inr folders \<Rightarrow> br_ok q w (BMusicFolders (map (\<lambda>(f, n). (mfo_ID f, mfo_Name f, n)) folders)) c)"

definition handleGetArtist :: "br_env \<Rightarrow> url_values \<Rightarrow> writer \<Rightarrow> catalogue \<Rightarrow> br_reply" where
  "handleGetArtist env q w c =
     (case IDReq q ''id'' w of (None, w) \<Rightarrow> ((w, None), c) | (Some i, w) \<Rightarrow>
     (case folders_of env q c w of (None, w) \<Rightarrow> ((w, None), c) | (Some fs, w) \<Rightarrow>
     (case R_FindByID (be_v env) i (Q_User q) (IncludeArtistInfoFull (Q_User q)) c of
        Inl e \<Rightarrow> br_error q ''get artist'' e w c
      | Inr dbArtist \<Rightarrow>
          (case R_GetAlbums (be_v env) (ad_ID (ct_Artist dbArtist)) (Some fs) (IncludeAlbumInfoFull (Q_User q)) c of
             Inl e \<Rightarrow> br_internal q ''get artist: get albums'' e w c
           | Inr dbAlbums \<Rightarrow>
               br_ok q w (BArtist ((NewArtist (be_covers env) dbArtist)\<lparr> ra_Albums := albums_shown env dbAlbums \<rparr>)) c))))"

definition handleGetAlbum :: "br_env \<Rightarrow> url_values \<Rightarrow> writer \<Rightarrow> catalogue \<Rightarrow> br_reply" where
  "handleGetAlbum env q w c =
     (case IDReq q ''id'' w of (None, w) \<Rightarrow> ((w, None), c) | (Some i, w) \<Rightarrow>
     (case A_FindByID (be_v env) i (Q_User q) (IncludeAlbumInfoFull (Q_User q)) c of
        Inl e \<Rightarrow> br_error q ''get album'' e w c
      | Inr dbAlbum \<Rightarrow>
          (case A_GetTracks (be_v env) i (IncludeSongInfoFull (Q_User q)) c of
             Inl e \<Rightarrow> br_internal q ''get album: get songs'' e w c
           | Inr dbSongs \<Rightarrow>
               br_ok q w (BAlbum (NewAlbum (be_covers env) (be_keys env) dbAlbum) (songs_shown env dbSongs)) c)))"

definition handleGetSong :: "br_env \<Rightarrow> url_values \<Rightarrow> writer \<Rightarrow> catalogue \<Rightarrow> br_reply" where
  "handleGetSong env q w c =
     (case IDReq q ''id'' w of (None, w) \<Rightarrow> ((w, None), c) | (Some i, w) \<Rightarrow>
     (case S_FindByID (be_v env) i (Q_User q) (IncludeSongInfoFull (Q_User q)) c of
        Inl e \<Rightarrow> br_error q ''get song: find song by id'' e w c
      | Inr song \<Rightarrow> br_ok q w (BSong (NewSong (be_covers env) (be_gain env) song)) c))"

definition handleGetGenres :: "br_env \<Rightarrow> url_values \<Rightarrow> writer \<Rightarrow> catalogue \<Rightarrow> br_reply" where
  "handleGetGenres env q w c =
     (case folders_of env q c w of (None, w) \<Rightarrow> ((w, None), c) | (Some fs, w) \<Rightarrow>
     (case FindAllWithCounts (be_v env) (be_genre_order env) (Some fs) c of
        Inl e \<Rightarrow> br_internal q ''get genres'' e w c
      | Inr genres \<Rightarrow> br_ok q w (BGenres genres) c))"

section \<open>The index of artists\<close>

definition ignoredArticles :: "string list" where
  "ignoredArticles = [''The'', ''An'', ''A'', ''Der'', ''Die'', ''Das'', ''Ein'', ''Eine'', ''Les'', ''Le'', ''La'', ''L'' @ [CHR 0x27]]"

text \<open>The first ignored article that begins the name is removed, and none after it.\<close>

fun strip_article :: "string list \<Rightarrow> string \<Rightarrow> string" where
  "strip_article [] name = name"
| "strip_article (i # is) name =
     (let name' = trim_prefix name (i @ '' '')
      in if length name' < length name then name' else strip_article is name')"

definition rune_IsLetter :: "br_env \<Rightarrow> string \<Rightarrow> bool" where
  "rune_IsLetter env r = (case r of [ch] \<Rightarrow> ascii_letter ch | _ \<Rightarrow> be_IsLetter env r)"

definition rune_ToLower :: "br_env \<Rightarrow> string \<Rightarrow> string" where
  "rune_ToLower env r = (case r of [ch] \<Rightarrow> [lower_char ch] | _ \<Rightarrow> be_ToLower env r)"

definition rune_ToUpper :: "br_env \<Rightarrow> string \<Rightarrow> string" where
  "rune_ToUpper env r = (case r of [ch] \<Rightarrow> [upper_char ch] | _ \<Rightarrow> be_ToUpper env r)"

definition index_key :: "br_env \<Rightarrow> string \<Rightarrow> string" where
  "index_key env name =
     (let rs = runes (trim_space (strip_article ignoredArticles name))
      in if length rs > 0 \<and> rune_IsLetter env (rs ! 0) then rune_ToLower env (rs ! 0) else ''#'')"

type_synonym index_map = "string \<rightharpoonup> string \<times> ArtistResponse list"

definition add_to_index :: "br_env \<Rightarrow> CompleteArtist \<Rightarrow> index_map \<Rightarrow> index_map" where
  "add_to_index env a indexMap =
     (let key = index_key env (ad_Name (ct_Artist a)); artist = NewArtist (be_covers env) a
      in case indexMap key of
           Some (name, artists) \<Rightarrow> indexMap(key \<mapsto> (name, artists @ [artist]))
         | None \<Rightarrow> indexMap(key \<mapsto> (rune_ToUpper env key, [artist])))"

definition index_letters :: "string list" where
  "index_letters = map (\<lambda>ch. [ch]) (''#abcdefghijklmnopqrstuvwxyz'')"

definition artist_index :: "br_env \<Rightarrow> CompleteArtist list \<Rightarrow> (string \<times> ArtistResponse list) list" where
  "artist_index env artists = List.map_filter (fold (add_to_index env) artists Map.empty) index_letters"

text \<open>Milliseconds of a time in nanoseconds, rounded down as \<open>UnixMilli\<close> does.\<close>

definition UnixMilli :: "int \<Rightarrow> int" where "UnixMilli t = t div 1000000"

definition handleGetArtistsIndex :: "br_env \<Rightarrow> bool \<Rightarrow> url_values \<Rightarrow> writer \<Rightarrow> catalogue \<Rightarrow> br_reply" where
  "handleGetArtistsIndex env byID3 q w c =
     (case (if \<not> byID3 then TimeUnixMillis q ''ifModifiedSince'' w else (Some None, w)) of
        (None, w) \<Rightarrow> ((w, None), c)
      | (Some ifModifiedSince, w) \<Rightarrow>
     (case folders_of env q c w of (None, w) \<Rightarrow> ((w, None), c) | (Some fs, w) \<Rightarrow>
     (case R_FindAll (be_v env) \<lparr> fr_OnlyAlbumArtists = True, fr_UpdatedAfter = map_option (\<lambda>t. t * 1000000) ifModifiedSince,
              fr_MusicFolderIDs = Some fs \<rparr> (IncludeArtistInfoFull (Q_User q)) c of
        Inl e \<Rightarrow> br_internal q ''get artists'' e w c
      | Inr artists \<Rightarrow>
          (case be_LastScan env of
             Inl e \<Rightarrow> br_internal q ''get artists index: last scan'' e w c
           | Inr lastModified \<Rightarrow>
               br_ok q w (BIndexes (if byID3 then ''artists'' else ''indexes'')
                 \<lparr> ix_IgnoredArticles = join_with '' '' ignoredArticles,
                   ix_LastModified = UnixMilli lastModified, ix_Index = artist_index env artists \<rparr>) c))))"


section \<open>Descriptions from last.fm\<close>

definition keepLastFMInfoFor :: int where "keepLastFMInfoFor = 30 * 24 * 3600 * 1000000000"

text \<open>\<open>url.QueryEscape\<close>.\<close>

definition query_keep :: "char \<Rightarrow> bool" where
  "query_keep ch \<longleftrightarrow> ascii_letter ch \<or> is_digit ch \<or> ch \<in> {CHR ''-'', CHR ''_'', CHR ''.'', CHR ''~''}"

fun QueryEscape :: "string \<Rightarrow> string" where
  "QueryEscape [] = []"
| "QueryEscape (ch # s) =
     (if query_keep ch then ch # QueryEscape s
      else if ch = CHR '' '' then CHR ''+'' # QueryEscape s
      else CHR ''%'' # upper_hex (code_of ch div 16) # upper_hex (code_of ch mod 16) # QueryEscape s)"

text \<open>The credentials of the request are part of the URL.\<close>

definition constructCoverURL :: "br_env \<Rightarrow> string \<Rightarrow> url_values \<Rightarrow> string" where
  "constructCoverURL env i q =
     (let arg = (\<lambda>name. ''&'' @ name @ ''='' @ QueryEscape (Q_Str q name))
      in be_BaseURL env @ ''/rest/getCoverArt?id='' @ QueryEscape i @ arg ''c'' @ arg ''u'' @ arg ''v''
         @ concat (map arg (filter (Q_Has q) [''p'', ''t'', ''s'', ''apiKey''])))"

definition cover_urls :: "br_env \<Rightarrow> string \<Rightarrow> url_values \<Rightarrow> string option \<times> string option \<times> string option" where
  "cover_urls env i q =
     (if HasCoverArt (be_covers env) i
      then (let u = constructCoverURL env i q in (Some (u @ ''&size=64''), Some (u @ ''&size=256''), Some (u @ ''&size=512'')))
      else (None, None, None))"

text \<open>Information older than thirty days counts as not there.\<close>

definition fresh_info :: "br_env \<Rightarrow> int option \<Rightarrow> int option" where
  "fresh_info env updated = (case updated of None \<Rightarrow> None | Some t \<Rightarrow> if be_now env - t > keepLastFMInfoFor then None else Some t)"

definition or_else :: "'a option \<Rightarrow> 'a option \<Rightarrow> 'a option" where
  "or_else x y = (case x of None \<Rightarrow> y | Some _ \<Rightarrow> x)"

text \<open>
  What last.fm answers to the handlers of albums and artists: its description, URL and identifier, and whether to
  store them. An entity it does not know is shown without description and asked for again.
\<close>

definition lastfm_answer :: "go_error + lfm_info \<Rightarrow> go_error + (SetAlbumInfo \<times> bool)" where
  "lastfm_answer answer =
     (case answer of
        Inl e \<Rightarrow> if errors_Is e lErrNotFound then Inr ((None, None, None), False) else Inl e
      | Inr l \<Rightarrow> Inr ((li_Content l, li_URL l, li_MBID l), True))"

definition album_response :: "br_env \<Rightarrow> url_values \<Rightarrow> string \<Rightarrow> AlbumInfo \<Rightarrow> br_response" where
  "album_response env q i info =
     (case cover_urls env i q of (small, medium, large) \<Rightarrow>
        BInfo ''albumInfo'' \<lparr> if_Text = alin_Description info, if_MusicBrainzID = or_else (alin_MusicBrainzID info) (alin_LastFMMBID info),
          if_ReleaseMBID = alin_ReleaseMBID info, if_LastFMUrl = alin_LastFMURL info, if_SmallImageURL = small,
          if_MediumImageURL = medium, if_LargeImageURL = large \<rparr>)"

definition fetch_album_info :: "br_env \<Rightarrow> url_values \<Rightarrow> string \<Rightarrow> AlbumInfo \<Rightarrow> catalogue \<Rightarrow> (go_error + AlbumInfo) \<times> catalogue" where
  "fetch_album_info env q i info c =
     (case A_FindByID (be_v env) i (Q_User q) (IncludeAlbumInfoBare\<lparr> iai_Artists := True \<rparr>) c of
        Inl e \<Rightarrow> (Inl (EWrap ''get album info: find album'' e), c)
      | Inr album \<Rightarrow>
          (let artists = (case ca_Lists album of None \<Rightarrow> [] | Some ls \<Rightarrow> als_Artists ls)
           in if length artists > 0
              then (case lastfm_answer (be_GetAlbumInfo env (ab_Name (ca_Album album)) (arf_Name (artists ! 0)) (ab_MusicBrainzID (ca_Album album))) of
                      Inl e \<Rightarrow> (Inl (EWrap ''get album info: fetch last.fm data'' e), c)
                    | Inr ((description, url, mbid), store) \<Rightarrow>
                        (let info = info\<lparr> alin_Description := description, alin_LastFMMBID := mbid, alin_LastFMURL := url \<rparr>
                         in if store
                            then (case A_SetInfo (be_v env) (be_now env) i (description, url, mbid) c of
                                    (Some e, c) \<Rightarrow> (Inl (EWrap ''get album info: save new last.fm data in DB'' e), c)
                                  | (None, c) \<Rightarrow> (Inr info, c))
                            else (Inr info, c)))
              else (Inr info, c)))"

text \<open>
  The information about an album. If there is none the repository's answer is a nil pointer, and that is
  dereferenced: an album that does not exist or is not the user's makes the handler panic.
\<close>

type_synonym br_outcome = "(br_response option outcome, catalogue) reply"

definition done_reply :: "br_reply \<Rightarrow> br_outcome" where
  "done_reply r = (case r of ((w, res), c) \<Rightarrow> ((w, Done res), c))"

definition album_of_id :: "br_env \<Rightarrow> url_values \<Rightarrow> string \<Rightarrow> writer \<Rightarrow> catalogue \<Rightarrow> (br_reply + string)" where
  "album_of_id env q i w c =
     (if GetIDType i = Some IDTypeSong
      then (case S_FindByID (be_v env) i (Q_User q) IncludeSongInfoBare c of
              Inl e \<Rightarrow> Inl (br_error q ''get album info: find song'' e w c)
            | Inr song \<Rightarrow>
                (case so_AlbumID (cs_Song song) of
                   None \<Rightarrow> Inl ((respondNotFoundErr (Q_Format q) ''song has no album'' w, None), c)
                 | Some a \<Rightarrow> Inr a))
      else Inr i)"

definition handleGetAlbumInfo2 :: "br_env \<Rightarrow> url_values \<Rightarrow> writer \<Rightarrow> catalogue \<Rightarrow> br_outcome" where
  "handleGetAlbumInfo2 env q w c =
     (case IDReq q ''id'' w of (None, w) \<Rightarrow> ((w, Done None), c) | (Some i, w) \<Rightarrow>
     (case album_of_id env q i w c of
        Inl reply \<Rightarrow> done_reply reply
      | Inr i \<Rightarrow>
     (case A_GetInfo (be_v env) i (Q_User q) c of
        Inl e \<Rightarrow> if \<not> errors_Is e (EType ErrNotFound) then done_reply (br_error q ''get album info: get info'' e w c)
                 else ((w, Panic), c)
      | Inr info \<Rightarrow>
          (let info = info\<lparr> alin_Updated := fresh_info env (alin_Updated info) \<rparr>
           in case (if alin_Updated info = None \<and> be_LastFM env then fetch_album_info env q i info c else (Inr info, c)) of
                (Inl e, c) \<Rightarrow> ((respondErr (Q_Format q) e w, Done None), c)
              | (Inr info, c) \<Rightarrow> done_reply (br_ok q w (album_response env q i info) c)))))"

definition artist_response :: "br_env \<Rightarrow> url_values \<Rightarrow> nat \<Rightarrow> string \<Rightarrow> ArtistInfo \<Rightarrow> br_response" where
  "artist_response env q version i info =
     (case cover_urls env i q of (small, medium, large) \<Rightarrow>
        BInfo (if version = 2 then ''artistInfo2'' else ''artistInfo'')
          \<lparr> if_Text = arin_Biography info, if_MusicBrainzID = or_else (arin_MusicBrainzID info) (arin_LastFMMBID info),
            if_ReleaseMBID = None, if_LastFMUrl = arin_LastFMURL info, if_SmallImageURL = small,
            if_MediumImageURL = medium, if_LargeImageURL = large \<rparr>)"

definition fetch_artist_info :: "br_env \<Rightarrow> url_values \<Rightarrow> string \<Rightarrow> ArtistInfo \<Rightarrow> catalogue \<Rightarrow> (go_error + ArtistInfo) \<times> catalogue" where
  "fetch_artist_info env q i info c =
     (case R_FindByID (be_v env) i (Q_User q) IncludeArtistInfoBare c of
        Inl e \<Rightarrow> (Inl (EWrap ''get album info: find album'' e), c)
      | Inr artist \<Rightarrow>
          (case lastfm_answer (be_GetArtistInfo env (ad_Name (ct_Artist artist)) (ad_MusicBrainzID (ct_Artist artist))) of
             Inl e \<Rightarrow> (Inl (EWrap ''get album info: fetch last.fm data'' e), c)
           | Inr ((biography, url, mbid), store) \<Rightarrow>
               (let info = info\<lparr> arin_Biography := biography, arin_LastFMMBID := mbid, arin_LastFMURL := url \<rparr>
                in if store
                   then (case R_SetInfo (be_v env) (be_now env) i (biography, url, mbid) c of
                           (Some e, c) \<Rightarrow> (Inl (EWrap ''get album info: save new last.fm data in DB'' e), c)
                         | (None, c) \<Rightarrow> (Inr info, c))
                   else (Inr info, c))))"

text \<open>The artist of a song or an album is the first one.\<close>

definition artist_of_id :: "br_env \<Rightarrow> url_values \<Rightarrow> string \<Rightarrow> writer \<Rightarrow> catalogue \<Rightarrow> (br_reply + string)" where
  "artist_of_id env q i w c =
     (if GetIDType i = Some IDTypeSong
      then (case S_FindByID (be_v env) i (Q_User q) (IncludeSongInfoBare\<lparr> isi_Lists := True \<rparr>) c of
              Inl e \<Rightarrow> Inl (br_error q ''get artist info: find song'' e w c)
            | Inr song \<Rightarrow>
                (let albumArtists = (case cs_Lists song of None \<Rightarrow> [] | Some ls \<Rightarrow> sls_AlbumArtists ls);
                     artists = (case cs_Lists song of None \<Rightarrow> [] | Some ls \<Rightarrow> sls_Artists ls)
                 in if length albumArtists > 0 then Inr (arf_ID (albumArtists ! 0))
                    else if length artists > 0 then Inr (arf_ID (artists ! 0))
                    else Inl ((respondNotFoundErr (Q_Format q) ''song has no artists'' w, None), c)))
      else if GetIDType i = Some IDTypeAlbum
      then (case A_FindByID (be_v env) i (Q_User q) (IncludeAlbumInfoBare\<lparr> iai_Artists := True \<rparr>) c of
              Inl e \<Rightarrow> Inl (br_error q ''get artist info: find album'' e w c)
            | Inr album \<Rightarrow>
                (let artists = (case ca_Lists album of None \<Rightarrow> [] | Some ls \<Rightarrow> als_Artists ls)
                 in if length artists > 0 then Inr (arf_ID (artists ! 0))
                    else Inl ((respondNotFoundErr (Q_Format q) ''album has no artists'' w, None), c)))
      else Inr i)"

definition handleGetArtistInfo :: "br_env \<Rightarrow> nat \<Rightarrow> url_values \<Rightarrow> writer \<Rightarrow> catalogue \<Rightarrow> br_reply" where
  "handleGetArtistInfo env version q w c =
     (case IDReq q ''id'' w of (None, w) \<Rightarrow> ((w, None), c) | (Some i, w) \<Rightarrow>
     (case artist_of_id env q i w c of
        Inl reply \<Rightarrow> reply
      | Inr i \<Rightarrow>
     (case R_GetInfo (be_v env) i (Q_User q) c of
        Inl e \<Rightarrow> br_error q ''get artist info: get info'' e w c
      | Inr info \<Rightarrow>
          (let info = info\<lparr> arin_Updated := fresh_info env (arin_Updated info) \<rparr>
           in case (if arin_Updated info = None \<and> be_LastFM env then fetch_artist_info env q i info c else (Inr info, c)) of
                (Inl e, c) \<Rightarrow> ((respondErr (Q_Format q) e w, None), c)
              | (Inr info, c) \<Rightarrow> br_ok q w (artist_response env q version i info) c))))"

section \<open>Directories\<close>

text \<open>An album or an artist as a directory. The queries include what the handler reads, so that no part is missing.\<close>

definition handleGetMusicDirectory :: "br_env \<Rightarrow> url_values \<Rightarrow> writer \<Rightarrow> catalogue \<Rightarrow> br_reply" where
  "handleGetMusicDirectory env q w c =
     (case IDReq q ''id'' w of (None, w) \<Rightarrow> ((w, None), c) | (Some i, w) \<Rightarrow>
     (case folders_of env q c w of (None, w) \<Rightarrow> ((w, None), c) | (Some fs, w) \<Rightarrow>
      if IsIDType i IDTypeAlbum
      then (case A_FindByID (be_v env) i (Q_User q)
                   \<lparr> iai_TrackInfo = False, iai_User = Q_User q, iai_Annotations = True, iai_PlayInfo = True, iai_Genres = False, iai_Artists = True \<rparr> c of
              Inl e \<Rightarrow> br_error q ''get music directory: get album tracks'' e w c
            | Inr album \<Rightarrow>
                (case A_GetTracks (be_v env) i (IncludeSongInfoFull (Q_User q)) c of
                   Inl e \<Rightarrow> br_error q ''get music directory: get album tracks'' e w c
                 | Inr songs \<Rightarrow>
                     br_ok q w (BDirectory
                       \<lparr> di_ID = ab_ID (ca_Album album), di_Name = ab_Name (ca_Album album),
                         di_Parent = (case ca_Lists album of None \<Rightarrow> None | Some ls \<Rightarrow> FirstOrNilMap (als_Artists ls) arf_ID),
                         di_Starred = Option.bind (ca_Annotations album) ann_Starred,
                         di_UserRating = Option.bind (ca_Annotations album) ann_UserRating,
                         di_AverageRating = Option.bind (ca_Annotations album) ann_AverageRating,
                         di_PlayCount = map_option pli_PlayCount (ca_PlayInfo album),
                         di_Child = DSongs (songs_shown env songs) \<rparr>) c))
      else if IsIDType i IDTypeArtist
      then (case R_FindByID (be_v env) i (Q_User q) \<lparr> iri_AlbumInfo = False, iri_Annotations = True, iri_User = Q_User q \<rparr> c of
              Inl e \<Rightarrow> br_error q ''get music directory: get artist albums'' e w c
            | Inr artist \<Rightarrow>
                (case R_GetAlbums (be_v env) i (Some fs) (IncludeAlbumInfoFull (Q_User q)) c of
                   Inl e \<Rightarrow> br_error q ''get music directory: get artist albums'' e w c
                 | Inr albums \<Rightarrow>
                     br_ok q w (BDirectory
                       \<lparr> di_ID = ad_ID (ct_Artist artist), di_Name = ad_Name (ct_Artist artist), di_Parent = None,
                         di_Starred = Option.bind (ct_Annotations artist) ann_Starred,
                         di_UserRating = Option.bind (ct_Annotations artist) ann_UserRating,
                         di_AverageRating = Option.bind (ct_Annotations artist) ann_AverageRating,
                         di_PlayCount = None, di_Child = DAlbums (albums_shown env albums) \<rparr>) c))
      else ((respondNotFoundErr (Q_Format q) ''invalid id type'' w, None), c)))"

section \<open>Related albums\<close>

definition handleGetAppearsOn :: "br_env \<Rightarrow> url_values \<Rightarrow> writer \<Rightarrow> catalogue \<Rightarrow> br_reply" where
  "handleGetAppearsOn env q w c =
     (case IDReq q ''artistId'' w of (None, w) \<Rightarrow> ((w, None), c) | (Some artistId, w) \<Rightarrow>
     (case folders_of env q c w of (None, w) \<Rightarrow> ((w, None), c) | (Some fs, w) \<Rightarrow>
     (case GetAppearsOnAlbums (be_v env) artistId (Some fs) (IncludeAlbumInfoFull (Q_User q)) c of
        Inl e \<Rightarrow> br_error q ''get appears on albums'' e w c
      | Inr albums \<Rightarrow> br_ok q w (BAlbums ''appearsOn'' (albums_shown env albums)) c)))"

definition handleGetAlternateAlbumVersions :: "br_env \<Rightarrow> url_values \<Rightarrow> writer \<Rightarrow> catalogue \<Rightarrow> br_reply" where
  "handleGetAlternateAlbumVersions env q w c =
     (case IDReq q ''albumId'' w of (None, w) \<Rightarrow> ((w, None), c) | (Some albumId, w) \<Rightarrow>
     (case folders_of env q c w of (None, w) \<Rightarrow> ((w, None), c) | (Some fs, w) \<Rightarrow>
     (case GetAlternateVersions (be_v env) albumId (Some fs) (IncludeAlbumInfoFull (Q_User q)) c of
        Inl e \<Rightarrow> br_error q ''get album versions'' e w c
      | Inr albums \<Rightarrow> br_ok q w (BAlbums ''albumVersions'' (albums_shown env albums)) c)))"

end
