(* ===== verification/ScrobbleRepo.thy ===== *)
theory ScrobbleRepo
  imports Annotation Catalogue
begin

text \<open>
  The table of scrobbles (\<open>repos/postgres/scrobble.go\<close>): recording, the songs that are playing, what waits for
  ListenBrainz, and the sums of a year. Columns of durations hold milliseconds.
\<close>

section \<open>Recording\<close>

text \<open>The key of a row.\<close>

definition scrobble_key :: "scrobble_rec \<Rightarrow> string \<times> string \<times> int \<times> bool" where
  "scrobble_key k = (sk_User k, sk_SongID k, sk_Time k, sk_NowPlaying k)"

definition scrobble_row :: "CreateScrobbleParams \<Rightarrow> scrobble_rec" where
  "scrobble_row p = \<lparr> sk_User = cp_User p, sk_SongID = cp_SongID p, sk_AlbumID = cp_AlbumID p, sk_Time = cp_Time p,
     sk_SongDuration = sint (DurationMS_Millis (cp_SongDuration p)),
     sk_Duration = (case NullDurationMS_Value (cp_Duration p) of VInt ms \<Rightarrow> Some (sint ms) | _ \<Rightarrow> None),
     sk_Submitted = cp_SubmittedToListenBrainz p, sk_NowPlaying = cp_NowPlaying p \<rparr>"

text \<open>A row with the key of a stored one updates it; whether it was submitted stays.\<close>

definition upsert_scrobble :: "scrobble_rec \<Rightarrow> scrobble_rec list \<Rightarrow> scrobble_rec list" where
  "upsert_scrobble k rows =
     (if scrobble_key k \<in> scrobble_key ` set rows
      then map (\<lambda>r. if scrobble_key r = scrobble_key k
             then r\<lparr> sk_Duration := sk_Duration k, sk_AlbumID := sk_AlbumID k, sk_SongDuration := sk_SongDuration k \<rparr> else r) rows
      else rows @ [k])"

text \<open>One statement does not touch a row twice.\<close>

definition insert_scrobbles :: "database \<Rightarrow> CreateScrobbleParams list \<Rightarrow> catalogue \<Rightarrow> (go_error + int option) \<times> catalogue" where
  "insert_scrobbles v params c =
     (let rows = map scrobble_row params
      in case dv_Fault v ''insert scrobbles'' of
           Some e \<Rightarrow> (Inl e, c)
         | None \<Rightarrow>
             if \<not> distinct (map scrobble_key rows)
             then (Inl (EMsg ''ON CONFLICT DO UPDATE command cannot affect row a second time''), c)
             else (Inr (Some (int (length rows))), c\<lparr> tb_scrobbles := fold upsert_scrobble rows (tb_scrobbles c) \<rparr>))"

text \<open>Statements of the repositories that use several run in a transaction of their own or in that of the caller.\<close>

definition in_batches ::
  "database \<Rightarrow> bool \<Rightarrow> ('a list \<Rightarrow> catalogue \<Rightarrow> go_error option \<times> catalogue) \<Rightarrow> 'a list \<Rightarrow> catalogue \<Rightarrow> go_error option \<times> catalogue" where
  "in_batches v in_tx stmt xs c =
     (case newTransactionFn (dv_conn v) in_tx (execBatch (\<lambda>ys s. case stmt ys (fst s) of (err, c) \<Rightarrow> (err, c, snd s)) xs) (c, ()) of
        (err, c, _) \<Rightarrow> (err, c))"

definition S_CreateMultiple :: "database \<Rightarrow> bool \<Rightarrow> CreateScrobbleParams list \<Rightarrow> catalogue \<Rightarrow> go_error option \<times> catalogue" where
  "S_CreateMultiple v in_tx params = in_batches v in_tx (\<lambda>ps. executeQuery (dv_c v) (insert_scrobbles v ps)) params"

text \<open>Conflicts are looked for in one batch: requests have fewer entries than one holds.\<close>

definition FindPossibleConflicts ::
  "database \<Rightarrow> bool \<Rightarrow> string \<Rightarrow> string list \<Rightarrow> int list \<Rightarrow> catalogue \<Rightarrow> go_error + scrobble_rec list" where
  "FindPossibleConflicts v in_tx user songIDs timeList c =
     (if length songIDs \<noteq> length timeList then Inl (NewError ''songIDs and times length mismatch'' ErrInvalidParams None)
      else if length songIDs = 0 then Inr []
      else case newTransactionFn (dv_conn v) in_tx
        (\<lambda>s. case selectBatch2 (\<lambda>ids ts s.
               (select_rows v ''conflicts'' (filter (\<lambda>k. sk_User k = user \<and> \<not> sk_NowPlaying k \<and> sk_SongID k \<in> set ids \<and> sk_Time k \<in> set ts)
                  (tb_scrobbles (fst s))), s)) songIDs timeList s of
             (Inl e, s) \<Rightarrow> (Some e, s) | (Inr rows, s) \<Rightarrow> (None, fst s, rows)) (c, []) of
        (Some e, _) \<Rightarrow> Inl e
      | (None, _, rows) \<Rightarrow> Inr rows)"

section \<open>Songs that are playing\<close>

text \<open>An entry is over after three times the length of its song.\<close>

definition still_playing :: "int \<Rightarrow> scrobble_rec \<Rightarrow> bool" where
  "still_playing now k \<longleftrightarrow> now - sk_Time k < 3 * sk_SongDuration k * 1000000"

definition delete_scrobbles :: "database \<Rightarrow> (scrobble_rec \<Rightarrow> bool) \<Rightarrow> catalogue \<Rightarrow> go_error option \<times> catalogue" where
  "delete_scrobbles v cond =
     executeQuery (dv_c v) (\<lambda>c. case dv_Fault v ''delete scrobbles'' of Some e \<Rightarrow> (Inl e, c)
       | None \<Rightarrow> (Inr (Some (int (length (filter cond (tb_scrobbles c))))),
                   c\<lparr> tb_scrobbles := filter (\<lambda>k. \<not> cond k) (tb_scrobbles c) \<rparr>))"

definition DeleteNowPlaying :: "database \<Rightarrow> int \<Rightarrow> string \<Rightarrow> catalogue \<Rightarrow> go_error option \<times> catalogue" where
  "DeleteNowPlaying v now user =
     delete_scrobbles v (\<lambda>k. sk_NowPlaying k \<and> (sk_User k = user \<or> now - sk_Time k > 3 * sk_SongDuration k * 1000000))"

definition GetNowPlaying :: "database \<Rightarrow> int \<Rightarrow> string \<Rightarrow> catalogue \<Rightarrow> go_error + scrobble_rec" where
  "GetNowPlaying v now user c =
     get_row v ''now playing'' (filter (\<lambda>k. sk_User k = user \<and> sk_NowPlaying k \<and> still_playing now k) (tb_scrobbles c))"

text \<open>A song joined with data of its own; the lists are loaded for the songs.\<close>

definition song_rows_with :: "database \<Rightarrow> string \<Rightarrow> catalogue \<Rightarrow> IncludeSongInfo \<Rightarrow> (song_rec \<times> 'a) list \<Rightarrow> go_error + (CompleteSong \<times> 'a) list" where
  "song_rows_with v name c include rows =
     (case select_rows v name (map (\<lambda>(s, x). (song_columns_of v c include s, x)) rows) of
        Inl e \<Rightarrow> Inl (EWrap ''select query'' e)
      | Inr songs \<Rightarrow>
          (case loadSongLists v c include (map fst songs) of
             Inl e \<Rightarrow> Inl (EWrap ''load song lists'' e)
           | Inr loaded \<Rightarrow> Inr (zip loaded (map snd songs))))"

text \<open>The newest first: of all users and all folders.\<close>

definition GetNowPlayingSongs :: "database \<Rightarrow> int \<Rightarrow> IncludeSongInfo \<Rightarrow> catalogue \<Rightarrow> go_error + (CompleteSong \<times> string \<times> int) list" where
  "GetNowPlayingSongs v now include c =
     song_rows_with v ''now playing songs'' c include
       (sort_key (\<lambda>(_, _, t). - t)
         (concat (map (\<lambda>s. map (\<lambda>k. (s, sk_User k, sk_Time k))
            (filter (\<lambda>k. sk_SongID k = so_ID s \<and> sk_NowPlaying k \<and> still_playing now k) (tb_scrobbles c))) (tb_songs c))))"

section \<open>What waits for ListenBrainz\<close>

text \<open>A scrobble counts for ListenBrainz from four minutes or half of the song on; an unknown duration is not enough.\<close>

definition long_enough :: "scrobble_rec \<Rightarrow> bool" where
  "long_enough k \<longleftrightarrow> (case sk_Duration k of None \<Rightarrow> False | Some d \<Rightarrow> d \<ge> 4 * 60 * 1000 \<or> 2 * d \<ge> sk_SongDuration k)"

definition FindUnsubmittedLBScrobbles :: "database \<Rightarrow> lb_user list \<Rightarrow> catalogue \<Rightarrow> go_error + scrobble_rec list" where
  "FindUnsubmittedLBScrobbles v users c =
     select_rows v ''unsubmitted''
       (concat (map (\<lambda>k. map (\<lambda>_. k) (filter (\<lambda>u. lu_Name u = sk_User k \<and> lu_ListenBrainzUsername u \<noteq> None \<and> lu_ListenBrainzScrobble u) users))
         (filter (\<lambda>k. \<not> sk_NowPlaying k \<and> \<not> sk_Submitted k \<and> long_enough k \<and> sk_SongID k \<in> so_ID ` set (tb_songs c)) (tb_scrobbles c))))"

definition SetLBSubmittedByUsers :: "database \<Rightarrow> bool \<Rightarrow> string list \<Rightarrow> catalogue \<Rightarrow> go_error option \<times> catalogue" where
  "SetLBSubmittedByUsers v in_tx users =
     in_batches v in_tx (\<lambda>us. executeQuery (dv_c v) (\<lambda>c.
       case dv_Fault v ''set submitted'' of Some e \<Rightarrow> (Inl e, c)
       | None \<Rightarrow> (Inr None, c\<lparr> tb_scrobbles := map (\<lambda>k. if sk_User k \<in> set us \<and> \<not> sk_NowPlaying k \<and> long_enough k
                    then k\<lparr> sk_Submitted := True \<rparr> else k) (tb_scrobbles c) \<rparr>))) users"

section \<open>Sums of a time\<close>

definition scrobbles_between :: "catalogue \<Rightarrow> string \<Rightarrow> int \<Rightarrow> int \<Rightarrow> scrobble_rec list" where
  "scrobbles_between c user start end' =
     filter (\<lambda>k. sk_User k = user \<and> \<not> sk_NowPlaying k \<and> sk_Time k \<ge> start \<and> sk_Time k < end') (tb_scrobbles c)"

definition GetDurationSum :: "database \<Rightarrow> string \<Rightarrow> int \<Rightarrow> int \<Rightarrow> catalogue \<Rightarrow> go_error + DurationMS" where
  "GetDurationSum v user start end' c =
     get_row v ''duration sum'' [NewDurationMS (word_of_int (\<Sum>d\<leftarrow>List.map_filter sk_Duration (scrobbles_between c user start end'). d))]"

definition GetDistinctSongCount :: "database \<Rightarrow> string \<Rightarrow> int \<Rightarrow> int \<Rightarrow> catalogue \<Rightarrow> go_error + int" where
  "GetDistinctSongCount v user start end' c =
     get_row v ''song count'' [int (length (remdups (map sk_SongID (scrobbles_between c user start end'))))]"

definition GetDistinctAlbumCount :: "database \<Rightarrow> string \<Rightarrow> int \<Rightarrow> int \<Rightarrow> catalogue \<Rightarrow> go_error + int" where
  "GetDistinctAlbumCount v user start end' c =
     get_row v ''album count'' [int (length (remdups (List.map_filter sk_AlbumID (scrobbles_between c user start end'))))]"

definition GetDistinctArtistCount :: "database \<Rightarrow> string \<Rightarrow> int \<Rightarrow> int \<Rightarrow> catalogue \<Rightarrow> go_error + int" where
  "GetDistinctArtistCount v user start end' c =
     get_row v ''artist count'' [int (length (remdups (concat (map (\<lambda>k. map (\<lambda>(_, a, _). a)
       (filter (\<lambda>(i, _, _). i = sk_SongID k) (tb_song_artist c))) (scrobbles_between c user start end')))))]"

text \<open>
  The songs by the time they were played, the longest first; scrobbles of deleted songs do not count. A song
  without any known duration has no sum and comes first: descending order puts \<open>NULL\<close> first, and it is read as zero.
\<close>

definition song_sums :: "catalogue \<Rightarrow> string \<Rightarrow> int \<Rightarrow> int \<Rightarrow> (song_rec \<times> int option) list" where
  "song_sums c user start end' =
     List.map_filter (\<lambda>s. let ks = filter (\<lambda>k. sk_SongID k = so_ID s) (scrobbles_between c user start end')
       in if ks = [] then None
          else let ds = List.map_filter sk_Duration ks in Some (s, if ds = [] then None else Some (\<Sum>d\<leftarrow>ds. d)))
     (tb_songs c)"

definition top_songs :: "catalogue \<Rightarrow> string \<Rightarrow> int \<Rightarrow> int \<Rightarrow> (song_rec \<times> int option) list" where
  "top_songs c user start end' =
     (let rows = song_sums c user start end'
      in filter (\<lambda>(_, n). n = None) rows @ sort_key (\<lambda>(_, n). - the n) (filter (\<lambda>(_, n). n \<noteq> None) rows))"

definition GetTopSongsByDuration ::
  "database \<Rightarrow> string \<Rightarrow> int \<Rightarrow> int \<Rightarrow> Paginate \<Rightarrow> IncludeSongInfo \<Rightarrow> catalogue \<Rightarrow> go_error + (CompleteSong \<times> int) list" where
  "GetTopSongsByDuration v user start end' paginate include c =
     song_rows_with v ''top songs'' c include
       (map (\<lambda>(s, n). (s, case n of None \<Rightarrow> 0 | Some x \<Rightarrow> x)) (sql_page (Paginate_Apply paginate []) (top_songs c user start end')))"

text \<open>After a scan the columns taken from songs are taken again.\<close>

definition FixMetadata :: "database \<Rightarrow> catalogue \<Rightarrow> go_error option \<times> catalogue" where
  "FixMetadata v =
     executeQuery (dv_c v) (\<lambda>c. case dv_Fault v ''fix metadata'' of Some e \<Rightarrow> (Inl e, c)
       | None \<Rightarrow> (Inr None, c\<lparr> tb_scrobbles := map (\<lambda>k. case find (\<lambda>s. so_ID s = sk_SongID k) (tb_songs c) of
             None \<Rightarrow> k
           | Some s \<Rightarrow> k\<lparr> sk_AlbumID := so_AlbumID s, sk_SongDuration := sint (DurationMS_Millis (so_Duration s)) \<rparr>) (tb_scrobbles c) \<rparr>))"

end
