(* ===== verification/ListHandlers.thy ===== *)
theory ListHandlers
  imports BrowseHandlers ScrobbleRepo
begin

text \<open>
  The handlers of lists (\<open>handlers/subsonic_lists.go\<close>, \<open>subsonic_search.go\<close>, \<open>crossonic_lists.go\<close>, \<open>crossonic_recap.go\<close>) and
  of what is playing: parameters are read in the order of the code, then the catalogue is asked.
\<close>

definition all_songs :: "Paginate \<Rightarrow> int list \<Rightarrow> SongFindAllFilter" where
  "all_songs paginate fs = \<lparr> sf_Search = [], sf_OnlyStarred = False, sf_MinBPM = None, sf_MaxBPM = None, sf_FromYear = None,
     sf_ToYear = None, sf_Genres = [], sf_ArtistIDs = [], sf_AlbumIDs = [], sf_Order = None, sf_OrderDesc = False,
     sf_RandomSeed = None, sf_Paginate = paginate, sf_MusicFolderIDs = Some fs \<rparr>"

section \<open>Lists\<close>

definition handleGetRandomSongs :: "br_env \<Rightarrow> url_values \<Rightarrow> writer \<Rightarrow> catalogue \<Rightarrow> br_reply" where
  "handleGetRandomSongs env q w c =
     (case Q_Paginate q ''size'' ''offset'' 10 w of (None, w) \<Rightarrow> ((w, None), c) | (Some paginate, w) \<Rightarrow>
     (case Q_Int q ''fromYear'' w of (None, w) \<Rightarrow> ((w, None), c) | (Some fromYear, w) \<Rightarrow>
     (case Q_Int q ''toYear'' w of (None, w) \<Rightarrow> ((w, None), c) | (Some toYear, w) \<Rightarrow>
     (let (fromYear, toYear) = ordered_years fromYear toYear;
          genres = Q_Strs q ''genre'';
          seed = NilIfEmpty [] (Q_Str q ''seed'')
      in case folders_of env q c w of (None, w) \<Rightarrow> ((w, None), c) | (Some fs, w) \<Rightarrow>
     (case S_FindAllFiltered (be_v env) ((all_songs paginate fs)\<lparr> sf_Order := Some SongOrderRandom, sf_FromYear := fromYear,
              sf_ToYear := toYear, sf_Genres := genres, sf_RandomSeed := seed \<rparr>) (IncludeSongInfoFull (Q_User q)) c of
        Inl e \<Rightarrow> br_internal q ''get random songs'' e w c
      | Inr songs \<Rightarrow> br_ok q w (BSongs ''randomSongs'' (songs_shown env songs)) c)))))"

definition sortTypes :: "string \<Rightarrow> FindAlbumSortBy option" where
  "sortTypes = map_of
     [(''random'', FindAlbumSortRandom), (''newest'', FindAlbumSortByCreated), (''highest'', FindAlbumSortByRating),
      (''alphabeticalByName'', FindAlbumSortByName), (''starred'', FindAlbumSortByStarred), (''byYear'', FindAlbumSortByReleaseDate),
      (''byGenre'', FindAlbumSortByName), (''frequent'', FindAlbumSortByFrequent), (''recent'', FindAlbumSortByRecent)]"

definition handleGetAlbumList :: "br_env \<Rightarrow> nat \<Rightarrow> url_values \<Rightarrow> writer \<Rightarrow> catalogue \<Rightarrow> br_reply" where
  "handleGetAlbumList env version q w c =
     (let missing = (\<lambda>name w. ((EncodeError (Q_Format q) (''missing '' @ name @ '' parameter'') SubsonicErrorRequiredParameterMissing w, None), c))
      in case StrReq q ''type'' w of (None, w) \<Rightarrow> ((w, None), c) | (Some listType, w) \<Rightarrow>
     (case Q_Paginate q ''size'' ''offset'' 10 w of (None, w) \<Rightarrow> ((w, None), c) | (Some paginate, w) \<Rightarrow>
     (case Q_Int q ''fromYear'' w of (None, w) \<Rightarrow> ((w, None), c) | (Some fromYear, w) \<Rightarrow>
      if listType = ''byYear'' \<and> fromYear = None then missing ''fromYear'' w
      else (case Q_Int q ''toYear'' w of (None, w) \<Rightarrow> ((w, None), c) | (Some toYear, w) \<Rightarrow>
      if listType = ''byYear'' \<and> toYear = None then missing ''toYear'' w
      else (let genres = Q_Strs q ''genre'' in
      if listType = ''byGenre'' \<and> length genres = 0 then missing ''genre'' w
      else (let seed = NilIfEmpty [] (Q_Str q ''seed'') in
      case sortTypes listType of
        None \<Rightarrow> ((EncodeError (Q_Format q) (''unsupported list type: '' @ listType) SubsonicErrorGeneric w, None), c)
      | Some sortBy \<Rightarrow>
     (case folders_of env q c w of (None, w) \<Rightarrow> ((w, None), c) | (Some fs, w) \<Rightarrow>
     (case A_FindAll (be_v env) \<lparr> fa_SortBy = sortBy, fa_FromYear = fromYear, fa_ToYear = toYear, fa_Genres = genres, fa_Paginate = paginate,
              fa_RandomSeed = seed, fa_MusicFolderIDs = Some fs \<rparr> (IncludeAlbumInfoFull (Q_User q)) c of
        Inl e \<Rightarrow> br_internal q ''get album list 2: find all'' e w c
      | Inr a \<Rightarrow> br_ok q w (BAlbums (if version = 2 then ''albumList2'' else ''albumList'') (albums_shown env a)) c))))))))"

definition handleGetStarred :: "br_env \<Rightarrow> nat \<Rightarrow> url_values \<Rightarrow> writer \<Rightarrow> catalogue \<Rightarrow> br_reply" where
  "handleGetStarred env version q w c =
     (case PaginateUnlimited q ''songCount'' ''songOffset'' w of (None, w) \<Rightarrow> ((w, None), c) | (Some songPaginate, w) \<Rightarrow>
     (case PaginateUnlimited q ''albumCount'' ''albumOffset'' w of (None, w) \<Rightarrow> ((w, None), c) | (Some albumPaginate, w) \<Rightarrow>
     (case PaginateUnlimited q ''artistCount'' ''artistOffset'' w of (None, w) \<Rightarrow> ((w, None), c) | (Some artistPaginate, w) \<Rightarrow>
     (case folders_of env q c w of (None, w) \<Rightarrow> ((w, None), c) | (Some fs, w) \<Rightarrow>
     (case S_FindAllFiltered (be_v env) ((all_songs songPaginate fs)\<lparr> sf_Order := Some SongOrderStarred, sf_OrderDesc := True, sf_OnlyStarred := True \<rparr>)
             (IncludeSongInfoFull (Q_User q)) c of
        Inl e \<Rightarrow> br_internal q ''get starred2: find songs'' e w c
      | Inr songs \<Rightarrow>
     (case A_FindStarred (be_v env) (Some fs) albumPaginate (IncludeAlbumInfoFull (Q_User q)) c of
        Inl e \<Rightarrow> br_internal q ''get starred2: find albums'' e w c
      | Inr albums \<Rightarrow>
     (case R_FindStarred (be_v env) (Some fs) artistPaginate (IncludeArtistInfoFull (Q_User q)) c of
        Inl e \<Rightarrow> br_internal q ''get starred2: find artists'' e w c
      | Inr artists \<Rightarrow>
          br_ok q w (BLists (if version = 2 then ''starred2'' else ''starred'') (songs_shown env songs) (albums_shown env albums)
            (artists_shown env artists)) c)))))))"

definition handleGetSongsByGenre :: "br_env \<Rightarrow> url_values \<Rightarrow> writer \<Rightarrow> catalogue \<Rightarrow> br_reply" where
  "handleGetSongsByGenre env q w c =
     (case StrsReq q ''genre'' w of (None, w) \<Rightarrow> ((w, None), c) | (Some genres, w) \<Rightarrow>
     (case Q_Paginate q ''count'' ''offset'' 10 w of (None, w) \<Rightarrow> ((w, None), c) | (Some paginate, w) \<Rightarrow>
     (case folders_of env q c w of (None, w) \<Rightarrow> ((w, None), c) | (Some fs, w) \<Rightarrow>
     (case S_FindAllFiltered (be_v env) ((all_songs paginate fs)\<lparr> sf_Order := Some SongOrderTitle, sf_Genres := genres \<rparr>)
             (IncludeSongInfoFull (Q_User q)) c of
        Inl e \<Rightarrow> br_internal q ''get songs by genre: find songs'' e w c
      | Inr songs \<Rightarrow> br_ok q w (BSongs ''songsByGenre'' (songs_shown env songs)) c))))"

definition handleGetSongs :: "br_env \<Rightarrow> url_values \<Rightarrow> writer \<Rightarrow> catalogue \<Rightarrow> br_reply" where
  "handleGetSongs env q w c =
     (let search = Q_Str q ''search'' in
      case BoolDef q ''starred'' False w of (None, w) \<Rightarrow> ((w, None), c) | (Some onlyStarred, w) \<Rightarrow>
     (case Q_Int q ''minBpm'' w of (None, w) \<Rightarrow> ((w, None), c) | (Some minBPM, w) \<Rightarrow>
     (case Q_Int q ''maxBpm'' w of (None, w) \<Rightarrow> ((w, None), c) | (Some maxBPM, w) \<Rightarrow>
     (case Q_Int q ''fromYear'' w of (None, w) \<Rightarrow> ((w, None), c) | (Some fromYear, w) \<Rightarrow>
     (case Q_Int q ''toYear'' w of (None, w) \<Rightarrow> ((w, None), c) | (Some toYear, w) \<Rightarrow>
     (let genres = Q_Strs q ''genre'' in
      case Q_IDs q ''artistId'' w of (None, w) \<Rightarrow> ((w, None), c) | (Some artistIDs, w) \<Rightarrow>
     (case Q_IDs q ''albumId'' w of (None, w) \<Rightarrow> ((w, None), c) | (Some albumIDs, w) \<Rightarrow>
     (let orderStr = NilIfEmpty [] (Q_Str q ''orderBy'') in
      if orderStr \<noteq> None \<and> SongOrder_of (the orderStr) = None
      then ((EncodeError (Q_Format q) ''invalid orderBy parameter'' SubsonicErrorGeneric w, None), c)
      else case BoolDef q ''orderByDesc'' False w of (None, w) \<Rightarrow> ((w, None), c) | (Some orderDesc, w) \<Rightarrow>
     (let randomSeed = NilIfEmpty [] (Q_Str q ''seed'') in
      case Q_Paginate q ''count'' ''offset'' 10 w of (None, w) \<Rightarrow> ((w, None), c) | (Some paginate, w) \<Rightarrow>
     (case folders_of env q c w of (None, w) \<Rightarrow> ((w, None), c) | (Some fs, w) \<Rightarrow>
     (case S_FindAllFiltered (be_v env)
             \<lparr> sf_Search = search, sf_OnlyStarred = onlyStarred, sf_MinBPM = minBPM, sf_MaxBPM = maxBPM, sf_FromYear = fromYear,
               sf_ToYear = toYear, sf_Genres = genres, sf_ArtistIDs = artistIDs, sf_AlbumIDs = albumIDs,
               sf_Order = Option.bind orderStr SongOrder_of, sf_OrderDesc = orderDesc, sf_RandomSeed = randomSeed,
               sf_Paginate = paginate, sf_MusicFolderIDs = Some fs \<rparr> (IncludeSongInfoFull (Q_User q)) c of
        Inl e \<Rightarrow> br_error q ''find all songs filtered'' e w c
      | Inr songs \<Rightarrow> br_ok q w (BSongs ''songs'' (songs_shown env songs)) c)))))))))))"

section \<open>Search\<close>

text \<open>\<open>strings.Trim\<close> of quotation marks.\<close>

definition trim_quotes :: "string \<Rightarrow> string" where
  "trim_quotes s = (let quote = (\<lambda>ch. ch = CHR 0x22) in rev (dropWhile quote (rev (dropWhile quote s))))"

definition searchArtists :: "br_env \<Rightarrow> url_values \<Rightarrow> string \<Rightarrow> int list \<Rightarrow> catalogue \<Rightarrow> writer \<Rightarrow> ArtistResponse list qres" where
  "searchArtists env q searchQuery fs c w =
     (case Q_Paginate q ''artistCount'' ''artistOffset'' 20 w of (None, w) \<Rightarrow> (None, w) | (Some paginate, w) \<Rightarrow>
     (case BoolDef q ''onlyAlbumArtists'' False w of (None, w) \<Rightarrow> (None, w) | (Some onlyAlbumArtists, w) \<Rightarrow>
     (case R_FindBySearch (be_v env) searchQuery onlyAlbumArtists (Some fs) paginate (IncludeArtistInfoFull (Q_User q)) c of
        Inl e \<Rightarrow> (None, respondInternalErr (Q_Format q) (EWrap ''search3: artists'' e) w)
      | Inr artists \<Rightarrow> (Some (artists_shown env artists), w))))"

definition searchAlbums :: "br_env \<Rightarrow> url_values \<Rightarrow> string \<Rightarrow> int list \<Rightarrow> catalogue \<Rightarrow> writer \<Rightarrow> AlbumResponse list qres" where
  "searchAlbums env q searchQuery fs c w =
     (case Q_Paginate q ''albumCount'' ''albumOffset'' 20 w of (None, w) \<Rightarrow> (None, w) | (Some paginate, w) \<Rightarrow>
     (case A_FindBySearch (be_v env) searchQuery (Some fs) paginate (IncludeAlbumInfoFull (Q_User q)) c of
        Inl e \<Rightarrow> (None, respondInternalErr (Q_Format q) (EWrap ''search3: albums'' e) w)
      | Inr albums \<Rightarrow> (Some (albums_shown env albums), w)))"

definition searchSongs :: "br_env \<Rightarrow> url_values \<Rightarrow> string \<Rightarrow> int list \<Rightarrow> catalogue \<Rightarrow> writer \<Rightarrow> SongResponse list qres" where
  "searchSongs env q searchQuery fs c w =
     (case Q_Paginate q ''songCount'' ''songOffset'' 20 w of (None, w) \<Rightarrow> (None, w) | (Some paginate, w) \<Rightarrow>
     (let order = (if searchQuery = [] then Some SongOrderTitle else None) in
      case S_FindAllFiltered (be_v env) ((all_songs paginate fs)\<lparr> sf_Search := searchQuery, sf_Order := order \<rparr>) (IncludeSongInfoFull (Q_User q)) c of
        Inl e \<Rightarrow> (None, respondInternalErr (Q_Format q) (EWrap ''search3: songs'' e) w)
      | Inr songs \<Rightarrow> (Some (songs_shown env songs), w)))"

definition handleSearch :: "br_env \<Rightarrow> bool \<Rightarrow> url_values \<Rightarrow> writer \<Rightarrow> catalogue \<Rightarrow> br_reply" where
  "handleSearch env search3 q w c =
     (let search = trim_quotes (Q_Str q ''query'') in
      case folders_of env q c w of (None, w) \<Rightarrow> ((w, None), c) | (Some fs, w) \<Rightarrow>
     (case searchArtists env q search fs c w of (None, w) \<Rightarrow> ((w, None), c) | (Some artists, w) \<Rightarrow>
     (case searchAlbums env q search fs c w of (None, w) \<Rightarrow> ((w, None), c) | (Some albums, w) \<Rightarrow>
     (case searchSongs env q search fs c w of (None, w) \<Rightarrow> ((w, None), c) | (Some songs, w) \<Rightarrow>
        br_ok q w (BLists (if search3 then ''searchResult3'' else ''searchResult2'') songs albums artists) c))))"

section \<open>The recap of a year\<close>

text \<open>The beginning of a year in nanoseconds since 1970.\<close>

definition year_start :: "int \<Rightarrow> int" where
  "year_start y = (let p = y - 1 in (365 * p + p div 4 - p div 100 + p div 400 - 719162) * 86400 * 1000000000)"

definition handleGetRecap :: "br_env \<Rightarrow> int \<Rightarrow> url_values \<Rightarrow> writer \<Rightarrow> catalogue \<Rightarrow> br_reply" where
  "handleGetRecap env this_year q w c =
     (case IntDef q ''year'' this_year w of (None, w) \<Rightarrow> ((w, None), c) | (Some year, w) \<Rightarrow>
     (let start = year_start year; end' = year_start (year + 1); v = be_v env; user = Q_User q in
      case GetDurationSum v user start end' c of
        Inl e \<Rightarrow> br_internal q ''get recap: get duration'' e w c
      | Inr totalDuration \<Rightarrow>
     (case GetDistinctSongCount v user start end' c of
        Inl e \<Rightarrow> br_internal q ''get recap: get song count'' e w c
      | Inr songCount \<Rightarrow>
     (case GetDistinctAlbumCount v user start end' c of
        Inl e \<Rightarrow> br_internal q ''get recap: get album count'' e w c
      | Inr albumCount \<Rightarrow>
     (case GetDistinctArtistCount v user start end' c of
        Inl e \<Rightarrow> br_internal q ''get recap: get artist count'' e w c
      | Inr artistCount \<Rightarrow>
          br_ok q w (BRecap (sint (DurationMS_Millis totalDuration)) songCount albumCount artistCount) c)))))"

definition handleGetTopSongsRecap :: "br_env \<Rightarrow> int \<Rightarrow> url_values \<Rightarrow> writer \<Rightarrow> catalogue \<Rightarrow> br_reply" where
  "handleGetTopSongsRecap env this_year q w c =
     (case IntDef q ''year'' this_year w of (None, w) \<Rightarrow> ((w, None), c) | (Some year, w) \<Rightarrow>
     (case Q_Paginate q ''limit'' ''offset'' 10 w of (None, w) \<Rightarrow> ((w, None), c) | (Some paginate, w) \<Rightarrow>
     (case GetTopSongsByDuration (be_v env) (Q_User q) (year_start year) (year_start (year + 1)) paginate (IncludeSongInfoFull (Q_User q)) c of
        Inl e \<Rightarrow> br_internal q ''get top songs recap: get songs'' e w c
      | Inr dbSongs \<Rightarrow>
          br_ok q w (BTopSongs (map (\<lambda>(s, n). (NewSong (be_covers env) (be_gain env) s, n)) dbSongs)) c)))"

section \<open>What is playing\<close>

definition handleGetNowPlaying :: "br_env \<Rightarrow> url_values \<Rightarrow> writer \<Rightarrow> catalogue \<Rightarrow> br_reply" where
  "handleGetNowPlaying env q w c =
     (case GetNowPlayingSongs (be_v env) (be_now env) (IncludeSongInfoFull (Q_User q)) c of
        Inl e \<Rightarrow> br_internal q ''get now playing'' e w c
      | Inr dbSongs \<Rightarrow>
          br_ok q w (BNowPlaying (map (\<lambda>(s, user, t). (NewSong (be_covers env) (be_gain env) s, user, (be_now env - t) sdiv 60000000000)) dbSongs)) c)"

end
