(* ===== verification/QueryFacts.thy ===== *)
theory QueryFacts
  imports AlbumQueries
begin

text \<open>
  What the queries on the catalogue answer: the rows they select with the columns of the tables unchanged, the user's
  folders, and pages that together are the whole list.
\<close>

section \<open>Statements\<close>

lemma select_rows_Inr: "select_rows v name rows = Inr xs \<Longrightarrow> xs = rows"
  by (auto simp: select_rows_def selectQuery_def split: option.splits)

lemma get_row_Inr: "get_row v name rows = Inr x \<Longrightarrow> rows = [x]"
  by (cases rows; cases "tl rows") (auto simp: get_row_def getQuery_row_def selectQuery_def split: option.splits)

lemma sql_page_subset: "x \<in> set (sql_page q xs) \<Longrightarrow> x \<in> set xs"
  by (auto simp: sql_page_def Let_def split: option.splits dest: in_set_takeD in_set_dropD)

lemma exactly_one_Inr: "exactly_one xs = Inr x \<longleftrightarrow> xs = [x]"
  by (cases xs; cases "tl xs") (auto simp: exactly_one_def)

lemma loadSongLists_songs: "loadSongLists v c inc songs = Inr songs' \<Longrightarrow> map cs_Song songs' = map cs_Song songs"
  by (auto simp: loadSongLists_def Let_def split: if_splits sum.splits)

lemma song_rows: "execSongSelectMany v c inc rows = Inr songs \<Longrightarrow> map cs_Song songs = map Song.truncate rows"
  by (auto simp: execSongSelectMany_def song_columns_of_def dest!: select_rows_Inr loadSongLists_songs split: sum.splits)

lemma song_row: "execSongSelectOne v c inc rows = Inr s \<Longrightarrow> \<exists>r. rows = [r] \<and> cs_Song s = Song.truncate r"
  by (auto simp: execSongSelectOne_def exactly_one_Inr ebind_eq_Inr dest!: song_rows)

lemma loadAlbumLists_albums: "loadAlbumLists v c inc albums = Inr albums' \<Longrightarrow> map ca_Album albums' = map ca_Album albums"
  by (auto simp: loadAlbumLists_def Let_def split: if_splits sum.splits)

lemma album_rows: "execAlbumSelectMany v c inc rows = Inr albums \<Longrightarrow> map ca_Album albums = map StoredAlbum.truncate rows"
  by (auto simp: execAlbumSelectMany_def album_columns_of_def dest!: select_rows_Inr loadAlbumLists_albums split: sum.splits)

lemma album_row: "execAlbumSelectOne v c inc rows = Inr a \<Longrightarrow> \<exists>r. rows = [r] \<and> ca_Album a = StoredAlbum.truncate r"
  by (auto simp: execAlbumSelectOne_def exactly_one_Inr ebind_eq_Inr dest!: album_rows)

lemma truncated [simp]:
  "so_ID (Song.truncate s) = so_ID s" "ab_ID (StoredAlbum.truncate a) = ab_ID a" "ad_ID (Artist.truncate r) = ad_ID r"
  by (simp_all add: Song.defs StoredAlbum.defs Artist.defs)

lemma filter_one: "filter p xs = [r] \<Longrightarrow> r \<in> set xs \<and> p r"
  by (drule arg_cong [where f = set]) auto

section \<open>The folders a user may look at\<close>

lemma get_row_one [simp]: "dv_Fault v name = None \<Longrightarrow> get_row v name [x] = Inr x"
  by (simp add: get_row_def getQuery_row_def selectQuery_def)

lemma get_row_none:
  "dv_Fault v name = None \<Longrightarrow> get_row v name [] = Inl (NewError ''expected one but found none'' ErrNotFound None)"
  by (simp add: get_row_def getQuery_row_def selectQuery_def)

lemma select_rows_ok [simp]: "dv_Fault v name = None \<Longrightarrow> select_rows v name rows = Inr rows"
  by (simp add: select_rows_def selectQuery_def)

text \<open>A database whose queries on folders and whose transactions succeed.\<close>

definition folders_up :: "database \<Rightarrow> catalogue \<Rightarrow> bool" where
  "folders_up v c \<longleftrightarrow> dv_Fault v ''user folders'' = None \<and> sc_Begin (dv_conn v) c = None \<and> sc_Commit (dv_conn v) c = Inr c"

text \<open>As many rows as requests are found just if the requests are different folders of the user.\<close>

lemma requests_found:
  assumes "distinct folders"
  shows "length (filter (\<lambda>f. f \<in> set req) folders) = length req \<longleftrightarrow> distinct req \<and> set req \<subseteq> set folders"
proof -
  have "length (filter (\<lambda>f. f \<in> set req) folders) = card (set folders \<inter> set req)"
    using assms distinct_card [of "filter (\<lambda>f. f \<in> set req) folders"] by (simp add: Int_def)
  moreover have "card (set folders \<inter> set req) \<le> card (set req)" "card (set req) \<le> length req"
    by (simp_all add: card_mono card_length)
  moreover have "card (set folders \<inter> set req) = card (set req) \<longleftrightarrow> set req \<subseteq> set folders"
    by (metis Int_absorb1 Int_lower2 List.finite_set card_subset_eq inf.absorb_iff2 inf_commute)
  ultimately show ?thesis by (metis card_distinct distinct_card le_antisym)
qed

lemma folder_ids_answer:
  assumes "folders_up v c"
  shows "GetUserMusicFolderIDs v user req c =
    (if req = [] then Inr (user_folders c user)
     else if length (filter (\<lambda>f. f \<in> set req) (user_folders c user)) = length req
     then Inr (filter (\<lambda>f. f \<in> set req) (user_folders c user))
     else Inl (the (wrapErr (dv_c v) [] (Some (EWrap ''user does not have access to requested music folder'' (EType ErrForbidden))))))"
  using assms
  by (simp add: GetUserMusicFolderIDs_def newTransactionFn_def folder_ids_body_def folders_up_def wrapErr_def dv_c_def)

definition page :: "nat \<Rightarrow> nat \<Rightarrow> Paginate" where
  "page n i = \<lparr> pg_Offset = int (i * n), pg_Limit = Some (int n) \<rparr>"

definition unpaged:: Paginate where "unpaged = \<lparr> pg_Offset = 0, pg_Limit = None \<rparr>"

text \<open>A small catalogue: two folders, ann has the first one, bob both.\<close>

definition cat_db :: database where
  "cat_db = \<lparr> dv_conn = \<lparr> sc_Constraint = \<lambda>_. None, sc_Begin = \<lambda>_. None, sc_Commit = Inr \<rparr>, dv_Fault = \<lambda>_. None, dv_Avg = \<lambda>_. 0,
     dv_SortSongs = \<lambda>_ _ rows. rows, dv_SortAlbums = \<lambda>_ _ rows. rows, dv_SortArtists = \<lambda>_ _ rows. rows, dv_Unidecode = \<lambda>s. s \<rparr>"

definition cat_song :: "string \<Rightarrow> string \<Rightarrow> int \<Rightarrow> song_rec" where
  "cat_song i album folder =
     \<lparr> so_ID = i, so_Path = ''/m/'' @ i, so_AlbumID = Some album, so_Title = i, so_Track = None, so_ReleaseDate = None, so_OriginalDate = None,
       so_Size = 1, so_ContentType = ''audio/mpeg'', so_Duration = 0, so_BitRate = 320, so_SamplingRate = 44100, so_ChannelCount = 2,
       so_Disc = None, so_Created = 0, so_Updated = 0, so_BPM = None, so_MusicBrainzID = None, so_ReplayGain = None,
       so_ReplayGainPeak = None, so_Lyrics = None, so_MusicFolderID = Some folder, sx_SearchText = '' '' @ i \<rparr>"

definition cat_catalogue :: catalogue where
  "cat_catalogue = \<lparr> tb_songs = [cat_song ''tr_1'' ''al_1'' 1, cat_song ''tr_2'' ''al_2'' 2, cat_song ''tr_3'' ''al_1'' 1],
     tb_albums = [], tb_artists = [], tb_genres = [], tb_song_artist = [], tb_album_artist = [], tb_song_genre = [],
     tb_folders = [\<lparr> mfo_ID = 1, mfo_Name = ''A'', mfo_Path = ''/m'' \<rparr>, \<lparr> mfo_ID = 2, mfo_Name = ''B'', mfo_Path = ''/n'' \<rparr>],
     tb_folder_users = [(1, ''ann''), (1, ''bob''), (2, ''bob'')], tb_folder_artists = [], tb_song_stars = [], tb_album_stars = [],
     tb_artist_stars = [], tb_song_ratings = [], tb_album_ratings = [], tb_artist_ratings = [], tb_scrobbles = [] \<rparr>"

definition wit_filter :: SongFindAllFilter where
  "wit_filter = \<lparr> sf_Search = [], sf_OnlyStarred = False, sf_MinBPM = None, sf_MaxBPM = None, sf_FromYear = None,
     sf_ToYear = None, sf_Genres = [], sf_ArtistIDs = [], sf_AlbumIDs = [], sf_Order = Some SongOrderRandom, sf_OrderDesc = False,
     sf_RandomSeed = Some ''x'', sf_Paginate = unpaged, sf_MusicFolderIDs = Some [1] \<rparr>"

text \<open>
  C27: with a database that works, the folders of a request are all folders of the user if none is requested, and
  otherwise the requested ones if these are different folders of the user; every other request, with a folder of
  someone else or with a folder named twice, is refused as forbidden.
\<close>

theorem requested_folders_exact:
  assumes "folders_up v c" "distinct (user_folders c user)"
  shows "case GetUserMusicFolderIDs v user req c of
      Inr fs \<Rightarrow> if req = [] then fs = user_folders c user else distinct req \<and> distinct fs \<and> set fs = set req \<and> set req \<subseteq> set (user_folders c user)
    | Inl e \<Rightarrow> req \<noteq> [] \<and> (\<not> distinct req \<or> \<not> set req \<subseteq> set (user_folders c user)) \<and> errors_Is e (EType ErrForbidden)"
  unfolding folder_ids_answer [OF assms(1)] requests_found [OF assms(2)]
  using assms(2) by (auto simp: wrapErr_def NewError_def sqlErrToErrType_def)

lemma requested_folders_exact_witness:
  "GetUserMusicFolderIDs cat_db ''ann'' [1] cat_catalogue = Inr [1]
   \<and> (case GetUserMusicFolderIDs cat_db ''ann'' [2] cat_catalogue of Inr _ \<Rightarrow> False | Inl e \<Rightarrow> errors_Is e (EType ErrForbidden))"
proof -
  have up: "folders_up cat_db cat_catalogue" by (simp add: folders_up_def cat_db_def)
  have folders: "user_folders cat_catalogue ''ann'' = [1]" by code_simp
  have "GetUserMusicFolderIDs cat_db ''ann'' [1] cat_catalogue = Inr [1]"
    by (simp add: folder_ids_answer [OF up] folders)
  with requested_folders_exact [OF up, of "''ann''" "[2]"] folders show ?thesis by (simp split: sum.splits)
qed

section \<open>Pages\<close>

lemma sql_page_page: "sql_page (Paginate_Apply (page n i) []) xs = take n (drop (i * n) xs)"
  by (cases "i * n = 0") (auto simp: sql_page_def Paginate_Apply_def page_def simp del: of_nat_mult)

lemma sql_page_unpaged: "sql_page (Paginate_Apply unpaged []) xs = xs"
  by (simp add: sql_page_def Paginate_Apply_def unpaged_def)

lemma concat_pages: "concat (map (\<lambda>i. take n (drop (i * n) xs)) [0..<m]) = take (m * n) xs"
proof (induction m)
  case (Suc m)
  have "take (n + m * n) xs = take (m * n) xs @ take n (drop (m * n) xs)" by (metis add.commute take_add)
  with Suc show ?case by simp
qed simp

text \<open>
  Two states of the database in which no statement fails and rows are sorted and averaged alike, unless by chance.
\<close>

definition answers_alike :: "database \<Rightarrow> database \<Rightarrow> bool" where
  "answers_alike v v' \<longleftrightarrow> (\<forall>name. dv_Fault v name = None) \<and> (\<forall>name. dv_Fault v' name = None) \<and> dv_Avg v' = dv_Avg v
     \<and> dv_Unidecode v' = dv_Unidecode v
     \<and> (\<forall>cs. (''random()'', []) \<notin> set cs \<longrightarrow> dv_SortSongs v' cs = dv_SortSongs v cs)"

lemma order_clause_head:
  "ord \<noteq> SongOrderRandom \<or> seed \<noteq> None \<Longrightarrow>
    fst (song_order_clause ord seed) \<noteq> [] \<and> hd (fst (song_order_clause ord seed)) \<noteq> CHR ''r''"
  by (cases ord; cases seed) auto

lemma song_order_not_random:
  assumes "sf_Order flt \<noteq> Some SongOrderRandom \<or> sf_RandomSeed flt \<noteq> None" "cl \<in> set (song_order_by v flt)"
  shows "hd (fst cl) \<noteq> CHR ''r''"
proof -
  have search: "hd (fst cl) \<noteq> CHR ''r''" if "cl \<in> set (snd (genSearch v query ''songs.search_text'' ''songs.title''))" for query
    using that by (auto simp: genSearch_def Let_def)
  show ?thesis
  proof (cases "sf_Order flt")
    case None
    with assms(2) search show ?thesis by (auto simp: song_order_by_def split: if_splits)
  next
    case (Some ord)
    obtain t args where clause: "song_order_clause ord (sf_RandomSeed flt) = (t, args)" by fastforce
    with assms(1) Some order_clause_head [of ord "sf_RandomSeed flt"] have "t \<noteq> []" "hd t \<noteq> CHR ''r''" by auto
    with assms(2) search Some clause show ?thesis by (auto simp: song_order_by_def hd_append split: if_splits)
  qed
qed

lemma song_rows_answer:
  assumes "\<forall>name. dv_Fault v name = None"
  shows "execSongSelectMany v c inc rows = Inr (map (\<lambda>s. song_columns_of v c inc s
    \<lparr>cs_Lists := (if isi_Lists inc then Some
       \<lparr> sls_Genres = map snd (filter (\<lambda>(i, _). i = so_ID s) (filter (\<lambda>(_, g). g \<in> set (tb_genres c)) (tb_song_genre c))),
         sls_Artists = artist_refs c (tb_song_artist c) (so_ID s),
         sls_AlbumArtists = artist_refs c (concat (map (\<lambda>s. map (\<lambda>(_, a, n). (so_ID s, a, n))
           (filter (\<lambda>(al, _, _). so_AlbumID s = Some al \<and> al \<in> ab_ID ` set (tb_albums c)) (tb_album_artist c))) (tb_songs c)))
           (so_ID s) \<rparr> else None)\<rparr>) rows)"
proof -
  have id: "so_ID (cs_Song (song_columns_of v c inc s)) = so_ID s" "cs_Lists (song_columns_of v c inc s) = None" for s
    by (simp_all add: song_columns_of_def)
  have keep: "x\<lparr>cs_Lists := None\<rparr> = x" if "cs_Lists x = None" for x :: CompleteSong
    using that by simp
  show ?thesis
    using assms by (cases rows) (auto simp: execSongSelectMany_def loadSongLists_def getSongGenres_def getSongArtistRefs_def
      getSongAlbumArtistRefs_def id keep Let_def)
qed

text \<open>
  A list of songs read page by page is the whole list: whatever happens to the order the database falls back to in
  between, if the catalogue is the same for every page and the order is not random without a seed, then the pages
  one after the other are the songs in the order of the unpaged query, none missing and none twice.
\<close>

lemma song_pages:
  assumes "S_FindAllFiltered v (flt\<lparr>sf_Paginate := unpaged\<rparr>) inc c = Inr songs"
    "sf_Order flt \<noteq> Some SongOrderRandom \<or> sf_RandomSeed flt \<noteq> None" "\<And>i. answers_alike v (vs i)"
  shows "map (\<lambda>i. S_FindAllFiltered (vs i) (flt\<lparr>sf_Paginate := page n i\<rparr>) inc c) [0..<m]
      = map (\<lambda>i. Inr (take n (drop (i * n) songs))) [0..<m]
    \<and> concat (map (\<lambda>i. take n (drop (i * n) songs)) [0..<m]) = take (m * n) songs"
proof -
  have same: "S_FindAllFiltered (vs i) (flt\<lparr>sf_Paginate := page n i\<rparr>) inc c = Inr (take n (drop (i * n) songs))" for i
  proof -
    let ?flt = "\<lambda>p. flt\<lparr>sf_Paginate := p\<rparr>"
    from assms(3) [of i] have up: "\<forall>name. dv_Fault v name = None" "\<forall>name. dv_Fault (vs i) name = None"
      and avg: "dv_Avg (vs i) = dv_Avg v" and uni: "dv_Unidecode (vs i) = dv_Unidecode v" by (auto simp: answers_alike_def)
    have wher: "song_where (vs i) (?flt (page n i)) u = song_where v (?flt unpaged) u" for u
      by (simp add: song_where_def search_tokens_def uni)
    have order: "song_order_by (vs i) (?flt (page n i)) = song_order_by v (?flt unpaged)"
      by (simp add: song_order_by_def genSearch_def search_tokens_def uni split: option.split)
    have "(''random()'', []) \<notin> set (song_order_by v (?flt unpaged))"
      using song_order_not_random [of "?flt unpaged" "(''random()'', [])" v] assms(2) by auto
    with assms(3) [of i] have sorted: "dv_SortSongs (vs i) (song_order_by v (?flt unpaged)) = dv_SortSongs v (song_order_by v (?flt unpaged))"
      by (simp add: answers_alike_def)
    have columns: "song_columns_of (vs i) = song_columns_of v"
      by (intro ext) (simp add: song_columns_of_def annotations_def average_rating_def avg)
    from assms(1) show ?thesis
      unfolding S_FindAllFiltered_def song_rows_answer [OF up(1)] song_rows_answer [OF up(2)] order wher columns
      by (auto simp: song_filter_error_def sql_page_page sql_page_unpaged sorted take_map drop_map Let_def split: if_splits)
  qed
  show ?thesis unfolding same concat_pages by simp
qed

lemma song_pages_example:
  "map (\<lambda>i. case S_FindAllFiltered cat_db (wit_filter\<lparr>sf_Paginate := page 1 i\<rparr>) IncludeSongInfoBare cat_catalogue of
       Inl _ \<Rightarrow> [] | Inr songs \<Rightarrow> map (so_ID \<circ> cs_Song) songs) [0..<3] = [[''tr_1''], [''tr_3''], []]"
proof -
  obtain songs where songs: "S_FindAllFiltered cat_db (wit_filter\<lparr>sf_Paginate := unpaged\<rparr>) IncludeSongInfoBare cat_catalogue = Inr songs"
      "map (so_ID \<circ> cs_Song) songs = [''tr_1'', ''tr_3'']"
    by (simp add: S_FindAllFiltered_def song_rows_answer cat_db_def wit_filter_def cat_catalogue_def song_filter_error_def
        sql_page_unpaged song_where_def ordered_years_def opt_cond_def list_cond_def cat_song_def song_columns_of_def Song.defs
        genOneOfMusicFoldersCondition_def)
  have "answers_alike cat_db cat_db" by (simp add: answers_alike_def cat_db_def)
  with song_pages [OF songs(1), of "\<lambda>_. cat_db" 1 3] show ?thesis
    using songs(2) by (auto simp: wit_filter_def numeral_3_eq_3 upt_rec map_eq_Cons_conv)
qed

end
