(* ===== verification/Visibility.thy ===== *)
theory Visibility
  imports ListHandlers QueryFacts
begin

text \<open>
  What a user is shown. Music folders are shared with users; a song or album is visible to a user by the folder it is
  in, an artist by the folders it is associated with. The contract of a query that is restricted to folders is a
  locale, which the queries of the repositories are shown to satisfy; the handlers are safe because they pass on the
  folders the folder repository gave them.
\<close>

section \<open>Visible entities\<close>

definition user_has :: "catalogue \<Rightarrow> string \<Rightarrow> int option \<Rightarrow> bool" where
  "user_has c user folder \<longleftrightarrow> (case folder of None \<Rightarrow> False | Some f \<Rightarrow> (f, user) \<in> set (tb_folder_users c))"

definition song_visible :: "catalogue \<Rightarrow> string \<Rightarrow> string \<Rightarrow> bool" where
  "song_visible c user i \<longleftrightarrow> (\<exists>s \<in> set (tb_songs c). so_ID s = i \<and> user_has c user (so_MusicFolderID s))"

definition album_visible :: "catalogue \<Rightarrow> string \<Rightarrow> string \<Rightarrow> bool" where
  "album_visible c user i \<longleftrightarrow> (\<exists>a \<in> set (tb_albums c). ab_ID a = i \<and> user_has c user (ab_MusicFolderID a))"

definition artist_visible :: "catalogue \<Rightarrow> string \<Rightarrow> string \<Rightarrow> bool" where
  "artist_visible c user i \<longleftrightarrow> (\<exists>a \<in> set (tb_artists c). ad_ID a = i \<and> genArtistAccessibleByUserCondition c user i)"

section \<open>Folders\<close>

lemma sorted_rows:
  assumes "sorts v"
  shows "set (dv_SortSongs v cs c ss) = set ss" "set (dv_SortAlbums v cs c as) = set as" "set (dv_SortArtists v cs c rs) = set rs"
  using assms unfolding sorts_def by (metis mset_eq_setD)+

text \<open>The folder condition.\<close>

lemma in_folders:
  assumes "genOneOfMusicFoldersCondition fs folder" "set fs \<subseteq> {f. (f, user) \<in> set (tb_folder_users c)}"
  shows "user_has c user folder"
  using assms by (auto simp: genOneOfMusicFoldersCondition_def user_has_def split: if_splits option.splits)

lemma folder_join: "r \<in> set (genMusicFolderUserJoin c user folder rows) \<longleftrightarrow> r \<in> set rows \<and> user_has c user (folder r)"
  by (fastforce simp: genMusicFolderUserJoin_def user_has_def split: option.splits)

lemma artist_in_folders:
  assumes "genArtistInMusicFolderCondition c fs i" "set fs \<subseteq> {f. (f, user) \<in> set (tb_folder_users c)}"
  shows "genArtistAccessibleByUserCondition c user i"
  using assms by (fastforce simp: genArtistInMusicFolderCondition_def genArtistAccessibleByUserCondition_def split: if_splits)

text \<open>The folders the repository answers are the user's.\<close>

lemma user_folders_of: "set (user_folders c user) \<subseteq> {f. (f, user) \<in> set (tb_folder_users c)}"
  by (auto simp: user_folders_def)

lemma folder_ids_body_rows:
  "folder_ids_body v user requested (c, r) = (None, c', fs) \<Longrightarrow> set fs \<subseteq> set (user_folders c user)"
  by (auto simp: folder_ids_body_def Let_def dest!: select_rows_Inr split: if_splits sum.splits)

lemma user_folder_ids:
  assumes "GetUserMusicFolderIDs v user requested c = Inr fs"
  shows "set fs \<subseteq> {f. (f, user) \<in> set (tb_folder_users c)}"
proof -
  obtain c' where "folder_ids_body v user requested (c, []) = (None, c', fs)"
    using assms by (auto simp: GetUserMusicFolderIDs_def newTransactionFn_def Let_def wrapErr_def split: prod.splits option.splits sum.splits)
  from folder_ids_body_rows [OF this] user_folders_of show ?thesis by blast
qed

lemma requested_folders:
  "folders_of env q c w = (Some fs, w') \<Longrightarrow> \<exists>requested. GetUserMusicFolderIDs (be_v env) (Q_User q) requested c = Inr fs"
  by (auto simp: folders_of_def MusicFolderIDs_def split: prod.splits option.splits sum.splits if_splits)

section \<open>Queries restricted to folders\<close>

locale folder_query =
  fixes v :: database
    and run :: "int list \<Rightarrow> catalogue \<Rightarrow> go_error + 'a list"
    and visible :: "catalogue \<Rightarrow> string \<Rightarrow> 'a \<Rightarrow> bool"
  assumes within: "sorts v \<Longrightarrow> run fs c = Inr rows \<Longrightarrow> set fs \<subseteq> {f. (f, user) \<in> set (tb_folder_users c)} \<Longrightarrow>
    r \<in> set rows \<Longrightarrow> visible c user r"
begin

lemma of_user:
  assumes "sorts v" "GetUserMusicFolderIDs v user requested c = Inr fs" "run fs c = Inr rows"
  shows "list_all (visible c user) rows"
  using within [OF assms(1,3) user_folder_ids [OF assms(2)]] by (simp add: list_all_iff)

lemma of_request:
  assumes "sorts v" "be_v env = v" "folders_of env q c w = (Some fs, w')" "run fs c = Inr rows"
  shows "list_all (visible c (Q_User q)) rows"
  using requested_folders [OF assms(3)] of_user [OF assms(1) _ assms(4)] assms(2) by blast

end

section \<open>The queries satisfy it\<close>

lemma select_songs_visible:
  assumes "sorts v" "execSongSelectMany v c inc (sql_page pg (dv_SortSongs v order c (filter (\<lambda>s. list_all (song_cond_holds c s) conds) (tb_songs c)))) = Inr songs"
    "SFolders fs \<in> set conds" "set fs \<subseteq> {f. (f, user) \<in> set (tb_folder_users c)}" "s \<in> set songs"
  shows "song_visible c user (so_ID (cs_Song s))"
proof -
  from assms(5) have "cs_Song s \<in> set (map cs_Song songs)" by simp
  then obtain r where r: "r \<in> set (sql_page pg (dv_SortSongs v order c (filter (\<lambda>s. list_all (song_cond_holds c s) conds) (tb_songs c))))"
      "cs_Song s = Song.truncate r"
    unfolding song_rows [OF assms(2)] by auto
  from sql_page_subset [OF r(1)] have "r \<in> set (tb_songs c)" "song_cond_holds c r (SFolders fs)"
    using assms(3) by (auto simp: sorted_rows [OF assms(1)] list_all_iff)
  with in_folders [OF _ assms(4)] r(2) show ?thesis by (auto simp: song_visible_def)
qed

lemma select_albums_visible:
  assumes "sorts v" "select_albums v order conds pg inc c rows = Inr albums" "AFolders fs \<in> set conds"
    "set rows \<subseteq> set (tb_albums c)" "set fs \<subseteq> {f. (f, user) \<in> set (tb_folder_users c)}" "a \<in> set albums"
  shows "album_visible c user (ab_ID (ca_Album a))"
proof -
  from assms(6) have "ca_Album a \<in> set (map ca_Album albums)" by simp
  then obtain r where r: "r \<in> set (sql_page (case pg of None \<Rightarrow> [] | Some p \<Rightarrow> Paginate_Apply p [])
        (dv_SortAlbums v order c (filter (\<lambda>a. list_all (album_cond_holds c a) conds) rows)))" "ca_Album a = StoredAlbum.truncate r"
    unfolding album_rows [OF assms(2) [unfolded select_albums_def]] by auto
  from sql_page_subset [OF r(1)] have "r \<in> set (tb_albums c)" "album_cond_holds c r (AFolders fs)"
    using assms(3,4) by (auto simp: sorted_rows [OF assms(1)] list_all_iff)
  with in_folders [OF _ assms(5)] r(2) show ?thesis by (auto simp: album_visible_def)
qed

lemma find_artists_visible:
  assumes "sorts v" "find_artists v order conds pg inc c = Inr artists" "RFolders fs \<in> set conds"
    "set fs \<subseteq> {f. (f, user) \<in> set (tb_folder_users c)}" "a \<in> set artists"
  shows "artist_visible c user (ad_ID (ct_Artist a))"
proof -
  obtain r where r: "r \<in> set (sql_page (case pg of None \<Rightarrow> [] | Some p \<Rightarrow> Paginate_Apply p [])
        (dv_SortArtists v order c (filter (\<lambda>a. list_all (artist_cond_holds c a) conds) (tb_artists c))))" "ct_Artist a = Artist.truncate r"
    using assms(2,5) by (auto simp: find_artists_def select_artists_def artist_columns_of_def dest!: select_rows_Inr)
  from sql_page_subset [OF r(1)] have "r \<in> set (tb_artists c)" "artist_cond_holds c r (RFolders fs)"
    using assms(3) by (auto simp: sorted_rows [OF assms(1)] list_all_iff)
  with artist_in_folders [OF _ assms(4)] r(2) show ?thesis by (auto simp: artist_visible_def)
qed

abbreviation see_song :: "catalogue \<Rightarrow> string \<Rightarrow> CompleteSong \<Rightarrow> bool" where
  "see_song c user s \<equiv> song_visible c user (so_ID (cs_Song s))"

abbreviation see_album :: "catalogue \<Rightarrow> string \<Rightarrow> CompleteAlbum \<Rightarrow> bool" where
  "see_album c user a \<equiv> album_visible c user (ab_ID (ca_Album a))"

abbreviation see_artist :: "catalogue \<Rightarrow> string \<Rightarrow> CompleteArtist \<Rightarrow> bool" where
  "see_artist c user a \<equiv> artist_visible c user (ad_ID (ct_Artist a))"

lemma song_where_folders: "SFolders fs \<in> set (song_where v (flt\<lparr>sf_MusicFolderIDs := Some fs\<rparr>) user)"
  by (cases "ordered_years (sf_FromYear flt) (sf_ToYear flt)") (simp add: song_where_def opt_cond_def)

lemma album_where_folders: "AFolders fs \<in> set (album_where (params\<lparr>fa_MusicFolderIDs := Some fs\<rparr>) user)"
  by (cases "ordered_years (fa_FromYear params) (fa_ToYear params)") (simp add: album_where_def opt_cond_def)

lemma opt_cond_mem: "cond x \<in> set (opt_cond cond (Some x))"
  by (simp add: opt_cond_def)

interpretation filtered_songs: folder_query v "\<lambda>fs. S_FindAllFiltered v (flt\<lparr>sf_MusicFolderIDs := Some fs\<rparr>) inc" "see_song"
  for v flt inc
proof (unfold_locales, goal_cases)
  case (1 fs c rows user r)
  note visible = select_songs_visible [OF 1(1) _ _ 1(3,4)]
  from 1(2) show ?case
    by (auto simp: S_FindAllFiltered_def song_where_folders split: if_splits option.splits prod.splits dest!: visible)
qed

interpretation all_albums: folder_query v "\<lambda>fs. A_FindAll v (params\<lparr>fa_MusicFolderIDs := Some fs\<rparr>) inc" "see_album"
  for v params inc
proof (unfold_locales, goal_cases)
  case (1 fs c rows user r)
  note visible = select_albums_visible [OF 1(1) _ _ _ 1(3,4)]
  from 1(2) show ?case
    by (auto simp: A_FindAll_def album_where_folders split: if_splits option.splits prod.splits dest!: visible)
qed

interpretation searched_albums: folder_query v "\<lambda>fs. A_FindBySearch v query (Some fs) paginate inc" "see_album"
  for v query paginate inc
proof (unfold_locales, goal_cases)
  case (1 fs c rows user r)
  note visible = select_albums_visible [OF 1(1) _ _ _ 1(3,4)]
  from 1(2) show ?case
    by (auto simp: A_FindBySearch_def opt_cond_mem split: if_splits option.splits prod.splits dest!: visible)
qed

interpretation starred_albums: folder_query v "\<lambda>fs. A_FindStarred v (Some fs) paginate inc" "see_album"
  for v paginate inc
proof (unfold_locales, goal_cases)
  case (1 fs c rows user r)
  note visible = select_albums_visible [OF 1(1) _ _ _ 1(3,4)]
  from 1(2) show ?case
    by (auto simp: A_FindStarred_def opt_cond_mem split: if_splits option.splits prod.splits dest!: visible)
qed

interpretation artist_albums: folder_query v "\<lambda>fs. R_GetAlbums v i (Some fs) inc" "see_album"
  for v i inc
proof (unfold_locales, goal_cases)
  case (1 fs c rows user r)
  note visible = select_albums_visible [OF 1(1) _ _ _ 1(3,4)]
  from 1(2) show ?case
    by (auto simp: R_GetAlbums_def opt_cond_mem split: if_splits option.splits prod.splits dest!: visible)
qed

interpretation appearances: folder_query v "\<lambda>fs. GetAppearsOnAlbums v i (Some fs) inc" "see_album"
  for v i inc
proof (unfold_locales, goal_cases)
  case (1 fs c rows user r)
  note visible = select_albums_visible [OF 1(1) _ _ _ 1(3,4)]
  from 1(2) show ?case
    by (auto simp: GetAppearsOnAlbums_def opt_cond_mem split: if_splits option.splits prod.splits dest!: visible)
qed

interpretation versions: folder_query v "\<lambda>fs. GetAlternateVersions v i (Some fs) inc" "see_album"
  for v i inc
proof (unfold_locales, goal_cases)
  case (1 fs c rows user r)
  note visible = select_albums_visible [OF 1(1) _ _ _ 1(3,4)]
  from 1(2) show ?case
    by (auto simp: GetAlternateVersions_def opt_cond_mem split: if_splits option.splits prod.splits dest!: visible)
qed

interpretation all_artists: folder_query v "\<lambda>fs. R_FindAll v (params\<lparr>fr_MusicFolderIDs := Some fs\<rparr>) inc" "see_artist"
  for v params inc
proof (unfold_locales, goal_cases)
  case (1 fs c rows user r)
  note visible = find_artists_visible [OF 1(1) _ _ 1(3,4)]
  from 1(2) show ?case
    by (auto simp: R_FindAll_def opt_cond_mem split: if_splits option.splits prod.splits dest!: visible)
qed

interpretation searched_artists: folder_query v "\<lambda>fs. R_FindBySearch v query only (Some fs) paginate inc" "see_artist"
  for v query only paginate inc
proof (unfold_locales, goal_cases)
  case (1 fs c rows user r)
  note visible = find_artists_visible [OF 1(1) _ _ 1(3,4)]
  from 1(2) show ?case
    by (auto simp: R_FindBySearch_def opt_cond_mem split: if_splits option.splits prod.splits dest!: visible)
qed

interpretation starred_artists: folder_query v "\<lambda>fs. R_FindStarred v (Some fs) paginate inc" "see_artist"
  for v paginate inc
proof (unfold_locales, goal_cases)
  case (1 fs c rows user r)
  note visible = find_artists_visible [OF 1(1) _ _ 1(3,4)]
  from 1(2) show ?case
    by (auto simp: R_FindStarred_def opt_cond_mem split: if_splits option.splits prod.splits dest!: visible)
qed

section \<open>What a response shows\<close>

fun shown_songs :: "br_response \<Rightarrow> string list" where
  "shown_songs (BAlbum _ songs) = map rs_ID songs"
| "shown_songs (BSong s) = [rs_ID s]"
| "shown_songs (BSongs _ songs) = map rs_ID songs"
| "shown_songs (BLists _ songs _ _) = map rs_ID songs"
| "shown_songs (BDirectory d) = (case di_Child d of DSongs songs \<Rightarrow> map rs_ID songs | DAlbums _ \<Rightarrow> [])"
| "shown_songs (BTopSongs songs) = map (rs_ID \<circ> fst) songs"
| "shown_songs (BNowPlaying songs) = map (rs_ID \<circ> fst) songs"
| "shown_songs _ = []"

fun shown_albums :: "br_response \<Rightarrow> string list" where
  "shown_albums (BArtist a) = map rb_ID (ra_Albums a)"
| "shown_albums (BAlbum a _) = [rb_ID a]"
| "shown_albums (BAlbums _ albums) = map rb_ID albums"
| "shown_albums (BLists _ _ albums _) = map rb_ID albums"
| "shown_albums (BDirectory d) = (case di_Child d of DSongs _ \<Rightarrow> [di_ID d] | DAlbums albums \<Rightarrow> map rb_ID albums)"
| "shown_albums _ = []"

fun shown_artists :: "br_response \<Rightarrow> string list" where
  "shown_artists (BArtist a) = [ra_ID a]"
| "shown_artists (BIndexes _ ix) = map ra_ID (concat (map snd (ix_Index ix)))"
| "shown_artists (BLists _ _ _ artists) = map ra_ID artists"
| "shown_artists (BDirectory d) = (case di_Child d of DSongs _ \<Rightarrow> [] | DAlbums _ \<Rightarrow> [di_ID d])"
| "shown_artists _ = []"

definition response_visible :: "catalogue \<Rightarrow> string \<Rightarrow> br_response \<Rightarrow> bool" where
  "response_visible c user res \<longleftrightarrow> list_all (song_visible c user) (shown_songs res)
     \<and> list_all (album_visible c user) (shown_albums res) \<and> list_all (artist_visible c user) (shown_artists res)"

definition shows_visible :: "catalogue \<Rightarrow> string \<Rightarrow> br_reply \<Rightarrow> bool" where
  "shows_visible c user out \<longleftrightarrow> (case snd (fst out) of None \<Rightarrow> True | Some res \<Rightarrow> response_visible c user res)"

text \<open>The songs of an album are in the folder of the album.\<close>

definition folders_agree :: "catalogue \<Rightarrow> bool" where
  "folders_agree c \<longleftrightarrow> list_all (\<lambda>s. list_all (\<lambda>a. so_AlbumID s = Some (ab_ID a) \<longrightarrow> so_MusicFolderID s = ab_MusicFolderID a)
     (tb_albums c)) (tb_songs c)"

text \<open>The rules follow the shape of a handler; they keep what the branches tell.\<close>

named_theorems show_intros "how a handler shows entities"

lemma shows_none [show_intros]: "shows_visible c user ((w, None), s)" "shows_visible c user (br_internal q msg e w s)"
  "shows_visible c user (br_error q msg e w s)"
  by (simp_all add: shows_visible_def br_internal_def br_error_def)

lemma shows_ok [show_intros]: "response_visible c user res \<Longrightarrow> shows_visible c user (br_ok q w res s)"
  by (simp add: shows_visible_def br_ok_def)

lemma shows_branch [show_intros]:
  "(b \<Longrightarrow> shows_visible c user x) \<Longrightarrow> (\<not> b \<Longrightarrow> shows_visible c user y) \<Longrightarrow> shows_visible c user (if b then x else y)"
  "shows_visible c user (f z) \<Longrightarrow> shows_visible c user (let y = z in f y)"
  by simp_all

lemma shows_cases [show_intros]:
  "(\<And>a b. p = (a, b) \<Longrightarrow> shows_visible c user (k a b)) \<Longrightarrow> shows_visible c user (case p of (a, b) \<Rightarrow> k a b)"
  "(x = None \<Longrightarrow> shows_visible c user f) \<Longrightarrow> (\<And>a. x = Some a \<Longrightarrow> shows_visible c user (g a)) \<Longrightarrow>
    shows_visible c user (case x of None \<Rightarrow> f | Some a \<Rightarrow> g a)"
  "(\<And>e. r = Inl e \<Longrightarrow> shows_visible c user (l e)) \<Longrightarrow> (\<And>a. r = Inr a \<Longrightarrow> shows_visible c user (h a)) \<Longrightarrow>
    shows_visible c user (case r of Inl e \<Rightarrow> l e | Inr a \<Rightarrow> h a)"
  by (auto split: prod.split option.split sum.split)

section \<open>The answers of the repositories as they are shown\<close>

abbreviation songs_ok :: "catalogue \<Rightarrow> string \<Rightarrow> SongResponse list \<Rightarrow> bool" where
  "songs_ok c user songs \<equiv> list_all (song_visible c user) (map rs_ID songs)"

abbreviation albums_ok :: "catalogue \<Rightarrow> string \<Rightarrow> AlbumResponse list \<Rightarrow> bool" where
  "albums_ok c user albums \<equiv> list_all (album_visible c user) (map rb_ID albums)"

abbreviation artists_ok :: "catalogue \<Rightarrow> string \<Rightarrow> ArtistResponse list \<Rightarrow> bool" where
  "artists_ok c user artists \<equiv> list_all (artist_visible c user) (map ra_ID artists)"

lemma shown_ok:
  "songs_ok c user (songs_shown env songs) = list_all (see_song c user) songs"
  "albums_ok c user (albums_shown env albums) = list_all (see_album c user) albums"
  "artists_ok c user (artists_shown env artists) = list_all (see_artist c user) artists"
  by (simp_all add: songs_shown_def albums_shown_def artists_shown_def list.pred_map comp_def del: list.map_comp)

named_theorems request_rules "what the queries of a request show"

lemma requested_songs [request_rules]:
  assumes "sorts (be_v env)" "folders_of env q c w = (Some fs, w')" "S_FindAllFiltered (be_v env) flt inc c = Inr songs"
    "sf_MusicFolderIDs flt = Some fs"
  shows "songs_ok c (Q_User q) (songs_shown env songs)"
proof -
  from assms(4) have "flt = flt\<lparr>sf_MusicFolderIDs := Some fs\<rparr>" by simp
  with assms(3) have "S_FindAllFiltered (be_v env) (flt\<lparr>sf_MusicFolderIDs := Some fs\<rparr>) inc c = Inr songs" by metis
  from filtered_songs.of_request [OF assms(1) refl assms(2) this] show ?thesis by (simp only: shown_ok)
qed

lemma requested_album_list [request_rules]:
  assumes "sorts (be_v env)" "folders_of env q c w = (Some fs, w')" "A_FindAll (be_v env) params inc c = Inr albums"
    "fa_MusicFolderIDs params = Some fs"
  shows "albums_ok c (Q_User q) (albums_shown env albums)"
proof -
  from assms(4) have "params = params\<lparr>fa_MusicFolderIDs := Some fs\<rparr>" by simp
  with assms(3) have "A_FindAll (be_v env) (params\<lparr>fa_MusicFolderIDs := Some fs\<rparr>) inc c = Inr albums" by metis
  from all_albums.of_request [OF assms(1) refl assms(2) this] show ?thesis by (simp only: shown_ok)
qed

lemma requested_artist_list:
  assumes "sorts (be_v env)" "folders_of env q c w = (Some fs, w')" "R_FindAll (be_v env) params inc c = Inr artists"
    "fr_MusicFolderIDs params = Some fs"
  shows "list_all (see_artist c (Q_User q)) artists"
proof -
  from assms(4) have "params = params\<lparr>fr_MusicFolderIDs := Some fs\<rparr>" by simp
  with assms(3) have "R_FindAll (be_v env) (params\<lparr>fr_MusicFolderIDs := Some fs\<rparr>) inc c = Inr artists" by metis
  from all_artists.of_request [OF assms(1) refl assms(2) this] show ?thesis .
qed

lemma requested_albums [request_rules]:
  assumes "sorts (be_v env)" "folders_of env q c w = (Some fs, w')"
  shows "A_FindBySearch (be_v env) query (Some fs) paginate inc c = Inr albums \<Longrightarrow> albums_ok c (Q_User q) (albums_shown env albums)"
    "A_FindStarred (be_v env) (Some fs) paginate inc c = Inr albums \<Longrightarrow> albums_ok c (Q_User q) (albums_shown env albums)"
    "R_GetAlbums (be_v env) i (Some fs) inc c = Inr albums \<Longrightarrow> albums_ok c (Q_User q) (albums_shown env albums)"
    "GetAppearsOnAlbums (be_v env) i (Some fs) inc c = Inr albums \<Longrightarrow> albums_ok c (Q_User q) (albums_shown env albums)"
    "GetAlternateVersions (be_v env) i (Some fs) inc c = Inr albums \<Longrightarrow> albums_ok c (Q_User q) (albums_shown env albums)"
  unfolding shown_ok
  by (rule searched_albums.of_request [OF assms(1) refl assms(2)] starred_albums.of_request [OF assms(1) refl assms(2)]
      artist_albums.of_request [OF assms(1) refl assms(2)] appearances.of_request [OF assms(1) refl assms(2)]
      versions.of_request [OF assms(1) refl assms(2)], assumption)+

lemma requested_artists [request_rules]:
  assumes "sorts (be_v env)" "folders_of env q c w = (Some fs, w')"
  shows "R_FindBySearch (be_v env) query only (Some fs) paginate inc c = Inr artists \<Longrightarrow>
      artists_ok c (Q_User q) (artists_shown env artists)"
    "R_FindStarred (be_v env) (Some fs) paginate inc c = Inr artists \<Longrightarrow> artists_ok c (Q_User q) (artists_shown env artists)"
  unfolding shown_ok
  by (rule searched_artists.of_request [OF assms(1) refl assms(2)] starred_artists.of_request [OF assms(1) refl assms(2)], assumption)+

text \<open>A single entity is found for the users of its folder.\<close>

lemma found_song: "S_FindByID v i user inc c = Inr s \<Longrightarrow> see_song c user s"
  by (auto simp: S_FindByID_def song_visible_def folder_join dest!: song_row filter_one)

lemma found_album: "A_FindByID v i user inc c = Inr a \<Longrightarrow> see_album c user a \<and> ab_ID (ca_Album a) = i"
  by (auto simp: A_FindByID_def album_visible_def folder_join dest!: album_row filter_one)

lemma found_artist: "R_FindByID v i user inc c = Inr a \<Longrightarrow> see_artist c user a"
  by (auto simp: R_FindByID_def artist_visible_def artist_columns_of_def map_eq_Cons_conv dest!: get_row_Inr filter_one)

text \<open>The tracks of an album that was found.\<close>

lemma found_tracks:
  assumes "sorts (be_v env)" "folders_agree c" "A_FindByID (be_v env) i user inc' c = Inr a" "A_GetTracks (be_v env) i inc c = Inr songs"
  shows "songs_ok c user (songs_shown env songs)"
proof -
  have "see_song c user s" if "s \<in> set songs" for s
  proof -
    from that have "cs_Song s \<in> set (map cs_Song songs)" by simp
    then obtain r where r: "r \<in> set (songs_of_album c i)" "cs_Song s = Song.truncate r"
      using song_rows [OF assms(4) [unfolded A_GetTracks_def]] by (auto simp: sorted_rows [OF assms(1)])
    from r(1) have song: "r \<in> set (tb_songs c)" "so_AlbumID r = Some i" by (auto simp: songs_of_album_def)
    from found_album [OF assms(3)] obtain b where b: "b \<in> set (tb_albums c)" "ab_ID b = i" "user_has c user (ab_MusicFolderID b)"
      by (auto simp: album_visible_def)
    with song assms(2) have "so_MusicFolderID r = ab_MusicFolderID b" by (auto simp: folders_agree_def list_all_iff)
    with b r(2) song show ?thesis by (auto simp: song_visible_def)
  qed
  then show ?thesis unfolding shown_ok by (simp add: list_all_iff)
qed

section \<open>The index of artists\<close>

text \<open>An entry of the index holds the artists with its key in the order of the list.\<close>

lemma index_entries:
  "fold (add_to_index env) artists m key =
     (case (m key, filter (\<lambda>a. index_key env (ad_Name (ct_Artist a)) = key) artists) of
        (None, []) \<Rightarrow> None
      | (None, x # xs) \<Rightarrow> Some (rune_ToUpper env key, NewArtists (be_covers env) (x # xs))
      | (Some (name, shown), xs) \<Rightarrow> Some (name, shown @ NewArtists (be_covers env) xs))"
  by (induction artists arbitrary: m)
    (auto simp: add_to_index_def Let_def NewArtists_def split: option.splits list.splits)

definition index_group :: "br_env \<Rightarrow> CompleteArtist list \<Rightarrow> string \<Rightarrow> CompleteArtist list" where
  "index_group env artists key = filter (\<lambda>a. index_key env (ad_Name (ct_Artist a)) = key) artists"

lemma artist_index_groups:
  "artist_index env artists =
     map (\<lambda>key. (rune_ToUpper env key, NewArtists (be_covers env) (index_group env artists key)))
       (filter (\<lambda>key. index_group env artists key \<noteq> []) index_letters)"
proof -
  have "List.map_filter (fold (add_to_index env) artists Map.empty) ks =
      map (\<lambda>key. (rune_ToUpper env key, NewArtists (be_covers env) (index_group env artists key)))
        (filter (\<lambda>key. index_group env artists key \<noteq> []) ks)" for ks
    by (induction ks) (auto simp: index_entries index_group_def List.map_filter_simps split: list.splits)
  then show ?thesis by (simp add: artist_index_def)
qed

lemma index_shows:
  assumes "list_all (see_artist c user) artists"
  shows "list_all (artist_visible c user) (map ra_ID (concat (map snd (artist_index env artists))))"
proof -
  have "\<exists>a \<in> set artists. i = ad_ID (ct_Artist a)" if "i \<in> set (map ra_ID (concat (map snd (artist_index env artists))))" for i
  proof -
    from that obtain key where "i \<in> ra_ID ` set (NewArtists (be_covers env) (index_group env artists key))"
      by (auto simp: artist_index_groups)
    then have "i \<in> set (map ra_ID (NewArtists (be_covers env) (index_group env artists key)))" by (simp only: set_map)
    then show ?thesis unfolding ids_shown by (auto simp: index_group_def)
  qed
  with assms show ?thesis by (fastforce simp: list_all_iff simp del: set_map)
qed

section \<open>The handlers\<close>

definition shows_only_visible :: "(br_env \<Rightarrow> url_values \<Rightarrow> writer \<Rightarrow> catalogue \<Rightarrow> br_reply) \<Rightarrow> bool" where
  "shows_only_visible h \<longleftrightarrow>
     (\<forall>env q w c. sorts (be_v env) \<longrightarrow> folders_agree c \<longrightarrow> shows_visible c (Q_User q) (h env q w c))"

lemma shows_onlyI:
  "(\<And>env q w c. sorts (be_v env) \<Longrightarrow> folders_agree c \<Longrightarrow> shows_visible c (Q_User q) (h env q w c)) \<Longrightarrow> shows_only_visible h"
  by (simp add: shows_only_visible_def)

lemma all_songs_folders [simp]: "sf_MusicFolderIDs (all_songs paginate fs) = Some fs"
  by (simp add: all_songs_def)

lemma lists_show_visible:
  "shows_only_visible handleGetRandomSongs" "shows_only_visible handleGetSongs" "shows_only_visible handleGetSongsByGenre"
  "shows_only_visible (\<lambda>env. handleGetAlbumList env version)" "shows_only_visible (\<lambda>env. handleGetStarred env version)"
  unfolding handleGetRandomSongs_def handleGetSongs_def handleGetSongsByGenre_def handleGetAlbumList_def handleGetStarred_def
  by (intro shows_onlyI show_intros; simp add: response_visible_def; auto intro: request_rules)+

lemma searches_show_visible: "shows_only_visible (\<lambda>env. handleSearch env search3)"
proof (rule shows_onlyI)
  fix env :: br_env and q w c
  assume sorts: "sorts (be_v env)"
  have artists: "artists_ok c (Q_User q) as" if "searchArtists env q s fs c w = (Some as, w')" "folders_of env q c w1 = (Some fs, w2)"
    for s fs w w' w1 w2 as
    using that(1) by (auto simp: searchArtists_def simp del: list.pred_map intro: request_rules [OF sorts that(2)]
        split: prod.splits option.splits sum.splits)
  have albums: "albums_ok c (Q_User q) as" if "searchAlbums env q s fs c w = (Some as, w')" "folders_of env q c w1 = (Some fs, w2)"
    for s fs w w' w1 w2 as
    using that(1) by (auto simp: searchAlbums_def simp del: list.pred_map intro: request_rules [OF sorts that(2)]
        split: prod.splits option.splits sum.splits)
  have songs: "songs_ok c (Q_User q) ss" if "searchSongs env q s fs c w = (Some ss, w')" "folders_of env q c w1 = (Some fs, w2)"
    for s fs w w' w1 w2 ss
    using that(1) by (auto simp: searchSongs_def Let_def simp del: list.pred_map intro: request_rules [OF sorts that(2)]
        split: prod.splits option.splits sum.splits)
  show "shows_visible c (Q_User q) (handleSearch env search3 q w c)"
    unfolding handleSearch_def
    by (intro show_intros; simp add: response_visible_def; auto intro: artists albums songs)
qed

lemma entities_show_visible:
  "shows_only_visible handleGetArtist" "shows_only_visible handleGetAlbum" "shows_only_visible handleGetSong"
  "shows_only_visible handleGetMusicDirectory" "shows_only_visible handleGetAppearsOn"
  "shows_only_visible handleGetAlternateAlbumVersions"
  unfolding handleGetArtist_def handleGetAlbum_def handleGetSong_def handleGetMusicDirectory_def handleGetAppearsOn_def
    handleGetAlternateAlbumVersions_def
  by (intro shows_onlyI show_intros; simp add: response_visible_def;
      auto intro: request_rules found_tracks dest: found_song found_album found_artist)+

lemma index_visible:
  assumes "list_all (see_artist c user) artists" "ix_Index ix = artist_index env artists"
  shows "response_visible c user (BIndexes name ix)"
  unfolding response_visible_def shown_artists.simps assms(2) using index_shows [OF assms(1), of env] by simp

lemma index_shows_visible: "shows_only_visible (\<lambda>env. handleGetArtistsIndex env byID3)"
  unfolding handleGetArtistsIndex_def
  by (intro shows_onlyI show_intros; rule index_visible; auto intro: requested_artist_list)

text \<open>The handlers of the library: of entities, of lists, and the searches, in the versions the routes name.\<close>

definition library_handlers :: "(br_env \<Rightarrow> url_values \<Rightarrow> writer \<Rightarrow> catalogue \<Rightarrow> br_reply) list" where
  "library_handlers =
     [handleGetArtist, handleGetAlbum, handleGetSong, handleGetMusicDirectory, handleGetAppearsOn, handleGetAlternateAlbumVersions,
      \<lambda>env. handleGetArtistsIndex env True, \<lambda>env. handleGetArtistsIndex env False,
      handleGetRandomSongs, handleGetSongs, handleGetSongsByGenre, \<lambda>env. handleGetAlbumList env 1, \<lambda>env. handleGetAlbumList env 2,
      \<lambda>env. handleGetStarred env 1, \<lambda>env. handleGetStarred env 2, \<lambda>env. handleSearch env False, \<lambda>env. handleSearch env True]"

lemma library_shows_visible: "list_all shows_only_visible library_handlers"
  by (simp add: library_handlers_def lists_show_visible searches_show_visible entities_show_visible index_shows_visible)


definition lib_env :: br_env where
  "lib_env = \<lparr> be_v = cat_db, be_covers = \<lambda>_. None, be_gain = 0, be_keys = \<lambda>_. [], be_now = 0, be_LastFM = False,
     be_GetAlbumInfo = \<lambda>_ _ _. Inl (EMsg ''x''), be_GetArtistInfo = \<lambda>_ _. Inl (EMsg ''x''), be_BaseURL = [],
     be_LastScan = Inr 0, be_genre_order = \<lambda>gs. gs, be_IsLetter = \<lambda>_. False, be_ToLower = \<lambda>r. r, be_ToUpper = \<lambda>r. r \<rparr>"

definition lib_query :: url_values where
  "lib_query k = (if k = ''u'' then Some [''ann''] else if k = ''id'' then Some [''tr_1''] else None)"

lemma wit_answers:
  "map_option shown_songs (snd (fst (handleGetSongs lib_env lib_query [] cat_catalogue))) = Some [''tr_1'', ''tr_3'']"
  "folders_agree cat_catalogue"
  by code_simp+


text \<open>
  C26: the index has an entry for \<open>#\<close> and for each letter from \<open>a\<close> to \<open>z\<close> that begins the name of an artist, in
  this order, with the artists of that letter in the order of the list; together the entries show exactly the artists
  whose key is one of these, so that an artist whose name begins with another letter is in no entry.
\<close>

theorem artist_index_complete:
  "artist_index env artists =
     map (\<lambda>key. (rune_ToUpper env key, NewArtists (be_covers env) (index_group env artists key)))
       (filter (\<lambda>key. index_group env artists key \<noteq> []) index_letters)
   \<and> set (map ra_ID (concat (map snd (artist_index env artists)))) =
     {ad_ID (ct_Artist a) |a. a \<in> set artists \<and> index_key env (ad_Name (ct_Artist a)) \<in> set index_letters}"
proof -
  have "concat (map (\<lambda>key. NewArtists (be_covers env) (index_group env artists key)) (filter (\<lambda>key. index_group env artists key \<noteq> []) ks)) =
      concat (map (\<lambda>key. NewArtists (be_covers env) (index_group env artists key)) ks)" for ks
    by (induction ks) (auto simp: NewArtists_def)
  then have "concat (map snd (artist_index env artists)) =
      concat (map (\<lambda>key. NewArtists (be_covers env) (index_group env artists key)) index_letters)"
    by (simp add: artist_index_groups comp_def)
  then have "set (map ra_ID (concat (map snd (artist_index env artists)))) =
      (\<Union>key \<in> set index_letters. set (map ra_ID (NewArtists (be_covers env) (index_group env artists key))))"
    by (simp add: image_UN del: ids_shown)
  also have "\<dots> = {ad_ID (ct_Artist a) |a. a \<in> set artists \<and> index_key env (ad_Name (ct_Artist a)) \<in> set index_letters}"
    unfolding ids_shown by (auto simp: index_group_def)
  finally show ?thesis using artist_index_groups by blast
qed

end
