(* ===== verification/Descriptions.thy ===== *)
theory Descriptions
  imports Visibility
begin

text \<open>
  What the handlers of the library owe their clients: one answer, and descriptions that are fetched from last.fm at
  most once in thirty days. The request for the information about an album that is not the user's has no answer, it
  makes the handler panic.
\<close>

section \<open>One answer\<close>

lemma answered_br [answer_intros]:
  "once_answered w (br_ok q w res s)" "once_answered w (br_internal q msg e w s)" "once_answered w (br_error q msg e w s)"
  by (simp_all add: br_ok_def br_internal_def br_error_def answer_intros)

lemma folders_of_ok [accessor_intros]: "accessor_ok (folders_of env q c)"
  unfolding folders_of_def by (intro accessor_intros)

lemma accessor_ok_internal: "accessor_ok (\<lambda>w. (None, respondInternalErr fm e w))"
  by (simp add: accessor_ok_def respond_defs EncodeError_def)

lemma searches_ok [accessor_intros]:
  "accessor_ok (searchArtists env q s fs c)" "accessor_ok (searchAlbums env q s fs c)" "accessor_ok (searchSongs env q s fs c)"
  unfolding searchArtists_def searchAlbums_def searchSongs_def Let_def
  by (rule accessor_ok_then accessor_intros accessor_ok_rules accessor_ok_internal)+

lemma lists_answer:
  "answers_once (handleGetRandomSongs env q)" "answers_once (handleGetSongs env q)" "answers_once (handleGetSongsByGenre env q)"
  "answers_once (handleGetAlbumList env version q)" "answers_once (handleGetStarred env version q)"
  "answers_once (handleSearch env search3 q)"
  unfolding handleGetRandomSongs_def handleGetSongs_def handleGetSongsByGenre_def handleGetAlbumList_def handleGetStarred_def
    handleSearch_def
  by (intro answers_onceI answer_intros accessor_intros)+

lemma entities_answer:
  "answers_once (handleGetArtist env q)" "answers_once (handleGetAlbum env q)" "answers_once (handleGetSong env q)"
  "answers_once (handleGetMusicDirectory env q)" "answers_once (handleGetAppearsOn env q)"
  "answers_once (handleGetAlternateAlbumVersions env q)" "answers_once (handleGetMusicFolders env q)" "answers_once (handleGetGenres env q)"
  unfolding handleGetArtist_def handleGetAlbum_def handleGetSong_def handleGetMusicDirectory_def handleGetAppearsOn_def
    handleGetAlternateAlbumVersions_def handleGetMusicFolders_def handleGetGenres_def
  by (intro answers_onceI answer_intros accessor_intros)+

lemma plays_answer:
  "answers_once (handleGetRecap env year q)" "answers_once (handleGetTopSongsRecap env year q)" "answers_once (handleGetNowPlaying env q)"
  unfolding handleGetRecap_def handleGetTopSongsRecap_def handleGetNowPlaying_def
  by (intro answers_onceI answer_intros accessor_intros)+

lemma accessor_modified [accessor_intros]: "accessor_ok (\<lambda>w. if b then TimeUnixMillis q name w else (Some None, w))"
  by (intro accessor_ok_if accessor_intros accessor_ok_pure)

lemma index_answers: "answers_once (handleGetArtistsIndex env byID3 q)"
  unfolding handleGetArtistsIndex_def
  by (intro answers_onceI answer_intros answered_accessor [where acc = "\<lambda>w. if b then TimeUnixMillis q n w else (Some None, w)" for b n] accessor_intros)

text \<open>What the identifier of a song or album leads to: an answer, or an identifier to go on with.\<close>

lemma artist_of_id_answers: "artist_of_id env q i w c = Inl reply \<Longrightarrow> once_answered w reply"
  by (auto simp: artist_of_id_def Let_def intro!: answer_intros split: if_splits sum.splits)

lemma answered_artist [answer_intros]:
  "(\<And>i. once_answered w (g i)) \<Longrightarrow> once_answered w (case artist_of_id env q i w c of Inl reply \<Rightarrow> reply | Inr i \<Rightarrow> g i)"
  using artist_of_id_answers [of env q i w c] by (cases "artist_of_id env q i w c") auto

lemma artist_info_answers: "answers_once (handleGetArtistInfo env version q)"
  unfolding handleGetArtistInfo_def
  by (rule answers_onceI) (rule answered_accessor answer_intros accessor_intros answered_artist | rule answered_sum)+


section \<open>Descriptions of albums\<close>

text \<open>
  A request for the information about an album that does not exist or that is in no folder of the user, made
  with a database that works, is not answered: the handler dereferences a nil pointer and panics.
\<close>

lemma unknown_album_info_panics:
  assumes "IDReq q ''id'' w = (Some i, w)" "GetIDType i \<noteq> Some IDTypeSong"
    "dv_Fault (be_v env) ''album info'' = None" "\<not> album_visible c (Q_User q) i"
  shows "handleGetAlbumInfo2 env q w c = ((w, Panic), c)"
proof -
  have "filter (\<lambda>a. ab_ID a = i) (genMusicFolderUserJoin c (Q_User q) ab_MusicFolderID (tb_albums c)) = []"
    using assms(4) by (auto simp: filter_empty_conv folder_join album_visible_def)
  then have "A_GetInfo (be_v env) i (Q_User q) c = Inl (NewError ''expected one but found none'' ErrNotFound None)"
    by (simp add: A_GetInfo_def get_row_none assms(3))
  then show ?thesis using assms(1,2) by (simp add: handleGetAlbumInfo2_def album_of_id_def NewError_def)
qed

text \<open>Storing a description changes only the albums.\<close>

lemma join_map:
  "tb_folder_users c' = tb_folder_users c \<Longrightarrow> (\<And>r. folder (f r) = folder r) \<Longrightarrow>
    genMusicFolderUserJoin c' user folder (map f rows) = map f (genMusicFolderUserJoin c user folder rows)"
  by (simp add: genMusicFolderUserJoin_def map_concat comp_def)

lemma stored_description:
  assumes "A_SetInfo v now i (d, u, m) c = (None, c')"
  shows "\<exists>albums. c' = c\<lparr>tb_albums := albums\<rparr>"
    "A_GetInfo v i user c = Inr info \<Longrightarrow> A_GetInfo v i user c' =
       Inr (info\<lparr>alin_Updated := Some now, alin_Description := d, alin_LastFMURL := u, alin_LastFMMBID := m\<rparr>)"
proof -
  define upd :: "album_rec \<Rightarrow> album_rec" where "upd a = (if ab_ID a = i
      then a\<lparr>bx_InfoUpdated := Some now, bx_Description := d, bx_LastFMURL := u, bx_LastFMMBID := m\<rparr> else a)" for a
  have c': "c' = c\<lparr>tb_albums := map upd (tb_albums c)\<rparr>"
    using assms by (auto simp: A_SetInfo_def expect_rows_def executeQueryExpectAffectedRows_def wrapResErr_def upd_def [abs_def]
        split: option.splits if_splits)
  then show "\<exists>albums. c' = c\<lparr>tb_albums := albums\<rparr>" by blast
  assume info: "A_GetInfo v i user c = Inr info"
  have upd: "ab_ID (upd a) = ab_ID a" "ab_MusicFolderID (upd a) = ab_MusicFolderID a" for a by (simp_all add: upd_def)
  note row = get_row_Inr [OF info [unfolded A_GetInfo_def]]
  obtain r where r: "filter (\<lambda>a. ab_ID a = i) (genMusicFolderUserJoin c user ab_MusicFolderID (tb_albums c)) = [r]"
      "info = \<lparr> alin_AlbumID = ab_ID r, alin_Updated = bx_InfoUpdated r, alin_Description = bx_Description r, alin_LastFMURL = bx_LastFMURL r,
        alin_LastFMMBID = bx_LastFMMBID r, alin_MusicBrainzID = ab_MusicBrainzID r, alin_ReleaseMBID = ab_ReleaseMBID r \<rparr>"
    using row by (cases "filter (\<lambda>a. ab_ID a = i) (genMusicFolderUserJoin c user ab_MusicFolderID (tb_albums c))") simp_all
  from filter_one [OF r(1)] have "ab_ID r = i" by simp
  have "filter (\<lambda>a. ab_ID a = i) (genMusicFolderUserJoin c' user ab_MusicFolderID (tb_albums c')) = [upd r]"
    using r(1) by (simp add: c' join_map [of _ c] upd filter_map comp_def)
  moreover have "dv_Fault v ''album info'' = None"
    using info by (auto simp: A_GetInfo_def get_row_def getQuery_row_def selectQuery_def split: option.splits)
  ultimately show "A_GetInfo v i user c' =
       Inr (info\<lparr>alin_Updated := Some now, alin_Description := d, alin_LastFMURL := u, alin_LastFMMBID := m\<rparr>)"
    using \<open>ab_ID r = i\<close> by (simp add: A_GetInfo_def r(2) upd_def)
qed

lemma fetched_album_info:
  assumes "fetch_album_info env q i info c = (Inr info', c')" "c' \<noteq> c"
  shows "\<exists>d u m. info' = info\<lparr>alin_Description := d, alin_LastFMMBID := m, alin_LastFMURL := u\<rparr>
    \<and> A_SetInfo (be_v env) (be_now env) i (d, u, m) c = (None, c')"
  using assms by (auto simp: fetch_album_info_def Let_def split: sum.splits if_splits prod.splits option.splits)

lemma found_song_albums:
  "S_FindByID v i user IncludeSongInfoBare (c\<lparr>tb_albums := albums\<rparr>) = S_FindByID v i user IncludeSongInfoBare c"
proof -
  have "song_columns_of v (c\<lparr>tb_albums := albums\<rparr>) IncludeSongInfoBare = song_columns_of v c IncludeSongInfoBare"
    by (intro ext) (simp add: song_columns_of_def IncludeSongInfoBare_def)
  moreover have "loadSongLists v c' IncludeSongInfoBare songs = Inr songs" for c' songs
    by (simp add: loadSongLists_def IncludeSongInfoBare_def)
  moreover have "genMusicFolderUserJoin (c\<lparr>tb_albums := albums\<rparr>) = (genMusicFolderUserJoin c :: string \<Rightarrow> (song_rec \<Rightarrow> int option) \<Rightarrow> _)"
    by (intro ext) (simp add: genMusicFolderUserJoin_def)
  ultimately show ?thesis by (simp add: S_FindByID_def execSongSelectOne_def execSongSelectMany_def cong: sum.case_cong)
qed

lemma album_of_id_keeps: "album_of_id env q i w c = Inl reply \<Longrightarrow> snd reply = c"
  by (auto simp: album_of_id_def br_error_def split: if_splits sum.splits option.splits)

lemma album_of_id_albums:
  "album_of_id env q i w c = Inr j \<Longrightarrow> be_v env' = be_v env \<Longrightarrow> album_of_id env' q i w (c\<lparr>tb_albums := albums\<rparr>) = Inr j"
  by (auto simp: album_of_id_def found_song_albums split: if_splits sum.splits option.splits)


text \<open>An album of folder 1 and what last.fm knows of it.\<close>

definition wit_album_row :: album_rec where
  "wit_album_row = \<lparr> ab_ID = ''al_aaaaaaaaaaaa'', ab_Name = ''A'', ab_ReleaseDate = None, ab_OriginalDate = None, ab_RecordLabels = [],
     ab_MusicBrainzID = None, ab_ReleaseMBID = None, ab_ReleaseTypes = [], ab_IsCompilation = None, ab_ReplayGain = None,
     ab_ReplayGainPeak = None, ab_DiscTitles = Map.empty, ab_Version = None, ab_MusicFolderID = Some 1, sa_Created = 0, sa_Updated = 0,
     bx_SearchText = '' a'', bx_InfoUpdated = None, bx_Description = None, bx_LastFMURL = None, bx_LastFMMBID = None \<rparr>"

definition wit_artist_row :: artist_rec where
  "wit_artist_row = \<lparr> ad_ID = ''ar_aaaaaaaaaaaa'', ad_Name = ''B'', ad_MusicBrainzID = None, at_Created = 0, at_Updated = 0,
     tx_SearchText = '' b'', tx_InfoUpdated = None, tx_Biography = None, tx_LastFMURL = None, tx_LastFMMBID = None \<rparr>"

definition wit_album_catalogue :: catalogue where
  "wit_album_catalogue = cat_catalogue\<lparr>tb_albums := [wit_album_row], tb_artists := [wit_artist_row],
     tb_album_artist := [(''al_aaaaaaaaaaaa'', ''ar_aaaaaaaaaaaa'', 0)]\<rparr>"

definition wit_info_env :: br_env where
  "wit_info_env = lib_env\<lparr>be_LastFM := True, be_GetAlbumInfo := \<lambda>_ _ _. Inr \<lparr> li_Name = ''A'', li_MBID = None, li_URL = None,
     li_Summary = None, li_Content = Some ''good'' \<rparr>\<rparr>"

definition wit_info_query :: "string \<Rightarrow> url_values" where
  "wit_info_query user k = (if k = ''u'' then Some [user] else if k = ''id'' then Some [''al_aaaaaaaaaaaa''] else None)"

definition kept_info :: "br_outcome" where
  "kept_info = handleGetAlbumInfo2 wit_info_env (wit_info_query ''ann'') [] wit_album_catalogue"

lemma wit_info_stored:
  "(case kept_info of ((_, Done (Some (BInfo _ r))), c) \<Rightarrow> if_Text r = Some ''good'' \<and> map bx_InfoUpdated (tb_albums c) = [Some 0] | _ \<Rightarrow> False)"
  "map bx_InfoUpdated (tb_albums wit_album_catalogue) = [None]"
  "IDReq (wit_info_query ''eve'') ''id'' [] = (Some ''al_aaaaaaaaaaaa'', [])" "GetIDType ''al_aaaaaaaaaaaa'' = Some IDTypeAlbum"
  "\<not> album_visible wit_album_catalogue (Q_User (wit_info_query ''eve'')) ''al_aaaaaaaaaaaa''"
  by code_simp+

lemma unknown_album_info_panics_example:
  "handleGetAlbumInfo2 wit_info_env (wit_info_query ''eve'') [] wit_album_catalogue = (([], Panic), wit_album_catalogue)"
proof -
  have "dv_Fault (be_v wit_info_env) ''album info'' = None" by (simp add: wit_info_env_def lib_env_def cat_db_def)
  with unknown_album_info_panics [OF wit_info_stored(3) _ _ wit_info_stored(5)] wit_info_stored(4) show ?thesis by simp
qed


end
