(* ===== verification/ScrobbleTable.thy ===== *)
theory ScrobbleTable
  imports ScrobbleRepo QueryFacts
begin

text \<open>
  The table of scrobbles over time: a row for each key, whatever the operations; recording adds or updates the rows of
  the keys it is given; and what is marked as submitted no longer waits for ListenBrainz.
\<close>

section \<open>Statements over long lists\<close>

definition commits :: "database \<Rightarrow> bool" where
  "commits v \<longleftrightarrow> keeps_on_commit (dv_conn v)"

definition batched :: "('a list \<Rightarrow> 'd \<Rightarrow> go_error option \<times> 'd) \<Rightarrow> 'a list \<Rightarrow> 'd \<times> unit \<Rightarrow> go_error option \<times> 'd \<times> unit" where
  "batched stmt ys s = (case stmt ys (fst s) of (err, c) \<Rightarrow> (err, c, snd s))"

lemma batched_apply: "batched stmt ys (c, u) = (case stmt ys c of (err, c') \<Rightarrow> (err, c', u))"
  by (simp add: batched_def)

lemma in_batches_batched: "in_batches v in_tx stmt xs c =
   (case newTransactionFn (dv_conn v) in_tx (send_all (batched stmt) (pieces execBatchSize xs)) (c, ()) of (err, c, _) \<Rightarrow> (err, c))"
proof -
  have "execBatch (batched stmt) xs = send_all (batched stmt) (pieces execBatchSize xs)"
    by (rule ext) (rule execBatch_all_pieces)
  then show ?thesis by (simp add: in_batches_def batched_def [abs_def])
qed

lemma send_all_keeps:
  assumes "\<And>ys c. P c \<Longrightarrow> P (snd (stmt ys c))" "P c" "send_all (batched stmt) yss (c, u) = (err, c', u')"
  shows "P c'"
  using assms(2,3)
proof (induction yss arbitrary: c u)
  case (Cons ys yss)
  obtain e c1 where stmt: "stmt ys c = (e, c1)" by fastforce
  with assms(1) [OF Cons.prems(1), of ys] have "P c1" by simp
  with Cons stmt show ?case by (auto simp: batched_def split: option.splits)
qed simp

lemma in_batches_keeps:
  assumes "commits v" "\<And>ys c. P c \<Longrightarrow> P (snd (stmt ys c))" "P c" "in_batches v in_tx stmt xs c = (err, c')"
  shows "P c'"
proof -
  obtain u where tx: "newTransactionFn (dv_conn v) in_tx (send_all (batched stmt) (pieces execBatchSize xs)) (c, ()) = (err, c', u)"
    using assms(4) by (auto simp: in_batches_batched split: prod.splits)
  obtain e d u' where run: "send_all (batched stmt) (pieces execBatchSize xs) (c, ()) = (e, d, u')" by (cases "send_all (batched stmt) (pieces execBatchSize xs) (c, ())") auto
  from send_all_keeps [OF assms(2) assms(3) run] run have "P (fst (snd (send_all (batched stmt) (pieces execBatchSize xs) (c, ()))))" by simp
  with newTransactionFn_keeps [of "dv_conn v" P "(c, ())"] assms(1,3) tx show ?thesis by (simp add: commits_def) (metis fst_conv snd_conv)
qed

text \<open>What succeeds has sent every piece.\<close>

lemma in_batches_success:
  assumes "commits v" "in_batches v in_tx stmt xs c = (None, c')"
  shows "\<exists>u. send_all (batched stmt) (pieces execBatchSize xs) (c, ()) = (None, c', u)"
proof -
  obtain u where tx: "newTransactionFn (dv_conn v) in_tx (send_all (batched stmt) (pieces execBatchSize xs)) (c, ()) = (None, c', u)"
    using assms(2) by (auto simp: in_batches_batched split: prod.splits)
  with newTransactionFn_success [OF tx] assms(1) show ?thesis by (auto simp: commits_def keeps_on_commit_def split: if_splits)
qed

section \<open>Keys\<close>

definition keys_distinct :: "catalogue \<Rightarrow> bool" where
  "keys_distinct c \<longleftrightarrow> distinct (map scrobble_key (tb_scrobbles c))"

text \<open>An operation of the repository of scrobbles changes no other table.\<close>

definition only_scrobbles :: "catalogue \<Rightarrow> catalogue \<Rightarrow> bool" where
  "only_scrobbles c c' \<longleftrightarrow> (\<exists>rows. c' = c\<lparr>tb_scrobbles := rows\<rparr>)"

lemma upsert_keys:
  "map scrobble_key (upsert_scrobble k rows) = (if scrobble_key k \<in> scrobble_key ` set rows then map scrobble_key rows else map scrobble_key rows @ [scrobble_key k])"
  by (auto simp: upsert_scrobble_def scrobble_key_def)

lemma fold_upsert_distinct:
  "distinct (map scrobble_key rows) \<Longrightarrow> distinct (map scrobble_key (fold upsert_scrobble ks rows))"
proof (induction ks arbitrary: rows)
  case (Cons k ks)
  have "distinct (map scrobble_key (upsert_scrobble k rows))" using Cons.prems by (simp add: upsert_keys)
  with Cons.IH show ?case by simp
qed simp

lemma keys_of_updates:
  "(\<And>k. scrobble_key (f k) = scrobble_key k) \<Longrightarrow> map scrobble_key (map f rows) = map scrobble_key rows"
  by simp

text \<open>The statements keep the keys distinct and the other tables.\<close>

definition keeps_scrobbles :: "catalogue \<Rightarrow> (catalogue \<Rightarrow> go_error option \<times> catalogue) \<Rightarrow> bool" where
  "keeps_scrobbles c0 op \<longleftrightarrow> (\<forall>c. keys_distinct c \<and> only_scrobbles c0 c \<longrightarrow> keys_distinct (snd (op c)) \<and> only_scrobbles c0 (snd (op c)))"

lemma executed: "snd (executeQuery con run c) = snd (run c)"
  by (simp add: executeQuery_def split: prod.split sum.split)

text \<open>Each statement is a function on the rows.\<close>

lemma scrobbles_kept_rows:
  assumes "\<And>c. snd (op c) = c\<lparr>tb_scrobbles := f (tb_scrobbles c)\<rparr>"
    "\<And>rows. distinct (map scrobble_key rows) \<Longrightarrow> distinct (map scrobble_key (f rows))"
  shows "keeps_scrobbles c0 op"
  using assms by (auto simp: keeps_scrobbles_def only_scrobbles_def keys_distinct_def)

lemma keep_insert: "keeps_scrobbles c0 (executeQuery (dv_c v) (insert_scrobbles v ps))"
  by (rule scrobbles_kept_rows [where f = "\<lambda>rows. if dv_Fault v ''insert scrobbles'' = None \<and> distinct (map scrobble_key (map scrobble_row ps))
        then fold upsert_scrobble (map scrobble_row ps) rows else rows"])
    (auto simp: executed insert_scrobbles_def Let_def fold_upsert_distinct comp_def split: option.split)

lemma keep_delete: "keeps_scrobbles c0 (delete_scrobbles v cond)"
  by (rule scrobbles_kept_rows [where f = "\<lambda>rows. if dv_Fault v ''delete scrobbles'' = None then filter (\<lambda>k. \<not> cond k) rows else rows"])
    (auto simp: executed delete_scrobbles_def distinct_map_filter split: option.split)

lemma keep_updates:
  assumes "\<And>c k. scrobble_key (f c k) = scrobble_key k" "\<And>c rows. f (c\<lparr>tb_scrobbles := rows\<rparr>) = f c"
  shows "keeps_scrobbles c0 (executeQuery (dv_c v) (\<lambda>c. case dv_Fault v name of Some e \<Rightarrow> (Inl e, c)
     | None \<Rightarrow> (Inr n, c\<lparr> tb_scrobbles := map (f c) (tb_scrobbles c) \<rparr>)))"
  using assms by (auto simp: keeps_scrobbles_def executed only_scrobbles_def keys_distinct_def comp_def split: option.split)

lemma operations_keep:
  assumes "commits v"
  shows "keeps_scrobbles c0 (S_CreateMultiple v in_tx ps)" "keeps_scrobbles c0 (DeleteNowPlaying v now user)"
    "keeps_scrobbles c0 (SetLBSubmittedByUsers v in_tx users)" "keeps_scrobbles c0 (FixMetadata v)"
proof -
  have batches: "keeps_scrobbles c0 (in_batches v in_tx stmt xs)" if stmt: "\<And>ys. keeps_scrobbles c0 (stmt ys)"
    for stmt :: "'x list \<Rightarrow> catalogue \<Rightarrow> go_error option \<times> catalogue" and xs
  proof -
    have "keys_distinct c' \<and> only_scrobbles c0 c'" if "keys_distinct c" "only_scrobbles c0 c" "in_batches v in_tx stmt xs c = (err, c')" for c c' err
      using in_batches_keeps [OF assms, where P = "\<lambda>c. keys_distinct c \<and> only_scrobbles c0 c", OF _ _ that(3)] stmt that(1,2)
      by (auto simp: keeps_scrobbles_def)
    then show ?thesis unfolding keeps_scrobbles_def by (metis prod.collapse)
  qed
  show "keeps_scrobbles c0 (S_CreateMultiple v in_tx ps)" unfolding S_CreateMultiple_def by (intro batches keep_insert)
  show "keeps_scrobbles c0 (DeleteNowPlaying v now user)" unfolding DeleteNowPlaying_def by (rule keep_delete)
  show "keeps_scrobbles c0 (SetLBSubmittedByUsers v in_tx users)"
    unfolding SetLBSubmittedByUsers_def by (intro batches keep_updates) (auto simp: scrobble_key_def)
  show "keeps_scrobbles c0 (FixMetadata v)"
    unfolding FixMetadata_def by (rule keep_updates) (auto simp: scrobble_key_def split: option.split)
qed


section \<open>Recording\<close>

definition scrobble_at :: "catalogue \<Rightarrow> string \<times> string \<times> int \<times> bool \<Rightarrow> scrobble_rec option" where
  "scrobble_at c key = find (\<lambda>k. scrobble_key k = key) (tb_scrobbles c)"

definition updated_by :: "scrobble_rec option \<Rightarrow> scrobble_rec \<Rightarrow> scrobble_rec" where
  "updated_by old k = (case old of None \<Rightarrow> k
     | Some r \<Rightarrow> r\<lparr> sk_Duration := sk_Duration k, sk_AlbumID := sk_AlbumID k, sk_SongDuration := sk_SongDuration k \<rparr>)"

lemma find_map_keys:
  "(\<And>k. scrobble_key (f k) = scrobble_key k) \<Longrightarrow>
    find (\<lambda>k. scrobble_key k = key) (map f rows) = map_option f (find (\<lambda>k. scrobble_key k = key) rows)"
  by (induction rows) auto

lemma find_append_keys:
  "find p (xs @ ys) = (case find p xs of None \<Rightarrow> find p ys | Some x \<Rightarrow> Some x)"
  by (induction xs) auto

lemma found_key: "find (\<lambda>r. scrobble_key r = key) rows = Some r \<Longrightarrow> scrobble_key r = key"
  by (auto simp: find_Some_iff)

lemma find_upsert:
  "find (\<lambda>r. scrobble_key r = key) (upsert_scrobble k rows) =
    (if key = scrobble_key k then Some (updated_by (find (\<lambda>r. scrobble_key r = key) rows) k) else find (\<lambda>r. scrobble_key r = key) rows)"
proof (cases "scrobble_key k \<in> scrobble_key ` set rows")
  case True
  let ?f = "\<lambda>r. if scrobble_key r = scrobble_key k
    then r\<lparr> sk_Duration := sk_Duration k, sk_AlbumID := sk_AlbumID k, sk_SongDuration := sk_SongDuration k \<rparr> else r"
  have "find (\<lambda>r. scrobble_key r = key) (map ?f rows) = map_option ?f (find (\<lambda>r. scrobble_key r = key) rows)"
    by (rule find_map_keys) (simp add: scrobble_key_def)
  moreover have "find (\<lambda>r. scrobble_key r = scrobble_key k) rows \<noteq> None" using True by (auto simp: find_None_iff)
  ultimately show ?thesis using True
    by (cases "find (\<lambda>r. scrobble_key r = key) rows") (auto simp: upsert_scrobble_def updated_by_def dest: found_key)
next
  case False
  then have "find (\<lambda>r. scrobble_key r = scrobble_key k) rows = None" by (auto simp: find_None_iff) (metis image_eqI)
  with False show ?thesis by (auto simp: upsert_scrobble_def updated_by_def find_append_keys split: option.split)
qed

lemma find_upserts:
  "distinct (map scrobble_key ks) \<Longrightarrow> find (\<lambda>r. scrobble_key r = key) (fold upsert_scrobble ks rows) =
    (case find (\<lambda>k. scrobble_key k = key) ks of None \<Rightarrow> find (\<lambda>r. scrobble_key r = key) rows
     | Some k \<Rightarrow> Some (updated_by (find (\<lambda>r. scrobble_key r = key) rows) k))"
proof (induction ks arbitrary: rows)
  case (Cons k ks)
  have "find (\<lambda>j. scrobble_key j = scrobble_key k) ks = None" using Cons.prems by (auto simp: find_None_iff) (metis image_eqI)
  with Cons show ?case by (auto simp: find_upsert split: option.split)
qed simp

lemma inserted_pieces:
  assumes "send_all (batched (\<lambda>ps. executeQuery (dv_c v) (insert_scrobbles v ps))) yss (c, u) = (None, c', u')"
  shows "c' = c\<lparr>tb_scrobbles := fold upsert_scrobble (map scrobble_row (concat yss)) (tb_scrobbles c)\<rparr>"
  using assms
proof (induction yss arbitrary: c u)
  case (Cons ys yss)
  from Cons.prems obtain c1 where step: "executeQuery (dv_c v) (insert_scrobbles v ys) c = (None, c1)"
      "send_all (batched (\<lambda>ps. executeQuery (dv_c v) (insert_scrobbles v ps))) yss (c1, u) = (None, c', u')"
    by (auto simp: batched_apply split: prod.splits option.splits)
  from executeQuery_None [OF step(1)] have "c1 = c\<lparr>tb_scrobbles := fold upsert_scrobble (map scrobble_row ys) (tb_scrobbles c)\<rparr>"
    by (auto simp: insert_scrobbles_def Let_def split: option.splits if_splits)
  with Cons.IH [OF step(2)] show ?case by simp
qed simp

text \<open>
  C23: recording scrobbles with different keys adds or updates exactly the rows of these keys, in any number of
  batches: a stored row gets the duration, album and song length it is given and stays submitted or not, a new one is
  stored as given, and every other row is as before.
\<close>

theorem scrobbles_recorded:
  assumes "commits v" "S_CreateMultiple v in_tx ps c = (None, c')" "distinct (map (scrobble_key \<circ> scrobble_row) ps)"
  shows "scrobble_at c' key =
    (case find (\<lambda>k. scrobble_key k = key) (map scrobble_row ps) of
       None \<Rightarrow> scrobble_at c key | Some k \<Rightarrow> Some (updated_by (scrobble_at c key) k))"
proof -
  from in_batches_success [OF assms(1) assms(2) [unfolded S_CreateMultiple_def]] inserted_pieces concat_pieces [of execBatchSize ps]
  have "c' = c\<lparr>tb_scrobbles := fold upsert_scrobble (map scrobble_row ps) (tb_scrobbles c)\<rparr>"
    by (metis execBatchSize_def zero_less_numeral)
  with find_upserts [of "map scrobble_row ps" key] assms(3) show ?thesis unfolding scrobble_at_def by simp
qed

section \<open>What is submitted\<close>

definition mark_of_users :: "string list \<Rightarrow> scrobble_rec \<Rightarrow> scrobble_rec" where
  "mark_of_users us k = (if sk_User k \<in> set us \<and> \<not> sk_NowPlaying k \<and> long_enough k then k\<lparr> sk_Submitted := True \<rparr> else k)"

lemma marked_pieces:
  assumes "send_all (batched (\<lambda>us. executeQuery (dv_c v) (\<lambda>c. case dv_Fault v name of Some e \<Rightarrow> (Inl e, c)
     | None \<Rightarrow> (Inr None, c\<lparr> tb_scrobbles := map (mark_of_users us) (tb_scrobbles c) \<rparr>)))) yss (c, u) = (None, c', u')"
  shows "c' = c\<lparr>tb_scrobbles := map (mark_of_users (concat yss)) (tb_scrobbles c)\<rparr>"
  using assms
proof (induction yss arbitrary: c u)
  case Nil
  have "mark_of_users [] = id" by (rule ext) (simp add: mark_of_users_def)
  with Nil show ?case by simp
next
  case (Cons ys yss)
  let ?run = "\<lambda>us. executeQuery (dv_c v) (\<lambda>c. case dv_Fault v name of Some e \<Rightarrow> (Inl e, c)
     | None \<Rightarrow> (Inr None, c\<lparr> tb_scrobbles := map (mark_of_users us) (tb_scrobbles c) \<rparr>))"
  from Cons.prems obtain c1 where step: "?run ys c = (None, c1)" "send_all (batched ?run) yss (c1, u) = (None, c', u')"
    by (auto simp: batched_apply split: prod.splits option.splits)
  from executeQuery_None [OF step(1)] have "c1 = c\<lparr>tb_scrobbles := map (mark_of_users ys) (tb_scrobbles c)\<rparr>"
    by (auto split: option.splits)
  moreover have "mark_of_users vs \<circ> mark_of_users us = mark_of_users (us @ vs)" for us vs
    by (rule ext) (auto simp: mark_of_users_def long_enough_def)
  ultimately show ?case using Cons.IH [OF step(2)] by simp
qed

text \<open>
  C40: what has been marked as submitted no longer waits: after the scrobbles of some users have been marked, the query
  for what ListenBrainz has not been given answers exactly the scrobbles it did before that are of other users.
\<close>

theorem submitted_no_longer_waits:
  assumes "commits v" "SetLBSubmittedByUsers v in_tx users c = (None, c')" "FindUnsubmittedLBScrobbles v us c = Inr rows"
  shows "FindUnsubmittedLBScrobbles v us c' = Inr (filter (\<lambda>k. sk_User k \<notin> set users) rows)"
proof -
  obtain u where "send_all (batched (\<lambda>us. executeQuery (dv_c v) (\<lambda>c. case dv_Fault v ''set submitted'' of Some e \<Rightarrow> (Inl e, c)
     | None \<Rightarrow> (Inr None, c\<lparr> tb_scrobbles := map (mark_of_users us) (tb_scrobbles c) \<rparr>)))) (pieces execBatchSize users) (c, ()) = (None, c', u)"
    unfolding mark_of_users_def [abs_def] using in_batches_success [OF assms(1) assms(2) [unfolded SetLBSubmittedByUsers_def]] by blast
  from marked_pieces [OF this] have c': "c' = c\<lparr>tb_scrobbles := map (mark_of_users users) (tb_scrobbles c)\<rparr>"
    by (simp add: concat_pieces execBatchSize_def)
  let ?waits = "\<lambda>k. \<not> sk_NowPlaying k \<and> \<not> sk_Submitted k \<and> long_enough k \<and> sk_SongID k \<in> so_ID ` set (tb_songs c)"
  let ?of = "\<lambda>k. map (\<lambda>_. k) (filter (\<lambda>u. lu_Name u = sk_User k \<and> lu_ListenBrainzUsername u \<noteq> None \<and> lu_ListenBrainzScrobble u) us)"
  have up: "dv_Fault v ''unsubmitted'' = None" "rows = concat (map ?of (filter ?waits (tb_scrobbles c)))"
    using assms(3) by (auto simp: FindUnsubmittedLBScrobbles_def select_rows_def selectQuery_def split: option.splits)
  have kept: "filter ?waits (map (mark_of_users users) ks) = filter (\<lambda>k. sk_User k \<notin> set users) (filter ?waits ks)" for ks
    by (induction ks) (simp_all add: mark_of_users_def long_enough_def)
  have others: "concat (map ?of (filter q ks)) = filter q (concat (map ?of ks))" for q ks
    by (induction ks) (simp_all add: filter_map comp_def)
  show ?thesis unfolding up(2) others [symmetric] kept [symmetric] by (simp add: FindUnsubmittedLBScrobbles_def c' up(1))
qed

section \<open>An example\<close>

definition wit_play :: "int \<Rightarrow> CreateScrobbleParams" where
  "wit_play t = \<lparr> cp_User = ''ann'', cp_SongID = ''tr_1'', cp_AlbumID = None, cp_Time = t, cp_SongDuration = 0, 
     cp_Duration = \<lparr> nd_Duration = NewDurationMS 300000, nd_Valid = True \<rparr>,
     cp_SubmittedToListenBrainz = False, cp_NowPlaying = False \<rparr>"

definition wit_scrobbled :: catalogue where
  "wit_scrobbled = snd (S_CreateMultiple cat_db False [wit_play 1, wit_play 2] cat_catalogue)"

definition wit_lb_users :: "lb_user list" where
  "wit_lb_users = [\<lparr> lu_Name = ''ann'', lu_ListenBrainzUsername = Some ''a'', lu_EncryptedListenBrainzToken = None,
     lu_ListenBrainzScrobble = True, lu_ListenBrainzSyncFeedback = False \<rparr>]"

lemma wit_scrobbles:
  "fst (S_CreateMultiple cat_db False [wit_play 1, wit_play 2] cat_catalogue) = None"
  "map sk_Time (tb_scrobbles wit_scrobbled) = [1, 2]"
  "map_option (map sk_Time) (case FindUnsubmittedLBScrobbles cat_db wit_lb_users wit_scrobbled of Inr ks \<Rightarrow> Some ks | Inl _ \<Rightarrow> None) = Some [1, 2]"
  "fst (SetLBSubmittedByUsers cat_db False [''ann''] wit_scrobbled) = None"
  "keys_distinct cat_catalogue" "distinct (map (scrobble_key \<circ> scrobble_row) [wit_play 1, wit_play 2])"
  "find (\<lambda>k. scrobble_key k = (''ann'', ''tr_1'', 2, False)) (map scrobble_row [wit_play 1, wit_play 2]) = Some (scrobble_row (wit_play 2))"
  by code_simp+

lemma wit_commits: "commits cat_db"
  by (simp add: commits_def keeps_on_commit_def cat_db_def)

lemma wit_created: "S_CreateMultiple cat_db False [wit_play 1, wit_play 2] cat_catalogue = (None, wit_scrobbled)"
  using wit_scrobbles(1) by (simp add: wit_scrobbled_def prod_eq_iff)


lemma scrobbles_recorded_witness:
  "scrobble_at wit_scrobbled (''ann'', ''tr_1'', 2, False) = Some (scrobble_row (wit_play 2)) \<and> scrobble_at cat_catalogue (''ann'', ''tr_1'', 2, False) = None"
proof -
  have none: "scrobble_at cat_catalogue (''ann'', ''tr_1'', 2, False) = None" by (simp add: scrobble_at_def cat_catalogue_def)
  with scrobbles_recorded [OF wit_commits wit_created wit_scrobbles(6), of "(''ann'', ''tr_1'', 2, False)"] wit_scrobbles(7)
  show ?thesis by (simp add: updated_by_def)
qed

lemma submitted_no_longer_waits_witness:
  "FindUnsubmittedLBScrobbles cat_db wit_lb_users (snd (SetLBSubmittedByUsers cat_db False [''ann''] wit_scrobbled)) = Inr []
   \<and> (case FindUnsubmittedLBScrobbles cat_db wit_lb_users wit_scrobbled of Inr ks \<Rightarrow> length ks = 2 | Inl _ \<Rightarrow> False)"
proof -
  obtain ks where ks: "FindUnsubmittedLBScrobbles cat_db wit_lb_users wit_scrobbled = Inr ks" "map sk_Time ks = [1, 2]"
    using wit_scrobbles(3) by (auto split: sum.splits)
  have "SetLBSubmittedByUsers cat_db False [''ann''] wit_scrobbled = (None, snd (SetLBSubmittedByUsers cat_db False [''ann''] wit_scrobbled))"
    using wit_scrobbles(4) by (simp add: prod_eq_iff)
  from submitted_no_longer_waits [OF wit_commits this ks(1)]
  have "FindUnsubmittedLBScrobbles cat_db wit_lb_users (snd (SetLBSubmittedByUsers cat_db False [''ann''] wit_scrobbled))
      = Inr (filter (\<lambda>k. sk_User k \<notin> set [''ann'']) ks)" .
  moreover have "k \<in> set ks \<Longrightarrow> sk_User k = ''ann''" for k
    using ks(1) by (auto simp: FindUnsubmittedLBScrobbles_def wit_lb_users_def split: if_splits dest!: select_rows_Inr)
  moreover from ks(2) have "length ks = 2" using map_eq_imp_length_eq [of sk_Time ks id "[1, 2]"] by simp
  ultimately show ?thesis using ks(1) by simp
qed

end
