(* ===== verification/Accounts.thy ===== *)
theory Accounts
  imports Auth ListenBrainz PgDB
begin

text \<open>
  What belongs to users: the accounts with their keys and settings (\<open>repos/postgres/user.go\<close>), internet radio
  stations (\<open>internetradiostation.go\<close>) and the table of system values (\<open>system.go\<close>). Tables are lists of rows with
  their primary keys; names of users are referenced with cascading updates and deletions, of which the tables here are
  shown. AES-GCM, argon2id, PBKDF2 and the random sources are fields of the environment, faults of the database are
  listed as for playlists.
\<close>

section \<open>Tables\<close>

record user_rec = User +
  us_ListenBrainzUsername :: "string option"
  us_EncryptedListenBrainzToken :: "bytes option"
  us_ListenBrainzScrobble :: bool
  us_ListenBrainzSyncFeedback :: bool

record APIKey =
  ak_User :: string
  ak_Name :: string
  ak_HashedValue :: bytes
  ak_Created :: int

record InternetRadioStation =
  rd_ID :: string
  rd_Name :: string
  rd_StreamURL :: string
  rd_Created :: int
  rd_Updated :: int
  rd_User :: string
  rd_HomepageURL :: "string option"

record accounts =
  ta_users :: "user_rec list"
  ta_api_keys :: "APIKey list"
  ta_lb_status :: "(string \<times> string) list"       \<comment> \<open>user and song\<close>
  ta_stations :: "InternetRadioStation list"
  ta_folder_users :: "(int \<times> string) list"
  ta_system :: "(string \<times> string) list"

type_synonym acc_state = "accounts \<times> faults"

record acc_env =
  ae_conn :: "accounts sql_conn"
  ae_now :: int
  ae_new_id :: string
  ae_EncryptionKey :: bytes
  ae_seal :: "bytes \<Rightarrow> bytes \<Rightarrow> bytes \<Rightarrow> bytes"
  ae_nonce :: "bytes option"
  ae_idkey :: kdf
  ae_salt :: "bytes option"
  ae_pbkdf2 :: "string \<Rightarrow> bytes \<Rightarrow> nat \<Rightarrow> nat \<Rightarrow> bytes"
  ae_draw :: "nat \<Rightarrow> nat option"
  ae_sort_stations :: "InternetRadioStation list \<Rightarrow> InternetRadioStation list"

definition ae_c :: "acc_env \<Rightarrow> go_error \<Rightarrow> string option" where "ae_c env = sc_Constraint (ae_conn env)"

text \<open>The errors of the driver for a violated constraint name it.\<close>

definition violates :: "string \<Rightarrow> go_error" where
  "violates constraint = EMsg (''violates constraint '' @ constraint)"

section \<open>Statements on users\<close>

definition names_unique :: "user_rec list \<Rightarrow> bool" where
  "names_unique us = distinct (map user_Name us)"

definition sql_insert_user :: "user_rec \<Rightarrow> accounts \<Rightarrow> (go_error + int option) \<times> accounts" where
  "sql_insert_user u a =
     (if user_Name u \<in> user_Name ` set (ta_users a) then (Inl (violates ''users_pkey''), a)
      else (Inr (Some 1), a\<lparr> ta_users := ta_users a @ [u] \<rparr>))"

text \<open>An update of the user of a name; what references the name follows a new one.\<close>

definition rename :: "string \<Rightarrow> string \<Rightarrow> string \<Rightarrow> string" where
  "rename old new x = (if x = old then new else x)"

definition cascade_name :: "string \<Rightarrow> string \<Rightarrow> accounts \<Rightarrow> accounts" where
  "cascade_name old new a =
     a\<lparr> ta_api_keys := map (\<lambda>k. k\<lparr> ak_User := rename old new (ak_User k) \<rparr>) (ta_api_keys a),
        ta_lb_status := map (\<lambda>(u, s). (rename old new u, s)) (ta_lb_status a),
        ta_stations := map (\<lambda>r. r\<lparr> rd_User := rename old new (rd_User r) \<rparr>) (ta_stations a),
        ta_folder_users := map (\<lambda>(f, u). (f, rename old new u)) (ta_folder_users a) \<rparr>"

definition sql_update_user :: "string \<Rightarrow> (user_rec \<Rightarrow> bool) \<Rightarrow> (user_rec \<Rightarrow> user_rec) \<Rightarrow> accounts \<Rightarrow> (go_error + int option) \<times> accounts" where
  "sql_update_user name also f a =
     (let hit = (\<lambda>u. user_Name u = name \<and> also u); us = map (\<lambda>u. if hit u then f u else u) (ta_users a)
      in if \<not> names_unique us then (Inl (violates ''users_pkey''), a)
         else (Inr (Some (int (length (filter hit (ta_users a))))),
               (case find hit (ta_users a) of
                  None \<Rightarrow> a\<lparr> ta_users := us \<rparr>
                | Some u \<Rightarrow> cascade_name name (user_Name (f u)) (a\<lparr> ta_users := us \<rparr>))))"

definition sql_delete_user :: "string \<Rightarrow> accounts \<Rightarrow> (go_error + int option) \<times> accounts" where
  "sql_delete_user name a =
     (Inr (Some (int (length (filter (\<lambda>u. user_Name u = name) (ta_users a))))),
      a\<lparr> ta_users := filter (\<lambda>u. user_Name u \<noteq> name) (ta_users a),
         ta_api_keys := filter (\<lambda>k. ak_User k \<noteq> name) (ta_api_keys a),
         ta_lb_status := filter (\<lambda>(u, _). u \<noteq> name) (ta_lb_status a),
         ta_stations := filter (\<lambda>r. rd_User r \<noteq> name) (ta_stations a),
         ta_folder_users := filter (\<lambda>(_, u). u \<noteq> name) (ta_folder_users a) \<rparr>)"

section \<open>The repository of users\<close>

text \<open>The encrypted and the hashed password.\<close>

definition encrypt_and_hash :: "acc_env \<Rightarrow> string \<Rightarrow> go_error + bytes \<times> string" where
  "encrypt_and_hash env password =
     (case EncryptPassword (ae_seal env) (ae_nonce env) password (ae_EncryptionKey env) of
        Inl e \<Rightarrow> Inl (NewError ''encrypt password'' ErrGeneral (Some (pw_go_error e)))
      | Inr enc \<Rightarrow>
          (case HashPassword (ae_idkey env) (ae_salt env) password of
             Inl e \<Rightarrow> Inl (NewError ''hash password'' ErrGeneral (Some (pw_go_error e)))
           | Inr h \<Rightarrow> Inr (enc, h)))"

definition new_user :: "string \<Rightarrow> bytes \<Rightarrow> string \<Rightarrow> user_rec" where
  "new_user name enc h =
     \<lparr> user_Name = name, user_EncryptedPassword = Some enc, user_HashedPassword = Some h, us_ListenBrainzUsername = None,
       us_EncryptedListenBrainzToken = None, us_ListenBrainzScrobble = True, us_ListenBrainzSyncFeedback = False \<rparr>"

definition U_Create :: "acc_env \<Rightarrow> string \<Rightarrow> string \<Rightarrow> acc_state \<Rightarrow> go_error option \<times> acc_state" where
  "U_Create env name password s =
     (case encrypt_and_hash env password of
        Inl e \<Rightarrow> (Some e, s)
      | Inr (enc, h) \<Rightarrow> executeQuery (ae_c env) (faulty (sql_insert_user (new_user name enc h))) s)"

text \<open>A new connection, or none, resets what was synchronised and the settings.\<close>

definition set_connection :: "bytes option \<Rightarrow> string option \<Rightarrow> user_rec \<Rightarrow> user_rec" where
  "set_connection token lbUsername u =
     u\<lparr> us_EncryptedListenBrainzToken := token, us_ListenBrainzUsername := lbUsername,
        us_ListenBrainzScrobble := True, us_ListenBrainzSyncFeedback := False \<rparr>"

definition sql_delete_lb_status :: "string \<Rightarrow> accounts \<Rightarrow> (go_error + int option) \<times> accounts" where
  "sql_delete_lb_status user a =
     (Inr (Some (int (length (filter (\<lambda>(u, _). u = user) (ta_lb_status a))))),
      a\<lparr> ta_lb_status := filter (\<lambda>(u, _). u \<noteq> user) (ta_lb_status a) \<rparr>)"

definition connection_body :: "acc_env \<Rightarrow> string \<Rightarrow> string option \<Rightarrow> string option \<Rightarrow> acc_state \<Rightarrow> go_error option \<times> acc_state" where
  "connection_body env user lbUsername lbToken s =
     (case (case lbToken of
              None \<Rightarrow> Inr None
            | Some token \<Rightarrow>
                (case EncryptPassword (ae_seal env) (ae_nonce env) token (ae_EncryptionKey env) of
                   Inl e \<Rightarrow> Inl (NewError ''encrypt ListenBrainz token'' ErrGeneral (Some (pw_go_error e)))
                 | Inr enc \<Rightarrow> Inr (Some enc))) of
        Inl e \<Rightarrow> (Some e, s)
      | Inr token \<Rightarrow>
          (case executeQueryExpectAffectedRows (ae_c env)
                  (faulty (sql_update_user user (\<lambda>_. True) (set_connection token lbUsername))) s of
             (Some e, s) \<Rightarrow> (Some e, s)
           | (None, s) \<Rightarrow> executeQuery (ae_c env) (faulty (sql_delete_lb_status user)) s))"

definition U_UpdateListenBrainzConnection ::
  "acc_env \<Rightarrow> string \<Rightarrow> string option \<Rightarrow> string option \<Rightarrow> acc_state \<Rightarrow> go_error option \<times> acc_state" where
  "U_UpdateListenBrainzConnection env user lbUsername lbToken s =
     (if (lbUsername = None) \<noteq> (lbToken = None)
      then (Some (EMsg ''lbUsername and lbToken must either both be nil or not nil''), s)
      else newTransactionFn (ae_conn env) False (connection_body env user lbUsername lbToken) s)"

record UpdateListenBrainzSettingsParams =
  ls_Scrobble :: "bool Optional"
  ls_SyncFeedback :: "bool Optional"

definition opt_set :: "'a Optional \<Rightarrow> 'a \<Rightarrow> 'a" where
  "opt_set o' old = (if opt_hasValue o' then opt_value o' else old)"

definition U_UpdateListenBrainzSettings ::
  "acc_env \<Rightarrow> string \<Rightarrow> UpdateListenBrainzSettingsParams \<Rightarrow> acc_state \<Rightarrow> go_error option \<times> acc_state" where
  "U_UpdateListenBrainzSettings env user params s =
     (case genUpdateList [(''listenbrainz_scrobble'', ls_Scrobble params), (''listenbrainz_sync_feedback'', ls_SyncFeedback params)] False of
        (_, unset) \<Rightarrow>
          if unset then (None, s)
          else executeQueryExpectAffectedRows (ae_c env) (faulty (sql_update_user user (\<lambda>u. us_ListenBrainzUsername u \<noteq> None)
                 (\<lambda>u. u\<lparr> us_ListenBrainzScrobble := opt_set (ls_Scrobble params) (us_ListenBrainzScrobble u),
                         us_ListenBrainzSyncFeedback := opt_set (ls_SyncFeedback params) (us_ListenBrainzSyncFeedback u) \<rparr>))) s)"

definition U_FindAll :: "acc_env \<Rightarrow> (acc_state, user_rec list) stmt" where
  "U_FindAll env = selectQuery (ae_c env) (faulty (\<lambda>a. (Inr (ta_users a), a)))"

definition U_FindByName :: "acc_env \<Rightarrow> string \<Rightarrow> (acc_state, user_rec) stmt" where
  "U_FindByName env name = getQuery_row (ae_c env) (faulty (\<lambda>a. (Inr (filter (\<lambda>u. user_Name u = name) (ta_users a)), a)))"

record UpdateUserParams =
  uu_Name :: "string Optional"
  uu_Password :: "string Optional"

definition U_Update :: "acc_env \<Rightarrow> string \<Rightarrow> UpdateUserParams \<Rightarrow> acc_state \<Rightarrow> go_error option \<times> acc_state" where
  "U_Update env name params s =
     (case (if opt_hasValue (uu_Password params)
            then (case encrypt_and_hash env (opt_value (uu_Password params)) of
                    Inl e \<Rightarrow> Inl e | Inr (enc, h) \<Rightarrow> Inr (NewOptionalFull enc, NewOptionalFull h))
            else Inr (NewOptionalEmpty [], NewOptionalEmpty [])) of
        Inl e \<Rightarrow> (Some e, s)
      | Inr (encryptedPassword, hashedPassword) \<Rightarrow>
          (let unset = (\<not> opt_hasValue (uu_Name params) \<and> \<not> opt_hasValue encryptedPassword \<and> \<not> opt_hasValue hashedPassword)
           in if unset then (None, s)
              else executeQueryExpectAffectedRows (ae_c env) (faulty (sql_update_user name (\<lambda>_. True)
                     (\<lambda>u. u\<lparr> user_Name := opt_set (uu_Name params) (user_Name u),
                             user_EncryptedPassword := (if opt_hasValue encryptedPassword then Some (opt_value encryptedPassword) else user_EncryptedPassword u),
                             user_HashedPassword := (if opt_hasValue hashedPassword then Some (opt_value hashedPassword) else user_HashedPassword u) \<rparr>))) s))"

definition U_DeleteByName :: "acc_env \<Rightarrow> string \<Rightarrow> acc_state \<Rightarrow> go_error option \<times> acc_state" where
  "U_DeleteByName env name = executeQueryExpectAffectedRows (ae_c env) (faulty (sql_delete_user name))"

section \<open>Keys of the API\<close>

definition sql_insert_key :: "APIKey \<Rightarrow> accounts \<Rightarrow> (go_error + int option) \<times> accounts" where
  "sql_insert_key k a =
     (if (ak_User k, ak_Name k) \<in> (\<lambda>k. (ak_User k, ak_Name k)) ` set (ta_api_keys a) then (Inl (violates ''api_keys_pkey''), a)
      else if ak_User k \<notin> user_Name ` set (ta_users a) then (Inl (violates ''api_keys_user_name_fkey''), a)
      else (Inr (Some 1), a\<lparr> ta_api_keys := ta_api_keys a @ [k] \<rparr>))"

definition U_CreateAPIKey :: "acc_env \<Rightarrow> string \<Rightarrow> string \<Rightarrow> (acc_state, string) stmt" where
  "U_CreateAPIKey env user name s =
     (case GenerateAPIKey (ae_draw env) of
        None \<Rightarrow> (Inl (EWrap ''generate API key'' (EMsg ''crypto/rand'')), s)
      | Some key \<Rightarrow>
          (case executeQuery (ae_c env) (faulty (sql_insert_key
                  \<lparr> ak_User = user, ak_Name = name, ak_HashedValue = HashAPIKey (ae_pbkdf2 env) key, ak_Created = ae_now env \<rparr>)) s of
             (Some e, s) \<Rightarrow> (Inl e, s)
           | (None, s) \<Rightarrow> (Inr key, s)))"

definition U_FindAPIKeys :: "acc_env \<Rightarrow> string \<Rightarrow> (acc_state, APIKey list) stmt" where
  "U_FindAPIKeys env user = selectQuery (ae_c env) (faulty (\<lambda>a. (Inr (filter (\<lambda>k. ak_User k = user) (ta_api_keys a)), a)))"

definition U_DeleteAPIKey :: "acc_env \<Rightarrow> string \<Rightarrow> string \<Rightarrow> acc_state \<Rightarrow> go_error option \<times> acc_state" where
  "U_DeleteAPIKey env user name =
     executeQueryExpectAffectedRows (ae_c env) (faulty (\<lambda>a.
       (Inr (Some (int (length (filter (\<lambda>k. ak_User k = user \<and> ak_Name k = name) (ta_api_keys a))))),
        a\<lparr> ta_api_keys := filter (\<lambda>k. \<not> (ak_User k = user \<and> ak_Name k = name)) (ta_api_keys a) \<rparr>)))"

definition U_FindUserNameByAPIKey :: "acc_env \<Rightarrow> string \<Rightarrow> (acc_state, string) stmt" where
  "U_FindUserNameByAPIKey env apiKey =
     getQuery_row (ae_c env) (faulty (\<lambda>a.
       (Inr (map ak_User (filter (\<lambda>k. ak_HashedValue k = HashAPIKey (ae_pbkdf2 env) apiKey) (ta_api_keys a))), a)))"

section \<open>Internet radio stations\<close>

definition RS_FindAll :: "acc_env \<Rightarrow> string \<Rightarrow> (acc_state, InternetRadioStation list) stmt" where
  "RS_FindAll env user =
     selectQuery (ae_c env) (faulty (\<lambda>a. (Inr (ae_sort_stations env (filter (\<lambda>r. rd_User r = user) (ta_stations a))), a)))"

definition RS_FindByID :: "acc_env \<Rightarrow> string \<Rightarrow> string \<Rightarrow> (acc_state, InternetRadioStation) stmt" where
  "RS_FindByID env user i =
     getQuery_row (ae_c env) (faulty (\<lambda>a. (Inr (filter (\<lambda>r. rd_User r = user \<and> rd_ID r = i) (ta_stations a)), a)))"

definition sql_insert_station :: "InternetRadioStation \<Rightarrow> accounts \<Rightarrow> (go_error + InternetRadioStation list) \<times> accounts" where
  "sql_insert_station r a =
     (if rd_ID r \<in> rd_ID ` set (ta_stations a) then (Inl (violates ''internet_radio_stations_pkey''), a)
      else if rd_User r \<notin> user_Name ` set (ta_users a) then (Inl (violates ''internet_radio_stations_user_name_fkey''), a)
      else (Inr [r], a\<lparr> ta_stations := ta_stations a @ [r] \<rparr>))"

definition RS_Create :: "acc_env \<Rightarrow> string \<Rightarrow> string \<Rightarrow> string \<Rightarrow> string option \<Rightarrow> (acc_state, InternetRadioStation) stmt" where
  "RS_Create env user name streamURL homepageURL =
     getQuery_row (ae_c env) (faulty (sql_insert_station
       \<lparr> rd_ID = GenIDInternetRadioStation (ae_new_id env), rd_Name = name, rd_StreamURL = streamURL, rd_Created = ae_now env,
         rd_Updated = ae_now env, rd_User = user, rd_HomepageURL = homepageURL \<rparr>))"

record UpdateInternetRadioStationParams =
  ui_Name :: "string Optional"
  ui_StreamURL :: "string Optional"
  ui_HomepageURL :: "string option Optional"

text \<open>The time of the update is always set, so the list of updates is never empty.\<close>

definition RS_Update :: "acc_env \<Rightarrow> string \<Rightarrow> string \<Rightarrow> UpdateInternetRadioStationParams \<Rightarrow> acc_state \<Rightarrow> go_error option \<times> acc_state" where
  "RS_Update env user i params =
     (let hit = (\<lambda>r. rd_User r = user \<and> rd_ID r = i)
      in executeQueryExpectAffectedRows (ae_c env) (faulty (\<lambda>a.
           (Inr (Some (int (length (filter hit (ta_stations a))))),
            a\<lparr> ta_stations := map (\<lambda>r. if hit r
                 then r\<lparr> rd_Name := opt_set (ui_Name params) (rd_Name r), rd_StreamURL := opt_set (ui_StreamURL params) (rd_StreamURL r),
                         rd_HomepageURL := opt_set (ui_HomepageURL params) (rd_HomepageURL r), rd_Updated := ae_now env \<rparr>
                 else r) (ta_stations a) \<rparr>))))"

definition RS_Delete :: "acc_env \<Rightarrow> string \<Rightarrow> string \<Rightarrow> acc_state \<Rightarrow> go_error option \<times> acc_state" where
  "RS_Delete env user i =
     (let hit = (\<lambda>r. rd_User r = user \<and> rd_ID r = i)
      in executeQueryExpectAffectedRows (ae_c env) (faulty (\<lambda>a.
           (Inr (Some (int (length (filter hit (ta_stations a))))), a\<lparr> ta_stations := filter (\<lambda>r. \<not> hit r) (ta_stations a) \<rparr>))))"

section \<open>System values\<close>

text \<open>The time format of a scan is RFC 3339, whose parser and formatter are arguments.\<close>

definition sys_set :: "string \<Rightarrow> string \<Rightarrow> accounts \<Rightarrow> accounts" where
  "sys_set key value a =
     a\<lparr> ta_system := (if key \<in> fst ` set (ta_system a) then map (\<lambda>(k, v). (k, if k = key then value else v)) (ta_system a)
                     else ta_system a @ [(key, value)]) \<rparr>"

definition systemRepository_get :: "acc_env \<Rightarrow> string \<Rightarrow> (acc_state, string) stmt" where
  "systemRepository_get env key = getQuery_row (ae_c env) (faulty (\<lambda>a. (Inr (map snd (filter (\<lambda>(k, _). k = key) (ta_system a))), a)))"

definition systemRepository_getOrCreate :: "acc_env \<Rightarrow> string \<Rightarrow> string \<Rightarrow> (acc_state, string) stmt" where
  "systemRepository_getOrCreate env key value =
     getQuery_row (ae_c env) (faulty (\<lambda>a.
       case map_of (ta_system a) key of Some v \<Rightarrow> (Inr [v], a) | None \<Rightarrow> (Inr [value], sys_set key value a)))"

definition systemRepository_set :: "acc_env \<Rightarrow> string \<Rightarrow> string \<Rightarrow> acc_state \<Rightarrow> go_error option \<times> acc_state" where
  "systemRepository_set env key value = executeQuery (ae_c env) (faulty (\<lambda>a. (Inr (Some 1), sys_set key value a)))"

definition InstanceID :: "acc_env \<Rightarrow> string \<Rightarrow> (acc_state, string) stmt" where
  "InstanceID env generated s =
     (case systemRepository_getOrCreate env ''instance_id'' generated s of
        (Inl e, s) \<Rightarrow> (Inl (EMsg (''load instance ID: '' @ Error_Error e)), s)
      | (Inr i, s) \<Rightarrow> (Inr i, s))"

definition LastScan :: "acc_env \<Rightarrow> (string \<Rightarrow> int option) \<Rightarrow> (acc_state, int) stmt" where
  "LastScan env parse s =
     (case systemRepository_get env ''last-scan'' s of
        (Inl e, s) \<Rightarrow> (Inl (EWrap ''get system value'' e), s)
      | (Inr str, s) \<Rightarrow> (case parse str of None \<Rightarrow> (Inl (EWrap ''parse time'' (EMsg ''parsing time'')), s) | Some t \<Rightarrow> (Inr t, s)))"

definition SetLastScan :: "acc_env \<Rightarrow> (int \<Rightarrow> string) \<Rightarrow> int \<Rightarrow> acc_state \<Rightarrow> go_error option \<times> acc_state" where
  "SetLastScan env format lastScan = systemRepository_set env ''last-scan'' (format lastScan)"

definition NeedsFullScan :: "acc_env \<Rightarrow> (acc_state, bool) stmt" where
  "NeedsFullScan env = getQuery_row (ae_c env) (faulty (\<lambda>a. (Inr [''needs-full-scan'' \<in> fst ` set (ta_system a)], a)))"

definition ResetNeedsFullScan :: "acc_env \<Rightarrow> acc_state \<Rightarrow> go_error option \<times> acc_state" where
  "ResetNeedsFullScan env = executeQuery (ae_c env) (faulty (\<lambda>a.
     (Inr (Some (int (length (filter (\<lambda>(k, _). k = ''needs-full-scan'') (ta_system a))))),
      a\<lparr> ta_system := filter (\<lambda>(k, _). k \<noteq> ''needs-full-scan'') (ta_system a) \<rparr>)))"

definition SetMusicDirConfig :: "acc_env \<Rightarrow> string \<Rightarrow> acc_state \<Rightarrow> go_error option \<times> acc_state" where
  "SetMusicDirConfig env config = systemRepository_set env ''music-dir-config'' config"

definition MusicDirConfig :: "acc_env \<Rightarrow> (acc_state, string) stmt" where
  "MusicDirConfig env = systemRepository_get env ''music-dir-config''"

section \<open>Folders of users\<close>

text \<open>The key of the table is folder and user; both must exist.\<close>

definition sql_insert_folder_users :: "int list \<Rightarrow> (int \<times> string) list \<Rightarrow> accounts \<Rightarrow> (go_error + int option) \<times> accounts" where
  "sql_insert_folder_users folders rows a =
     (if \<not> distinct (ta_folder_users a @ rows) then (Inl (violates ''music_folder_users_pkey''), a)
      else if \<not> list_all (\<lambda>(f, u). f \<in> set folders \<and> u \<in> user_Name ` set (ta_users a)) rows
      then (Inl (violates ''music_folder_users_fkey''), a)
      else (Inr (Some (int (length rows))), a\<lparr> ta_folder_users := ta_folder_users a @ rows \<rparr>))"

definition CreateUserAssociations :: "acc_env \<Rightarrow> int list \<Rightarrow> bool \<Rightarrow> int \<Rightarrow> string list \<Rightarrow> acc_state \<Rightarrow> go_error option \<times> acc_state" where
  "CreateUserAssociations env folders in_tx folderId users s =
     (if length users = 0 then (None, s)
      else newTransactionFn (ae_conn env) in_tx
        (execBatch (\<lambda>us. executeQuery (ae_c env) (faulty (sql_insert_folder_users folders (map (Pair folderId) us)))) users) s)"

section \<open>Well-formed accounts\<close>

text \<open>The keys of the tables are different, names refer to users, and a user has a token with a ListenBrainz name or neither.\<close>

definition references :: "accounts \<Rightarrow> string list" where
  "references a = map ak_User (ta_api_keys a) @ map fst (ta_lb_status a) @ map rd_User (ta_stations a) @ map snd (ta_folder_users a)"

definition paired :: "user_rec \<Rightarrow> bool" where
  "paired u \<longleftrightarrow> (us_ListenBrainzUsername u = None) = (us_EncryptedListenBrainzToken u = None)"

definition accounts_wf :: "accounts \<Rightarrow> bool" where
  "accounts_wf a \<longleftrightarrow>
     names_unique (ta_users a) \<and> distinct (map (\<lambda>k. (ak_User k, ak_Name k)) (ta_api_keys a))
     \<and> distinct (map rd_ID (ta_stations a)) \<and> distinct (ta_folder_users a) \<and> distinct (map fst (ta_system a))
     \<and> set (references a) \<subseteq> user_Name ` set (ta_users a) \<and> list_all paired (ta_users a)"

lemma wf_insert_user: "accounts_wf a \<Longrightarrow> paired u \<Longrightarrow> accounts_wf (snd (sql_insert_user u a))"
  by (auto simp: sql_insert_user_def accounts_wf_def names_unique_def references_def)

lemma delete_references: "references (snd (sql_delete_user name a)) = filter (\<lambda>u. u \<noteq> name) (references a)"
  by (simp add: sql_delete_user_def references_def filter_map comp_def split_def)

lemma wf_delete_user: "accounts_wf a \<Longrightarrow> accounts_wf (snd (sql_delete_user name a))"
  unfolding accounts_wf_def delete_references
  by (auto simp: sql_delete_user_def names_unique_def list_all_iff distinct_map_filter)

text \<open>A name that is free takes over all references.\<close>

lemma cascade_references: "references (cascade_name old new a) = map (rename old new) (references a)"
  by (simp add: cascade_name_def references_def comp_def case_prod_beta)

lemma distinct_renamed:
  assumes "inj_on (rename old new) names" "snd ` set xs \<subseteq> names" "distinct xs"
  shows "distinct (map (\<lambda>(k, u). (k, rename old new u)) xs)"
proof -
  have "snd x \<in> names" if "x \<in> set xs" for x using assms(2) that by blast
  then have "inj_on (\<lambda>(k, u). (k, rename old new u)) (set xs)"
    using assms(1) by (auto simp: inj_on_def)
  with assms(3) show ?thesis by (simp add: distinct_map)
qed

lemma wf_cascade:
  assumes wf: "accounts_wf a" and us: "names_unique us" "user_Name ` set us = rename old new ` user_Name ` set (ta_users a)"
    "list_all paired us" and inj: "inj_on (rename old new) (user_Name ` set (ta_users a))"
  shows "accounts_wf (cascade_name old new (a\<lparr> ta_users := us \<rparr>))"
proof -
  have refs: "set (references (a\<lparr> ta_users := us \<rparr>)) \<subseteq> user_Name ` set (ta_users a)"
    using wf by (simp add: accounts_wf_def references_def)
  have "distinct (map (\<lambda>(k, u). (k, rename old new u)) (map (\<lambda>k. (ak_Name k, ak_User k)) (ta_api_keys a)))"
    using wf by (intro distinct_renamed [OF inj]) (auto simp: accounts_wf_def references_def distinct_map inj_on_def)
  then have keys: "distinct (map (\<lambda>k. (rename old new (ak_User k), ak_Name k)) (ta_api_keys a))"
    by (auto simp: distinct_map inj_on_def)
  have folders: "distinct (map (\<lambda>(k, u). (k, rename old new u)) (ta_folder_users a))"
    using wf by (intro distinct_renamed [OF inj]) (auto simp: accounts_wf_def references_def)
  from refs have "set (references (cascade_name old new (a\<lparr> ta_users := us \<rparr>))) \<subseteq> user_Name ` set us"
    unfolding cascade_references us(2) by auto
  with wf us(1,3) keys folders show ?thesis
    by (simp add: accounts_wf_def cascade_name_def comp_def)
qed

lemma wf_update_user:
  assumes wf: "accounts_wf a" and keeps: "\<And>u. paired u \<Longrightarrow> paired (f u)"
  shows "accounts_wf (snd (sql_update_user name also f a))"
proof -
  let ?hit = "\<lambda>u. user_Name u = name \<and> also u" and ?us = "map (\<lambda>u. if user_Name u = name \<and> also u then f u else u) (ta_users a)"
  show ?thesis
  proof (cases "find ?hit (ta_users a)")
    case None
    then have "?us = ta_users a" by (auto simp: find_None_iff intro!: map_idI)
    with wf None show ?thesis by (simp add: sql_update_user_def Let_def)
  next
    case (Some v)
    then have v: "v \<in> set (ta_users a)" "user_Name v = name" "also v" by (auto simp: find_Some_iff)
    have only: "u = v" if "u \<in> set (ta_users a)" "user_Name u = name" for u
      using wf v that by (auto simp: accounts_wf_def names_unique_def distinct_map inj_on_def)
    have names: "map user_Name ?us = map (rename name (user_Name (f v))) (map user_Name (ta_users a))"
      using v(3) by (auto simp: rename_def dest: only)
    then have image: "user_Name ` set ?us = rename name (user_Name (f v)) ` user_Name ` set (ta_users a)"
      by (metis set_map)
    show ?thesis
    proof (cases "names_unique ?us")
      case False
      with wf show ?thesis by (simp add: sql_update_user_def Let_def)
    next
      case True
      with names have "inj_on (rename name (user_Name (f v))) (user_Name ` set (ta_users a))"
        unfolding names_unique_def by (metis distinct_map set_map)
      moreover have "list_all paired ?us" using wf keeps by (auto simp: accounts_wf_def list_all_iff)
      ultimately have "accounts_wf (cascade_name name (user_Name (f v)) (a\<lparr> ta_users := ?us \<rparr>))"
        by (intro wf_cascade [OF wf True image])
      with True Some show ?thesis by (simp add: sql_update_user_def Let_def)
    qed
  qed
qed

text \<open>What the repositories do to the tables, transactions and faults aside.\<close>

lemma run_faulty: "fst (snd (faulty run s)) \<in> {fst s, snd (run (fst s))}"
  by (auto simp: faulty_def split: list.split option.split prod.split)

lemma run_queries:
  "snd (executeQuery c run s) = snd (run s)" "snd (executeQueryExpectAffectedRows c run s) = snd (run s)"
  by (simp_all add: executeQuery_def executeQueryExpectAffectedRows_def split: prod.split sum.split)

lemma read_queries: "snd (selectQuery c rows s) = snd (rows s)" "snd (getQuery_row c rows s) = snd (rows s)"
  by (simp_all add: selectQuery_def getQuery_row_def split: prod.split sum.split)

lemma faulty_wf: "accounts_wf (fst s) \<Longrightarrow> accounts_wf (snd (run (fst s))) \<Longrightarrow> accounts_wf (fst (snd (faulty run s)))"
  using run_faulty [of run s] by auto

section \<open>Steps\<close>

text \<open>
  What changes the tables: the operations of the repositories, each with its own time and random values, and faults of
  the database to come.
\<close>

inductive account_step :: "accounts sql_conn \<Rightarrow> acc_state \<Rightarrow> acc_state \<Rightarrow> bool" for conn where
  step_faults: "account_step conn (a, fs) (a, fs')"
| step_create: "ae_conn env = conn \<Longrightarrow> account_step conn s (snd (U_Create env name password s))"
| step_connection: "ae_conn env = conn \<Longrightarrow> account_step conn s (snd (U_UpdateListenBrainzConnection env user lbUsername lbToken s))"
| step_settings: "ae_conn env = conn \<Longrightarrow> account_step conn s (snd (U_UpdateListenBrainzSettings env user settings s))"
| step_update: "ae_conn env = conn \<Longrightarrow> account_step conn s (snd (U_Update env name params s))"
| step_delete: "ae_conn env = conn \<Longrightarrow> account_step conn s (snd (U_DeleteByName env name s))"
| step_create_key: "ae_conn env = conn \<Longrightarrow> account_step conn s (snd (U_CreateAPIKey env user name s))"
| step_delete_key: "ae_conn env = conn \<Longrightarrow> account_step conn s (snd (U_DeleteAPIKey env user name s))"
| step_create_station: "ae_conn env = conn \<Longrightarrow> account_step conn s (snd (RS_Create env user name url home s))"
| step_update_station: "ae_conn env = conn \<Longrightarrow> account_step conn s (snd (RS_Update env user i station s))"
| step_delete_station: "ae_conn env = conn \<Longrightarrow> account_step conn s (snd (RS_Delete env user i s))"
| step_folders: "ae_conn env = conn \<Longrightarrow> account_step conn s (snd (CreateUserAssociations env folders in_tx folderId users s))"
| step_system: "ae_conn env = conn \<Longrightarrow> account_step conn s (snd (systemRepository_set env key value s))"
| step_instance: "ae_conn env = conn \<Longrightarrow> account_step conn s (snd (InstanceID env generated s))"
| step_reset: "ae_conn env = conn \<Longrightarrow> account_step conn s (snd (ResetNeedsFullScan env s))"

lemma wf_create:
  assumes "accounts_wf (fst s)"
  shows "accounts_wf (fst (snd (U_Create env name password s)))"
proof (cases "encrypt_and_hash env password")
  case (Inl e)
  with assms show ?thesis by (simp add: U_Create_def)
next
  case (Inr x)
  obtain enc h where x: "x = (enc, h)" by fastforce
  have "paired (new_user name enc h)" by (simp add: new_user_def paired_def)
  with assms Inr x show ?thesis
    by (simp add: U_Create_def run_queries) (intro faulty_wf wf_insert_user)
qed

lemma wf_settings:
  assumes "accounts_wf (fst s)"
  shows "accounts_wf (fst (snd (U_UpdateListenBrainzSettings env user params s)))"
  unfolding U_UpdateListenBrainzSettings_def using assms
  by (auto simp: run_queries paired_def split: prod.split intro!: faulty_wf wf_update_user)

lemma wf_update:
  assumes "accounts_wf (fst s)"
  shows "accounts_wf (fst (snd (U_Update env name params s)))"
  unfolding U_Update_def using assms
  by (auto simp: run_queries paired_def Let_def split: prod.split sum.split intro!: faulty_wf wf_update_user)

lemma wf_lb_status: "accounts_wf a \<Longrightarrow> accounts_wf (snd (sql_delete_lb_status user a))"
  by (auto simp: sql_delete_lb_status_def accounts_wf_def references_def)

lemma wf_connection:
  assumes "keeps_on_commit (ae_conn env)" "accounts_wf (fst s)"
  shows "accounts_wf (fst (snd (U_UpdateListenBrainzConnection env user lbUsername lbToken s)))"
proof (cases "(lbUsername = None) \<noteq> (lbToken = None)")
  case True
  with assms(2) show ?thesis by (simp add: U_UpdateListenBrainzConnection_def)
next
  case False
  have "accounts_wf (fst (snd (connection_body env user lbUsername lbToken s)))"
  proof -
    have "accounts_wf (fst (snd (executeQueryExpectAffectedRows (ae_c env)
        (faulty (sql_update_user user (\<lambda>_. True) (set_connection token lbUsername))) s)))" if "(lbUsername = None) = (token = None)" for token
      using that assms(2) by (auto simp: run_queries set_connection_def paired_def intro!: faulty_wf wf_update_user)
    moreover have "accounts_wf (fst (snd (executeQuery (ae_c env) (faulty (sql_delete_lb_status user)) t)))" if "accounts_wf (fst t)" for t
      using that by (auto simp: run_queries intro!: faulty_wf wf_lb_status)
    ultimately show ?thesis
      using False assms(2) unfolding connection_body_def by (auto split: option.split sum.split prod.split) (metis fst_conv option.distinct(1) snd_conv)+
  qed
  with False newTransactionFn_keeps [OF assms(1), of accounts_wf s] assms(2) show ?thesis
    by (simp add: U_UpdateListenBrainzConnection_def)
qed

lemma wf_insert_key: "accounts_wf a \<Longrightarrow> accounts_wf (snd (sql_insert_key k a))"
  by (auto simp: sql_insert_key_def accounts_wf_def references_def image_iff)

lemma wf_create_key:
  assumes "accounts_wf (fst s)"
  shows "accounts_wf (fst (snd (U_CreateAPIKey env user name s)))"
proof (cases "GenerateAPIKey (ae_draw env)")
  case (Some key)
  let ?k = "\<lparr> ak_User = user, ak_Name = name, ak_HashedValue = HashAPIKey (ae_pbkdf2 env) key, ak_Created = ae_now env \<rparr>"
  have "snd (U_CreateAPIKey env user name s) = snd (faulty (sql_insert_key ?k) s)"
    by (simp add: U_CreateAPIKey_def Some executeQuery_def split: prod.split sum.split option.split)
  with assms show ?thesis by (simp add: faulty_wf wf_insert_key)
qed (simp add: U_CreateAPIKey_def assms)

lemma wf_delete_key:
  assumes "accounts_wf (fst s)"
  shows "accounts_wf (fst (snd (U_DeleteAPIKey env user name s)))"
  unfolding U_DeleteAPIKey_def run_queries
  using assms by (intro faulty_wf) (auto simp: accounts_wf_def references_def distinct_map_filter)

lemma wf_map_stations:
  "(\<And>r. rd_ID (f r) = rd_ID r) \<Longrightarrow> (\<And>r. rd_User (f r) = rd_User r) \<Longrightarrow> accounts_wf a \<Longrightarrow>
    accounts_wf (a\<lparr> ta_stations := map f (ta_stations a) \<rparr>)"
  by (simp add: accounts_wf_def references_def comp_def)

lemma wf_create_station:
  assumes "accounts_wf (fst s)"
  shows "accounts_wf (fst (snd (RS_Create env user name url home s)))"
  unfolding RS_Create_def read_queries
  using assms by (intro faulty_wf) (auto simp: sql_insert_station_def accounts_wf_def references_def)

lemma wf_update_station:
  assumes "accounts_wf (fst s)"
  shows "accounts_wf (fst (snd (RS_Update env user i station s)))"
  unfolding RS_Update_def run_queries Let_def
  using assms by (intro faulty_wf) (simp_all add: wf_map_stations)

lemma wf_delete_station:
  assumes "accounts_wf (fst s)"
  shows "accounts_wf (fst (snd (RS_Delete env user i s)))"
  unfolding RS_Delete_def run_queries Let_def
  using assms by (intro faulty_wf) (auto simp: accounts_wf_def references_def distinct_map_filter)

lemma sys_set_keys: "map fst (ta_system (sys_set key value a)) = (if key \<in> fst ` set (ta_system a) then map fst (ta_system a) else map fst (ta_system a) @ [key])"
  by (auto simp: sys_set_def)

lemma wf_system:
  assumes "accounts_wf a"
  shows "accounts_wf (sys_set key value a)" "accounts_wf (a\<lparr> ta_system := filter p (ta_system a) \<rparr>)"
proof -
  have other: "sys_set key value a = a\<lparr> ta_system := ta_system (sys_set key value a) \<rparr>" by (simp add: sys_set_def)
  have "distinct (map fst (ta_system (sys_set key value a)))"
    using assms unfolding sys_set_keys by (simp add: accounts_wf_def)
  with assms show "accounts_wf (sys_set key value a)"
    by (subst other) (simp add: accounts_wf_def references_def)
  show "accounts_wf (a\<lparr> ta_system := filter p (ta_system a) \<rparr>)"
    using assms by (simp add: accounts_wf_def references_def distinct_map_filter)
qed

lemma wf_system_ops:
  assumes "accounts_wf (fst s)"
  shows "accounts_wf (fst (snd (systemRepository_set env key value s)))" "accounts_wf (fst (snd (ResetNeedsFullScan env s)))"
    "accounts_wf (fst (snd (systemRepository_getOrCreate env key value s)))"
  unfolding systemRepository_set_def ResetNeedsFullScan_def systemRepository_getOrCreate_def run_queries read_queries
  using assms by (auto intro!: faulty_wf wf_system split: option.split)

lemma wf_instance:
  assumes "accounts_wf (fst s)"
  shows "accounts_wf (fst (snd (InstanceID env generated s)))"
  using wf_system_ops(3) [OF assms, of env "''instance_id''" generated] by (auto simp: InstanceID_def split: prod.split sum.split)

lemma wf_insert_folder_users: "accounts_wf a \<Longrightarrow> accounts_wf (snd (sql_insert_folder_users folders rows a))"
  by (auto simp: sql_insert_folder_users_def accounts_wf_def references_def list_all_iff)

lemma send_all_wf:
  "(\<And>x t. accounts_wf (fst t) \<Longrightarrow> accounts_wf (fst (snd (send x t)))) \<Longrightarrow> accounts_wf (fst s) \<Longrightarrow>
    accounts_wf (fst (snd (send_all send xs s)))"
proof (induction xs arbitrary: s)
  case (Cons x xs)
  obtain e t where step: "send x s = (e, t)" by (cases "send x s") auto
  with Cons.prems(1) [OF Cons.prems(2), of x] have "accounts_wf (fst t)" by simp
  with Cons.IH [OF Cons.prems(1)] step show ?case by (cases e) auto
qed simp

lemma wf_folders:
  assumes "keeps_on_commit (ae_conn env)" "accounts_wf (fst s)"
  shows "accounts_wf (fst (snd (CreateUserAssociations env folders in_tx folderId users s)))"
proof -
  let ?stmt = "\<lambda>us. executeQuery (ae_c env) (faulty (sql_insert_folder_users folders (map (Pair folderId) us)))"
  have "accounts_wf (fst (snd (execBatch ?stmt users s)))"
    unfolding execBatch_all_pieces by (rule send_all_wf) (simp_all add: run_queries faulty_wf wf_insert_folder_users assms(2))
  with newTransactionFn_keeps [OF assms(1), of accounts_wf s] assms(2) show ?thesis by (simp add: CreateUserAssociations_def)
qed

lemma account_step_wf:
  assumes "account_step conn s s'" "keeps_on_commit conn" "accounts_wf (fst s)"
  shows "accounts_wf (fst s')"
  using assms(1)
proof cases
  case step_faults
  with assms(3) show ?thesis by simp
qed (use assms(2,3) in \<open>simp_all add: wf_create wf_connection wf_settings wf_update wf_create_key wf_delete_key wf_create_station
      wf_update_station wf_delete_station wf_folders wf_system_ops wf_instance U_DeleteByName_def run_queries faulty_wf wf_delete_user\<close>)


section \<open>The accounts as the middleware sees them\<close>

definition auth_env_of :: "acc_env \<Rightarrow> (bytes \<Rightarrow> bytes \<Rightarrow> bytes \<Rightarrow> bytes option) \<Rightarrow> (bytes \<Rightarrow> bytes) \<Rightarrow> acc_state \<Rightarrow> auth_env" where
  "auth_env_of env open' md5 s =
     \<lparr> env_FindByName = (\<lambda>name. map_sum id User.truncate (fst (U_FindByName env name s))),
       env_FindUserNameByAPIKey = (\<lambda>key. fst (U_FindUserNameByAPIKey env key s)),
       env_idkey = ae_idkey env, env_open = open', env_md5 = md5, env_EncryptionKey = ae_EncryptionKey env \<rparr>"

lemma filter_image_none: "y \<notin> f ` set xs \<Longrightarrow> filter (\<lambda>x. f x = y) xs = []"
  by (auto simp: filter_empty_conv)

lemma find_user:
  assumes "names_unique (ta_users a)" "u \<in> set (ta_users a)"
  shows "fst (U_FindByName env (user_Name u) (a, [])) = Inr u"
proof -
  have "filter (\<lambda>x. user_Name x = user_Name u) us = [u]" if "names_unique us" "u \<in> set us" for us
    using that
  proof (induction us)
    case (Cons x us)
    show ?case
    proof (cases "x = u")
      case True
      with Cons.prems have "filter (\<lambda>y. user_Name y = user_Name u) us = []"
        by (intro filter_image_none) (simp add: names_unique_def)
      with True show ?thesis by simp
    next
      case False
      with Cons show ?thesis by (auto simp: names_unique_def)
    qed
  qed simp
  with assms show ?thesis by (simp add: U_FindByName_def getQuery_row_def selectQuery_def faulty_def)
qed

text \<open>A user stored with a password is let in with it, and with nothing else that argon2id tells apart.\<close>

definition stored_with :: "acc_env \<Rightarrow> string \<Rightarrow> user_rec \<Rightarrow> bool" where
  "stored_with env password u \<longleftrightarrow>
     (case encrypt_and_hash env password of Inl _ \<Rightarrow> False
      | Inr (enc, h) \<Rightarrow> user_EncryptedPassword u = Some enc \<and> user_HashedPassword u = Some h)"

lemma stored_user_let_in:
  assumes "stored_with env password u" "names_unique (ta_users a)" "u \<in> set (ta_users a)"
    and "aead_ok (ae_seal env) open'" "kdf_ok (ae_idkey env)" "\<And>n. ae_nonce env = Some n \<Longrightarrow> length n = gcm_nonce_size"
  shows "decode_password p = Some password' \<Longrightarrow>
      fst (passwordAuth (auth_env_of env open' md5 (a, [])) (user_Name u) p) =
        Inr (ae_idkey env password' (the (ae_salt env)) 1 3072 4 32 = ae_idkey env password (the (ae_salt env)) 1 3072 4 32)"
    "fst (tokenAuth (auth_env_of env open' md5 (a, [])) (user_Name u) token salt) = Inr (token = hex_EncodeToString (md5 (password @ salt)))"
proof -
  obtain enc h where eh: "encrypt_and_hash env password = Inr (enc, h)" "user_EncryptedPassword u = Some enc" "user_HashedPassword u = Some h"
    using assms(1) by (auto simp: stored_with_def split: sum.splits)
  then obtain salt' where hash: "ae_salt env = Some salt'" "HashPassword (ae_idkey env) (Some salt') password = Inr h"
    by (auto simp: encrypt_and_hash_def HashPassword_def split: sum.splits option.splits)
  from eh obtain nonce where nonce: "ae_nonce env = Some nonce" "aes_key_ok (ae_EncryptionKey env)" "enc = nonce @ ae_seal env (ae_EncryptionKey env) nonce password"
    by (auto simp: encrypt_and_hash_def EncryptPassword_def split: sum.splits option.splits if_splits)
  have opened: "DecryptPassword open' enc (ae_EncryptionKey env) = Inr password"
    using assms(4,6) nonce by (simp add: DecryptPassword_def aead_ok_def Let_def)
  have found: "env_FindByName (auth_env_of env open' md5 (a, [])) (user_Name u) = Inr (User.truncate u)"
    by (simp add: auth_env_of_def find_user [OF assms(2,3)])
  have fields: "user_EncryptedPassword (User.truncate u) = Some enc" "user_HashedPassword (User.truncate u) = Some h"
    using eh by (simp_all add: User.defs)
  have envs: "env_idkey (auth_env_of env open' md5 s) = ae_idkey env" "env_open (auth_env_of env open' md5 s) = open'"
    "env_md5 (auth_env_of env open' md5 s) = md5" "env_EncryptionKey (auth_env_of env open' md5 s) = ae_EncryptionKey env" for s
    by (simp_all add: auth_env_of_def)
  show "fst (passwordAuth (auth_env_of env open' md5 (a, [])) (user_Name u) p) =
        Inr (ae_idkey env password' (the (ae_salt env)) 1 3072 4 32 = ae_idkey env password (the (ae_salt env)) 1 3072 4 32)"
    if "decode_password p = Some password'"
    using that VerifyPassword_HashPassword [OF assms(5) hash(2), of password'] hash(1)
    by (simp add: passwordAuth_def found fields envs)
  show "fst (tokenAuth (auth_env_of env open' md5 (a, [])) (user_Name u) token salt) = Inr (token = hex_EncodeToString (md5 (password @ salt)))"
    using opened by (auto simp: tokenAuth_def found fields envs Let_def)
qed

lemma created_user:
  assumes "U_Create env name password (a, []) = (None, s')" "names_unique (ta_users a)"
  shows "\<exists>a' u. s' = (a', []) \<and> names_unique (ta_users a') \<and> u \<in> set (ta_users a') \<and> user_Name u = name \<and> stored_with env password u"
proof -
  obtain enc h where eh: "encrypt_and_hash env password = Inr (enc, h)" using assms(1) by (auto simp: U_Create_def split: sum.splits)
  with assms(1) executeQuery_None have ins: "name \<notin> user_Name ` set (ta_users a)" "s' = (a\<lparr> ta_users := ta_users a @ [new_user name enc h] \<rparr>, [])"
    by (fastforce simp: U_Create_def faulty_def sql_insert_user_def new_user_def split: if_splits)+
  have "stored_with env password (new_user name enc h)" "user_Name (new_user name enc h) = name"
    by (simp_all add: stored_with_def eh new_user_def)
  with ins assms(2) show ?thesis by (auto simp: names_unique_def)
qed

definition only_password :: "string \<Rightarrow> UpdateUserParams" where
  "only_password password = \<lparr> uu_Name = NewOptionalEmpty [], uu_Password = NewOptionalFull password \<rparr>"

lemma updated_user:
  assumes "U_Update env name (only_password password) (a, []) = (None, s')" "names_unique (ta_users a)"
  shows "\<exists>a' u. s' = (a', []) \<and> names_unique (ta_users a') \<and> u \<in> set (ta_users a') \<and> user_Name u = name \<and> stored_with env password u"
proof -
  obtain enc h where eh: "encrypt_and_hash env password = Inr (enc, h)"
    using assms(1) by (auto simp: U_Update_def only_password_def NewOptionalFull_def split: sum.splits)
  let ?f = "\<lambda>u. u\<lparr> user_Name := user_Name u, user_EncryptedPassword := Some enc, user_HashedPassword := Some h \<rparr>"
  let ?us = "map (\<lambda>u. if user_Name u = name then ?f u else u) (ta_users a)"
  from assms(1) eh have run: "executeQueryExpectAffectedRows (ae_c env) (faulty (sql_update_user name (\<lambda>_. True) ?f)) (a, []) = (None, s')"
    by (simp add: U_Update_def only_password_def NewOptionalFull_def NewOptionalEmpty_def opt_set_def Let_def)
  have us: "map user_Name ?us = map user_Name (ta_users a)" by simp
  obtain v where v: "find (\<lambda>u. user_Name u = name) (ta_users a) = Some v"
    using run by (cases "find (\<lambda>u. user_Name u = name) (ta_users a)")
      (auto simp: executeQueryExpectAffectedRows_def wrapResErr_def faulty_def sql_update_user_def Let_def find_None_iff filter_empty_conv split: if_splits)
  then have in_us: "v \<in> set (ta_users a)" "user_Name v = name" by (auto simp: find_Some_iff)
  have "names_unique ?us" using assms(2) us by (simp only: names_unique_def)
  with v have "snd (sql_update_user name (\<lambda>_. True) ?f a) = cascade_name name (user_Name (?f v)) (a\<lparr> ta_users := ?us \<rparr>)"
    by (simp only: sql_update_user_def Let_def simp_thms if_False snd_conv option.case)
  moreover have "s' = (snd (sql_update_user name (\<lambda>_. True) ?f a), [])"
    using run by (auto simp: executeQueryExpectAffectedRows_def faulty_def split: prod.splits)
  ultimately have s': "s' = (cascade_name name (user_Name (?f v)) (a\<lparr> ta_users := ?us \<rparr>), [])" by simp
  have users: "ta_users (cascade_name name (user_Name (?f v)) (a\<lparr> ta_users := ?us \<rparr>)) = ?us" by (simp add: cascade_name_def)
  have "stored_with env password (?f v)" "user_Name (?f v) = name" using in_us(2) by (simp_all add: stored_with_def eh)
  moreover have "?f v \<in> set ?us" using in_us by auto
  ultimately show ?thesis unfolding s' using users \<open>names_unique ?us\<close> by (intro exI conjI) (rule refl | simp only: users)+
qed

text \<open>
  C21: a user who was created with a password, or given it, is let in by the middleware with this password and with its
  token for any salt, and refused with every other token and every password that argon2id tells apart from it, if
  AES-GCM opens what it sealed and nonces have their size.
\<close>

theorem stored_password_lets_in:
  assumes "run \<in> {U_Create env name password, U_Update env name (only_password password)}"
    and "run (a, []) = (None, s')" "names_unique (ta_users a)"
    and "aead_ok (ae_seal env) open'" "kdf_ok (ae_idkey env)" "ae_nonce env = Some nonce" "length nonce = gcm_nonce_size"
    and "decode_password p = Some password'"
  shows "fst (passwordAuth (auth_env_of env open' md5 s') name p) =
      Inr (ae_idkey env password' (the (ae_salt env)) 1 3072 4 32 = ae_idkey env password (the (ae_salt env)) 1 3072 4 32)
    \<and> fst (tokenAuth (auth_env_of env open' md5 s') name token salt) = Inr (token = hex_EncodeToString (md5 (password @ salt)))"
proof -
  from assms(1-3) created_user updated_user obtain a' u where
    "s' = (a', [])" "names_unique (ta_users a')" "u \<in> set (ta_users a')" "user_Name u = name" "stored_with env password u"
    by (metis insert_iff singletonD)
  with stored_user_let_in [OF _ _ _ assms(4,5), of password u a'] assms(6-8) show ?thesis by simp
qed

section \<open>Keys\<close>

text \<open>
  C24: a key that was created for a user stands for this user in the middleware as long as no other key has its hash,
  and once it is deleted it stands for nobody.
\<close>

theorem api_key_stands_for_user:
  assumes "U_CreateAPIKey env user name (a, []) = (Inr key, s')"
    and "HashAPIKey (ae_pbkdf2 env) key \<notin> ak_HashedValue ` set (ta_api_keys a)"
  shows "env_FindUserNameByAPIKey (auth_env_of env open' md5 s') key = Inr user
    \<and> (\<exists>e. env_FindUserNameByAPIKey (auth_env_of env open' md5 (snd (U_DeleteAPIKey env user name s'))) key = Inl e
          \<and> errors_Is e (EType ErrNotFound))"
proof -
  let ?k = "\<lparr> ak_User = user, ak_Name = name, ak_HashedValue = HashAPIKey (ae_pbkdf2 env) key, ak_Created = ae_now env \<rparr>"
  have s': "s' = (a\<lparr> ta_api_keys := ta_api_keys a @ [?k] \<rparr>, [])"
    using assms(1) by (auto simp: U_CreateAPIKey_def executeQuery_def wrapErr_def faulty_def sql_insert_key_def split: option.splits if_splits)
  have fresh: "k \<in> set (ta_api_keys a) \<Longrightarrow> ak_HashedValue k \<noteq> HashAPIKey (ae_pbkdf2 env) key" for k
    using assms(2) by (metis image_eqI)
  have "filter (\<lambda>k. ak_HashedValue k = HashAPIKey (ae_pbkdf2 env) key) (ta_api_keys a) = []"
    using filter_image_none [OF assms(2)] .
  then have "env_FindUserNameByAPIKey (auth_env_of env open' md5 s') key = Inr user"
    by (simp add: s' auth_env_of_def U_FindUserNameByAPIKey_def getQuery_row_def selectQuery_def faulty_def)
  moreover define a' where "a' = snd (U_DeleteAPIKey env user name s')"
  have "filter (\<lambda>k. ak_HashedValue k = HashAPIKey (ae_pbkdf2 env) key) (ta_api_keys (fst a')) = []" "snd a' = []"
    using fresh by (auto simp: a'_def U_DeleteAPIKey_def s' executeQueryExpectAffectedRows_def faulty_def filter_empty_conv)
  then have "env_FindUserNameByAPIKey (auth_env_of env open' md5 a') key = Inl (NewError ''expected one but found none'' ErrNotFound None)"
    by (simp add: auth_env_of_def U_FindUserNameByAPIKey_def getQuery_row_def selectQuery_def faulty_def split: prod.split)
  ultimately show ?thesis by (simp add: a'_def NewError_def)
qed

section \<open>Witnesses\<close>

definition no_accounts :: accounts where
  "no_accounts = \<lparr> ta_users = [], ta_api_keys = [], ta_lb_status = [], ta_stations = [], ta_folder_users = [], ta_system = [] \<rparr>"

definition wit_conn :: "accounts sql_conn" where
  "wit_conn = \<lparr> sc_Constraint = (\<lambda>_. None), sc_Begin = (\<lambda>_. None), sc_Commit = Inr \<rparr>"

definition wit_env :: acc_env where
  "wit_env = \<lparr> ae_conn = wit_conn, ae_now = 1, ae_new_id = ''1'', ae_EncryptionKey = replicate 32 (CHR ''k''), ae_seal = toy_seal,
     ae_nonce = Some (replicate 12 (CHR ''n'')), ae_idkey = toy_kdf, ae_salt = Some (replicate 16 (CHR ''s'')),
     ae_pbkdf2 = (\<lambda>p _ _ _. p), ae_draw = (\<lambda>k. Some k), ae_sort_stations = (\<lambda>rs. rs) \<rparr>"

definition ann_created :: acc_state where
  "ann_created = snd (U_Create wit_env ''ann'' ''secret'' (no_accounts, []))"

definition ann_key :: acc_state where
  "ann_key = snd (U_CreateAPIKey wit_env ''ann'' ''phone'' ann_created)"

lemma wit_accounts:
  "fst (U_Create wit_env ''ann'' ''secret'' (no_accounts, [])) = None" "map user_Name (ta_users (fst ann_created)) = [''ann'']"
  "snd ann_created = []" "ta_api_keys (fst ann_created) = []"
  by (simp_all add: ann_created_def U_Create_def encrypt_and_hash_def wit_env_def EncryptPassword_def aes_key_ok_def HashPassword_form
      executeQuery_def faulty_def sql_insert_user_def new_user_def no_accounts_def)

lemma wit_values:
  "accounts_wf no_accounts" "names_unique (ta_users no_accounts)" "length (replicate 12 (CHR ''n'')) = gcm_nonce_size"
  "decode_password ''Secret'' = Some ''Secret''"
  "toy_kdf ''Secret'' (replicate 16 (CHR ''s'')) 1 3072 4 32 \<noteq> toy_kdf ''secret'' (replicate 16 (CHR ''s'')) 1 3072 4 32"
  by code_simp+

lemma wit_key: "GenerateAPIKey (ae_draw wit_env) = Some ''abcde-fghij-kmnop-qrstu-vwxyz-ABCDE''"
  by (simp add: GenerateAPIKey_Some wit_env_def api_key_group_def apiKeyChars_def upt_rec)

lemma user_of_ann: "''ann'' \<in> user_Name ` set (ta_users (fst ann_created))"
  using wit_accounts(2) by (metis list.set_intros(1) list.set_map)

lemma wit_new_key: "map (\<lambda>k. (ak_User k, ak_Name k)) (ta_api_keys (fst ann_key)) = [(''ann'', ''phone'')]"
    "fst (U_CreateAPIKey wit_env ''ann'' ''phone'' ann_created) = Inr ''abcde-fghij-kmnop-qrstu-vwxyz-ABCDE''"
  using wit_accounts(3) by (simp_all add: ann_key_def U_CreateAPIKey_def wit_key executeQuery_def faulty_def sql_insert_key_def wit_accounts(4) user_of_ann)

lemma wit_ciphers: "aead_ok toy_seal toy_open" "kdf_ok toy_kdf" "keeps_on_commit wit_conn"
  by (simp_all add: aead_ok_def toy_seal_def toy_open_def toy_kdf_ok keeps_on_commit_def wit_conn_def)

lemma wit_fields: "ae_conn wit_env = wit_conn" "ae_seal wit_env = toy_seal" "ae_idkey wit_env = toy_kdf"
  "ae_nonce wit_env = Some (replicate 12 (CHR ''n''))" "ae_salt wit_env = Some (replicate 16 (CHR ''s''))"
  by (simp_all add: wit_env_def)


lemma stored_password_lets_in_witness:
  "fst (passwordAuth (auth_env_of wit_env toy_open rev ann_created) ''ann'' ''Secret'') = Inr False
    \<and> fst (tokenAuth (auth_env_of wit_env toy_open rev ann_created) ''ann'' (hex_EncodeToString (rev (''secret'' @ ''salt''))) ''salt'') = Inr True"
proof -
  have created: "U_Create wit_env ''ann'' ''secret'' (no_accounts, []) = (None, ann_created)"
    using wit_accounts(1) by (metis ann_created_def prod.collapse)
  have "aead_ok (ae_seal wit_env) toy_open" "kdf_ok (ae_idkey wit_env)" "the (ae_salt wit_env) = replicate 16 (CHR ''s'')"
    by (simp_all only: wit_fields wit_ciphers option.sel)
  with stored_password_lets_in [OF insertI1 created wit_values(2) _ _ wit_fields(4) wit_values(3,4), of toy_open]
    wit_values(5) wit_fields(3)
  show ?thesis by simp
qed

lemma api_key_stands_for_user_witness:
  "env_FindUserNameByAPIKey (auth_env_of wit_env toy_open rev ann_key) ''abcde-fghij-kmnop-qrstu-vwxyz-ABCDE'' = Inr ''ann''"
proof -
  have created: "U_CreateAPIKey wit_env ''ann'' ''phone'' (fst ann_created, []) = (Inr ''abcde-fghij-kmnop-qrstu-vwxyz-ABCDE'', ann_key)"
    using wit_accounts(3) wit_new_key(2) by (metis ann_key_def prod.collapse)
  from api_key_stands_for_user [OF this, of toy_open rev] wit_accounts(4) show ?thesis by simp
qed

end
