(* ===== verification/Spec2Isabelle.thy ===== *)
theory Spec2Isabelle
  imports Auth RepoTypes MediaRetrieval SongQueue LastFM ScanRun Annotation PlaylistHandlers
    Descriptions ScrobbleTable Accounts
begin

text \<open>
  A verification library for crossonic-server, a music server written in Go that speaks the Subsonic
  protocol.

  THE PROGRAM. An HTTP server (package \<open>handlers\<close>) authenticates requests, reads their parameters
  and answers from a PostgreSQL database (\<open>repos\<close>), from the music files, and from two on-disk caches
  (\<open>cache\<close>) of transcodes made by ffmpeg (\<open>ffmpeg\<close>) and of scaled cover images. A scanner (\<open>scanner\<close>)
  walks the music directories, reads tags and brings the database up to date; \<open>lastfm\<close> and
  \<open>listenbrainz\<close> are clients of web services. Identifiers of songs, albums and artists
  (\<open>crossonic.go\<close>) tie the parts together.

  HOW IT IS MODELLED. A Go struct is a record with the fields of the source, a pointer that may be nil
  an option, an error a value of the type \<open>go_error\<close>, a function that may fail one that returns a sum.
  Machine integers are words or integers with the wrap-around written out (\<open>wrap64\<close>, \<open>in_range\<close>), strings
  are lists of bytes. State is passed explicitly; where the code shares a mutable value by pointer there
  is a heap (the objects of the cache), a pair of name and index (artists and albums of a scan) or an
  index into one list (the songs of a batch). Mutual exclusion by locks makes each operation atomic;
  what may happen between two of them is an argument or a list of events. Packages outside the
  repository, the database, the file system's faults, time and randomness are arguments; hypotheses on
  them are stated where they are used. Map iteration order and directory listings are arguments too.

  THE THEORIES, in the order of the code's layers:

  \<open>GoPrelude\<close>: Go's strings, numbers and result types; splitting, parsing and printing of numbers,
  trimming, and the facts about them that all others share.
  \<open>NetURL\<close>, \<open>Base64\<close>: escaping of path elements and the base64 encoding of Go's library, with their
  round trips.
  \<open>Ids\<close> (\<open>crossonic.go\<close>): identifiers, their generation, recognition and types.
  \<open>RepoTypes\<close>, \<open>RepoHelpers\<close>, \<open>RepoErrors\<close> (\<open>repos/types.go\<close>, \<open>helpers.go\<close>, \<open>errors.go\<close>): dates,
  durations and string lists with their database encoding; paging, password encryption and hashing and
  API keys; error kinds and \<open>errors.Is\<close>.
  \<open>Responses\<close>, \<open>Query\<close> (\<open>handlers/responses/errors.go\<close>, \<open>handlers/helpers.go\<close>, \<open>handlers/query.go\<close>): error
  responses and the accessors of request parameters. The locale \<open>accessor\<close> is the contract of an
  accessor (silent success or exactly one error); every accessor is shown to satisfy it.
  \<open>Auth\<close> (\<open>handlers/middlewares.go\<close>, \<open>handler.go\<close>): authentication by API key, password and token, and
  the limiter of failed attempts. Its theorems say who is let through, that no user has more than three
  failed checks in five seconds, and that a limited user's credentials are not looked at.
  \<open>CacheObject\<close>, \<open>Cache\<close>, \<open>CacheDisk\<close> (\<open>cache/object.go\<close>, \<open>reader.go\<close>, \<open>cache.go\<close>): objects that are read
  while they are written, the table of objects with its eviction, and the files behind it. The file
  system is a map from paths to inodes with their contents. The theorems cover streaming readers, lost
  wake-ups, reader counts, what cleaning may drop, the agreement of table and directory in every
  reachable state, and that a restart finds exactly the complete objects.
  \<open>ObjectStore\<close>: the locale \<open>object_store\<close> with the laws the media handlers rely on, its lemmas about
  obtaining and abandoning objects, and its interpretation by the cache.
  \<open>Transcode\<close> (\<open>ffmpeg/transcode.go\<close>): formats, bit rates and command lines.
  \<open>Lyrics\<close> (\<open>handlers/responses/lyrics.go\<close>): UTF-8 runes, the LRC parser and the removal of metadata,
  with the round trip of synchronised lyrics.
  \<open>MediaRetrieval\<close> (\<open>handlers/subsonic_mediaretrieval.go\<close>): streaming, downloads, lyrics and cover art on top
  of the cache, the transcoder and the query accessors. A request that starts a transcode returns the
  job; \<open>stream_onDone\<close> is what happens when the job ends.
  \<open>ArtistMap\<close>, \<open>AlbumMap\<close>, \<open>SongQueue\<close> (\<open>scanner/artist_map.go\<close>, \<open>album_map.go\<close>, \<open>song_queue.go\<close>): the
  artists and albums a scan knows, the rule by which files are sorted into albums, and the storing of
  scanned files in batches.
  \<open>Config\<close> (\<open>config/config.go\<close>, \<open>config/music_dirs.go\<close>, \<open>scanner/music_dirs.go\<close>): the configuration from
  environment variables, the checks of the music directories and their transfer to the database.
  \<open>TagReader\<close> (\<open>scanner/scan.go\<close>, \<open>scanner/lyrics.go\<close>, \<open>audiotags/audiotags.go\<close>): from a file and its
  tags to the description that is queued, and when an unchanged file is passed over.
  \<open>DirWalk\<close> (\<open>scanner/scan.go\<close>): the walk over directory trees, given as a datatype, against the list of
  visible directories; covers beside the music and the files of a directory.
  \<open>ScanClean\<close> (\<open>scanner/clean.go\<close>): the deletion of songs whose files are gone, and of what they leave.
  \<open>ScanCovers\<close> (\<open>scanner/cover.go\<close>, \<open>artist_images.go\<close>): cover files and the cache of scaled covers.
  \<open>ScanRun\<close> (\<open>scanner/scan.go\<close>): a scan as a list of steps on the scanner and one transaction; it returns,
  and it either commits everything or changes nothing.
  \<open>LastFM\<close> (\<open>lastfm/lastfm.go\<close>): requests that are repeated while the service is rate limited, look-ups
  and the clean-up of descriptions.
  \<open>PgDB\<close> (\<open>repos/postgres/db.go\<close>, \<open>helpers.go\<close>, \<open>errors.go\<close>): transactions, batches, the execution of
  statements and the kinds of their errors.
  \<open>Playlists\<close> (\<open>repos/postgres/playlist.go\<close>), \<open>Requests\<close>, \<open>PlaylistHandlers\<close>
  (\<open>handlers/subsonic_playlists.go\<close>, \<open>crossonic_playlists.go\<close>): the tables of playlists with their deferrable key,
  the statements on them, and the requests with their transactions and cover files.
  \<open>ListenBrainz\<close>, \<open>LbFeedback\<close> (\<open>listenbrainz/listenbrainz.go\<close>): submissions, listens that wait, and the
  synchronisation of stars with the service.
  \<open>Annotation\<close> (\<open>handlers/subsonic_mediaannotation.go\<close>): scrobbles, ratings and stars over parameters for the
  repositories and the service.
  \<open>Entities\<close>, \<open>Catalogue\<close>, \<open>AlbumQueries\<close> (\<open>repos/song.go\<close>, \<open>album.go\<close>, \<open>artist.go\<close>, \<open>genre.go\<close>,
  \<open>musicfolder.go\<close> and the files of the same names in \<open>repos/postgres\<close>; \<open>handlers/responses\<close>): the library as
  tables, the queries on it and what responses copy of their rows. A statement is a function on the tables; its
  order and averages are arguments, and so is the fault it may end with. \<open>QueryFacts\<close> has the facts about rows
  that clients share, the folders a request may use and the pages of a list.
  \<open>BrowseHandlers\<close>, \<open>ListHandlers\<close> (\<open>handlers/subsonic_browsing.go\<close>, \<open>crossonic_browsing.go\<close>,
  \<open>subsonic_lists.go\<close>, \<open>crossonic_lists.go\<close>, \<open>subsonic_search.go\<close>, \<open>crossonic_recap.go\<close>): the requests that read
  the library. \<open>Visibility\<close> shows, through the locale \<open>folder_query\<close> that every query with a folder condition
  is an instance of, that a user sees nothing of the folders of others, and what the index of artists holds;
  \<open>Descriptions\<close> has the answers and the descriptions from last.fm.
  \<open>ScrobbleRepo\<close>, \<open>ScrobbleTable\<close> (\<open>repos/postgres/scrobble.go\<close>): the statements on scrobbles, their key, and
  what waits for a submission.
  \<open>Accounts\<close> (\<open>repos/postgres/user.go\<close>, \<open>internetradiostation.go\<close>, \<open>system.go\<close>): users, keys, stations and system
  values; in every reachable state keys are unique and references lead to users, and what is stored is what the
  middleware of \<open>Auth\<close> accepts.

  CONVENTIONS OF THE DATABASE. A transaction works on a pair of the tables and what is outside of them; when it
  fails the tables are those of its beginning and the rest is as the function left it. Faults are a list, one entry
  for each statement to come, or a function of the name of the statement. Texts of errors are those of the code
  without appended numbers.

  BOUNDS. Loops are structural recursions or functions with a measure. Some computations may not end:
  a reader that waits for data (\<open>waitForData\<close>), which consumes the list of its wake-ups and is undefined
  when the list ends while it would go on waiting, and, as partial functions, requests to last.fm and ListenBrainz
  (\<open>lastFMRequest\<close>, \<open>listenBrainzRequest\<close>), the deletion of songs without files
  (\<open>deleteOrphanedSongsByPath\<close>) and the pages of feedback (\<open>collect_pages\<close>); the theorems
  \<open>streaming_reader\<close>, \<open>no_lost_wakeup\<close>, \<open>lastFM_request_returns\<close>, \<open>orphans_deleted_exactly\<close> and
  \<open>sync_returns\<close> say when they return. No fuel is used. The round trip of lyrics is stated for times below 1000
  minutes and lines that fit the 64 kB buffer of the scanner; paths of the cache for keys that name a file of
  their own (\<open>good_key\<close>).

  NOT MODELLED. Statements of \<open>repos/postgres\<close> that only the scanner and the annotations use, which are parameters
  of their models; the list of all playlists; the tag library, the encoding of responses as XML and JSON, the
  goroutine that repeats the synchronisations, and the command line tools. Logging, closing of files that are only
  read, and the dummy computations of the password check against timing attacks have no effect in the model.
\<close>

end
